(* ===== verification/Rc_Prelude.thy ===== *)
theory Rc_Prelude
  imports
    Main
    "HOL-Library.Word"
    "HOL-Library.List_Lexorder"
    "HOL-Library.Product_Lexorder"
    "HOL-Library.Option_ord"
begin

text \<open>
  Shared types, string functions and generic lemmas of the development.

  Rust's \<^verbatim>\<open>String\<close> is a sequence of Unicode scalar values. It is modelled as the list of its
  code points (\<open>rstring\<close>): the lexicographic order on code points is the order Rust gives
  strings, since UTF-8 preserves it, and \<^verbatim>\<open>chars()\<close>, \<^verbatim>\<open>trim()\<close> and \<^verbatim>\<open>is_control()\<close> are functions of
  code points. Identifiers of the \<^verbatim>\<open>uuid\<close> crate are 128-bit words, ordered as Rust orders their
  bytes. Instants of the \<^verbatim>\<open>chrono\<close> crate are integers counting nanoseconds.
\<close>

named_theorems registry_simps \<open>definitions unfolded when a registry operation is analysed\<close>
named_theorems inv_intros \<open>preservation of the registry invariant, one rule per operation\<close>

type_synonym rchar = nat
type_synonym rstring = "rchar list"
type_synonym uuid = "128 word"
type_synonym u64 = "64 word"
type_synonym u32 = "32 word"
type_synonym instant = int

section \<open>Strings\<close>

definition str :: "string \<Rightarrow> rstring" where
  "str s = map of_char s"

text \<open>The code points with the Unicode property \<^verbatim>\<open>White_Space\<close>, which \<^verbatim>\<open>str::trim\<close> removes.\<close>

definition is_whitespace :: "rchar \<Rightarrow> bool" where
  "is_whitespace c \<longleftrightarrow>
     (9 \<le> c \<and> c \<le> 13) \<or> c = 32 \<or> c = 133 \<or> c = 160 \<or> c = 5760 \<or> (8192 \<le> c \<and> c \<le> 8202)
     \<or> c = 8232 \<or> c = 8233 \<or> c = 8239 \<or> c = 8287 \<or> c = 12288"

text \<open>General category \<^verbatim>\<open>Cc\<close>, the test of \<^verbatim>\<open>char::is_control\<close>.\<close>

definition is_control :: "rchar \<Rightarrow> bool" where
  "is_control c \<longleftrightarrow> c \<le> 31 \<or> (127 \<le> c \<and> c \<le> 159)"

definition trim_start_by :: "(rchar \<Rightarrow> bool) \<Rightarrow> rstring \<Rightarrow> rstring" where
  "trim_start_by P s = dropWhile P s"

definition trim_end_by :: "(rchar \<Rightarrow> bool) \<Rightarrow> rstring \<Rightarrow> rstring" where
  "trim_end_by P s = rev (dropWhile P (rev s))"

definition trim :: "rstring \<Rightarrow> rstring" where
  "trim s = trim_end_by is_whitespace (trim_start_by is_whitespace s)"

definition ascii_upper :: "rchar \<Rightarrow> rchar" where
  "ascii_upper c = (if 97 \<le> c \<and> c \<le> 122 then c - 32 else c)"

definition ascii_lower :: "rchar \<Rightarrow> rchar" where
  "ascii_lower c = (if 65 \<le> c \<and> c \<le> 90 then c + 32 else c)"

definition eq_ignore_ascii_case :: "rstring \<Rightarrow> rstring \<Rightarrow> bool" where
  "eq_ignore_ascii_case a b \<longleftrightarrow> map ascii_lower a = map ascii_lower b"

definition starts_with :: "rstring \<Rightarrow> rstring \<Rightarrow> bool" where
  "starts_with s p \<longleftrightarrow> take (length p) s = p"

definition ends_with :: "rstring \<Rightarrow> rstring \<Rightarrow> bool" where
  "ends_with s p \<longleftrightarrow> length p \<le> length s \<and> drop (length s - length p) s = p"

fun contains_str :: "rstring \<Rightarrow> rstring \<Rightarrow> bool" where
  "contains_str [] p \<longleftrightarrow> p = []"
| "contains_str (c # s) p \<longleftrightarrow> starts_with (c # s) p \<or> contains_str s p"

text \<open>\<^verbatim>\<open>str::split\<close> on one character: never empty, the separators removed.\<close>

fun split_on :: "rchar \<Rightarrow> rstring \<Rightarrow> rstring list" where
  "split_on d [] = [[]]"
| "split_on d (c # s) =
     (if c = d then [] # split_on d s
      else case split_on d s of [] \<Rightarrow> [[c]] | p # ps \<Rightarrow> (c # p) # ps)"

text \<open>\<^verbatim>\<open>str::rsplit_once\<close>: the parts before and after the last separator.\<close>

definition rsplit_once :: "rchar \<Rightarrow> rstring \<Rightarrow> (rstring \<times> rstring) option" where
  "rsplit_once d s =
     (if d \<in> set s
      then Some (rev (tl (dropWhile (\<lambda>c. c \<noteq> d) (rev s))), rev (takeWhile (\<lambda>c. c \<noteq> d) (rev s)))
      else None)"

definition hex_digit :: "nat \<Rightarrow> rchar" where
  "hex_digit n = (if n < 10 then 48 + n else 87 + n)"

fun hex_of_nat :: "nat \<Rightarrow> nat \<Rightarrow> rstring" where
  "hex_of_nat 0 n = []"
| "hex_of_nat (Suc w) n = hex_of_nat w (n div 16) @ [hex_digit (n mod 16)]"

text \<open>\<^verbatim>\<open>Uuid::simple\<close>: 32 lower-case hexadecimal digits.\<close>

definition uuid_simple :: "uuid \<Rightarrow> rstring" where
  "uuid_simple u = hex_of_nat 32 (unat u)"

lemma set_trim_end_by: "set (trim_end_by P s) \<subseteq> set s"
  using set_dropWhileD by (fastforce simp: trim_end_by_def)

lemma set_trim_start_by: "set (trim_start_by P s) \<subseteq> set s"
  using set_dropWhileD by (fastforce simp: trim_start_by_def)

lemma set_trim: "set (trim s) \<subseteq> set s"
  using set_trim_end_by set_trim_start_by unfolding trim_def by blast

lemma last_trim_end_by: "trim_end_by P s \<noteq> [] \<Longrightarrow> \<not> P (last (trim_end_by P s))"
  unfolding trim_end_by_def by (metis hd_dropWhile last_rev rev_is_Nil_conv)

lemma trim_end_by_Nil_iff: "trim_end_by P s = [] \<longleftrightarrow> (\<forall>c \<in> set s. P c)"
  by (simp add: trim_end_by_def dropWhile_eq_Nil_conv)

lemma trim_end_by_id: "s = [] \<or> \<not> P (last s) \<Longrightarrow> trim_end_by P s = s"
  by (cases s rule: rev_cases) (auto simp: trim_end_by_def)

lemma trim_end_by_idem [simp]: "trim_end_by P (trim_end_by P s) = trim_end_by P s"
  using trim_end_by_id last_trim_end_by by blast

lemma length_hex_of_nat [simp]: "length (hex_of_nat w n) = w"
  by (induction w arbitrary: n) auto

lemma trim_Nil_iff: "trim s = [] \<longleftrightarrow> (\<forall>c \<in> set s. is_whitespace c)"
proof -
  have "\<not> is_whitespace (hd (dropWhile is_whitespace s))" if "dropWhile is_whitespace s \<noteq> []"
    using hd_dropWhile [OF that] .
  then show ?thesis
    by (auto simp: trim_def trim_end_by_Nil_iff trim_start_by_def dropWhile_eq_Nil_conv
        dest: set_dropWhileD) (metis dropWhile_eq_Nil_conv hd_in_set)
qed

lemma trim_end_by_append: "\<exists>t. s = trim_end_by P s @ t"
  unfolding trim_end_by_def by (metis rev_append rev_rev_ident takeWhile_dropWhile_id)

lemma hd_trim:
  assumes "trim s \<noteq> []" shows "\<not> is_whitespace (hd (trim s))"
proof -
  obtain t where "dropWhile is_whitespace s = trim s @ t"
    using trim_end_by_append unfolding trim_def trim_start_by_def by blast
  with assms show ?thesis by (metis append_is_Nil_conv hd_append2 hd_dropWhile)
qed

lemma trim_id: "\<forall>c \<in> set s. \<not> is_whitespace c \<Longrightarrow> trim s = s"
  by (cases s) (auto simp: trim_def trim_start_by_def intro!: trim_end_by_id split: if_splits)

lemma trim_take_trim:
  assumes "trim s \<noteq> []" "0 < n" shows "trim (take n (trim s)) \<noteq> []"
proof -
  have "hd (trim s) \<in> set (take n (trim s))" using assms by (cases "trim s"; cases n) auto
  with hd_trim [OF assms(1)] show ?thesis by (auto simp: trim_Nil_iff)
qed

lemma hex_of_nat_not_whitespace: "c \<in> set (hex_of_nat w n) \<Longrightarrow> \<not> is_whitespace c"
proof (induction w arbitrary: n)
  case (Suc w)
  have "n mod 16 < 16" by simp
  then have "\<not> is_whitespace (hex_digit (n mod 16))"
    by (auto simp: hex_digit_def is_whitespace_def)
  with Suc show ?case by auto
qed simp

section \<open>Iterators\<close>

text \<open>\<^verbatim>\<open>Iterator::min_by_key\<close> returns the first of the elements with the least key.\<close>

fun min_by_key :: "('a \<Rightarrow> 'k::linorder) \<Rightarrow> 'a list \<Rightarrow> 'a option" where
  "min_by_key f [] = None"
| "min_by_key f (x # xs) =
     (case min_by_key f xs of None \<Rightarrow> Some x | Some y \<Rightarrow> if f x \<le> f y then Some x else Some y)"

lemma min_by_key_None_iff [simp]: "min_by_key f xs = None \<longleftrightarrow> xs = []"
  by (cases xs) (auto split: option.splits)

lemma min_by_key_least:
  "min_by_key f xs = Some y \<Longrightarrow> y \<in> set xs \<and> (\<forall>x \<in> set xs. f y \<le> f x)"
proof (induction xs arbitrary: y)
  case Nil
  then show ?case by simp
next
  case (Cons a xs)
  show ?case
  proof (cases "min_by_key f xs")
    case None
    with Cons.prems show ?thesis by simp
  next
    case (Some z)
    with Cons.IH have "z \<in> set xs \<and> (\<forall>x \<in> set xs. f z \<le> f x)" by blast
    with Cons.prems Some show ?thesis
      by (auto split: if_splits intro: order_trans)
  qed
qed

lemma min_by_key_ex: "xs \<noteq> [] \<Longrightarrow> \<exists>y. min_by_key f xs = Some y"
  using min_by_key_None_iff [of f xs] by (cases "min_by_key f xs") auto

text \<open>\<^verbatim>\<open>Iterator::find\<close>, \<^verbatim>\<open>filter_map\<close>.\<close>

lemma find_Some_D: "find P xs = Some x \<Longrightarrow> x \<in> set xs \<and> P x"
  by (auto simp: find_Some_iff)

lemma find_None_D: "find P xs = None \<Longrightarrow> x \<in> set xs \<Longrightarrow> \<not> P x"
  by (auto simp: find_None_iff)

definition filter_map :: "('a \<Rightarrow> 'b option) \<Rightarrow> 'a list \<Rightarrow> 'b list" where
  "filter_map f xs = List.map_filter f xs"

lemma set_filter_map: "y \<in> set (filter_map f xs) \<longleftrightarrow> (\<exists>x \<in> set xs. f x = Some y)"
  by (induction xs) (auto simp: filter_map_def map_filter_simps split: option.splits)

section \<open>Options, results and time\<close>

text \<open>\<^verbatim>\<open>Option::is_none_or\<close>, \<^verbatim>\<open>Option::is_some_and\<close>, \<^verbatim>\<open>Option::unwrap_or\<close>.\<close>

definition is_none_or :: "('a \<Rightarrow> bool) \<Rightarrow> 'a option \<Rightarrow> bool" where
  "is_none_or P x = (case x of None \<Rightarrow> True | Some v \<Rightarrow> P v)"

definition is_some_and :: "('a \<Rightarrow> bool) \<Rightarrow> 'a option \<Rightarrow> bool" where
  "is_some_and P x = (case x of None \<Rightarrow> False | Some v \<Rightarrow> P v)"

definition unwrap_or :: "'a \<Rightarrow> 'a option \<Rightarrow> 'a" where
  "unwrap_or d x = (case x of None \<Rightarrow> d | Some v \<Rightarrow> v)"

lemma is_none_or_simps [simp]:
  "is_none_or P None" "is_none_or P (Some v) = P v"
  by (simp_all add: is_none_or_def)

lemma is_some_and_simps [simp]:
  "\<not> is_some_and P None" "is_some_and P (Some v) = P v"
  by (simp_all add: is_some_and_def)

lemma unwrap_or_simps [simp]:
  "unwrap_or d None = d" "unwrap_or d (Some v) = v"
  by (simp_all add: unwrap_or_def)

lemma is_some_and_iff: "is_some_and P x \<longleftrightarrow> (\<exists>v. x = Some v \<and> P v)"
  by (cases x) auto

definition bind_result :: "'e + 'a \<Rightarrow> ('a \<Rightarrow> 'e + 'b) \<Rightarrow> 'e + 'b" where
  "bind_result r f = (case r of Inl e \<Rightarrow> Inl e | Inr a \<Rightarrow> f a)"

lemma bind_result_simps [simp]:
  "bind_result (Inl e) f = Inl e" "bind_result (Inr a) f = f a"
  by (simp_all add: bind_result_def)

lemma bind_result_Inr_iff: "bind_result r f = Inr b \<longleftrightarrow> (\<exists>a. r = Inr a \<and> f a = Inr b)"
  by (cases r) auto

definition is_ok :: "'e + 'a \<Rightarrow> bool" where
  "is_ok r = (case r of Inl _ \<Rightarrow> False | Inr _ \<Rightarrow> True)"

lemma is_ok_simps [simp]: "\<not> is_ok (Inl e)" "is_ok (Inr a)"
  by (simp_all add: is_ok_def)

text \<open>\<^verbatim>\<open>Duration::seconds\<close> and \<^verbatim>\<open>Duration::minutes\<close> in nanoseconds.\<close>

definition seconds :: "int \<Rightarrow> int" where
  "seconds n = n * 1000000000"

definition minutes :: "int \<Rightarrow> int" where
  "minutes n = seconds (60 * n)"

lemma seconds_mono [simp]: "seconds a \<le> seconds b \<longleftrightarrow> a \<le> b"
  by (simp add: seconds_def)

lemma minutes_pos [simp]: "0 < minutes n \<longleftrightarrow> 0 < n"
  by (simp add: minutes_def seconds_def)

definition clamp_nat :: "nat \<Rightarrow> nat \<Rightarrow> nat \<Rightarrow> nat" where
  "clamp_nat lo hi n = max lo (min hi n)"

lemma clamp_nat_bounds: "lo \<le> hi \<Longrightarrow> lo \<le> clamp_nat lo hi n \<and> clamp_nat lo hi n \<le> hi"
  by (simp add: clamp_nat_def)

section \<open>Systems of atomic steps\<close>

text \<open>
  Every shared structure of the program sits behind a lock, so its behaviour is the sequence of
  the sections executed under that lock. A system is a start predicate and a step relation; what
  holds at the start and is kept by every step holds in every reachable state.
\<close>

inductive reachable :: "('s \<Rightarrow> bool) \<Rightarrow> ('s \<Rightarrow> 's \<Rightarrow> bool) \<Rightarrow> 's \<Rightarrow> bool"
  for start step where
  reach_start: "start s \<Longrightarrow> reachable start step s"
| reach_step: "reachable start step s \<Longrightarrow> step s t \<Longrightarrow> reachable start step t"

locale locked_system =
  fixes start :: "'s \<Rightarrow> bool"
    and step :: "'s \<Rightarrow> 's \<Rightarrow> bool"
    and inv :: "'s \<Rightarrow> bool"
  assumes inv_start: "start s \<Longrightarrow> inv s"
    and inv_step: "inv s \<Longrightarrow> step s t \<Longrightarrow> inv t"
begin

lemma inv_reachable: "reachable start step s \<Longrightarrow> inv s"
  by (induction rule: reachable.induct) (auto intro: inv_start inv_step)

lemma inv_steps: "step\<^sup>*\<^sup>* s t \<Longrightarrow> inv s \<Longrightarrow> inv t"
  by (induction rule: rtranclp.induct) (auto intro: inv_step)

end

section \<open>Bounded first-in first-out buffers\<close>

text \<open>
  The command queue of a runner and the timeline history both push at the back and then pop from
  the front while the buffer is longer than its limit.
\<close>

fun drop_front :: "nat \<Rightarrow> 'a list \<Rightarrow> 'a list" where
  "drop_front limit [] = []"
| "drop_front limit (x # xs) = (if limit < length (x # xs) then drop_front limit xs else x # xs)"

definition push_bounded :: "nat \<Rightarrow> 'a \<Rightarrow> 'a list \<Rightarrow> 'a list" where
  "push_bounded limit x q = drop_front limit (q @ [x])"

lemma drop_front_eq: "drop_front limit xs = drop (length xs - limit) xs"
  by (induction xs) (auto simp: Suc_diff_le not_less)

lemma length_drop_front: "length (drop_front limit xs) = min limit (length xs)"
  by (simp add: drop_front_eq)

lemma push_bounded_eq: "push_bounded limit x q = drop (Suc (length q) - limit) (q @ [x])"
  by (simp add: push_bounded_def drop_front_eq)

lemma length_push_bounded: "length (push_bounded limit x q) = min limit (Suc (length q))"
  by (simp add: push_bounded_def length_drop_front)

lemma push_bounded_room: "length q < limit \<Longrightarrow> push_bounded limit x q = q @ [x]"
  by (simp add: push_bounded_eq)

lemma push_bounded_full:
  "length q = limit \<Longrightarrow> 0 < limit \<Longrightarrow> push_bounded limit x q = tl q @ [x]"
  by (cases q) (simp_all add: push_bounded_eq)

lemma set_push_bounded: "set (push_bounded limit x q) \<subseteq> insert x (set q)"
  using set_drop_subset [of "Suc (length q) - limit" "q @ [x]"] by (auto simp: push_bounded_eq)

text \<open>
  A component that keeps such a buffer: what it holds after a run of pushes is the longest suffix of
  everything pushed that fits.
\<close>

locale bounded_log =
  fixes contents :: "'s \<Rightarrow> 'x list"
    and push :: "'e \<Rightarrow> 's \<Rightarrow> 's"
    and entry :: "'e \<Rightarrow> 'x"
    and limit :: nat
    and ok :: "'s \<Rightarrow> bool"
  assumes push_contents: "ok s \<Longrightarrow> contents (push e s) = push_bounded limit (entry e) (contents s)"
    and push_ok: "ok s \<Longrightarrow> ok (push e s)"
begin

lemma pushes_contents:
  "ok s \<Longrightarrow> length (contents s) \<le> limit \<Longrightarrow>
   contents (fold push es s) = drop (length (contents s) + length es - limit) (contents s @ map entry es)"
proof (induction es arbitrary: s)
  case (Cons e es)
  have IH: "contents (fold push es (push e s)) =
      drop (length (contents (push e s)) + length es - limit) (contents (push e s) @ map entry es)"
    using Cons by (simp add: push_ok push_contents length_push_bounded)
  have c: "contents (push e s) = drop (Suc (length (contents s)) - limit) (contents s @ [entry e])"
    using Cons.prems by (simp add: push_contents push_bounded_eq)
  then have len: "length (contents (push e s)) = min limit (Suc (length (contents s)))"
    using Cons.prems by (simp add: push_contents length_push_bounded)
  show ?case
  proof (cases "length (contents s) < limit")
    case True
    with IH c len show ?thesis by simp
  next
    case False
    with Cons.prems have full: "length (contents s) = limit" by simp
    with IH c len show ?thesis by (cases "contents s") (auto simp: drop_Cons' Suc_diff_le)
  qed
qed simp

lemma pushes_ok: "ok s \<Longrightarrow> ok (fold push es s)"
  by (induction es arbitrary: s) (simp_all add: push_ok)

lemma pushes_fit:
  "ok s \<Longrightarrow> length (contents s) + length es \<le> limit \<Longrightarrow> contents (fold push es s) = contents s @ map entry es"
  by (simp add: pushes_contents)

end

end
