(* ===== verification/Btree_Map.thy ===== *)
theory Btree_Map
  imports Rc_Prelude
begin

text \<open>
  Rust's \<^verbatim>\<open>BTreeMap\<close>: a finite map whose iterators visit the keys in increasing order. The type
  carries the ordering invariant, so that the operations of the model never have to assume it.
  \<^verbatim>\<open>HashMap\<close> fields use the same type: the program only looks keys up in them, inserts, removes and
  counts, none of which depends on the order of iteration.
\<close>

typedef (overloaded) ('k::linorder, 'v) btree =
  "{xs :: ('k \<times> 'v) list. sorted_wrt (<) (map fst xs)}"
  morphisms entries Btree
  by (rule exI [of _ "[]"]) simp

setup_lifting type_definition_btree

fun alist_insert :: "'k::linorder \<Rightarrow> 'v \<Rightarrow> ('k \<times> 'v) list \<Rightarrow> ('k \<times> 'v) list" where
  "alist_insert k v [] = [(k, v)]"
| "alist_insert k v ((k', v') # xs) =
     (if k < k' then (k, v) # (k', v') # xs
      else if k = k' then (k, v) # xs else (k', v') # alist_insert k v xs)"

lemma fst_set_alist_insert: "fst ` set (alist_insert k v xs) = insert k (fst ` set xs)"
  by (induction k v xs rule: alist_insert.induct) auto

lemma sorted_alist_insert:
  "sorted_wrt (<) (map fst xs) \<Longrightarrow> sorted_wrt (<) (map fst (alist_insert k v xs))"
proof (induction k v xs rule: alist_insert.induct)
  case (1 k v)
  then show ?case by simp
next
  case (2 k v k' v' xs)
  have "\<forall>y \<in> fst ` set (alist_insert k v xs). k' < y" if "k' < k"
    using 2(2) that by (simp add: fst_set_alist_insert)
  with 2 show ?case by auto
qed

lemma map_of_alist_insert: "map_of (alist_insert k v xs) = (map_of xs)(k \<mapsto> v)"
  by (induction k v xs rule: alist_insert.induct) auto

lemma sorted_wrt_filter_fst:
  "sorted_wrt (<) (map fst xs) \<Longrightarrow> sorted_wrt (<) (map fst (filter P xs))"
  by (induction xs) auto

lift_definition bm_empty :: "('k::linorder, 'v) btree" is "[]" by simp

lift_definition bm_insert :: "'k::linorder \<Rightarrow> 'v \<Rightarrow> ('k, 'v) btree \<Rightarrow> ('k, 'v) btree"
  is alist_insert by (rule sorted_alist_insert)

lift_definition bm_remove :: "'k::linorder \<Rightarrow> ('k, 'v) btree \<Rightarrow> ('k, 'v) btree"
  is "\<lambda>k. filter (\<lambda>e. fst e \<noteq> k)" by (rule sorted_wrt_filter_fst)

lift_definition bm_retain :: "('k::linorder \<Rightarrow> 'v \<Rightarrow> bool) \<Rightarrow> ('k, 'v) btree \<Rightarrow> ('k, 'v) btree"
  is "\<lambda>P. filter (\<lambda>e. P (fst e) (snd e))" by (rule sorted_wrt_filter_fst)

lift_definition bm_map :: "('k::linorder \<Rightarrow> 'v \<Rightarrow> 'w) \<Rightarrow> ('k, 'v) btree \<Rightarrow> ('k, 'w) btree"
  is "\<lambda>f. map (\<lambda>e. (fst e, f (fst e) (snd e)))" by (simp add: comp_def)

definition bm_get :: "('k::linorder, 'v) btree \<Rightarrow> 'k \<Rightarrow> 'v option" where
  "bm_get m k = map_of (entries m) k"

definition bm_contains :: "('k::linorder, 'v) btree \<Rightarrow> 'k \<Rightarrow> bool" where
  "bm_contains m k \<longleftrightarrow> bm_get m k \<noteq> None"

definition bm_values :: "('k::linorder, 'v) btree \<Rightarrow> 'v list" where
  "bm_values m = map snd (entries m)"

definition bm_len :: "('k::linorder, 'v) btree \<Rightarrow> nat" where
  "bm_len m = length (entries m)"

text \<open>\<^verbatim>\<open>get_mut\<close> followed by an assignment through the reference.\<close>

definition bm_update :: "'k::linorder \<Rightarrow> ('v \<Rightarrow> 'v) \<Rightarrow> ('k, 'v) btree \<Rightarrow> ('k, 'v) btree" where
  "bm_update k f m = (case bm_get m k of None \<Rightarrow> m | Some v \<Rightarrow> bm_insert k (f v) m)"

text \<open>\<^verbatim>\<open>extend\<close>: insert every entry of the second map, in its order.\<close>

definition bm_extend :: "('k::linorder, 'v) btree \<Rightarrow> ('k, 'v) btree \<Rightarrow> ('k, 'v) btree" where
  "bm_extend m n = fold (\<lambda>e. bm_insert (fst e) (snd e)) (entries n) m"

lemmas entries_simps [simp] =
  bm_empty.rep_eq bm_insert.rep_eq bm_remove.rep_eq bm_retain.rep_eq bm_map.rep_eq

lemma entries_sorted: "sorted_wrt (<) (map fst (entries m))"
  using entries [of m] by simp

lemma distinct_keys: "distinct (map fst (entries m))"
  using entries_sorted strict_sorted_iff by blast

section \<open>Lookup laws\<close>

lemma bm_get_empty [simp]: "bm_get bm_empty k = None"
  by (simp add: bm_get_def)

lemma bm_get_insert [simp]: "bm_get (bm_insert k v m) k' = (if k' = k then Some v else bm_get m k')"
  by (simp add: bm_get_def map_of_alist_insert)

lemma in_entries_iff: "(k, v) \<in> set (entries m) \<longleftrightarrow> bm_get m k = Some v"
  by (simp add: bm_get_def distinct_keys)

lemma map_of_filter_key:
  assumes "distinct (map fst es)"
  shows "map_of (filter keep es) q = Option.bind (map_of es q) (\<lambda>w. if keep (q, w) then Some w else None)"
  using assms by (induction es) (auto simp: map_of_eq_None_iff split: bind_splits)

lemma bm_get_remove [simp]: "bm_get (bm_remove k m) k' = (if k' = k then None else bm_get m k')"
  by (cases "map_of (entries m) k'") (simp_all add: bm_get_def map_of_filter_key distinct_keys)

lemma bm_get_retain:
  "bm_get (bm_retain P m) k =
   (case bm_get m k of None \<Rightarrow> None | Some v \<Rightarrow> if P k v then Some v else None)"
  by (cases "map_of (entries m) k") (simp_all add: bm_get_def map_of_filter_key distinct_keys)

lemma bm_get_map [simp]: "bm_get (bm_map f m) k = map_option (f k) (bm_get m k)"
proof -
  have "map_of (map (\<lambda>e. (fst e, f (fst e) (snd e))) xs) k = map_option (f k) (map_of xs k)" for xs
    by (induction xs) auto
  then show ?thesis by (simp add: bm_get_def)
qed

lemma bm_get_update [simp]:
  "bm_get (bm_update k f m) k' = (if k' = k then map_option f (bm_get m k) else bm_get m k')"
  by (simp add: bm_update_def split: option.splits)

lemma bm_get_retain_Some_iff [simp]:
  "bm_get (bm_retain P m) k = Some v \<longleftrightarrow> bm_get m k = Some v \<and> P k v"
  by (auto simp: bm_get_retain split: option.splits)

lemma bm_contains_iff [simp]: "bm_contains m k \<longleftrightarrow> (\<exists>v. bm_get m k = Some v)"
  by (simp add: bm_contains_def)

lemma bm_values_iff: "v \<in> set (bm_values m) \<longleftrightarrow> (\<exists>k. bm_get m k = Some v)"
  by (force simp: bm_values_def in_entries_iff [symmetric])

lemma bm_valuesI: "bm_get m k = Some v \<Longrightarrow> v \<in> set (bm_values m)"
  by (auto simp: bm_values_iff)

lemma bm_eqI:
  assumes "\<And>k. bm_get m k = bm_get n k"
  shows "m = n"
proof -
  have "entries m = entries n"
  proof (rule map_sorted_distinct_set_unique)
    show "inj_on fst (set (entries m) \<union> set (entries n))"
      using assms by (auto simp: inj_on_def in_entries_iff)
    show "set (entries m) = set (entries n)"
      using assms by (auto simp: in_entries_iff)
  qed (use entries_sorted strict_sorted_iff in blast)+
  then show ?thesis by (simp add: entries_inject)
qed

lemma bm_insert_same: "bm_get m k = Some v \<Longrightarrow> bm_insert k v m = m"
  by (rule bm_eqI) simp

lemma bm_remove_absent: "bm_get m k = None \<Longrightarrow> bm_remove k m = m"
  by (rule bm_eqI) simp

section \<open>Size and counting\<close>

lemma finite_dom_bm_get [simp]: "finite (dom (bm_get m))"
  unfolding bm_get_def by (rule finite_dom_map_of)

lemma count_values:
  "length (filter P (bm_values m)) = card {k. \<exists>v. bm_get m k = Some v \<and> P v}"
proof -
  have "{k. \<exists>v. bm_get m k = Some v \<and> P v} = fst ` set (filter (P \<circ> snd) (entries m))"
    by (force simp: in_entries_iff [symmetric])
  moreover have "distinct (map fst (filter (P \<circ> snd) (entries m)))"
    by (simp add: distinct_keys distinct_map_filter)
  ultimately have "card {k. \<exists>v. bm_get m k = Some v \<and> P v} = length (filter (P \<circ> snd) (entries m))"
    by (metis distinct_card length_map list.set_map)
  then show ?thesis by (simp add: bm_values_def filter_map comp_def)
qed

lemma bm_len_card: "bm_len m = card (dom (bm_get m))"
  using count_values [of "\<lambda>_. True" m] by (simp add: bm_len_def bm_values_def dom_def)

lemma bm_len_empty [simp]: "bm_len bm_empty = 0"
  by (simp add: bm_len_def)

lemma bm_len_insert:
  "bm_len (bm_insert k v m) = (if bm_get m k = None then Suc (bm_len m) else bm_len m)"
proof -
  have "dom (bm_get (bm_insert k v m)) = insert k (dom (bm_get m))"
    by (auto simp: dom_def)
  then show ?thesis by (auto simp: bm_len_card card_insert_if domIff simp del: bm_get_insert)
qed

lemma bm_len_remove:
  "bm_len (bm_remove k m) = (if bm_get m k = None then bm_len m else bm_len m - 1)"
proof -
  have "dom (bm_get (bm_remove k m)) = dom (bm_get m) - {k}"
    by (auto simp: dom_def split: if_splits)
  then show ?thesis by (auto simp: bm_len_card card_Diff_singleton_if domIff simp del: bm_get_remove)
qed

lemma bm_len_insert_le: "bm_len (bm_insert k v m) \<le> Suc (bm_len m)"
  by (simp add: bm_len_insert)

lemma bm_len_retain_le: "bm_len (bm_retain P m) \<le> bm_len m"
  by (simp add: bm_len_def)

lemma bm_len_map [simp]: "bm_len (bm_map f m) = bm_len m"
  by (simp add: bm_len_def)

lemma bm_len_pos_iff: "0 < bm_len m \<longleftrightarrow> (\<exists>k v. bm_get m k = Some v)"
  unfolding bm_len_card card_gt_0_iff using finite_dom_bm_get by (auto simp: fun_eq_iff)

lemma bm_len_0_iff: "bm_len m = 0 \<longleftrightarrow> m = bm_empty"
proof
  assume "bm_len m = 0"
  then have "entries m = entries bm_empty" by (simp add: bm_len_def)
  then show "m = bm_empty" by (simp only: entries_inject)
qed simp

lemma bm_get_extend:
  "bm_get (bm_extend m n) k = (case bm_get n k of None \<Rightarrow> bm_get m k | Some v \<Rightarrow> Some v)"
proof -
  have "distinct (map fst es) \<Longrightarrow> bm_get (fold (\<lambda>e. bm_insert (fst e) (snd e)) es m) k =
          (case map_of es k of None \<Rightarrow> bm_get m k | Some v \<Rightarrow> Some v)" for es m
  proof (induction es arbitrary: m)
    case (Cons e es)
    then have "k = fst e \<Longrightarrow> map_of es k = None" by (simp add: map_of_eq_None_iff)
    with Cons show ?case by (auto split: option.splits)
  qed simp
  from this [OF distinct_keys] show ?thesis
    by (simp add: bm_extend_def bm_get_def)
qed

section \<open>Equality and execution\<close>

lemma Btree_entries [code abstype]: "Btree (entries m) = m"
  by (rule entries_inverse)

instantiation btree :: (linorder, equal) equal
begin

definition equal_btree :: "('a, 'b) btree \<Rightarrow> ('a, 'b) btree \<Rightarrow> bool" where
  "equal_btree m n \<longleftrightarrow> HOL.equal (entries m) (entries n)"

instance
  by standard (simp add: equal_btree_def equal_eq entries_inject)

end

section \<open>The map interface\<close>

text \<open>
  What a client of a key-value table relies on. The tables of expiring secrets below are proved
  against this interface alone.
\<close>

locale table =
  fixes empty :: 'm
    and insert :: "'k \<Rightarrow> 'v \<Rightarrow> 'm \<Rightarrow> 'm"
    and remove :: "'k \<Rightarrow> 'm \<Rightarrow> 'm"
    and get :: "'m \<Rightarrow> 'k \<Rightarrow> 'v option"
    and len :: "'m \<Rightarrow> nat"
  assumes get_empty: "get empty k = None"
    and get_insert: "get (insert k v m) k' = (if k' = k then Some v else get m k')"
    and get_remove: "get (remove k m) k' = (if k' = k then None else get m k')"
    and len_insert: "len (insert k v m) \<le> Suc (len m)"
    and len_remove: "get m k \<noteq> None \<Longrightarrow> len (remove k m) < len m"
    and get_ext: "(\<And>k. get m k = get n k) \<Longrightarrow> m = n"
begin

lemma insert_insert: "insert k v (insert k w m) = insert k v m"
  by (rule get_ext) (simp add: get_insert)

lemma insert_commute: "k \<noteq> k' \<Longrightarrow> insert k v (insert k' w m) = insert k' w (insert k v m)"
  by (rule get_ext) (simp add: get_insert)

lemma remove_insert: "get m k = None \<Longrightarrow> remove k (insert k v m) = m"
  by (rule get_ext) (simp add: get_insert get_remove)

lemma take_once: "get (remove k m) k = None"
  by (simp add: get_remove)

end

interpretation btree: table bm_empty bm_insert bm_remove bm_get bm_len
proof unfold_locales
  fix m :: "('a, 'b) btree" and k
  assume "bm_get m k \<noteq> None"
  moreover from this have "0 < bm_len m"
    by (auto simp: bm_len_pos_iff)
  ultimately show "bm_len (bm_remove k m) < bm_len m"
    by (simp add: bm_len_remove)
qed (auto simp: bm_len_insert_le intro: bm_eqI)

section \<open>Evicting the entry that expires first\<close>

text \<open>
  Pairing offers and stream tickets are kept in tables with a cap: while the table is full, the
  entry with the least expiry is removed. \<^verbatim>\<open>while tickets.len() >= CAP\<close> removes one entry per
  iteration, so it terminates.
\<close>

definition earliest :: "('v \<Rightarrow> instant) \<Rightarrow> ('k::linorder, 'v) btree \<Rightarrow> 'k option" where
  "earliest expiry m = map_option fst (min_by_key (\<lambda>e. expiry (snd e)) (entries m))"

lemma earliest_None_iff [simp]: "earliest expiry m = None \<longleftrightarrow> m = bm_empty"
  by (simp add: earliest_def bm_len_0_iff [symmetric] bm_len_def)

lemma earliest_least:
  assumes "earliest expiry m = Some k"
  shows "\<exists>v. bm_get m k = Some v \<and> (\<forall>k' v'. bm_get m k' = Some v' \<longrightarrow> expiry v \<le> expiry v')"
proof -
  from assms obtain e where e: "min_by_key (\<lambda>e. expiry (snd e)) (entries m) = Some e" "k = fst e"
    by (auto simp: earliest_def)
  obtain v where "e = (k, v)" using e(2) by (cases e) auto
  with min_by_key_least [OF e(1)] show ?thesis
    by (force simp: in_entries_iff [symmetric])
qed

function evict_while_full :: "('v \<Rightarrow> instant) \<Rightarrow> nat \<Rightarrow> ('k::linorder, 'v) btree \<Rightarrow> ('k, 'v) btree" where
  "evict_while_full expiry cap m =
     (if cap \<le> bm_len m
      then (case earliest expiry m of
              Some k \<Rightarrow> evict_while_full expiry cap (bm_remove k m)
            | None \<Rightarrow> m)
      else m)"
  by pat_completeness auto
termination
proof (relation "measure (\<lambda>(expiry, cap, m). bm_len m)")
  fix expiry :: "'v \<Rightarrow> instant" and cap and m :: "('k::linorder, 'v) btree" and k
  assume "earliest expiry m = Some k"
  with earliest_least [of expiry m k] have "bm_get m k \<noteq> None" by auto
  then show "((expiry, cap, bm_remove k m), (expiry, cap, m)) \<in> measure (\<lambda>(expiry, cap, m). bm_len m)"
    using btree.len_remove [of m k] by simp
qed simp

declare evict_while_full.simps [simp del]

lemma evict_while_full_room: "bm_len m < cap \<Longrightarrow> evict_while_full expiry cap m = m"
  by (simp add: evict_while_full.simps)

lemma evict_while_full_len: "0 < cap \<Longrightarrow> bm_len (evict_while_full expiry cap m) < cap"
proof (induction expiry cap m rule: evict_while_full.induct)
  case (1 expiry cap m)
  show ?case
  proof (cases "cap \<le> bm_len m")
    case True
    with "1.prems" have "m \<noteq> bm_empty" by auto
    then obtain k where "earliest expiry m = Some k"
      by (cases "earliest expiry m") auto
    with 1 True show ?thesis by (simp add: evict_while_full.simps [of expiry cap m])
  next
    case False
    then show ?thesis by (simp add: evict_while_full.simps [of expiry cap m])
  qed
qed

lemma evict_insert_len:
  "0 < cap \<Longrightarrow> bm_len (bm_insert k v (evict_while_full expiry cap m)) \<le> cap"
  using evict_while_full_len [of cap expiry m] bm_len_insert_le [of k v "evict_while_full expiry cap m"]
  by simp

text \<open>Eviction only removes entries, and keeps none that expires before an entry it removed.\<close>

lemma evict_while_full_subset:
  "bm_get (evict_while_full expiry cap m) k = Some v \<Longrightarrow> bm_get m k = Some v"
proof (induction expiry cap m rule: evict_while_full.induct)
  case (1 expiry cap m)
  from "1.prems" show ?case
    by (subst (asm) evict_while_full.simps)
      (auto split: if_splits option.splits dest: "1.IH")
qed

lemma evict_while_full_least:
  assumes "bm_get m k = Some v" "bm_get (evict_while_full expiry cap m) k = None"
    "bm_get (evict_while_full expiry cap m) k' = Some v'"
  shows "expiry v \<le> expiry v'"
  using assms
proof (induction expiry cap m arbitrary: rule: evict_while_full.induct)
  case (1 expiry cap m)
  show ?case
  proof (cases "cap \<le> bm_len m")
    case True
    from "1.prems" have "m \<noteq> bm_empty" by auto
    then obtain j where j: "earliest expiry m = Some j"
      by (cases "earliest expiry m") auto
    have eq: "evict_while_full expiry cap m = evict_while_full expiry cap (bm_remove j m)"
      using True j by (simp add: evict_while_full.simps [of expiry cap m])
    show ?thesis
    proof (cases "j = k")
      case True
      have "bm_get m k' = Some v'" using "1.prems"(3) by (rule evict_while_full_subset)
      with earliest_least [OF j] True "1.prems"(1) show ?thesis by auto
    next
      case False
      with 1 \<open>cap \<le> bm_len m\<close> j eq show ?thesis by auto
    qed
  next
    case False
    with "1.prems" show ?thesis by (simp add: evict_while_full.simps [of expiry cap m])
  qed
qed

end
