(* ===== verification/Api_Types.thy ===== *)
theory Api_Types
  imports Btree_Map
begin

text \<open>
  The data exchanged by the control plane, the runners and their clients:
  \<^verbatim>\<open>rc-control-plane/src/types.rs\<close>, the wire types of \<^verbatim>\<open>rc-runner/src/lib.rs\<close> and the runtime events of
  \<^verbatim>\<open>rc-engine-events/src/types.rs\<close>. Struct fields keep their names behind a short prefix, since HOL's
  records share one name space; enum constructors likewise where two enums overlap. Values of type
  \<^verbatim>\<open>f64\<close> are only carried around and are modelled by their bit pattern.
\<close>

section \<open>Errors\<close>

text \<open>
  One constructor per constructor function of \<^verbatim>\<open>ApiError\<close>. The argument is the message; the parts
  that \<^verbatim>\<open>format!\<close> interpolates stand in braces.
\<close>

datatype api_error =
    NotFound string
  | Conflict string
  | BadRequest string
  | ServiceUnavailable string
  | BadGateway string
  | Unauthorized string
  | Forbidden string
  | Internal string
  | TooManyRequests string

fun error_status :: "api_error \<Rightarrow> nat" where
  "error_status (NotFound _) = 404"
| "error_status (Conflict _) = 409"
| "error_status (BadRequest _) = 400"
| "error_status (ServiceUnavailable _) = 503"
| "error_status (BadGateway _) = 502"
| "error_status (Unauthorized _) = 401"
| "error_status (Forbidden _) = 403"
| "error_status (Internal _) = 500"
| "error_status (TooManyRequests _) = 429"

fun error_code :: "api_error \<Rightarrow> string" where
  "error_code (NotFound _) = ''not_found''"
| "error_code (Conflict _) = ''conflict''"
| "error_code (BadRequest _) = ''bad_request''"
| "error_code (ServiceUnavailable _) = ''service_unavailable''"
| "error_code (BadGateway _) = ''bad_gateway''"
| "error_code (Unauthorized _) = ''unauthorized''"
| "error_code (Forbidden _) = ''forbidden''"
| "error_code (Internal _) = ''internal''"
| "error_code (TooManyRequests _) = ''too_many_requests''"

type_synonym 'a api = "api_error + 'a"

section \<open>Runner wire types\<close>

type_synonym metadata = "(rstring, rstring) btree"

record runner_workspace =
  ws_workspace_id :: rstring
  ws_root_dir :: rstring
  ws_writable :: bool

record runner_capabilities =
  rc_interactive_approvals :: bool
  rc_background_sessions :: bool
  rc_artifact_uploads :: bool
  rc_max_parallel_sessions :: "16 word"

record runner_platform =
  rp_os :: rstring
  rp_arch :: rstring
  rp_family :: rstring

datatype runner_state = Starting | Idle | Busy | Draining | Unhealthy | Offline

datatype runner_session_state =
  RsPending | RsStarting | RsRunning | RsWaitingApproval | RsCompleted | RsFailed | RsCancelled

record runner_registration_request =
  rr_runner_id :: rstring
  rr_control_plane_url :: "rstring option"
  rr_public_base_url :: "rstring option"
  rr_workspaces :: "runner_workspace list"
  rr_labels :: metadata
  rr_auth_token :: "rstring option"
  rr_capabilities :: runner_capabilities
  rr_platform :: runner_platform

record runner_heartbeat =
  hb_runner_id :: rstring
  hb_state :: runner_state
  hb_active_sessions :: nat
  hb_queued_sessions :: nat
  hb_timestamp :: instant

record runner_snapshot =
  rs_registration :: runner_registration_request
  rs_state :: runner_state
  rs_active_sessions :: nat
  rs_queued_sessions :: nat
  rs_registered_at :: instant
  rs_last_seen_at :: instant

record runner_session_record =
  rsr_session_id :: uuid
  rsr_runner_id :: rstring
  rsr_workspace_id :: rstring
  rsr_state :: runner_session_state
  rsr_metadata :: metadata
  rsr_created_at :: instant
  rsr_updated_at :: instant

record runner_session_create_request =
  rcr_session_id :: "uuid option"
  rcr_workspace_id :: rstring
  rcr_metadata :: metadata

record runner_session_state_update_request =
  rsu_state :: runner_session_state
  rsu_metadata :: metadata

datatype runner_session_command_request = SendPrompt rstring | Interrupt

record runner_session_command_response =
  rcs_session_id :: uuid
  rcs_accepted :: bool
  rcs_message :: string

datatype approval_state = ApPending | ApApproved | ApDenied | ApCancelled

datatype approval_decision = Approved | Denied | DecisionCancelled

fun approval_state_of :: "approval_decision \<Rightarrow> approval_state" where
  "approval_state_of Approved = ApApproved"
| "approval_state_of Denied = ApDenied"
| "approval_state_of DecisionCancelled = ApCancelled"

record approval_request_record =
  ap_approval_id :: uuid
  ap_session_id :: uuid
  ap_runner_id :: rstring
  ap_state :: approval_state
  ap_title :: rstring
  ap_description :: rstring
  ap_metadata :: metadata
  ap_created_at :: instant
  ap_updated_at :: instant
  ap_responded_at :: "instant option"
  ap_responder :: "rstring option"
  ap_note :: "rstring option"

record approval_create_request =
  acr_approval_id :: "uuid option"
  acr_title :: rstring
  acr_description :: rstring
  acr_metadata :: metadata

record approval_decision_request =
  adr_decision :: approval_decision
  adr_responder :: "rstring option"
  adr_note :: "rstring option"

section \<open>Devices, pairing and push tokens\<close>

datatype device_kind = KindRunner | KindBrowser | KindCli

record trusted_device_record =
  td_device_id :: uuid
  td_name :: rstring
  td_kind :: device_kind
  td_owner :: bool
  td_created_by_device_id :: "uuid option"
  td_created_at :: instant
  td_last_seen_at :: instant

record bootstrap_claim_request =
  bc_bootstrap_secret :: rstring
  bc_device_name :: rstring
  bc_device_kind :: device_kind

record pairing_offer_create_request =
  po_device_name :: rstring
  po_device_kind :: device_kind
  po_expires_in_secs :: "nat option"

record pairing_accept_request =
  pa_offer_id :: uuid
  pa_pairing_secret :: rstring
  pa_device_name :: "rstring option"
  pa_device_kind :: "device_kind option"

datatype push_platform = Apns | Fcm

record push_token_registration_request =
  pt_push_token :: rstring
  pt_platform :: push_platform

section \<open>Commands queued for pulling runners\<close>

datatype runner_queued_command_body =
    CmdCreateSession runner_session_create_request
  | CmdUpdateSessionState uuid runner_session_state_update_request
  | CmdSessionCommand uuid runner_session_command_request
  | CmdCreateApproval uuid approval_create_request
  | CmdApplyApprovalDecision uuid approval_decision_request

record runner_queued_command =
  qc_command_id :: uuid
  qc_runner_id :: rstring
  qc_created_at :: instant
  qc_body :: runner_queued_command_body

section \<open>Sessions and artifacts\<close>

datatype session_state =
  Pending | Assigned | Running | WaitingApproval | Completed | Failed | Cancelled

record session_record =
  ses_session_id :: uuid
  ses_workspace_id :: rstring
  ses_owner_runner_id :: "rstring option"
  ses_state :: session_state
  ses_metadata :: metadata
  ses_created_at :: instant
  ses_updated_at :: instant
  ses_owner_user_id :: "rstring option"

record session_view =
  sv_session :: session_record
  sv_owner_runner_available :: bool
  sv_owner_runner_state :: "runner_state option"
  sv_owner_runner_last_seen_at :: "instant option"
  sv_owner_runner_public_base_url :: "rstring option"

record create_session_request =
  cs_session_id :: "uuid option"
  cs_workspace_id :: rstring
  cs_preferred_runner_id :: "rstring option"
  cs_metadata :: metadata

record session_state_update_request =
  su_state :: session_state
  su_metadata :: metadata

record runner_registration_response =
  rg_runner_id :: rstring
  rg_registered_at :: instant
  rg_lease_ttl_secs :: u64
  rg_snapshot :: runner_snapshot

record artifact_record =
  ar_artifact_id :: uuid
  ar_session_id :: uuid
  ar_runner_id :: "rstring option"
  ar_name :: rstring
  ar_file_name :: rstring
  ar_media_type :: rstring
  ar_size_bytes :: nat
  ar_metadata :: metadata
  ar_created_at :: instant

record artifact_create_request =
  ac_name :: rstring
  ac_file_name :: "rstring option"
  ac_media_type :: "rstring option"
  ac_content_base64 :: rstring
  ac_metadata :: metadata

record list_sessions_query =
  lq_runner_id :: "rstring option"
  lq_workspace_id :: "rstring option"
  lq_state :: "session_state option"

record session_state_transition =
  tr_runner_id :: "rstring option"
  tr_session_id :: uuid
  tr_previous_state :: session_state
  tr_state :: session_state

section \<open>Runtime and timeline events\<close>

datatype message_role = RoleAssistant | RoleUser | RoleSystem

datatype daemon_presence_state = DaemonOnline | DaemonOffline | DaemonReconnecting

datatype runtime_event_detail =
    RtMessageDelta message_role rstring "rstring option"
  | RtMessageCommitted message_role rstring "rstring option"
  | RtToolStarted rstring rstring
  | RtToolProgress "rstring option" "rstring option" "rstring option" "u64 option"
  | RtToolFinished rstring rstring bool "rstring option"
  | RtArtifactManifest "uuid list"
  | RtRuntimeError rstring
  | RtDaemonPresenceChanged daemon_presence_state
  | RtSubtaskStarted rstring "rstring option" rstring u32
  | RtSubtaskProgress rstring rstring rstring
  | RtSubtaskCompleted rstring rstring rstring "u32 option"
  | RtBatchProgress u32 u32 u32
  | RtContextUsage u64 u64 u64 u64
  | RtContextOverflow u64 u64 u64 u64
  | RtContextCompacted u32 u64

fun runtime_event_kind :: "runtime_event_detail \<Rightarrow> string" where
  "runtime_event_kind (RtMessageDelta _ _ _) = ''message_delta''"
| "runtime_event_kind (RtMessageCommitted _ _ _) = ''message_committed''"
| "runtime_event_kind (RtToolStarted _ _) = ''tool_started''"
| "runtime_event_kind (RtToolProgress _ _ _ _) = ''tool_progress''"
| "runtime_event_kind (RtToolFinished _ _ _ _) = ''tool_finished''"
| "runtime_event_kind (RtArtifactManifest _) = ''artifact_manifest''"
| "runtime_event_kind (RtRuntimeError _) = ''runtime_error''"
| "runtime_event_kind (RtDaemonPresenceChanged _) = ''daemon_presence_changed''"
| "runtime_event_kind (RtSubtaskStarted _ _ _ _) = ''subtask_started''"
| "runtime_event_kind (RtSubtaskProgress _ _ _) = ''subtask_progress''"
| "runtime_event_kind (RtSubtaskCompleted _ _ _ _) = ''subtask_completed''"
| "runtime_event_kind (RtBatchProgress _ _ _) = ''batch_progress''"
| "runtime_event_kind (RtContextUsage _ _ _ _) = ''context_usage''"
| "runtime_event_kind (RtContextOverflow _ _ _ _) = ''context_overflow''"
| "runtime_event_kind (RtContextCompacted _ _) = ''context_compacted''"

text \<open>The wire contract of \<^verbatim>\<open>stream-json\<close> events and its conversion into runtime events.\<close>

record shared_tool_progress_payload =
  stp_tool_use_id :: "rstring option"
  stp_tool_name :: "rstring option"
  stp_input_delta :: "rstring option"
  stp_elapsed_time_seconds :: "u64 option"

datatype shared_runtime_event_contract =
    ScMessageDelta message_role rstring "rstring option"
  | ScMessageCommitted message_role rstring "rstring option"
  | ScToolStarted rstring rstring
  | ScToolProgress shared_tool_progress_payload
  | ScToolFinished rstring rstring bool "rstring option"
  | ScArtifactManifest "uuid list"
  | ScRuntimeError rstring
  | ScSubtaskStarted rstring "rstring option" rstring u32
  | ScSubtaskProgress rstring rstring rstring
  | ScSubtaskCompleted rstring rstring rstring "u32 option"
  | ScBatchProgress u32 u32 u32
  | ScContextUsage u64 u64 u64 u64
  | ScContextOverflow u64 u64 u64 u64
  | ScContextCompacted u32 u64

fun runtime_of_shared :: "shared_runtime_event_contract \<Rightarrow> runtime_event_detail" where
  "runtime_of_shared (ScMessageDelta role delta mid) = RtMessageDelta role delta mid"
| "runtime_of_shared (ScMessageCommitted role txt mid) = RtMessageCommitted role txt mid"
| "runtime_of_shared (ScToolStarted tid name) = RtToolStarted tid name"
| "runtime_of_shared (ScToolProgress p) =
     RtToolProgress (stp_tool_use_id p) (stp_tool_name p) (stp_input_delta p)
       (stp_elapsed_time_seconds p)"
| "runtime_of_shared (ScToolFinished tid name err summary) = RtToolFinished tid name err summary"
| "runtime_of_shared (ScArtifactManifest ids) = RtArtifactManifest ids"
| "runtime_of_shared (ScRuntimeError msg) = RtRuntimeError msg"
| "runtime_of_shared (ScSubtaskStarted tid parent descr depth) = RtSubtaskStarted tid parent descr depth"
| "runtime_of_shared (ScSubtaskProgress tid status summary) = RtSubtaskProgress tid status summary"
| "runtime_of_shared (ScSubtaskCompleted tid status summary turns) =
     RtSubtaskCompleted tid status summary turns"
| "runtime_of_shared (ScBatchProgress tot completed running) = RtBatchProgress tot completed running"
| "runtime_of_shared (ScContextUsage est mx thr ratio) = RtContextUsage est mx thr ratio"
| "runtime_of_shared (ScContextOverflow est mx thr ratio) = RtContextOverflow est mx thr ratio"
| "runtime_of_shared (ScContextCompacted removed ratio) = RtContextCompacted removed ratio"

datatype timeline_event_detail =
    EvRunnerRegistered u64 "rstring list" runner_state
  | EvRunnerHeartbeat runner_state nat nat instant
  | EvSessionCreated rstring "rstring option" session_state
  | EvSessionStateChanged session_state session_state
  | EvApprovalRequested uuid rstring approval_state
  | EvApprovalResolved uuid approval_state "rstring option"
  | EvArtifactCreated uuid rstring rstring rstring nat
  | EvMessageDelta message_role rstring "rstring option"
  | EvMessageCommitted message_role rstring "rstring option"
  | EvToolStarted rstring rstring
  | EvToolProgress "rstring option" "rstring option" "rstring option" "u64 option"
  | EvToolFinished rstring rstring bool "rstring option"
  | EvArtifactManifest "uuid list"
  | EvRuntimeError rstring
  | EvDaemonPresenceChanged daemon_presence_state
  | EvSubtaskStarted rstring "rstring option" rstring u32
  | EvSubtaskProgress rstring rstring rstring
  | EvSubtaskCompleted rstring rstring rstring "u32 option"
  | EvBatchProgress u32 u32 u32
  | EvContextUsage u64 u64 u64 u64
  | EvContextOverflow u64 u64 u64 u64
  | EvContextCompacted u32 u64

fun timeline_of_runtime :: "runtime_event_detail \<Rightarrow> timeline_event_detail" where
  "timeline_of_runtime (RtMessageDelta role delta mid) = EvMessageDelta role delta mid"
| "timeline_of_runtime (RtMessageCommitted role txt mid) = EvMessageCommitted role txt mid"
| "timeline_of_runtime (RtToolStarted tid name) = EvToolStarted tid name"
| "timeline_of_runtime (RtToolProgress tid name delta elapsed) = EvToolProgress tid name delta elapsed"
| "timeline_of_runtime (RtToolFinished tid name err summary) = EvToolFinished tid name err summary"
| "timeline_of_runtime (RtArtifactManifest ids) = EvArtifactManifest ids"
| "timeline_of_runtime (RtRuntimeError msg) = EvRuntimeError msg"
| "timeline_of_runtime (RtDaemonPresenceChanged st) = EvDaemonPresenceChanged st"
| "timeline_of_runtime (RtSubtaskStarted tid parent descr depth) = EvSubtaskStarted tid parent descr depth"
| "timeline_of_runtime (RtSubtaskProgress tid status summary) = EvSubtaskProgress tid status summary"
| "timeline_of_runtime (RtSubtaskCompleted tid status summary turns) =
     EvSubtaskCompleted tid status summary turns"
| "timeline_of_runtime (RtBatchProgress tot completed running) = EvBatchProgress tot completed running"
| "timeline_of_runtime (RtContextUsage est mx thr ratio) = EvContextUsage est mx thr ratio"
| "timeline_of_runtime (RtContextOverflow est mx thr ratio) = EvContextOverflow est mx thr ratio"
| "timeline_of_runtime (RtContextCompacted removed ratio) = EvContextCompacted removed ratio"

record timeline_event =
  ev_sequence :: u64
  ev_recorded_at :: instant
  ev_runner_id :: "rstring option"
  ev_session_id :: "uuid option"
  ev_detail :: timeline_event_detail

record timeline_event_draft =
  dr_runner_id :: "rstring option"
  dr_session_id :: "uuid option"
  dr_detail :: timeline_event_detail

datatype timeline_event_kind =
    KRunnerRegistered | KRunnerHeartbeat | KSessionCreated | KSessionStateChanged
  | KApprovalRequested | KApprovalResolved | KArtifactCreated | KMessageDelta
  | KMessageCommitted | KToolStarted | KToolProgress | KToolFinished | KArtifactManifest
  | KRuntimeError | KDaemonPresenceChanged | KSubtaskStarted | KSubtaskProgress
  | KSubtaskCompleted | KBatchProgress | KContextUsage | KContextOverflow | KContextCompacted

section \<open>Constants\<close>

definition default_pairing_ttl_secs :: nat where "default_pairing_ttl_secs = 600"
definition max_pairing_ttl_secs :: nat where "max_pairing_ttl_secs = 3600"
definition stream_ticket_ttl_secs :: nat where "stream_ticket_ttl_secs = 45"
definition max_artifact_size_bytes :: nat where "max_artifact_size_bytes = 10 * 1024 * 1024"
definition max_event_list_limit :: nat where "max_event_list_limit = 200"
definition default_event_list_limit :: nat where "default_event_list_limit = 50"
definition default_event_history_limit :: nat where "default_event_history_limit = 256"

section \<open>Conversions lose nothing\<close>

lemma timeline_of_runtime_inj: "timeline_of_runtime a = timeline_of_runtime b \<Longrightarrow> a = b"
  by (cases a; cases b) simp_all

lemma runtime_of_shared_inj: "runtime_of_shared a = runtime_of_shared b \<Longrightarrow> a = b"
  by (cases a; cases b) (simp_all add: shared_tool_progress_payload.equality)

lemma approval_state_of_not_pending [simp]: "approval_state_of d \<noteq> ApPending"
  by (cases d) simp_all

lemma approval_state_of_inj [simp]: "approval_state_of a = approval_state_of b \<longleftrightarrow> a = b"
  by (cases a; cases b) simp_all

end
