(* ===== verification/Cp_Helpers.thy ===== *)
theory Cp_Helpers
  imports Api_Types
begin

text \<open>
  \<^verbatim>\<open>rc-control-plane/src/helpers.rs\<close>: event kinds, artifact file names and download headers, the
  eligibility of a runner, the conversions between the control plane's and the runner's session
  states, and the HTTP relay calls. The clock is an argument (\<open>now\<close>), and so is the HTTP client: a
  function from the URL, the bearer token and the request body to the outcome of the call.
  \<^verbatim>\<open>std::path\<close> is modelled for a Unix host, where the separator is the slash.
\<close>

section \<open>Event kinds\<close>

fun event_kind :: "timeline_event_detail \<Rightarrow> timeline_event_kind" where
  "event_kind (EvRunnerRegistered _ _ _) = KRunnerRegistered"
| "event_kind (EvRunnerHeartbeat _ _ _ _) = KRunnerHeartbeat"
| "event_kind (EvSessionCreated _ _ _) = KSessionCreated"
| "event_kind (EvSessionStateChanged _ _) = KSessionStateChanged"
| "event_kind (EvApprovalRequested _ _ _) = KApprovalRequested"
| "event_kind (EvApprovalResolved _ _ _) = KApprovalResolved"
| "event_kind (EvArtifactCreated _ _ _ _ _) = KArtifactCreated"
| "event_kind (EvMessageDelta _ _ _) = KMessageDelta"
| "event_kind (EvMessageCommitted _ _ _) = KMessageCommitted"
| "event_kind (EvToolStarted _ _) = KToolStarted"
| "event_kind (EvToolProgress _ _ _ _) = KToolProgress"
| "event_kind (EvToolFinished _ _ _ _) = KToolFinished"
| "event_kind (EvArtifactManifest _) = KArtifactManifest"
| "event_kind (EvRuntimeError _) = KRuntimeError"
| "event_kind (EvDaemonPresenceChanged _) = KDaemonPresenceChanged"
| "event_kind (EvSubtaskStarted _ _ _ _) = KSubtaskStarted"
| "event_kind (EvSubtaskProgress _ _ _) = KSubtaskProgress"
| "event_kind (EvSubtaskCompleted _ _ _ _) = KSubtaskCompleted"
| "event_kind (EvBatchProgress _ _ _) = KBatchProgress"
| "event_kind (EvContextUsage _ _ _ _) = KContextUsage"
| "event_kind (EvContextOverflow _ _ _ _) = KContextOverflow"
| "event_kind (EvContextCompacted _ _) = KContextCompacted"

fun event_kind_name :: "timeline_event_kind \<Rightarrow> string" where
  "event_kind_name KRunnerRegistered = ''runner_registered''"
| "event_kind_name KRunnerHeartbeat = ''runner_heartbeat''"
| "event_kind_name KSessionCreated = ''session_created''"
| "event_kind_name KSessionStateChanged = ''session_state_changed''"
| "event_kind_name KApprovalRequested = ''approval_requested''"
| "event_kind_name KApprovalResolved = ''approval_resolved''"
| "event_kind_name KArtifactCreated = ''artifact_created''"
| "event_kind_name KMessageDelta = ''message_delta''"
| "event_kind_name KMessageCommitted = ''message_committed''"
| "event_kind_name KToolStarted = ''tool_started''"
| "event_kind_name KToolProgress = ''tool_progress''"
| "event_kind_name KToolFinished = ''tool_finished''"
| "event_kind_name KArtifactManifest = ''artifact_manifest''"
| "event_kind_name KRuntimeError = ''runtime_error''"
| "event_kind_name KDaemonPresenceChanged = ''daemon_presence_changed''"
| "event_kind_name KSubtaskStarted = ''subtask_started''"
| "event_kind_name KSubtaskProgress = ''subtask_progress''"
| "event_kind_name KSubtaskCompleted = ''subtask_completed''"
| "event_kind_name KBatchProgress = ''batch_progress''"
| "event_kind_name KContextUsage = ''context_usage''"
| "event_kind_name KContextOverflow = ''context_overflow''"
| "event_kind_name KContextCompacted = ''context_compacted''"

definition event_kind_name_for_detail :: "timeline_event_detail \<Rightarrow> string" where
  "event_kind_name_for_detail d = event_kind_name (event_kind d)"

fun is_approval_kind :: "timeline_event_kind \<Rightarrow> bool" where
  "is_approval_kind KApprovalRequested = True"
| "is_approval_kind KApprovalResolved = True"
| "is_approval_kind _ = False"

definition event_matches_kind :: "timeline_event \<Rightarrow> timeline_event_kind option \<Rightarrow> bool" where
  "event_matches_kind e kind = is_none_or (\<lambda>k. event_kind (ev_detail e) = k) kind"

fun is_approval_detail :: "timeline_event_detail \<Rightarrow> bool" where
  "is_approval_detail (EvApprovalRequested _ _ _) = True"
| "is_approval_detail (EvApprovalResolved _ _ _) = True"
| "is_approval_detail _ = False"

definition is_approval_event :: "timeline_event \<Rightarrow> bool" where
  "is_approval_event e = is_approval_detail (ev_detail e)"

definition approval_event_matches :: "timeline_event \<Rightarrow> timeline_event_kind option \<Rightarrow> bool" where
  "approval_event_matches e kind \<longleftrightarrow> is_approval_event e \<and> event_matches_kind e kind"

lemma is_approval_kind_iff: "is_approval_kind (event_kind d) \<longleftrightarrow> is_approval_detail d"
  by (cases d) simp_all

lemma event_kind_name_inj: "event_kind_name a = event_kind_name b \<Longrightarrow> a = b"
  by (cases a; cases b) simp_all

section \<open>Artifact file names\<close>

text \<open>
  \<^verbatim>\<open>Path::file_name\<close>: the last component that is neither empty nor the current directory, unless
  it is the parent directory.
\<close>

definition path_file_name :: "rstring \<Rightarrow> rstring option" where
  "path_file_name raw =
     (let parts = filter (\<lambda>p. p \<noteq> [] \<and> p \<noteq> [46]) (split_on 47 raw)
      in if parts = [] \<or> last parts = [46, 46] then None else Some (last parts))"

definition sanitize_char :: "rchar \<Rightarrow> rchar" where
  "sanitize_char c = (if c \<in> {60, 62, 58, 34, 47, 92, 124, 63, 42} then 95
                      else if is_control c then 95 else c)"

definition reserved_stems :: "rstring list" where
  "reserved_stems = map str
     [''CON'', ''PRN'', ''AUX'', ''NUL'',
      ''COM1'', ''COM2'', ''COM3'', ''COM4'', ''COM5'', ''COM6'', ''COM7'', ''COM8'', ''COM9'',
      ''LPT1'', ''LPT2'', ''LPT3'', ''LPT4'', ''LPT5'', ''LPT6'', ''LPT7'', ''LPT8'', ''LPT9'']"

definition is_windows_reserved_file_name :: "rstring \<Rightarrow> bool" where
  "is_windows_reserved_file_name f =
     (map ascii_upper (trim (hd (split_on 46 f))) \<in> set reserved_stems)"

definition append_reserved_suffix :: "rstring \<Rightarrow> rstring" where
  "append_reserved_suffix f =
     (case rsplit_once 46 f of
        Some (stem, ext) \<Rightarrow>
          if stem \<noteq> [] \<and> ext \<noteq> [] then stem @ [95, 46] @ ext else f @ [95]
      | None \<Rightarrow> f @ [95])"

definition sanitize_artifact_component :: "rstring \<Rightarrow> rstring \<Rightarrow> rstring" where
  "sanitize_artifact_component raw fallback =
     (let candidate = trim (unwrap_or raw (path_file_name raw));
          sanitized = trim_end_by (\<lambda>c. c = 46 \<or> c = 32) (map sanitize_char candidate)
      in if sanitized = [] then fallback
         else if is_windows_reserved_file_name sanitized then append_reserved_suffix sanitized
         else sanitized)"

definition uuid_string :: "uuid \<Rightarrow> rstring" where
  "uuid_string u =
     (let h = uuid_simple u
      in take 8 h @ [45] @ take 4 (drop 8 h) @ [45] @ take 4 (drop 12 h) @ [45]
         @ take 4 (drop 16 h) @ [45] @ drop 20 h)"

text \<open>A path is the list of its components; \<^verbatim>\<open>join\<close> appends one when it holds no separator.\<close>

definition artifact_file_path :: "rstring list \<Rightarrow> artifact_record \<Rightarrow> rstring list" where
  "artifact_file_path root a =
     root @ [uuid_string (ar_session_id a)]
          @ split_on 47 (uuid_string (ar_artifact_id a) @ [45] @ ar_file_name a)"

section \<open>Download headers\<close>

definition is_ascii_alnum :: "rchar \<Rightarrow> bool" where
  "is_ascii_alnum c \<longleftrightarrow> (97 \<le> c \<and> c \<le> 122) \<or> (65 \<le> c \<and> c \<le> 90) \<or> (48 \<le> c \<and> c \<le> 57)"

text \<open>The UTF-8 bytes of a string of scalar values.\<close>

definition utf8_char :: "rchar \<Rightarrow> nat list" where
  "utf8_char c =
     (if c < 128 then [c]
      else if c < 2048 then [192 + c div 64, 128 + c mod 64]
      else if c < 65536 then [224 + c div 4096, 128 + c div 64 mod 64, 128 + c mod 64]
      else [240 + c div 262144, 128 + c div 4096 mod 64, 128 + c div 64 mod 64, 128 + c mod 64])"

definition utf8 :: "rstring \<Rightarrow> nat list" where
  "utf8 s = concat (map utf8_char s)"

definition hex_digit_upper :: "nat \<Rightarrow> rchar" where
  "hex_digit_upper n = (if n < 10 then 48 + n else 55 + n)"

definition encode_byte :: "nat \<Rightarrow> rstring" where
  "encode_byte b =
     (if is_ascii_alnum b \<or> b \<in> {45, 46, 95, 126} then [b]
      else if b = 32 then [37, 50, 48]
      else [37, hex_digit_upper (b div 16), hex_digit_upper (b mod 16)])"

definition encode_header_value :: "rstring \<Rightarrow> rstring" where
  "encode_header_value v = concat (map encode_byte (utf8 v))"

definition ascii_fallback :: "rstring \<Rightarrow> rstring" where
  "ascii_fallback f =
     (let a = map (\<lambda>c. if is_ascii_alnum c \<or> c \<in> {46, 95, 45} then c else 95) f
      in if trim_end_by (\<lambda>c. c = 95) (trim_start_by (\<lambda>c. c = 95) a) = []
         then str ''download'' else a)"

definition build_content_disposition :: "rstring \<Rightarrow> rstring" where
  "build_content_disposition f =
     str ''attachment; filename='' @ [34] @ ascii_fallback f @ [34]
     @ str ''; filename*=UTF-8'' @ [39, 39] @ encode_header_value f"

text \<open>
  The byte loop of \<^verbatim>\<open>percent_decode_query_value\<close> in \<^verbatim>\<open>rc-runner/src/lib.rs\<close>, which reads what the
  encoder above writes.
\<close>

definition hex_value :: "nat \<Rightarrow> nat option" where
  "hex_value c = (if 48 \<le> c \<and> c \<le> 57 then Some (c - 48)
                  else if 97 \<le> c \<and> c \<le> 102 then Some (c - 87)
                  else if 65 \<le> c \<and> c \<le> 70 then Some (c - 55) else None)"

fun percent_decode_bytes :: "nat list \<Rightarrow> nat list" where
  "percent_decode_bytes [] = []"
| "percent_decode_bytes (b # bs) =
     (if b = 43 then 32 # percent_decode_bytes bs
      else if b = 37 then
        (case bs of
           h # l # rest \<Rightarrow>
             (case (hex_value h, hex_value l) of
                (Some x, Some y) \<Rightarrow> (16 * x + y) # percent_decode_bytes rest
              | _ \<Rightarrow> 37 # percent_decode_bytes bs)
         | _ \<Rightarrow> 37 # percent_decode_bytes bs)
      else b # percent_decode_bytes bs)"

text \<open>
  \<^verbatim>\<open>String::from_utf8_lossy\<close>: well-formed sequences are decoded, and each maximal ill-formed prefix of a
  sequence becomes one replacement character.
\<close>

definition utf8_cont :: "nat \<Rightarrow> bool" where
  "utf8_cont b \<longleftrightarrow> 128 \<le> b \<and> b \<le> 191"

definition utf8_second3 :: "nat \<Rightarrow> nat \<Rightarrow> bool" where
  "utf8_second3 b c \<longleftrightarrow> utf8_cont c \<and> (b = 224 \<longrightarrow> 160 \<le> c) \<and> (b = 237 \<longrightarrow> c \<le> 159)"

definition utf8_second4 :: "nat \<Rightarrow> nat \<Rightarrow> bool" where
  "utf8_second4 b c \<longleftrightarrow> utf8_cont c \<and> (b = 240 \<longrightarrow> 144 \<le> c) \<and> (b = 244 \<longrightarrow> c \<le> 143)"

fun utf8_lossy :: "nat list \<Rightarrow> rstring" where
  "utf8_lossy [] = []"
| "utf8_lossy (b # bs) =
     (if b < 128 then b # utf8_lossy bs
      else if 194 \<le> b \<and> b \<le> 223 then
        (case bs of
           c # cs \<Rightarrow> if utf8_cont c then ((b - 192) * 64 + (c - 128)) # utf8_lossy cs
                     else 65533 # utf8_lossy bs
         | [] \<Rightarrow> [65533])
      else if 224 \<le> b \<and> b \<le> 239 then
        (case bs of
           c # cs \<Rightarrow>
             if utf8_second3 b c
             then (case cs of
                     d # ds \<Rightarrow> if utf8_cont d
                               then ((b - 224) * 4096 + (c - 128) * 64 + (d - 128)) # utf8_lossy ds
                               else 65533 # utf8_lossy cs
                   | [] \<Rightarrow> [65533])
             else 65533 # utf8_lossy bs
         | [] \<Rightarrow> [65533])
      else if 240 \<le> b \<and> b \<le> 244 then
        (case bs of
           c # cs \<Rightarrow>
             if utf8_second4 b c
             then (case cs of
                     d # ds \<Rightarrow>
                       if utf8_cont d
                       then (case ds of
                               e # es \<Rightarrow>
                                 if utf8_cont e
                                 then ((b - 240) * 262144 + (c - 128) * 4096 + (d - 128) * 64 + (e - 128))
                                        # utf8_lossy es
                                 else 65533 # utf8_lossy ds
                             | [] \<Rightarrow> [65533])
                       else 65533 # utf8_lossy cs
                   | [] \<Rightarrow> [65533])
             else 65533 # utf8_lossy bs
         | [] \<Rightarrow> [65533])
      else 65533 # utf8_lossy bs)"

definition percent_decode_query_value :: "rstring \<Rightarrow> rstring" where
  "percent_decode_query_value raw = utf8_lossy (percent_decode_bytes (utf8 raw))"

section \<open>Eligibility of a runner\<close>

definition lease_secs :: "u64 \<Rightarrow> int" where
  "lease_secs lease = min (uint lease) (2 ^ 63 - 1)"

definition runner_is_available :: "instant \<Rightarrow> runner_snapshot \<Rightarrow> u64 \<Rightarrow> bool" where
  "runner_is_available now r lease \<longleftrightarrow>
     rs_state r \<notin> {Draining, Offline, Unhealthy}
     \<and> now - seconds (lease_secs lease) \<le> rs_last_seen_at r"

definition runner_has_capacity :: "runner_snapshot \<Rightarrow> bool" where
  "runner_has_capacity r \<longleftrightarrow>
     rs_active_sessions r + rs_queued_sessions r
       < unat (rc_max_parallel_sessions (rr_capabilities (rs_registration r)))"

definition runner_can_host :: "instant \<Rightarrow> runner_snapshot \<Rightarrow> rstring \<Rightarrow> u64 \<Rightarrow> bool" where
  "runner_can_host now r wid lease \<longleftrightarrow>
     runner_is_available now r lease \<and> runner_has_capacity r
     \<and> (\<exists>w \<in> set (rr_workspaces (rs_registration r)). ws_workspace_id w = wid)"

fun runner_rank :: "runner_state \<Rightarrow> nat" where
  "runner_rank Idle = 0"
| "runner_rank Busy = 1"
| "runner_rank Starting = 2"
| "runner_rank Draining = 3"
| "runner_rank Unhealthy = 4"
| "runner_rank Offline = 5"

section \<open>Session states\<close>

fun session_state_after_approval :: "approval_decision \<Rightarrow> bool \<Rightarrow> session_state" where
  "session_state_after_approval d True = WaitingApproval"
| "session_state_after_approval Approved False = Running"
| "session_state_after_approval Denied False = Failed"
| "session_state_after_approval DecisionCancelled False = Cancelled"

fun session_state_from_runner :: "runner_session_state \<Rightarrow> session_state" where
  "session_state_from_runner RsPending = Assigned"
| "session_state_from_runner RsStarting = Assigned"
| "session_state_from_runner RsRunning = Running"
| "session_state_from_runner RsWaitingApproval = WaitingApproval"
| "session_state_from_runner RsCompleted = Completed"
| "session_state_from_runner RsFailed = Failed"
| "session_state_from_runner RsCancelled = Cancelled"

fun session_state_to_runner :: "session_state \<Rightarrow> runner_session_state" where
  "session_state_to_runner Pending = RsPending"
| "session_state_to_runner Assigned = RsStarting"
| "session_state_to_runner Running = RsRunning"
| "session_state_to_runner WaitingApproval = RsWaitingApproval"
| "session_state_to_runner Completed = RsCompleted"
| "session_state_to_runner Failed = RsFailed"
| "session_state_to_runner Cancelled = RsCancelled"

lemma session_state_from_runner_not_pending [simp]: "session_state_from_runner s \<noteq> Pending"
  by (cases s) simp_all

section \<open>Relaying to a runner over HTTP\<close>

definition runner_public_base_url :: "runner_snapshot \<Rightarrow> rstring api" where
  "runner_public_base_url r =
     (case rr_public_base_url (rs_registration r) of
        Some u \<Rightarrow> if trim u \<noteq> [] then Inr u
                 else Inl (ServiceUnavailable ''runner {runner_id} does not expose a public base URL'')
      | None \<Rightarrow> Inl (ServiceUnavailable ''runner {runner_id} does not expose a public base URL''))"

definition runner_uses_pull_commands :: "runner_snapshot \<Rightarrow> bool" where
  "runner_uses_pull_commands r =
     is_none_or (\<lambda>u. trim u = []) (rr_public_base_url (rs_registration r))"

lemma runner_uses_pull_iff: "runner_uses_pull_commands r \<longleftrightarrow> \<not> is_ok (runner_public_base_url r)"
  by (simp add: runner_uses_pull_commands_def runner_public_base_url_def split: option.splits)

datatype 'a http_outcome = HttpSendError | HttpRejected | HttpDecodeError | HttpOk 'a

type_synonym ('q, 'a) http_client = "rstring \<Rightarrow> rstring option \<Rightarrow> 'q \<Rightarrow> 'a http_outcome"

definition authorize_runner_request :: "runner_snapshot \<Rightarrow> rstring option" where
  "authorize_runner_request r = rr_auth_token (rs_registration r)"

definition relay_url :: "rstring \<Rightarrow> rstring \<Rightarrow> rstring" where
  "relay_url base path = trim_end_by (\<lambda>c. c = 47) base @ path"

definition dispatch_session_to_runner ::
  "(runner_session_create_request, runner_session_record) http_client \<Rightarrow> runner_snapshot
   \<Rightarrow> runner_session_create_request \<Rightarrow> runner_session_record api" where
  "dispatch_session_to_runner http r req =
     bind_result (runner_public_base_url r) (\<lambda>base.
       case http (relay_url base (str ''/v1/sessions'')) (authorize_runner_request r) req of
         HttpSendError \<Rightarrow> Inl (BadGateway ''failed to dispatch session to runner {runner_id}'')
       | HttpRejected \<Rightarrow> Inl (BadGateway ''runner {runner_id} rejected session dispatch'')
       | HttpDecodeError \<Rightarrow> Inl (BadGateway ''failed to decode session dispatch response from runner {runner_id}'')
       | HttpOk rec \<Rightarrow> Inr rec)"

definition update_runner_session_state ::
  "(runner_session_state_update_request, runner_session_record) http_client \<Rightarrow> runner_snapshot
   \<Rightarrow> uuid \<Rightarrow> runner_session_state_update_request \<Rightarrow> runner_session_record api" where
  "update_runner_session_state http r sid req =
     bind_result (runner_public_base_url r) (\<lambda>base.
       case http (relay_url base (str ''/v1/sessions/'' @ uuid_string sid @ str ''/state''))
              (authorize_runner_request r) req of
         HttpSendError \<Rightarrow> Inl (BadGateway ''failed to update session {session_id} on runner {runner_id}'')
       | HttpRejected \<Rightarrow> Inl (BadGateway ''runner {runner_id} rejected state update for session {session_id}'')
       | HttpDecodeError \<Rightarrow> Inl (BadGateway ''failed to decode state update response from runner {runner_id}'')
       | HttpOk rec \<Rightarrow> Inr rec)"

definition relay_approval_to_runner ::
  "(approval_create_request, approval_request_record) http_client \<Rightarrow> runner_snapshot
   \<Rightarrow> uuid \<Rightarrow> approval_create_request \<Rightarrow> approval_request_record api" where
  "relay_approval_to_runner http r sid req =
     bind_result (runner_public_base_url r) (\<lambda>base.
       case http (relay_url base (str ''/v1/sessions/'' @ uuid_string sid @ str ''/approvals''))
              (authorize_runner_request r) req of
         HttpSendError \<Rightarrow> Inl (BadGateway ''failed to relay approval for session {session_id} to runner {runner_id}'')
       | HttpRejected \<Rightarrow> Inl (BadGateway ''runner {runner_id} rejected approval relay for session {session_id}'')
       | HttpDecodeError \<Rightarrow> Inl (BadGateway ''failed to decode approval relay response from runner {runner_id}'')
       | HttpOk rec \<Rightarrow> Inr rec)"

definition relay_approval_decision_to_runner ::
  "(approval_decision_request, approval_request_record) http_client \<Rightarrow> runner_snapshot
   \<Rightarrow> uuid \<Rightarrow> approval_decision_request \<Rightarrow> approval_request_record api" where
  "relay_approval_decision_to_runner http r aid req =
     bind_result (runner_public_base_url r) (\<lambda>base.
       case http (relay_url base (str ''/v1/approvals/'' @ uuid_string aid @ str ''/decision''))
              (authorize_runner_request r) req of
         HttpSendError \<Rightarrow> Inl (BadGateway ''failed to relay approval decision {approval_id} to runner {runner_id}'')
       | HttpRejected \<Rightarrow> Inl (BadGateway ''runner {runner_id} rejected approval decision {approval_id}'')
       | HttpDecodeError \<Rightarrow> Inl (BadGateway ''failed to decode approval decision response from runner {runner_id}'')
       | HttpOk rec \<Rightarrow> Inr rec)"

definition dispatch_session_command_to_runner ::
  "(runner_session_command_request, runner_session_command_response) http_client \<Rightarrow> runner_snapshot
   \<Rightarrow> uuid \<Rightarrow> runner_session_command_request \<Rightarrow> runner_session_command_response api" where
  "dispatch_session_command_to_runner http r sid req =
     bind_result (runner_public_base_url r) (\<lambda>base.
       case http (relay_url base (str ''/v1/sessions/'' @ uuid_string sid @ str ''/commands''))
              (authorize_runner_request r) req of
         HttpSendError \<Rightarrow> Inl (BadGateway ''failed to relay session command for {session_id} to runner {runner_id}'')
       | HttpRejected \<Rightarrow> Inl (BadGateway ''runner {runner_id} rejected session command for {session_id}'')
       | HttpDecodeError \<Rightarrow> Inl (BadGateway ''failed to decode session command response from runner {runner_id}'')
       | HttpOk rec \<Rightarrow> Inr rec)"

section \<open>File names and headers are safe\<close>

definition forbidden_char :: "rchar \<Rightarrow> bool" where
  "forbidden_char c \<longleftrightarrow> c \<in> {60, 62, 58, 34, 47, 92, 124, 63, 42} \<or> is_control c"

lemma sanitize_char_ok: "\<not> forbidden_char (sanitize_char c)"
  by (auto simp: sanitize_char_def forbidden_char_def is_control_def)

lemma rsplit_once_Some:
  assumes "rsplit_once d s = Some (a, b)"
  shows "s = a @ [d] @ b \<and> d \<notin> set b"
proof -
  let ?Q = "\<lambda>c. c \<noteq> d"
  from assms have d: "d \<in> set s"
    and a: "a = rev (tl (dropWhile ?Q (rev s)))" and b: "b = rev (takeWhile ?Q (rev s))"
    by (auto simp: rsplit_once_def split: if_splits)
  have ne: "dropWhile ?Q (rev s) \<noteq> []" using d by (auto simp: dropWhile_eq_Nil_conv)
  then have "hd (dropWhile ?Q (rev s)) = d" using hd_dropWhile [of ?Q] by blast
  with ne have "dropWhile ?Q (rev s) = d # tl (dropWhile ?Q (rev s))"
    by (metis list.collapse)
  then have "rev s = takeWhile ?Q (rev s) @ d # tl (dropWhile ?Q (rev s))"
    by (metis takeWhile_dropWhile_id)
  then have "s = rev (takeWhile ?Q (rev s) @ d # tl (dropWhile ?Q (rev s)))"
    by (metis rev_rev_ident)
  with a b have "s = a @ [d] @ b" by simp
  moreover have "d \<notin> set b" using b set_takeWhileD by fastforce
  ultimately show ?thesis ..
qed

lemma set_append_reserved_suffix: "set (append_reserved_suffix f) \<subseteq> insert 95 (insert 46 (set f))"
  by (auto simp: append_reserved_suffix_def split: option.splits if_splits dest!: rsplit_once_Some)

lemma last_append_reserved_suffix:
  "f \<noteq> [] \<Longrightarrow> last (append_reserved_suffix f) \<in> {95, last f}"
  by (auto simp: append_reserved_suffix_def split: option.splits dest!: rsplit_once_Some)

lemma sanitize_chars:
  fixes raw :: rstring
  defines "out \<equiv> sanitize_artifact_component raw (str ''artifact.bin'')"
  shows "out \<noteq> []" "\<forall>c \<in> set out. \<not> forbidden_char c" "last out \<notin> {46, 32}"
proof -
  let ?t = "trim_end_by (\<lambda>c. c = 46 \<or> c = 32)
              (map sanitize_char (trim (unwrap_or raw (path_file_name raw))))"
  have t_ok: "\<forall>c \<in> set ?t. \<not> forbidden_char c"
    using set_trim_end_by sanitize_char_ok by fastforce
  have t_last: "?t \<noteq> [] \<Longrightarrow> last ?t \<notin> {46, 32}"
    using last_trim_end_by [of "\<lambda>c. c = 46 \<or> c = 32"] by auto
  have fb: "\<forall>c \<in> set (str ''artifact.bin''). \<not> forbidden_char c" "last (str ''artifact.bin'') \<notin> {46, 32}"
    "str ''artifact.bin'' \<noteq> []"
    by (simp_all add: str_def forbidden_char_def is_control_def)
  have suffix_ne: "append_reserved_suffix ?t \<noteq> []"
    by (simp add: append_reserved_suffix_def split: option.splits)
  have suffix_ok: "\<forall>c \<in> set (append_reserved_suffix ?t). \<not> forbidden_char c"
    using set_append_reserved_suffix t_ok by (fastforce simp: forbidden_char_def is_control_def)
  have suffix_last: "?t \<noteq> [] \<Longrightarrow> last (append_reserved_suffix ?t) \<notin> {46, 32}"
    using last_append_reserved_suffix [of ?t] t_last by force
  show "out \<noteq> []" "\<forall>c \<in> set out. \<not> forbidden_char c" "last out \<notin> {46, 32}"
    unfolding out_def sanitize_artifact_component_def Let_def
    using t_ok t_last fb suffix_ne suffix_ok suffix_last by auto
qed

lemma split_on_absent: "d \<notin> set s \<Longrightarrow> split_on d s = [s]"
  by (induction s) auto

lemma hex_of_nat_chars: "set (hex_of_nat w n) \<subseteq> {48..57} \<union> {97..102}"
proof (induction w arbitrary: n)
  case (Suc w)
  have "n mod 16 < 16" by simp
  then have "hex_digit (n mod 16) \<in> {48..57} \<union> {97..102}"
    unfolding hex_digit_def by auto
  with Suc show ?case by auto
qed simp

lemma uuid_string_no_slash: "47 \<notin> set (uuid_string u)"
proof -
  have "set (uuid_simple u) \<subseteq> {48..57} \<union> {97..102}"
    unfolding uuid_simple_def by (rule hex_of_nat_chars)
  then have h: "47 \<notin> set (uuid_simple u)" by auto
  then show ?thesis
    by (auto simp: uuid_string_def Let_def dest!: in_set_takeD in_set_dropD)
qed

text \<open>
  C21. Whatever file name a client sends, the name under which the control plane stores the artifact
  is not empty, contains no separator, no character that Windows forbids and no control character,
  and does not end in a dot or a blank. So the stored path always has exactly two components below
  the artifact root, the session directory and the file: no name escapes the root.
\<close>


theorem sanitize_artifact_component_confined:
  "let out = sanitize_artifact_component raw (str ''artifact.bin'')
   in out \<noteq> [] \<and> filter forbidden_char out = [] \<and> last out \<notin> {46, 32}
      \<and> artifact_file_path root (a\<lparr>ar_file_name := out\<rparr>)
        = root @ [uuid_string (ar_session_id a), uuid_string (ar_artifact_id a) @ [45] @ out]"
proof -
  let ?out = "sanitize_artifact_component raw (str ''artifact.bin'')"
  have "forbidden_char 47" by (simp add: forbidden_char_def)
  then have "47 \<notin> set ?out" using sanitize_chars(2) by blast
  then have "split_on 47 (uuid_string (ar_artifact_id a) @ [45] @ ?out)
             = [uuid_string (ar_artifact_id a) @ [45] @ ?out]"
    using uuid_string_no_slash by (intro split_on_absent) auto
  then show ?thesis
    using sanitize_chars [of raw] by (simp add: Let_def artifact_file_path_def filter_empty_conv)
qed

text \<open>
  The guard against Windows device names is incomplete: it inserts its underscore before the last
  extension, while the reserved-name test reads the name up to the first dot. A name with two
  extensions keeps its reserved stem, so \<^verbatim>\<open>CON.tar.gz\<close> is stored as \<^verbatim>\<open>CON.tar_.gz\<close>, which the test
  itself still classifies as reserved.
\<close>

theorem reserved_name_survives_sanitizing:
  "sanitize_artifact_component (str ''CON.tar.gz'') (str ''artifact.bin'') = str ''CON.tar_.gz''
   \<and> is_windows_reserved_file_name (str ''CON.tar_.gz'')"
proof -
  let ?in = "[67, 79, 78, 46, 116, 97, 114, 46, 103, 122] :: rstring"
  let ?out = "[67, 79, 78, 46, 116, 97, 114, 95, 46, 103, 122] :: rstring"
  have lit: "str ''CON.tar.gz'' = ?in" "str ''CON.tar_.gz'' = ?out" by (simp_all add: str_def)
  have "[67, 79, 78] = str ''CON''" by (simp add: str_def)
  then have mem: "[67, 79, 78] \<in> set reserved_stems" by (simp add: reserved_stems_def)
  have "map ascii_upper (trim [67, 79, 78]) = [67, 79, 78]"
    by (simp add: trim_def trim_end_by_def trim_start_by_def is_whitespace_def ascii_upper_def)
  with mem have res: "is_windows_reserved_file_name ?in" "is_windows_reserved_file_name ?out"
    by (simp_all add: is_windows_reserved_file_name_def)
  have "path_file_name ?in = Some ?in" by (simp add: path_file_name_def)
  moreover have "trim ?in = ?in"
    by (simp add: trim_def trim_end_by_def trim_start_by_def is_whitespace_def)
  moreover have "map sanitize_char ?in = ?in" by (simp add: sanitize_char_def is_control_def)
  moreover have "trim_end_by (\<lambda>c. c = 46 \<or> c = 32) ?in = ?in" by (simp add: trim_end_by_def)
  moreover have "append_reserved_suffix ?in = ?out"
    by (simp add: append_reserved_suffix_def rsplit_once_def)
  ultimately show ?thesis
    using res by (simp add: lit sanitize_artifact_component_def Let_def)
qed

lemma hex_value_upper: "n < 16 \<Longrightarrow> hex_value (hex_digit_upper n) = Some n"
  by (auto simp: hex_value_def hex_digit_upper_def)

lemma decode_encode_byte:
  assumes "b < 256"
  shows "percent_decode_bytes (encode_byte b @ bs) = b # percent_decode_bytes bs"
proof -
  consider (plain) "is_ascii_alnum b \<or> b \<in> {45, 46, 95, 126}"
    | (blank) "b = 32" | (other) "\<not> (is_ascii_alnum b \<or> b \<in> {45, 46, 95, 126})" "b \<noteq> 32"
    by blast
  then show ?thesis
  proof cases
    case plain
    then have "b \<noteq> 43" "b \<noteq> 37" by (auto simp: is_ascii_alnum_def)
    with plain show ?thesis by (simp add: encode_byte_def)
  next
    case blank
    then show ?thesis by (simp add: encode_byte_def is_ascii_alnum_def hex_value_def)
  next
    case other
    then have "encode_byte b = [37, hex_digit_upper (b div 16), hex_digit_upper (b mod 16)]"
      by (simp add: encode_byte_def)
    moreover have "b div 16 < 16" "b mod 16 < 16" using assms by auto
    ultimately show ?thesis by (simp add: hex_value_upper)
  qed
qed

lemma decode_encode_bytes:
  "\<forall>b \<in> set bs. b < 256 \<Longrightarrow> percent_decode_bytes (concat (map encode_byte bs)) = bs"
  by (induction bs) (auto simp: decode_encode_byte)

lemma utf8_bytes: "\<forall>c \<in> set s. c < 1114112 \<Longrightarrow> \<forall>b \<in> set (utf8 s). b < 256"
  by (auto simp: utf8_def utf8_char_def split: if_splits)

text \<open>Unicode scalar values: the code points that are not surrogates.\<close>

definition scalar :: "rchar \<Rightarrow> bool" where
  "scalar c \<longleftrightarrow> c < 55296 \<or> (57344 \<le> c \<and> c < 1114112)"

lemma utf8_lossy2:
  "2 \<le> x \<Longrightarrow> x < 32 \<Longrightarrow> y < 64 \<Longrightarrow> utf8_lossy ([192 + x, 128 + y] @ bs) = (x * 64 + y) # utf8_lossy bs"
  by (simp add: utf8_cont_def)

lemma utf8_lossy3:
  assumes "x < 16" "y < 64" "z < 64" "x = 0 \<Longrightarrow> 32 \<le> y" "x = 13 \<Longrightarrow> y \<le> 31"
  shows "utf8_lossy ([224 + x, 128 + y, 128 + z] @ bs) = (x * 4096 + y * 64 + z) # utf8_lossy bs"
proof -
  have "utf8_second3 (224 + x) (128 + y)" using assms by (auto simp: utf8_second3_def utf8_cont_def)
  with assms(1-3) show ?thesis by (simp add: utf8_cont_def)
qed

lemma utf8_lossy4:
  assumes "w < 5" "x < 64" "y < 64" "z < 64" "w = 0 \<Longrightarrow> 16 \<le> x" "w = 4 \<Longrightarrow> x \<le> 15"
  shows "utf8_lossy ([240 + w, 128 + x, 128 + y, 128 + z] @ bs)
         = (w * 262144 + x * 4096 + y * 64 + z) # utf8_lossy bs"
proof -
  have "utf8_second4 (240 + w) (128 + x)" using assms by (auto simp: utf8_second4_def utf8_cont_def)
  with assms(1-4) show ?thesis by (simp add: utf8_cont_def)
qed

lemma split64: "c div 4096 * 4096 + c div 64 mod 64 * 64 + c mod 64 = (c::nat)"
proof -
  have "c div 64 div 64 = c div 4096" by (simp add: div_mult2_eq [symmetric])
  with div_mult_mod_eq [of c 64] div_mult_mod_eq [of "c div 64" 64] show ?thesis by linarith
qed

lemma utf8_lossy_char:
  assumes "scalar c" shows "utf8_lossy (utf8_char c @ bs) = c # utf8_lossy bs"
proof -
  consider (one) "c < 128" | (two) "128 \<le> c" "c < 2048" | (three) "2048 \<le> c" "c < 65536"
    | (four) "65536 \<le> c" by linarith
  then show ?thesis
  proof cases
    case one
    then show ?thesis by (simp add: utf8_char_def)
  next
    case two
    have c: "c div 64 * 64 + c mod 64 = c" by simp
    have "2 \<le> c div 64" "c div 64 < 32" "c mod 64 < 64" using two by linarith+
    from utf8_lossy2 [OF this, of bs] c
    have "utf8_lossy ([192 + c div 64, 128 + c mod 64] @ bs) = c # utf8_lossy bs" by metis
    moreover have "utf8_char c = [192 + c div 64, 128 + c mod 64]" using two by (simp add: utf8_char_def)
    ultimately show ?thesis by metis
  next
    case three
    let ?x = "c div 4096" and ?y = "c div 64 mod 64" and ?z = "c mod 64"
    have c: "?x * 4096 + ?y * 64 + ?z = c" by (rule split64)
    have b: "?x < 16" "?y < 64" "?z < 64" using three by linarith+
    have "?x = 0 \<Longrightarrow> 32 \<le> ?y" using three c b by linarith
    moreover have "?x = 13 \<Longrightarrow> ?y \<le> 31" using assms c b unfolding scalar_def by linarith
    ultimately have "utf8_lossy ([224 + ?x, 128 + ?y, 128 + ?z] @ bs) = c # utf8_lossy bs"
      using utf8_lossy3 [OF b, of bs] c by metis
    moreover have "utf8_char c = [224 + ?x, 128 + ?y, 128 + ?z]" using three by (simp add: utf8_char_def)
    ultimately show ?thesis by metis
  next
    case four
    let ?w = "c div 262144" and ?x = "c div 4096 mod 64" and ?y = "c div 64 mod 64" and ?z = "c mod 64"
    have c: "?w * 262144 + ?x * 4096 + ?y * 64 + ?z = c"
      using split64 [of c] div_mult_mod_eq [of "c div 4096" 64] by (simp add: div_mult2_eq [symmetric])
    have b: "?w < 5" "?x < 64" "?y < 64" "?z < 64" using assms unfolding scalar_def by linarith+
    have "?w = 0 \<Longrightarrow> 16 \<le> ?x" using four c b by linarith
    moreover have "?w = 4 \<Longrightarrow> ?x \<le> 15" using assms c b unfolding scalar_def by linarith
    ultimately have "utf8_lossy ([240 + ?w, 128 + ?x, 128 + ?y, 128 + ?z] @ bs) = c # utf8_lossy bs"
      using utf8_lossy4 [OF b, of bs] c by metis
    moreover have "utf8_char c = [240 + ?w, 128 + ?x, 128 + ?y, 128 + ?z]"
      using four by (simp add: utf8_char_def)
    ultimately show ?thesis by metis
  qed
qed

lemma utf8_lossy_utf8: "\<forall>c \<in> set s. scalar c \<Longrightarrow> utf8_lossy (utf8 s) = s"
  by (induction s) (simp_all add: utf8_def utf8_lossy_char)

lemma utf8_ascii: "\<forall>c \<in> set s. c < 128 \<Longrightarrow> utf8 s = s"
  by (induction s) (simp_all add: utf8_def utf8_char_def)

lemma encode_byte_ascii: "b < 256 \<Longrightarrow> c \<in> set (encode_byte b) \<Longrightarrow> c < 128"
  by (auto simp: encode_byte_def is_ascii_alnum_def hex_digit_upper_def split: if_splits)

text \<open>
  The percent encoding that the control plane puts into the download header is undone by the
  decoder that both the control plane and the runner apply to query values: decoding the encoded text
  gives the text back, for every string of Unicode scalar values.
\<close>

theorem percent_decode_encode_header:
  assumes "\<forall>c \<in> set f. scalar c"
  shows "percent_decode_query_value (encode_header_value f) = f"
proof -
  have bytes: "\<forall>b \<in> set (utf8 f). b < 256" using assms by (intro utf8_bytes) (auto simp: scalar_def)
  then have "\<forall>c \<in> set (encode_header_value f). c < 128"
    using encode_byte_ascii by (auto simp: encode_header_value_def)
  then have "utf8 (encode_header_value f) = encode_header_value f" by (rule utf8_ascii)
  moreover have "percent_decode_bytes (encode_header_value f) = utf8 f"
    unfolding encode_header_value_def using bytes by (rule decode_encode_bytes)
  ultimately show ?thesis
    using utf8_lossy_utf8 [OF assms] by (simp add: percent_decode_query_value_def)
qed

theorem percent_decode_encode_header_witness:
  "percent_decode_query_value (encode_header_value [26816, 43, 37, 32, 65]) = [26816, 43, 37, 32, 65]"
  by (rule percent_decode_encode_header) (simp add: scalar_def)

definition header_token_char :: "rchar \<Rightarrow> bool" where
  "header_token_char c \<longleftrightarrow> is_ascii_alnum c \<or> c \<in> {37, 45, 46, 95, 126}"

lemma encode_byte_chars: "b < 256 \<Longrightarrow> c \<in> set (encode_byte b) \<Longrightarrow> header_token_char c"
proof -
  assume b: "b < 256" and c: "c \<in> set (encode_byte b)"
  have "header_token_char (hex_digit_upper n)" if "n < 16" for n
    using that by (simp add: header_token_char_def is_ascii_alnum_def hex_digit_upper_def)
  moreover have "b div 16 < 16" "b mod 16 < 16" using b by auto
  ultimately have hex: "header_token_char (hex_digit_upper (b div 16))"
    "header_token_char (hex_digit_upper (b mod 16))" by blast+
  have "header_token_char 37" "header_token_char 50" "header_token_char 48"
    by (simp_all add: header_token_char_def is_ascii_alnum_def)
  with c hex show "header_token_char c"
    by (cases "is_ascii_alnum b \<or> b \<in> {45, 46, 95, 126}"; cases "b = 32")
      (auto simp: encode_byte_def header_token_char_def [of b] is_ascii_alnum_def [of 32])
qed

lemma ascii_fallback_chars: "c \<in> set (ascii_fallback f) \<Longrightarrow> header_token_char c"
  by (auto simp: ascii_fallback_def Let_def header_token_char_def is_ascii_alnum_def str_def
      split: if_splits)

text \<open>
  Neither of the two renderings of a file name in a download header can break out of it: both
  consist of letters, digits and the characters percent, minus, dot, underscore and tilde only, so
  they hold no quote, no semicolon, no line break and no byte outside ASCII.
\<close>

theorem content_disposition_no_injection:
  assumes "\<forall>c \<in> set f. c < 1114112"
  shows "filter (\<lambda>c. \<not> header_token_char c) (ascii_fallback f @ encode_header_value f) = []"
  using assms ascii_fallback_chars encode_byte_chars utf8_bytes
  by (force simp: filter_empty_conv encode_header_value_def)

theorem content_disposition_no_injection_witness:
  "filter (\<lambda>c. \<not> header_token_char c) (ascii_fallback [34, 13, 10, 59] @ encode_header_value [34, 13, 10, 59]) = []"
  using content_disposition_no_injection [of "[34, 13, 10, 59]"] by simp

text \<open>
  The two crates agree on the names of runtime events: the kind under which the control plane
  files and filters a posted event is the name that the runtime event gives itself, and a
  \<^verbatim>\<open>stream-json\<close> event and the timeline entry it becomes determine each other.
\<close>

theorem runtime_event_kinds_agree:
  "event_kind_name_for_detail (timeline_of_runtime d) = runtime_event_kind d
   \<and> (timeline_of_runtime (runtime_of_shared e) = timeline_of_runtime (runtime_of_shared e') \<longleftrightarrow> e = e')"
  by (cases d) (auto simp: event_kind_name_for_detail_def dest: timeline_of_runtime_inj runtime_of_shared_inj)

section \<open>Decoded values are strings\<close>

lemma scalar_sequence2:
  "194 \<le> b \<Longrightarrow> b \<le> 223 \<Longrightarrow> utf8_cont c \<Longrightarrow> scalar ((b - 192) * 64 + (c - 128))"
  unfolding scalar_def utf8_cont_def by linarith

text \<open>The second byte after 237 is limited so that no surrogate comes out, the one after 244 so that the value stays in range.\<close>

lemma scalar_sequence3:
  assumes "224 \<le> b" "b \<le> 239" "utf8_second3 b c" "utf8_cont d"
  shows "scalar ((b - 224) * 4096 + (c - 128) * 64 + (d - 128))"
proof -
  obtain x where x: "b = 224 + x" using assms(1) le_Suc_ex by blast
  have "128 \<le> c" "128 \<le> d" using assms by (auto simp: utf8_second3_def utf8_cont_def)
  then obtain y z where yz: "c = 128 + y" "d = 128 + z" using le_Suc_ex by metis
  have "x \<le> 15" "y \<le> 63" "z \<le> 63" "x = 13 \<longrightarrow> y \<le> 31"
    using assms by (auto simp: x yz utf8_second3_def utf8_cont_def)
  then show ?thesis by (cases "x < 13"; cases "x = 13") (simp_all add: x yz scalar_def)
qed

lemma scalar_sequence4:
  assumes "240 \<le> b" "b \<le> 244" "utf8_second4 b c" "utf8_cont d" "utf8_cont e"
  shows "scalar ((b - 240) * 262144 + (c - 128) * 4096 + (d - 128) * 64 + (e - 128))"
proof -
  obtain x where x: "b = 240 + x" using assms(1) le_Suc_ex by blast
  have "128 \<le> c" "128 \<le> d" "128 \<le> e" using assms by (auto simp: utf8_second4_def utf8_cont_def)
  then obtain y z u where yz: "c = 128 + y" "d = 128 + z" "e = 128 + u" using le_Suc_ex by metis
  have "x \<le> 4" "y \<le> 63" "z \<le> 63" "u \<le> 63" "x = 0 \<longrightarrow> 16 \<le> y" "x = 4 \<longrightarrow> y \<le> 15"
    using assms by (auto simp: x yz utf8_second4_def utf8_cont_def)
  then show ?thesis by (cases "x = 0"; cases "x = 4") (simp_all add: x yz scalar_def)
qed

lemma scalar_small: "b < 128 \<Longrightarrow> scalar b" "scalar 65533"
  by (simp_all add: scalar_def)

lemma utf8_lossy_typed: "list_all scalar (utf8_lossy bs) \<and> length (utf8_lossy bs) \<le> length bs"
proof (induction bs rule: length_induct)
  case (1 bs)
  show ?case
  proof (cases bs)
    case (Cons b cs)
    have scal: "list_all scalar (utf8_lossy ys)" if "length ys \<le> length cs" for ys using 1 Cons that by simp
    have len: "length (utf8_lossy ys) \<le> k" if "length ys \<le> length cs" "length ys \<le> k" for ys k
      using 1 Cons that by (metis length_Cons less_Suc_eq_le order_trans)
    show ?thesis
      unfolding Cons utf8_lossy.simps(2)
      by (auto simp del: utf8_lossy.simps(2) simp: scalar_small scalar_sequence2 scalar_sequence3 scalar_sequence4 scal len split: list.split)
  qed simp
qed

lemma percent_decode_length: "length (percent_decode_bytes bs) \<le> length bs"
proof (induction bs rule: length_induct)
  case (1 bs)
  show ?case
  proof (cases bs)
    case (Cons b cs)
    have len: "length (percent_decode_bytes ys) \<le> k" if "length ys \<le> length cs" "length ys \<le> k" for ys k
      using 1 Cons that by (metis length_Cons less_Suc_eq_le order_trans)
    show ?thesis
      unfolding Cons percent_decode_bytes.simps(2)
      by (auto simp del: percent_decode_bytes.simps(2) simp: len split: list.split option.split)
  qed simp
qed

text \<open>
  What the decoder of query values gives is a string, whatever it is given: every character is a Unicode
  scalar value, and it has no more characters than the encoded text has bytes.
\<close>

lemma percent_decode_well_typed:
  "list_all scalar (percent_decode_query_value raw) \<and> length (percent_decode_query_value raw) \<le> length (utf8 raw)"
  using utf8_lossy_typed [of "percent_decode_bytes (utf8 raw)"] percent_decode_length [of "utf8 raw"]
  by (auto simp: percent_decode_query_value_def)

text \<open>
  The ways to write a byte in a query value: as it is, unless it is the percent or the plus sign; a space as
  a plus sign; any byte as a percent sign with two hexadecimal digits, each in either case.
\<close>

definition hex_char :: "nat \<Rightarrow> nat \<Rightarrow> bool" where
  "hex_char n c \<longleftrightarrow> n < 10 \<and> c = 48 + n \<or> 10 \<le> n \<and> n < 16 \<and> (c = 55 + n \<or> c = 87 + n)"

definition spells_byte :: "nat \<Rightarrow> nat list \<Rightarrow> bool" where
  "spells_byte b p \<longleftrightarrow> (b \<noteq> 37 \<and> b \<noteq> 43 \<and> p = [b]) \<or> (b = 32 \<and> p = [43])
     \<or> (\<exists>h l. p = [37, h, l] \<and> hex_char (b div 16) h \<and> hex_char (b mod 16) l)"

lemma hex_value_char: "hex_char n c \<Longrightarrow> hex_value c = Some n"
  by (auto simp: hex_char_def hex_value_def)

lemma percent_decode_spelled: "spells_byte b p \<Longrightarrow> percent_decode_bytes (p @ rest) = b # percent_decode_bytes rest"
  by (auto simp: spells_byte_def hex_value_char)

lemma percent_decode_spelled_all: "list_all2 spells_byte bs ps \<Longrightarrow> percent_decode_bytes (concat ps) = bs"
  by (induction rule: list_all2_induct) (simp_all add: percent_decode_spelled)

text \<open>
  C33. The decoder of query values undoes every percent encoding. If the bytes of a query value are, piece by
  piece, ways to write the bytes of a string in UTF-8, then the decoder returns that string: spaces as plus
  signs or escapes, any other byte plain or escaped, hexadecimal digits in either case.
\<close>

theorem percent_decode_spellings:
  assumes "\<forall>c \<in> set f. scalar c" and "list_all2 spells_byte (utf8 f) pieces" and "utf8 raw = concat pieces"
  shows "percent_decode_query_value raw = f"
  using percent_decode_spelled_all [OF assms(2)] utf8_lossy_utf8 [OF assms(1)] assms(3)
  by (simp add: percent_decode_query_value_def)

text \<open>An e with an acute accent, a plus sign, a space and a slash, as \<^verbatim>\<open>%c3%A9%2b+/\<close>.\<close>

theorem percent_decode_spellings_witness:
  "percent_decode_query_value [37, 99, 51, 37, 65, 57, 37, 50, 98, 43, 47] = [233, 43, 32, 47]"
proof (rule percent_decode_spellings)
  show "\<forall>c \<in> set [233, 43, 32, 47]. scalar c" by (simp add: scalar_def)
  show "list_all2 spells_byte (utf8 [233, 43, 32, 47]) [[37, 99, 51], [37, 65, 57], [37, 50, 98], [43], [47]]"
    by (simp add: utf8_def utf8_char_def spells_byte_def hex_char_def)
  show "utf8 [37, 99, 51, 37, 65, 57, 37, 50, 98, 43, 47] = concat [[37, 99, 51], [37, 65, 57], [37, 50, 98], [43], [47]]"
    by (simp add: utf8_ascii)
qed

end
