(* ===== verification/Registry_State.thy ===== *)
theory Registry_State
  imports Cp_Helpers
begin

text \<open>
  The in-memory registry of the control plane (\<^verbatim>\<open>rc-control-plane/src/registry.rs\<close>): its state, the
  secrets it stores, the visibility rules between tenants, and the reading operations.

  What the registry takes from its environment is an argument of the operation that uses it: the
  clock readings (\<open>now\<close>), the random identifiers (\<^verbatim>\<open>Uuid::new_v4\<close>) and the hash function \<open>sha\<close>, which
  stands for the hexadecimal rendering of SHA-256. An operation that can change the registry
  returns the registry it leaves behind beside its result, in error cases too.
\<close>

section \<open>State\<close>

record stored_trusted_device =
  dev_device_id :: uuid
  dev_name :: rstring
  dev_kind :: device_kind
  dev_owner :: bool
  dev_created_by_device_id :: "uuid option"
  dev_created_at :: instant
  dev_last_seen_at :: instant
  dev_token_hash :: rstring
  dev_access_token_hash :: "rstring option"
  dev_access_token_expires_at :: "instant option"
  dev_previous_token_hash :: "rstring option"

record stored_pairing_offer =
  of_offer_id :: uuid
  of_created_by_device_id :: "uuid option"
  of_device_name :: rstring
  of_device_kind :: device_kind
  of_created_at :: instant
  of_expires_at :: instant
  of_pairing_secret_hash :: rstring

record stored_push_token =
  sp_device_id :: uuid
  sp_push_token :: rstring
  sp_platform :: push_platform
  sp_registered_at :: instant
  sp_updated_at :: instant

record user_push_token =
  up_user_id :: rstring
  up_push_token :: rstring
  up_platform :: push_platform
  up_registered_at :: instant
  up_updated_at :: instant

record registry =
  runners :: "(rstring, runner_snapshot) btree"
  sessions :: "(uuid, session_record) btree"
  approvals :: "(uuid, approval_request_record) btree"
  artifacts :: "(uuid, artifact_record) btree"
  trusted_devices :: "(uuid, stored_trusted_device) btree"
  pairing_offers :: "(uuid, stored_pairing_offer) btree"
  owner_device_id :: "uuid option"
  queued_runner_commands :: "(rstring, runner_queued_command list) btree"
  push_tokens :: "(uuid, stored_push_token) btree"
  user_push_tokens :: "(rstring, user_push_token) btree"
  runner_owners :: "(rstring, rstring) btree"
  session_runner_index :: "(uuid, rstring) btree"
  token_hash_to_device :: "(rstring, uuid) btree"
  access_token_hash_to_device :: "(rstring, uuid) btree"

definition registry_default :: registry where
  "registry_default =
     \<lparr> runners = bm_empty, sessions = bm_empty, approvals = bm_empty, artifacts = bm_empty,
       trusted_devices = bm_empty, pairing_offers = bm_empty, owner_device_id = None,
       queued_runner_commands = bm_empty, push_tokens = bm_empty, user_push_tokens = bm_empty,
       runner_owners = bm_empty, session_runner_index = bm_empty,
       token_hash_to_device = bm_empty, access_token_hash_to_device = bm_empty \<rparr>"

record planned_session =
  ps_record :: session_record
  ps_owner_runner :: "runner_snapshot option"

record pending_session_dispatch =
  pd_session_id :: uuid
  pd_workspace_id :: rstring
  pd_metadata :: metadata
  pd_runner :: runner_snapshot

record planned_approval =
  pl_approval :: approval_request_record
  pl_owner_runner :: "runner_snapshot option"
  pl_next_session_state :: session_state
  pl_transition :: "session_state_transition option"

record planned_approval_decision =
  pn_approval :: approval_request_record
  pn_owner_runner :: "runner_snapshot option"
  pn_next_session_state :: "session_state option"
  pn_transition :: "session_state_transition option"

record dual_token_response =
  dt_device :: trusted_device_record
  dt_access_token :: rstring
  dt_refresh_token :: rstring

definition max_total_sessions :: nat where "max_total_sessions = 10000"
definition max_commands_per_runner :: nat where "max_commands_per_runner = 256"
definition max_pairing_offers :: nat where "max_pairing_offers = 64"
definition max_approvals_per_session :: nat where "max_approvals_per_session = 128"

type_synonym hash = "rstring \<Rightarrow> rstring"

section \<open>Secrets\<close>

definition public_record :: "stored_trusted_device \<Rightarrow> trusted_device_record" where
  "public_record d =
     \<lparr> td_device_id = dev_device_id d, td_name = dev_name d, td_kind = dev_kind d,
       td_owner = dev_owner d, td_created_by_device_id = dev_created_by_device_id d,
       td_created_at = dev_created_at d, td_last_seen_at = dev_last_seen_at d \<rparr>"

text \<open>\<^verbatim>\<open>constant_time_value_eq\<close> compares the digests of its arguments.\<close>

definition constant_time_value_eq :: "hash \<Rightarrow> rstring \<Rightarrow> rstring \<Rightarrow> bool" where
  "constant_time_value_eq sha a b \<longleftrightarrow> sha a = sha b"

definition mint_secret :: "rstring \<Rightarrow> uuid \<times> uuid \<Rightarrow> rstring" where
  "mint_secret prefix u = prefix @ [95] @ uuid_simple (fst u) @ uuid_simple (snd u)"

definition normalize_device_name :: "rstring \<Rightarrow> rstring api" where
  "normalize_device_name raw =
     (let trimmed = trim raw
      in if trimmed = [] then Inl (BadRequest ''device name cannot be empty'')
         else let normalized = take 128 trimmed
              in if normalized = [] then Inl (BadRequest ''device name cannot be empty'')
                 else Inr normalized)"

lemma normalize_device_name_eq:
  "normalize_device_name raw =
     (if trim raw = [] then Inl (BadRequest ''device name cannot be empty'')
      else Inr (take 128 (trim raw)))"
  by (simp add: normalize_device_name_def Let_def)

lemma constant_time_value_eq_refl [simp]: "constant_time_value_eq sha a a"
  by (simp add: constant_time_value_eq_def)

section \<open>Rebuilding the indices\<close>

definition rebuild_session_runner_index :: "registry \<Rightarrow> registry" where
  "rebuild_session_runner_index r =
     r\<lparr>session_runner_index :=
         fold (\<lambda>e idx. case ses_owner_runner_id (snd e) of
                         Some rid \<Rightarrow> bm_insert (fst e) rid idx | None \<Rightarrow> idx)
              (entries (sessions r)) bm_empty\<rparr>"

definition rebuild_token_hash_index :: "registry \<Rightarrow> registry" where
  "rebuild_token_hash_index r =
     r\<lparr>token_hash_to_device :=
         fold (\<lambda>e idx. bm_insert (dev_token_hash (snd e)) (fst e) idx)
              (entries (trusted_devices r)) bm_empty,
       access_token_hash_to_device :=
         fold (\<lambda>e idx. case dev_access_token_hash (snd e) of
                         Some h \<Rightarrow> bm_insert h (fst e) idx | None \<Rightarrow> idx)
              (entries (trusted_devices r)) bm_empty\<rparr>"

section \<open>Reading operations\<close>

definition owner_claimed :: "registry \<Rightarrow> bool" where
  "owner_claimed r \<longleftrightarrow> owner_device_id r \<noteq> None"

definition trusted_device_count :: "registry \<Rightarrow> nat" where
  "trusted_device_count r = bm_len (trusted_devices r)"

definition list_trusted_devices :: "registry \<Rightarrow> trusted_device_record list" where
  "list_trusted_devices r = map public_record (bm_values (trusted_devices r))"

definition queued_runner_command_count :: "registry \<Rightarrow> nat" where
  "queued_runner_command_count r = sum_list (map length (bm_values (queued_runner_commands r)))"

text \<open>\<open>None\<close> as user is an administrator, who sees everything.\<close>

definition runner_visible_to :: "registry \<Rightarrow> rstring \<Rightarrow> rstring option \<Rightarrow> bool" where
  "runner_visible_to r rid user =
     (case user of None \<Rightarrow> True
      | Some uid \<Rightarrow> is_some_and (\<lambda>owner. owner = uid) (bm_get (runner_owners r) rid))"

definition session_visible_to :: "session_record \<Rightarrow> rstring option \<Rightarrow> bool" where
  "session_visible_to s user =
     (case user of None \<Rightarrow> True | Some uid \<Rightarrow> ses_owner_user_id s = Some uid)"

definition list_runners_for_user :: "registry \<Rightarrow> rstring option \<Rightarrow> runner_snapshot list" where
  "list_runners_for_user r user =
     filter (\<lambda>s. runner_visible_to r (rr_runner_id (rs_registration s)) user) (bm_values (runners r))"

definition session_owned_by :: "registry \<Rightarrow> uuid \<Rightarrow> rstring option \<Rightarrow> bool" where
  "session_owned_by r sid user =
     is_none_or (\<lambda>uid. is_some_and (\<lambda>s. ses_owner_user_id s = Some uid) (bm_get (sessions r) sid)) user"

definition list_approvals_for_user :: "registry \<Rightarrow> rstring option \<Rightarrow> approval_request_record list" where
  "list_approvals_for_user r user =
     filter (\<lambda>a. session_owned_by r (ap_session_id a) user) (bm_values (approvals r))"

definition list_artifacts_for_user :: "registry \<Rightarrow> rstring option \<Rightarrow> artifact_record list" where
  "list_artifacts_for_user r user =
     filter (\<lambda>a. session_owned_by r (ar_session_id a) user) (bm_values (artifacts r))"

definition get_runner_snapshot :: "registry \<Rightarrow> rstring \<Rightarrow> runner_snapshot api" where
  "get_runner_snapshot r rid =
     (case bm_get (runners r) rid of
        Some s \<Rightarrow> Inr s | None \<Rightarrow> Inl (NotFound ''runner {runner_id} was not found''))"

definition get_session :: "registry \<Rightarrow> uuid \<Rightarrow> session_record api" where
  "get_session r sid =
     (case bm_get (sessions r) sid of
        Some s \<Rightarrow> Inr s | None \<Rightarrow> Inl (NotFound ''session {session_id} was not found''))"

definition get_session_for_user :: "registry \<Rightarrow> uuid \<Rightarrow> rstring option \<Rightarrow> session_record api" where
  "get_session_for_user r sid user =
     bind_result (get_session r sid) (\<lambda>s.
       if \<not> session_visible_to s user then Inl (NotFound ''session {session_id} was not found'')
       else Inr s)"

definition list_sessions_filtered ::
  "registry \<Rightarrow> list_sessions_query \<Rightarrow> rstring option \<Rightarrow> session_record list" where
  "list_sessions_filtered r q user =
     filter (\<lambda>s. is_none_or (\<lambda>uid. ses_owner_user_id s = Some uid) user)
       (filter (\<lambda>s. is_none_or (\<lambda>st. ses_state s = st) (lq_state q))
         (filter (\<lambda>s. is_none_or (\<lambda>w. ses_workspace_id s = w) (lq_workspace_id q))
           (filter (\<lambda>s. is_none_or (\<lambda>rid. ses_owner_runner_id s = Some rid) (lq_runner_id q))
             (bm_values (sessions r)))))"

definition list_approvals :: "registry \<Rightarrow> approval_request_record list" where
  "list_approvals r = bm_values (approvals r)"

definition list_artifacts :: "registry \<Rightarrow> artifact_record list" where
  "list_artifacts r = bm_values (artifacts r)"

definition list_runner_approvals :: "registry \<Rightarrow> rstring \<Rightarrow> approval_request_record list api" where
  "list_runner_approvals r rid =
     (if \<not> bm_contains (runners r) rid then Inl (NotFound ''runner {runner_id} was not found'')
      else Inr (filter (\<lambda>a. ap_runner_id a = rid) (bm_values (approvals r))))"

definition list_runner_artifacts :: "registry \<Rightarrow> rstring \<Rightarrow> artifact_record list api" where
  "list_runner_artifacts r rid =
     (if \<not> bm_contains (runners r) rid then Inl (NotFound ''runner {runner_id} was not found'')
      else Inr (filter (\<lambda>a. ar_runner_id a = Some rid) (bm_values (artifacts r))))"

definition get_artifact :: "registry \<Rightarrow> uuid \<Rightarrow> artifact_record api" where
  "get_artifact r aid =
     (case bm_get (artifacts r) aid of
        Some a \<Rightarrow> Inr a | None \<Rightarrow> Inl (NotFound ''artifact {artifact_id} was not found''))"

definition get_approval :: "registry \<Rightarrow> uuid \<Rightarrow> approval_request_record api" where
  "get_approval r aid =
     (case bm_get (approvals r) aid of
        Some a \<Rightarrow> Inr a | None \<Rightarrow> Inl (NotFound ''approval {approval_id} was not found''))"

definition list_session_approvals :: "registry \<Rightarrow> uuid \<Rightarrow> approval_request_record list api" where
  "list_session_approvals r sid =
     (if \<not> bm_contains (sessions r) sid then Inl (NotFound ''session {session_id} was not found'')
      else Inr (filter (\<lambda>a. ap_session_id a = sid) (bm_values (approvals r))))"

definition list_session_artifacts :: "registry \<Rightarrow> uuid \<Rightarrow> artifact_record list api" where
  "list_session_artifacts r sid =
     (if \<not> bm_contains (sessions r) sid then Inl (NotFound ''session {session_id} was not found'')
      else Inr (filter (\<lambda>a. ar_session_id a = sid) (bm_values (artifacts r))))"

section \<open>Facts about the reading operations\<close>

lemma get_session_for_user_Inr_iff:
  "get_session_for_user r sid user = Inr s \<longleftrightarrow>
     bm_get (sessions r) sid = Some s \<and> session_visible_to s user"
  by (auto simp: get_session_for_user_def get_session_def split: option.splits)

lemma get_session_Inr_iff [simp]: "get_session r sid = Inr s \<longleftrightarrow> bm_get (sessions r) sid = Some s"
  by (auto simp: get_session_def split: option.splits)

lemma get_runner_snapshot_Inr_iff [simp]:
  "get_runner_snapshot r rid = Inr s \<longleftrightarrow> bm_get (runners r) rid = Some s"
  by (auto simp: get_runner_snapshot_def split: option.splits)

lemma get_approval_Inr_iff [simp]: "get_approval r aid = Inr a \<longleftrightarrow> bm_get (approvals r) aid = Some a"
  by (auto simp: get_approval_def split: option.splits)

lemma get_artifact_Inr_iff [simp]: "get_artifact r aid = Inr a \<longleftrightarrow> bm_get (artifacts r) aid = Some a"
  by (auto simp: get_artifact_def split: option.splits)

text \<open>
  What a tenant sees is its own: a collection is filtered by an owner that the registry records.
  The filters of sessions, approvals and artifacts share this contract.
\<close>

locale tenant_view =
  fixes view :: "registry \<Rightarrow> rstring option \<Rightarrow> 'x list"
    and items :: "registry \<Rightarrow> 'x list"
    and owner_of :: "registry \<Rightarrow> 'x \<Rightarrow> rstring option"
  assumes admin_sees_all: "view r None = items r"
    and user_view: "view r (Some uid) = filter (\<lambda>x. owner_of r x = Some uid) (items r)"
begin

lemma tenant_sees_own: "x \<in> set (view r (Some uid)) \<longleftrightarrow> x \<in> set (items r) \<and> owner_of r x = Some uid"
  by (auto simp: user_view)

lemma tenants_disjoint: "uid \<noteq> uid' \<Longrightarrow> set (view r (Some uid)) \<inter> set (view r (Some uid')) = {}"
  by (auto simp: tenant_sees_own)

lemma unowned_hidden: "owner_of r x = None \<Longrightarrow> x \<notin> set (view r (Some uid))"
  by (simp add: tenant_sees_own)

end

definition session_owner :: "registry \<Rightarrow> uuid \<Rightarrow> rstring option" where
  "session_owner r sid = Option.bind (bm_get (sessions r) sid) ses_owner_user_id"

lemma session_owned_by_Some: "session_owned_by r sid (Some uid) \<longleftrightarrow> session_owner r sid = Some uid"
  by (cases "bm_get (sessions r) sid") (simp_all add: session_owned_by_def session_owner_def)

lemma session_owned_by_None [simp]: "session_owned_by r sid None"
  by (simp add: session_owned_by_def)

interpretation approval_view:
  tenant_view list_approvals_for_user list_approvals "\<lambda>r a. session_owner r (ap_session_id a)"
  by unfold_locales (simp_all add: list_approvals_for_user_def list_approvals_def session_owned_by_Some)

interpretation artifact_view:
  tenant_view list_artifacts_for_user list_artifacts "\<lambda>r a. session_owner r (ar_session_id a)"
  by unfold_locales (simp_all add: list_artifacts_for_user_def list_artifacts_def session_owned_by_Some)

interpretation runner_view:
  tenant_view list_runners_for_user "\<lambda>r. bm_values (runners r)"
    "\<lambda>r s. bm_get (runner_owners r) (rr_runner_id (rs_registration s))"
  by unfold_locales
    (simp_all add: list_runners_for_user_def runner_visible_to_def is_some_and_iff)

interpretation session_view:
  tenant_view "\<lambda>r user. list_sessions_filtered r q user" "\<lambda>r. list_sessions_filtered r q None"
    "\<lambda>r s. ses_owner_user_id s" for q
  by unfold_locales (simp_all add: list_sessions_filtered_def)

end
