(* ===== verification/Registry_Devices.thy ===== *)
theory Registry_Devices
  imports Registry_State
begin

text \<open>
  Trusted devices, their access and refresh tokens, the owner's bootstrap claim, pairing offers and
  push tokens: the first part of \<^verbatim>\<open>impl Registry\<close> in \<^verbatim>\<open>rc-control-plane/src/registry.rs\<close>.
\<close>

section \<open>Revocation\<close>

definition revoke_device :: "uuid \<Rightarrow> registry \<Rightarrow> trusted_device_record api \<times> registry" where
  "revoke_device did r =
     (case bm_get (trusted_devices r) did of
        None \<Rightarrow> (Inl (NotFound ''device {device_id} was not found''), r)
      | Some removed \<Rightarrow>
          (Inr (public_record removed),
           r\<lparr>trusted_devices := bm_remove did (trusted_devices r),
             owner_device_id := (if dev_owner removed then None else owner_device_id r),
             token_hash_to_device := bm_remove (dev_token_hash removed) (token_hash_to_device r),
             access_token_hash_to_device :=
               (case dev_access_token_hash removed of
                  Some h \<Rightarrow> bm_remove h (access_token_hash_to_device r)
                | None \<Rightarrow> access_token_hash_to_device r),
             push_tokens := bm_remove did (push_tokens r)\<rparr>))"

section \<open>Authentication\<close>

text \<open>The device holds the access token with hash \<open>h\<close>, and the token has not expired.\<close>

definition access_live :: "hash \<Rightarrow> instant \<Rightarrow> rstring \<Rightarrow> stored_trusted_device \<Rightarrow> bool" where
  "access_live sha now h d \<longleftrightarrow>
     is_some_and (\<lambda>at. constant_time_value_eq sha h at) (dev_access_token_hash d)
     \<and> \<not> is_none_or (\<lambda>e. e \<le> now) (dev_access_token_expires_at d)"

text \<open>The device that an access token names: through the index, or by a scan that fills it.\<close>

definition lookup_access_device ::
  "hash \<Rightarrow> instant \<Rightarrow> rstring \<Rightarrow> registry \<Rightarrow> uuid option \<times> registry" where
  "lookup_access_device sha now h r =
     (case bm_get (access_token_hash_to_device r) h of
        Some did \<Rightarrow>
          (if is_some_and (access_live sha now h) (bm_get (trusted_devices r) did)
           then Some did else None, r)
      | None \<Rightarrow>
          (case find (access_live sha now h) (bm_values (trusted_devices r)) of
             Some d \<Rightarrow>
               (Some (dev_device_id d),
                r\<lparr>access_token_hash_to_device :=
                    bm_insert h (dev_device_id d) (access_token_hash_to_device r)\<rparr>)
           | None \<Rightarrow> (None, r)))"

definition lookup_refresh_device :: "hash \<Rightarrow> rstring \<Rightarrow> registry \<Rightarrow> uuid option \<times> registry" where
  "lookup_refresh_device sha h r =
     (let matches = (\<lambda>d. constant_time_value_eq sha h (dev_token_hash d));
          indexed = Option.bind (bm_get (token_hash_to_device r) h) (\<lambda>did.
            if is_some_and matches (bm_get (trusted_devices r) did) then Some did else None)
      in case indexed of
           Some did \<Rightarrow> (Some did, r)
         | None \<Rightarrow>
             (case find matches (bm_values (trusted_devices r)) of
                Some d \<Rightarrow>
                  (Some (dev_device_id d),
                   r\<lparr>token_hash_to_device :=
                       bm_insert h (dev_device_id d) (token_hash_to_device r)\<rparr>)
              | None \<Rightarrow> (None, r)))"

text \<open>\<^verbatim>\<open>get_mut\<close>, stamp, and return the public record with the flag telling the token's type.\<close>

definition touch_device ::
  "instant \<Rightarrow> uuid \<Rightarrow> bool \<Rightarrow> registry \<Rightarrow> (trusted_device_record \<times> bool) option \<times> registry" where
  "touch_device now did is_access r =
     (case bm_get (trusted_devices r) did of
        None \<Rightarrow> (None, r)
      | Some d \<Rightarrow>
          (let d' = d\<lparr>dev_last_seen_at := now\<rparr>
           in (Some (public_record d', is_access),
               r\<lparr>trusted_devices := bm_insert did d' (trusted_devices r)\<rparr>)))"

definition authenticate_device_token ::
  "hash \<Rightarrow> instant \<Rightarrow> rstring \<Rightarrow> registry \<Rightarrow> (trusted_device_record \<times> bool) option \<times> registry" where
  "authenticate_device_token sha now token r =
     (let h = sha token
      in case lookup_access_device sha now h r of
           (Some did, r1) \<Rightarrow> touch_device now did True r1
         | (None, r1) \<Rightarrow>
             (case lookup_refresh_device sha h r1 of
                (Some did, r2) \<Rightarrow> touch_device now did False r2
              | (None, r2) \<Rightarrow> (None, r2)))"

section \<open>Refresh with rotation\<close>

definition access_token_ttl :: int where
  "access_token_ttl = minutes 15"

definition previous_matches :: "hash \<Rightarrow> rstring \<Rightarrow> stored_trusted_device \<Rightarrow> bool" where
  "previous_matches sha h d \<longleftrightarrow>
     is_some_and (\<lambda>p. constant_time_value_eq sha h p) (dev_previous_token_hash d)"

text \<open>The indices after the rotation of a device's tokens.\<close>

definition rotate_indices :: "rstring \<Rightarrow> rstring \<Rightarrow> rstring \<Rightarrow> uuid \<Rightarrow> registry \<Rightarrow> registry" where
  "rotate_indices h access_hash refresh_hash did r =
     (let t1 = bm_remove h (token_hash_to_device r);
          a1 = (case Option.bind (bm_get (trusted_devices r) did) dev_access_token_hash of
                  Some old \<Rightarrow> bm_remove old (access_token_hash_to_device r)
                | None \<Rightarrow> access_token_hash_to_device r)
      in r\<lparr>token_hash_to_device := bm_insert refresh_hash did t1,
           access_token_hash_to_device := bm_insert access_hash did a1\<rparr>)"

definition refresh_access_token ::
  "hash \<Rightarrow> instant \<Rightarrow> uuid \<times> uuid \<Rightarrow> uuid \<times> uuid \<Rightarrow> rstring \<Rightarrow> registry
   \<Rightarrow> (trusted_device_record \<times> rstring \<times> rstring) api \<times> registry" where
  "refresh_access_token sha now ua ur refresh_token r =
     (let h = sha refresh_token
      in case find (previous_matches sha h) (bm_values (trusted_devices r)) of
           Some d \<Rightarrow>
             (Inl (Unauthorized ''refresh token reuse detected: device revoked''),
              snd (revoke_device (dev_device_id d) r))
         | None \<Rightarrow>
             (case lookup_refresh_device sha h r of
                (None, r1) \<Rightarrow> (Inl (Unauthorized ''invalid or expired refresh token''), r1)
              | (Some did, r1) \<Rightarrow>
                  (let new_access = mint_secret (str ''rcat'') ua;
                       new_refresh = mint_secret (str ''rcrt'') ur;
                       r2 = rotate_indices h (sha new_access) (sha new_refresh) did r1
                   in case bm_get (trusted_devices r2) did of
                        None \<Rightarrow> (Inl (Internal ''device disappeared during token refresh''), r2)
                      | Some d \<Rightarrow>
                          (let d' = d\<lparr>dev_previous_token_hash := Some (dev_token_hash d),
                                      dev_token_hash := sha new_refresh,
                                      dev_access_token_hash := Some (sha new_access),
                                      dev_access_token_expires_at := Some (now + access_token_ttl),
                                      dev_last_seen_at := now\<rparr>
                           in (Inr (public_record d', new_access, new_refresh),
                               r2\<lparr>trusted_devices := bm_insert did d' (trusted_devices r2)\<rparr>)))))"

section \<open>Claiming and pairing\<close>

text \<open>A new device with freshly minted tokens, and its registration in the map and both indices.\<close>

definition new_device ::
  "hash \<Rightarrow> instant \<Rightarrow> uuid \<Rightarrow> rstring \<Rightarrow> device_kind \<Rightarrow> bool \<Rightarrow> uuid option \<Rightarrow> rstring \<Rightarrow> rstring
   \<Rightarrow> stored_trusted_device" where
  "new_device sha now did name kind owner creator access refresh =
     \<lparr> dev_device_id = did, dev_name = name, dev_kind = kind, dev_owner = owner,
       dev_created_by_device_id = creator, dev_created_at = now, dev_last_seen_at = now,
       dev_token_hash = sha refresh, dev_access_token_hash = Some (sha access),
       dev_access_token_expires_at = Some (now + access_token_ttl),
       dev_previous_token_hash = None \<rparr>"

definition add_device :: "stored_trusted_device \<Rightarrow> registry \<Rightarrow> registry" where
  "add_device d r =
     r\<lparr>trusted_devices := bm_insert (dev_device_id d) d (trusted_devices r),
       token_hash_to_device := bm_insert (dev_token_hash d) (dev_device_id d) (token_hash_to_device r),
       access_token_hash_to_device :=
         (case dev_access_token_hash d of
            Some h \<Rightarrow> bm_insert h (dev_device_id d) (access_token_hash_to_device r)
          | None \<Rightarrow> access_token_hash_to_device r)\<rparr>"

definition bootstrap_claim ::
  "hash \<Rightarrow> instant \<Rightarrow> uuid \<Rightarrow> uuid \<times> uuid \<Rightarrow> uuid \<times> uuid \<Rightarrow> rstring option \<Rightarrow> bootstrap_claim_request
   \<Rightarrow> registry \<Rightarrow> dual_token_response api \<times> registry" where
  "bootstrap_claim sha now did ur ua expected_secret_hash req r =
     (if owner_claimed r
      then (Inl (Conflict ''the control plane owner device has already been claimed''), r)
      else case expected_secret_hash of
        None \<Rightarrow>
          (Inl (ServiceUnavailable
             ''bootstrap claiming is disabled because no bootstrap secret is configured''), r)
      | Some expected \<Rightarrow>
          if \<not> constant_time_value_eq sha (sha (trim (bc_bootstrap_secret req))) expected
          then (Inl (Unauthorized ''bootstrap secret is missing or invalid''), r)
          else case normalize_device_name (bc_device_name req) of
            Inl e \<Rightarrow> (Inl e, r)
          | Inr name \<Rightarrow>
              (let refresh = mint_secret (str ''rcrt'') ur;
                   access = mint_secret (str ''rcat'') ua;
                   d = new_device sha now did name (bc_device_kind req) True None access refresh
               in (Inr \<lparr>dt_device = public_record d, dt_access_token = access, dt_refresh_token = refresh\<rparr>,
                   add_device d (r\<lparr>owner_device_id := Some did\<rparr>))))"

definition prune_expired_pairing_offers :: "instant \<Rightarrow> registry \<Rightarrow> registry" where
  "prune_expired_pairing_offers now r =
     r\<lparr>pairing_offers := bm_retain (\<lambda>_ offer. now \<le> of_expires_at offer) (pairing_offers r),
       runner_owners := bm_retain (\<lambda>rid _. bm_contains (runners r) rid) (runner_owners r)\<rparr>"

definition create_pairing_offer ::
  "hash \<Rightarrow> instant \<Rightarrow> instant \<Rightarrow> uuid \<Rightarrow> uuid \<times> uuid \<Rightarrow> uuid option \<Rightarrow> pairing_offer_create_request
   \<Rightarrow> registry \<Rightarrow> (stored_pairing_offer \<times> rstring) api \<times> registry" where
  "create_pairing_offer sha t_prune created_at oid us creator req r =
     (if \<not> owner_claimed r
      then (Inl (Conflict ''claim the owner device before creating pairing offers''), r)
      else
        (let r1 = prune_expired_pairing_offers t_prune r;
             r2 = r1\<lparr>pairing_offers :=
                       evict_while_full of_expires_at max_pairing_offers (pairing_offers r1)\<rparr>;
             ttl = clamp_nat 60 max_pairing_ttl_secs
                     (unwrap_or default_pairing_ttl_secs (po_expires_in_secs req));
             secret = mint_secret (str ''rcpo'') us
         in case normalize_device_name (po_device_name req) of
              Inl e \<Rightarrow> (Inl e, r2)
            | Inr name \<Rightarrow>
                (let offer =
                   \<lparr> of_offer_id = oid, of_created_by_device_id = creator, of_device_name = name,
                     of_device_kind = po_device_kind req, of_created_at = created_at,
                     of_expires_at = created_at + seconds (int ttl),
                     of_pairing_secret_hash = sha secret \<rparr>
                 in (Inr (offer, secret),
                     r2\<lparr>pairing_offers := bm_insert oid offer (pairing_offers r2)\<rparr>))))"

definition accept_pairing_offer ::
  "hash \<Rightarrow> instant \<Rightarrow> instant \<Rightarrow> instant \<Rightarrow> uuid \<Rightarrow> uuid \<times> uuid \<Rightarrow> uuid \<times> uuid
   \<Rightarrow> pairing_accept_request \<Rightarrow> registry \<Rightarrow> dual_token_response api \<times> registry" where
  "accept_pairing_offer sha t_prune t_check now did ur ua req r =
     (let r1 = prune_expired_pairing_offers t_prune r
      in case bm_get (pairing_offers r1) (pa_offer_id req) of
           None \<Rightarrow> (Inl (NotFound ''pairing offer {offer_id} was not found''), r1)
         | Some offer \<Rightarrow>
             (let r2 = r1\<lparr>pairing_offers := bm_remove (pa_offer_id req) (pairing_offers r1)\<rparr>
              in if of_expires_at offer < t_check
                 then (Inl (Conflict ''pairing offer {offer_id} has expired''), r2)
                 else if \<not> constant_time_value_eq sha (sha (trim (pa_pairing_secret req)))
                            (of_pairing_secret_hash offer)
                 then (Inl (Unauthorized ''pairing secret is missing or invalid''), r2)
                 else case normalize_device_name
                             (unwrap_or (of_device_name offer) (pa_device_name req)) of
                   Inl e \<Rightarrow> (Inl e, r2)
                 | Inr name \<Rightarrow>
                     (let refresh = mint_secret (str ''rcrt'') ur;
                          access = mint_secret (str ''rcat'') ua;
                          d = new_device sha now did name
                                (unwrap_or (of_device_kind offer) (pa_device_kind req))
                                False (of_created_by_device_id offer) access refresh
                      in (Inr \<lparr>dt_device = public_record d, dt_access_token = access,
                               dt_refresh_token = refresh\<rparr>,
                          add_device d r2))))"

section \<open>Push tokens\<close>

definition register_push_token ::
  "instant \<Rightarrow> uuid \<Rightarrow> push_token_registration_request \<Rightarrow> registry \<Rightarrow> bool api \<times> registry" where
  "register_push_token now did req r =
     (if \<not> bm_contains (trusted_devices r) did
      then (Inl (NotFound ''device {device_id} is not a trusted device''), r)
      else
        (Inr (\<not> bm_contains (push_tokens r) did),
         r\<lparr>push_tokens :=
             bm_insert did
               \<lparr> sp_device_id = did, sp_push_token = pt_push_token req, sp_platform = pt_platform req,
                 sp_registered_at =
                   unwrap_or now (map_option sp_registered_at (bm_get (push_tokens r) did)),
                 sp_updated_at = now \<rparr> (push_tokens r)\<rparr>))"

definition register_user_push_token ::
  "instant \<Rightarrow> rstring \<Rightarrow> push_token_registration_request \<Rightarrow> registry \<Rightarrow> bool \<times> registry" where
  "register_user_push_token now uid req r =
     (\<not> bm_contains (user_push_tokens r) uid,
      r\<lparr>user_push_tokens :=
          bm_insert uid
            \<lparr> up_user_id = uid, up_push_token = pt_push_token req, up_platform = pt_platform req,
              up_registered_at =
                unwrap_or now (map_option up_registered_at (bm_get (user_push_tokens r) uid)),
              up_updated_at = now \<rparr> (user_push_tokens r)\<rparr>)"

section \<open>The invariant of the device table\<close>

text \<open>
  Every device is stored under its own identifier, the recorded owner is a stored owner device, and
  no other device is an owner. Push tokens belong to stored devices.
\<close>

definition device_keys :: "(uuid, stored_trusted_device) btree \<Rightarrow> bool" where
  "device_keys devs \<longleftrightarrow> (\<forall>k d. bm_get devs k = Some d \<longrightarrow> dev_device_id d = k)"

definition owner_inv :: "(uuid, stored_trusted_device) btree \<Rightarrow> uuid option \<Rightarrow> bool" where
  "owner_inv devs owner \<longleftrightarrow>
     (\<forall>k. owner = Some k \<longleftrightarrow> (\<exists>d. bm_get devs k = Some d \<and> dev_owner d))"

definition push_inv ::
  "(uuid, stored_trusted_device) btree \<Rightarrow> (uuid, stored_push_token) btree \<Rightarrow> bool" where
  "push_inv devs tokens \<longleftrightarrow> (\<forall>k. bm_get tokens k \<noteq> None \<longrightarrow> bm_get devs k \<noteq> None)"

definition device_inv :: "registry \<Rightarrow> bool" where
  "device_inv r \<longleftrightarrow>
     device_keys (trusted_devices r)
     \<and> owner_inv (trusted_devices r) (owner_device_id r)
     \<and> push_inv (trusted_devices r) (push_tokens r)"

lemmas device_inv_defs = device_inv_def device_keys_def owner_inv_def push_inv_def

lemma device_inv_default: "device_inv registry_default"
  by (simp add: device_inv_defs registry_default_def)

lemma device_inv_keyD: "device_inv r \<Longrightarrow> bm_get (trusted_devices r) k = Some d \<Longrightarrow> dev_device_id d = k"
  by (simp add: device_inv_defs)

lemma device_inv_revoke: "device_inv r \<Longrightarrow> device_inv (snd (revoke_device did r))"
  unfolding revoke_device_def
  by (cases "bm_get (trusted_devices r) did")
    (auto simp: device_inv_defs split: option.splits, metis option.inject)

lemma lookup_access_frame:
  "trusted_devices (snd (lookup_access_device sha now h r)) = trusted_devices r"
  "owner_device_id (snd (lookup_access_device sha now h r)) = owner_device_id r"
  "push_tokens (snd (lookup_access_device sha now h r)) = push_tokens r"
  by (simp_all add: lookup_access_device_def split: option.splits)

lemma lookup_refresh_frame:
  "trusted_devices (snd (lookup_refresh_device sha h r)) = trusted_devices r"
  "owner_device_id (snd (lookup_refresh_device sha h r)) = owner_device_id r"
  "push_tokens (snd (lookup_refresh_device sha h r)) = push_tokens r"
  by (simp_all add: lookup_refresh_device_def Let_def split: option.splits)

lemma rotate_indices_frame [simp]:
  "trusted_devices (rotate_indices h a t did r) = trusted_devices r"
  "owner_device_id (rotate_indices h a t did r) = owner_device_id r"
  "push_tokens (rotate_indices h a t did r) = push_tokens r"
  by (simp_all add: rotate_indices_def Let_def)

lemma device_inv_lookup:
  "device_inv (snd (lookup_access_device sha now h r)) = device_inv r"
  "device_inv (snd (lookup_refresh_device sha h r)) = device_inv r"
  by (simp_all add: device_inv_def lookup_access_frame lookup_refresh_frame)

text \<open>Replacing a stored device by one with the same identity and role keeps the invariant.\<close>

lemma device_inv_replace:
  assumes "device_inv r" "trusted_devices r = devs" "bm_get devs did = Some d"
    "dev_device_id d' = dev_device_id d" "dev_owner d' = dev_owner d"
  shows "device_inv (r\<lparr>trusted_devices := bm_insert did d' devs\<rparr>)"
  using assms by (auto simp: device_inv_defs)

lemma device_inv_touch: "device_inv r \<Longrightarrow> device_inv (snd (touch_device now did b r))"
  by (auto simp: touch_device_def Let_def split: option.splits intro: device_inv_replace)

lemma device_inv_authenticate:
  "device_inv r \<Longrightarrow> device_inv (snd (authenticate_device_token sha now token r))"
  using device_inv_lookup device_inv_touch
  by (auto simp: authenticate_device_token_def Let_def split: prod.splits option.splits)
    (metis snd_conv)+

lemma device_inv_refresh:
  assumes "device_inv r"
  shows "device_inv (snd (refresh_access_token sha now ua ur token r))"
proof (cases "find (previous_matches sha (sha token)) (bm_values (trusted_devices r))")
  case (Some d)
  with assms show ?thesis
    by (simp add: refresh_access_token_def device_inv_revoke)
next
  case None
  obtain x r1 where l: "lookup_refresh_device sha (sha token) r = (x, r1)" by force
  then have inv: "device_inv r1" and devs: "trusted_devices r1 = trusted_devices r"
    using assms device_inv_lookup(2) [of sha "sha token" r] lookup_refresh_frame(1) [of sha "sha token" r]
    by simp_all
  show ?thesis
  proof (cases x)
    case None
    with inv l \<open>find _ _ = None\<close> show ?thesis by (simp add: refresh_access_token_def)
  next
    case (Some did)
    have rot: "device_inv (rotate_indices h a t did r1)" for h a t
      using inv by (simp add: device_inv_def)
    show ?thesis
      using rot l Some \<open>find _ _ = None\<close>
      by (auto simp: refresh_access_token_def Let_def split: option.splits intro!: device_inv_replace)
  qed
qed

lemma device_inv_add:
  assumes "device_inv r" "bm_get (trusted_devices r) (dev_device_id d) = None"
    "owner = (if dev_owner d then Some (dev_device_id d) else owner_device_id r)"
    "dev_owner d \<Longrightarrow> owner_device_id r = None"
  shows "device_inv (add_device d (r\<lparr>owner_device_id := owner\<rparr>))"
  using assms by (auto simp: device_inv_defs add_device_def split: option.splits)

lemma device_inv_add_plain:
  assumes "device_inv r" "bm_get (trusted_devices r) (dev_device_id d) = None" "\<not> dev_owner d"
  shows "device_inv (add_device d r)"
  using device_inv_add [OF assms(1,2), of "owner_device_id r"] assms(3) by simp

lemma new_device_simps [simp]:
  "dev_device_id (new_device sha now did name kind owner creator a t) = did"
  "dev_owner (new_device sha now did name kind owner creator a t) = owner"
  "dev_token_hash (new_device sha now did name kind owner creator a t) = sha t"
  "dev_access_token_hash (new_device sha now did name kind owner creator a t) = Some (sha a)"
  "dev_access_token_expires_at (new_device sha now did name kind owner creator a t)
     = Some (now + access_token_ttl)"
  "dev_previous_token_hash (new_device sha now did name kind owner creator a t) = None"
  by (simp_all add: new_device_def)

lemma device_inv_bootstrap:
  assumes "device_inv r" "bm_get (trusted_devices r) did = None"
  shows "device_inv (snd (bootstrap_claim sha now did ur ua expected req r))"
  using assms
  by (auto simp: bootstrap_claim_def Let_def owner_claimed_def split: option.splits sum.splits
      intro!: device_inv_add)

lemma device_inv_frame_offers:
  "device_inv (r\<lparr>pairing_offers := x\<rparr>) = device_inv r"
  "device_inv (prune_expired_pairing_offers now r) = device_inv r"
  by (simp_all add: device_inv_def prune_expired_pairing_offers_def)

lemma device_inv_create_offer:
  "device_inv r \<Longrightarrow> device_inv (snd (create_pairing_offer sha tp tc oid us creator req r))"
  by (auto simp: create_pairing_offer_def Let_def device_inv_frame_offers split: sum.splits)

lemma prune_frame [simp]:
  "trusted_devices (prune_expired_pairing_offers now r) = trusted_devices r"
  by (simp add: prune_expired_pairing_offers_def)

lemma device_inv_accept:
  assumes "device_inv r" "bm_get (trusted_devices r) did = None"
  shows "device_inv (snd (accept_pairing_offer sha tp tc now did ur ua req r))"
  using assms
  by (auto simp: accept_pairing_offer_def Let_def device_inv_frame_offers
      split: option.splits sum.splits intro!: device_inv_add_plain)

lemma device_inv_push:
  "device_inv r \<Longrightarrow> device_inv (snd (register_push_token now did req r))"
  "device_inv r \<Longrightarrow> device_inv (snd (register_user_push_token now uid req r))"
  by (auto simp: register_push_token_def register_user_push_token_def device_inv_defs)

section \<open>Authentication is sound\<close>

lemma find_values_key:
  assumes "device_inv r" "find P (bm_values (trusted_devices r)) = Some d"
  shows "bm_get (trusted_devices r) (dev_device_id d) = Some d \<and> P d"
  using find_Some_D [OF assms(2)] device_inv_keyD [OF assms(1)] by (auto simp: bm_values_iff)

lemma lookup_access_sound:
  assumes "device_inv r" "lookup_access_device sha now h r = (Some did, r1)"
  shows "\<exists>d. bm_get (trusted_devices r) did = Some d \<and> access_live sha now h d"
  using assms
  by (auto simp: lookup_access_device_def is_some_and_iff split: option.splits if_splits
      dest: find_values_key)

lemma lookup_refresh_sound:
  assumes "device_inv r" "lookup_refresh_device sha h r = (Some did, r1)"
  shows "\<exists>d. bm_get (trusted_devices r) did = Some d \<and> constant_time_value_eq sha h (dev_token_hash d)"
  using assms
  by (auto simp: lookup_refresh_device_def Let_def is_some_and_iff bind_eq_Some_conv
      split: option.splits if_splits dest: find_values_key)

lemma touch_device_Some:
  "fst (touch_device now did b r) = Some (rec, b') \<Longrightarrow>
   b' = b \<and> (\<exists>d. bm_get (trusted_devices r) did = Some d \<and> rec = public_record (d\<lparr>dev_last_seen_at := now\<rparr>))"
  by (auto simp: touch_device_def Let_def split: option.splits)

lemma authenticate_sound:
  assumes inv: "device_inv r"
    and res: "fst (authenticate_device_token sha now token r) = Some (rec, is_access)"
  shows "\<exists>d. bm_get (trusted_devices r) (td_device_id rec) = Some d
           \<and> (if is_access then access_live sha now (sha token) d
              else constant_time_value_eq sha (sha token) (dev_token_hash d))"
proof -
  obtain x r1 where l1: "lookup_access_device sha now (sha token) r = (x, r1)" by force
  have d1: "trusted_devices r1 = trusted_devices r" and i1: "device_inv r1"
    using l1 inv lookup_access_frame(1) [of sha now "sha token" r] device_inv_lookup(1) [of sha now "sha token" r]
    by simp_all
  show ?thesis
  proof (cases x)
    case (Some did)
    with res l1 have t: "fst (touch_device now did True r1) = Some (rec, is_access)"
      by (simp add: authenticate_device_token_def)
    obtain d where d: "bm_get (trusted_devices r) did = Some d" "access_live sha now (sha token) d"
      using lookup_access_sound [OF inv l1 [unfolded Some]] by blast
    have "is_access" "td_device_id rec = dev_device_id d"
      using touch_device_Some [OF t] d(1) d1 by (auto simp: public_record_def)
    with d device_inv_keyD [OF inv d(1)] show ?thesis by simp
  next
    case None
    obtain y r2 where l2: "lookup_refresh_device sha (sha token) r1 = (y, r2)" by force
    then have d2: "trusted_devices r2 = trusted_devices r1"
      using lookup_refresh_frame(1) [of sha "sha token" r1] by simp
    from None l1 l2 res obtain did where y: "y = Some did"
      and t: "fst (touch_device now did False r2) = Some (rec, is_access)"
      by (cases y) (simp_all add: authenticate_device_token_def)
    obtain d where d: "bm_get (trusted_devices r) did = Some d"
      "constant_time_value_eq sha (sha token) (dev_token_hash d)"
      using lookup_refresh_sound [OF i1 l2 [unfolded y]] d1 by auto
    have "\<not> is_access" "td_device_id rec = dev_device_id d"
      using touch_device_Some [OF t] d(1) d1 d2 by (auto simp: public_record_def)
    with d device_inv_keyD [OF inv d(1)] show ?thesis by simp
  qed
qed

text \<open>
  C4. Revocation is final. In a consistent registry, once a device is revoked it is no longer stored and
  its push token is gone. And a bearer token is then accepted only on behalf of another device, one that
  was stored before and holds it: as an access token only before the device's expiry instant, otherwise as
  the current refresh token. So no token whatsoever authenticates as the revoked device.
\<close>

theorem revoked_device_never_authenticates:
  assumes "device_inv r"
  shows "let r' = snd (revoke_device did r)
         in bm_get (trusted_devices r') did = None \<and> bm_get (push_tokens r') did = None
            \<and> (\<forall>now token rec is_access.
                 fst (authenticate_device_token sha now token r') = Some (rec, is_access) \<longrightarrow>
                 td_device_id rec \<noteq> did
                 \<and> (\<exists>d. bm_get (trusted_devices r) (td_device_id rec) = Some d
                      \<and> (if is_access
                         then is_some_and (\<lambda>at. sha (sha token) = sha at) (dev_access_token_hash d)
                              \<and> is_some_and (\<lambda>e. now < e) (dev_access_token_expires_at d)
                         else sha (sha token) = sha (dev_token_hash d))))"
proof -
  let ?r = "snd (revoke_device did r)"
  have gone: "bm_get (trusted_devices ?r) did = None" "bm_get (push_tokens ?r) did = None"
    using assms by (auto simp: revoke_device_def device_inv_defs split: option.splits)
  have sub: "bm_get (trusted_devices ?r) k = Some d \<Longrightarrow> bm_get (trusted_devices r) k = Some d" for k d
    by (auto simp: revoke_device_def split: option.splits if_splits)
  have live: "access_live sha now (sha token) d \<Longrightarrow> is_some_and (\<lambda>at. sha (sha token) = sha at) (dev_access_token_hash d)
      \<and> is_some_and (\<lambda>e. now < e) (dev_access_token_expires_at d)" for now token d
    by (auto simp: access_live_def constant_time_value_eq_def is_none_or_def is_some_and_iff
        split: if_splits option.splits)
  have held: "td_device_id rec \<noteq> did \<and> (\<exists>d. bm_get (trusted_devices r) (td_device_id rec) = Some d
      \<and> (if is_access then access_live sha now (sha token) d else sha (sha token) = sha (dev_token_hash d)))"
    if "fst (authenticate_device_token sha now token ?r) = Some (rec, is_access)" for now token rec is_access
    using authenticate_sound [OF device_inv_revoke [OF assms] that] gone(1) sub
    by (auto simp: constant_time_value_eq_def split: if_splits)
  show ?thesis unfolding Let_def using gone held live by (smt (verit))
qed

theorem revoked_device_never_authenticates_witness:
  "let r = add_device (new_device (\<lambda>x. x) 0 8 [66] KindCli False None [3] [4])
             (add_device (new_device (\<lambda>x. x) 0 7 [65] KindCli False None [1] [2]) registry_default)
   in bm_get (trusted_devices r) 7 \<noteq> None \<and> bm_get (trusted_devices (snd (revoke_device 7 r))) 7 = None
      \<and> (\<exists>rec. fst (authenticate_device_token (\<lambda>x. x) 5 [3] (snd (revoke_device 7 r))) = Some (rec, True)
            \<and> td_device_id rec \<noteq> 7)"
proof -
  let ?r = "add_device (new_device (\<lambda>x. x) 0 8 [66] KindCli False None [3] [4])
             (add_device (new_device (\<lambda>x. x) 0 7 [65] KindCli False None [1] [2]) registry_default)"
  have inv: "device_inv ?r"
    by (intro device_inv_add_plain device_inv_default)
      (simp_all add: add_device_def registry_default_def)
  have stored: "bm_get (trusted_devices ?r) 7 \<noteq> None" by (simp add: add_device_def registry_default_def)
  obtain rec where rec: "fst (authenticate_device_token (\<lambda>x. x) 5 [3] (snd (revoke_device 7 ?r))) = Some (rec, True)"
    by (simp add: revoke_device_def add_device_def registry_default_def authenticate_device_token_def
        lookup_access_device_def access_live_def touch_device_def access_token_ttl_def minutes_def seconds_def
        constant_time_value_eq_def Let_def)
  note all = revoked_device_never_authenticates [OF inv, of 7 "\<lambda>x. x", unfolded Let_def]
  from all rec have "td_device_id rec \<noteq> 7" by blast
  with all stored rec show ?thesis unfolding Let_def by blast
qed

section \<open>Issued tokens work, and only for their lifetime\<close>

lemma lookup_access_added:
  assumes "dev_access_token_hash d = Some (sha a)" "dev_access_token_expires_at d = Some e" "now < e"
  shows "lookup_access_device sha now (sha a) (add_device d r) = (Some (dev_device_id d), add_device d r)"
  using assms by (simp add: lookup_access_device_def add_device_def access_live_def)

lemma authenticate_added:
  assumes "dev_access_token_hash d = Some (sha a)" "dev_access_token_expires_at d = Some e" "now < e"
  shows "fst (authenticate_device_token sha now a (add_device d r))
         = Some (public_record (d\<lparr>dev_last_seen_at := now\<rparr>), True)"
  using lookup_access_added [where sha = sha and a = a and r = r, OF assms]
  by (simp add: authenticate_device_token_def touch_device_def add_device_def Let_def)

text \<open>
  C5. The bootstrap claim succeeds exactly when no owner is recorded, a bootstrap secret is configured
  and presented, and the device name is not blank; otherwise it changes nothing. After a success the
  new owner's access token authenticates as that device at every instant before fifteen minutes have
  passed, and every further claim is refused with a conflict, whatever secret it carries.
\<close>

theorem bootstrap_claim_once:
  "let (res, r') = bootstrap_claim sha now did ur ua expected req r
   in (is_ok res \<longleftrightarrow> owner_device_id r = None \<and> trim (bc_device_name req) \<noteq> []
         \<and> is_some_and (\<lambda>h. sha (sha (trim (bc_bootstrap_secret req))) = sha h) expected)
      \<and> (case res of
            Inl e \<Rightarrow> r' = r
          | Inr tokens \<Rightarrow>
              owner_device_id r' = Some did
              \<and> fst (bootstrap_claim sha now2 did2 ur2 ua2 expected2 req2 r')
                  = Inl (Conflict ''the control plane owner device has already been claimed'')
              \<and> (t < now + minutes 15 \<longrightarrow>
                    (\<exists>rec. fst (authenticate_device_token sha t (dt_access_token tokens) r') = Some (rec, True)
                          \<and> td_device_id rec = did \<and> td_owner rec)))"
proof -
  let ?access = "mint_secret (str ''rcat'') ua" and ?refresh = "mint_secret (str ''rcrt'') ur"
  have auth: "t < now + minutes 15 \<Longrightarrow>
     fst (authenticate_device_token sha t ?access
            (add_device (new_device sha now did name kind True None ?access ?refresh)
               (r\<lparr>owner_device_id := Some did\<rparr>)))
     = Some (public_record ((new_device sha now did name kind True None ?access ?refresh)
               \<lparr>dev_last_seen_at := t\<rparr>), True)" for name kind
    by (rule authenticate_added) (simp_all add: access_token_ttl_def)
  have owner: "owner_device_id (add_device d (r\<lparr>owner_device_id := Some did\<rparr>)) = Some did" for d
    by (simp add: add_device_def)
  then show ?thesis using auth
    by (auto simp: bootstrap_claim_def owner_claimed_def constant_time_value_eq_def Let_def
        normalize_device_name_eq public_record_def new_device_def is_some_and_iff
        split: option.splits sum.splits)
qed

theorem bootstrap_claim_once_witness:
  "let (res, r') = bootstrap_claim (\<lambda>x. x) 0 7 (1, 2) (3, 4) (Some [90])
       \<lparr>bc_bootstrap_secret = [90], bc_device_name = [65], bc_device_kind = KindCli\<rparr> registry_default
   in is_ok res \<and> owner_device_id r' = Some 7"
  using bootstrap_claim_once [of "\<lambda>x. x" 0 7 "(1, 2)" "(3, 4)" "Some [90]"
      "\<lparr>bc_bootstrap_secret = [90], bc_device_name = [65], bc_device_kind = KindCli\<rparr>" registry_default
      0 0 "(0, 0)" "(0, 0)" None
      "\<lparr>bc_bootstrap_secret = [], bc_device_name = [], bc_device_kind = KindCli\<rparr>" 0]
  by (cases "fst (bootstrap_claim (\<lambda>x. x) 0 7 (1, 2) (3, 4) (Some [90])
       \<lparr>bc_bootstrap_secret = [90], bc_device_name = [65], bc_device_kind = KindCli\<rparr> registry_default)")
    (simp_all add: split_beta Let_def registry_default_def trim_def trim_end_by_def trim_start_by_def
      is_whitespace_def)

section \<open>Refresh rotation\<close>

text \<open>What a successful refresh leaves behind.\<close>

lemma refresh_Inr_D:
  assumes "device_inv r" "refresh_access_token sha now ua ur token r = (Inr (rec, a, t), r')"
  shows "a = mint_secret (str ''rcat'') ua" "t = mint_secret (str ''rcrt'') ur"
    "find (previous_matches sha (sha token)) (bm_values (trusted_devices r)) = None"
    "\<exists>d. bm_get (trusted_devices r) (td_device_id rec) = Some d
       \<and> constant_time_value_eq sha (sha token) (dev_token_hash d)
       \<and> trusted_devices r' = bm_insert (td_device_id rec)
            (d\<lparr>dev_previous_token_hash := Some (dev_token_hash d), dev_token_hash := sha t,
               dev_access_token_hash := Some (sha a),
               dev_access_token_expires_at := Some (now + access_token_ttl),
               dev_last_seen_at := now\<rparr>) (trusted_devices r)"
    "bm_get (access_token_hash_to_device r') (sha a) = Some (td_device_id rec)"
proof -
  from assms(2) show none: "find (previous_matches sha (sha token)) (bm_values (trusted_devices r)) = None"
    by (cases "find (previous_matches sha (sha token)) (bm_values (trusted_devices r))")
      (simp_all add: refresh_access_token_def)
  obtain x r1 where l: "lookup_refresh_device sha (sha token) r = (x, r1)" by force
  have devs: "trusted_devices r1 = trusted_devices r"
    using l lookup_refresh_frame(1) [of sha "sha token" r] by simp
  from assms(2) none l obtain did where x: "x = Some did"
    by (cases x) (auto simp: refresh_access_token_def)
  obtain d where d: "bm_get (trusted_devices r) did = Some d"
    "constant_time_value_eq sha (sha token) (dev_token_hash d)"
    using lookup_refresh_sound [OF assms(1) l [unfolded x]] by blast
  have key: "dev_device_id d = did" using device_inv_keyD [OF assms(1) d(1)] .
  note step = assms(2) [unfolded refresh_access_token_def Let_def none l x, simplified, unfolded devs d(1)]
  from step show "a = mint_secret (str ''rcat'') ua" "t = mint_secret (str ''rcrt'') ur" by auto
  from step have rec: "td_device_id rec = did" using key by (auto simp: public_record_def)
  with step d show "\<exists>d. bm_get (trusted_devices r) (td_device_id rec) = Some d
       \<and> constant_time_value_eq sha (sha token) (dev_token_hash d)
       \<and> trusted_devices r' = bm_insert (td_device_id rec)
            (d\<lparr>dev_previous_token_hash := Some (dev_token_hash d), dev_token_hash := sha t,
               dev_access_token_hash := Some (sha a),
               dev_access_token_expires_at := Some (now + access_token_ttl),
               dev_last_seen_at := now\<rparr>) (trusted_devices r)"
    using devs by auto
  from step rec show "bm_get (access_token_hash_to_device r') (sha a) = Some (td_device_id rec)"
    by (auto simp: rotate_indices_def Let_def)
qed

text \<open>Presenting a token again after it was rotated is answered as reuse and removes its device.\<close>

lemma refresh_reused:
  assumes "device_inv r"
    and "refresh_access_token sha now ua ur token r = (Inr (rec, access, refresh), r')"
  shows "fst (refresh_access_token sha now2 ua2 ur2 token r')
           = Inl (Unauthorized ''refresh token reuse detected: device revoked'')"
    and "trusted_devices (snd (refresh_access_token sha now2 ua2 ur2 token r'))
           = bm_remove (td_device_id rec) (trusted_devices r)"
proof -
  let ?did = "td_device_id rec"
  have none: "find (previous_matches sha (sha token)) (bm_values (trusted_devices r)) = None"
    using refresh_Inr_D [OF assms] by simp
  obtain d where d: "bm_get (trusted_devices r) ?did = Some d"
    "constant_time_value_eq sha (sha token) (dev_token_hash d)"
    "trusted_devices r' = bm_insert ?did
       (d\<lparr>dev_previous_token_hash := Some (dev_token_hash d), dev_token_hash := sha refresh,
          dev_access_token_hash := Some (sha access),
          dev_access_token_expires_at := Some (now + access_token_ttl),
          dev_last_seen_at := now\<rparr>) (trusted_devices r)" (is "_ = bm_insert _ ?d' _")
    using refresh_Inr_D(4) [OF assms] by blast
  have pm: "previous_matches sha (sha token) ?d'"
    using d(2) by (simp add: previous_matches_def)
  have only: "e = ?d'" if "e \<in> set (bm_values (trusted_devices r'))" "previous_matches sha (sha token) e" for e
    using that none d(3) by (auto simp: bm_values_iff find_None_iff split: if_splits)
  have "?d' \<in> set (bm_values (trusted_devices r'))" using d(3) by (auto simp: bm_values_iff)
  then obtain e where f: "find (previous_matches sha (sha token)) (bm_values (trusted_devices r')) = Some e"
    using pm by (cases "find (previous_matches sha (sha token)) (bm_values (trusted_devices r'))")
      (auto simp: find_None_iff)
  then have "e = ?d'" using only find_Some_D by fast
  with f have f': "find (previous_matches sha (sha token)) (bm_values (trusted_devices r')) = Some ?d'"
    by simp
  have key: "dev_device_id ?d' = ?did" using device_inv_keyD [OF assms(1) d(1)] by simp
  have "trusted_devices (snd (revoke_device ?did r')) = bm_remove ?did (trusted_devices r)"
    using d(3) by (auto simp: revoke_device_def intro: bm_eqI)
  then show "fst (refresh_access_token sha now2 ua2 ur2 token r')
           = Inl (Unauthorized ''refresh token reuse detected: device revoked'')"
    "trusted_devices (snd (refresh_access_token sha now2 ua2 ur2 token r'))
           = bm_remove ?did (trusted_devices r)"
    using f' key by (simp_all add: refresh_access_token_def Let_def)
qed

text \<open>
  C6. Refresh-token rotation. A successful refresh hands out an access token that authenticates as the
  same device until fifteen minutes later. If the rotated token is presented once more before the
  device refreshes again, the call fails as unauthorized and exactly that device is removed from the
  registry; no other device is touched.
\<close>

theorem refresh_rotation_detects_reuse:
  assumes "device_inv r"
    and "refresh_access_token sha now ua ur token r = (Inr (rec, access, refresh), r')"
    and "now' < now + minutes 15"
  shows "fst (authenticate_device_token sha now' access r')
           = Some (public_record ((the (bm_get (trusted_devices r') (td_device_id rec)))
                     \<lparr>dev_last_seen_at := now'\<rparr>), True)
         \<and> fst (refresh_access_token sha now2 ua2 ur2 token r')
           = Inl (Unauthorized ''refresh token reuse detected: device revoked'')
         \<and> trusted_devices (snd (refresh_access_token sha now2 ua2 ur2 token r'))
           = bm_remove (td_device_id rec) (trusted_devices r)"
proof -
  let ?did = "td_device_id rec"
  have idx: "bm_get (access_token_hash_to_device r') (sha access) = Some ?did"
    using refresh_Inr_D [OF assms(1,2)] by simp
  obtain d where d: "trusted_devices r' = bm_insert ?did
       (d\<lparr>dev_previous_token_hash := Some (dev_token_hash d), dev_token_hash := sha refresh,
          dev_access_token_hash := Some (sha access),
          dev_access_token_expires_at := Some (now + access_token_ttl),
          dev_last_seen_at := now\<rparr>) (trusted_devices r)"
    using refresh_Inr_D(4) [OF assms(1,2)] by blast
  have auth: "lookup_access_device sha now' (sha access) r' = (Some ?did, r')"
    using idx d assms(3)
    by (simp add: lookup_access_device_def access_live_def access_token_ttl_def)
  show ?thesis
    using auth d refresh_reused [OF assms(1,2), of now2 ua2 ur2]
    by (simp add: authenticate_device_token_def touch_device_def Let_def)
qed

theorem refresh_rotation_detects_reuse_witness:
  "let r = add_device (new_device (\<lambda>x. x) 0 7 [65] KindCli False None [1] [2]) registry_default
   in \<exists>rec access refresh r'.
        refresh_access_token (\<lambda>x. x) 5 (1, 2) (3, 4) [2] r = (Inr (rec, access, refresh), r')
        \<and> fst (refresh_access_token (\<lambda>x. x) 9 (5, 6) (7, 8) [2] r')
          = Inl (Unauthorized ''refresh token reuse detected: device revoked'')"
proof -
  let ?r = "add_device (new_device (\<lambda>x. x) 0 7 [65] KindCli False None [1] [2]) registry_default"
  have inv: "device_inv ?r"
    by (intro device_inv_add_plain device_inv_default) (simp_all add: registry_default_def)
  obtain rec access refresh r' where
    "refresh_access_token (\<lambda>x. x) 5 (1, 2) (3, 4) [2] ?r = (Inr (rec, access, refresh), r')"
    by (simp add: refresh_access_token_def add_device_def registry_default_def bm_values_def
        previous_matches_def lookup_refresh_device_def Let_def)
  then show ?thesis using refresh_rotation_detects_reuse [OF inv, of "\<lambda>x. x" 5 "(1, 2)" "(3, 4)" "[2]" _ _ _ _ 6
        9 "(5, 6)" "(7, 8)"]
    by (fastforce simp: minutes_def seconds_def)
qed

section \<open>Pairing offers\<close>

lemma trim_mint_secret [simp]: "trim (mint_secret (str ''rcpo'') u) = mint_secret (str ''rcpo'') u"
  by (rule trim_id) (auto simp: mint_secret_def uuid_simple_def str_def is_whitespace_def
      dest!: hex_of_nat_not_whitespace)

text \<open>
  C11. A pairing offer is accepted exactly when it is stored, has not expired, the presented secret is
  the offer's and the resulting device name is not blank. Whatever the outcome, the attempt consumes
  the offer: the next attempt on it is answered ``not found'', even with the right secret, so a secret
  cannot be guessed by trying. A failed attempt adds no device; a successful one adds exactly one
  device, never an owner, recorded as created by the device that made the offer.
\<close>

theorem pairing_offer_single_use:
  "let (res, r') = accept_pairing_offer sha t_prune t_check now did ur ua req r
   in (is_ok res \<longleftrightarrow>
         is_some_and (\<lambda>offer. t_prune \<le> of_expires_at offer \<and> t_check \<le> of_expires_at offer
             \<and> sha (sha (trim (pa_pairing_secret req))) = sha (of_pairing_secret_hash offer)
             \<and> trim (unwrap_or (of_device_name offer) (pa_device_name req)) \<noteq> [])
           (bm_get (pairing_offers r) (pa_offer_id req)))
      \<and> fst (accept_pairing_offer sha t_prune2 t_check2 now2 did2 ur2 ua2
              (req\<lparr>pa_pairing_secret := secret2, pa_device_name := name2, pa_device_kind := kind2\<rparr>) r')
          = Inl (NotFound ''pairing offer {offer_id} was not found'')
      \<and> owner_device_id r' = owner_device_id r
      \<and> (case res of
            Inl e \<Rightarrow> trusted_devices r' = trusted_devices r
          | Inr tokens \<Rightarrow>
              (\<exists>d. trusted_devices r' = bm_insert did d (trusted_devices r)
                  \<and> dt_device tokens = public_record d \<and> \<not> dev_owner d
                  \<and> dev_created_by_device_id d
                    = Option.bind (bm_get (pairing_offers r) (pa_offer_id req)) of_created_by_device_id))"
  by (auto simp: accept_pairing_offer_def prune_expired_pairing_offers_def Let_def bm_get_retain
      constant_time_value_eq_def normalize_device_name_eq add_device_def new_device_def is_some_and_iff
      split: option.splits if_splits sum.splits)

text \<open>
  Creating an offer and accepting it is a round trip, within bounds. Once the owner is claimed, a
  request with a usable name succeeds; at most 64 offers are ever stored afterwards, the lifetime is
  between one minute and one hour whatever was asked for, and the secret handed out redeems the offer
  at every instant up to the expiry, pairing a device of the offered kind.
\<close>

theorem pairing_round_trip:
  assumes "create_pairing_offer sha t_prune created_at oid us creator req r = (Inr (offer, secret), r')"
    and "t1 \<le> of_expires_at offer" and "t2 \<le> of_expires_at offer"
  shows "bm_len (pairing_offers r') \<le> max_pairing_offers
         \<and> created_at + minutes 1 \<le> of_expires_at offer \<and> of_expires_at offer \<le> created_at + minutes 60
         \<and> (\<exists>tokens. fst (accept_pairing_offer sha t1 t2 now did ur ua
                \<lparr>pa_offer_id = oid, pa_pairing_secret = secret, pa_device_name = None, pa_device_kind = None\<rparr> r')
                = Inr tokens
              \<and> td_kind (dt_device tokens) = po_device_kind req
              \<and> td_created_by_device_id (dt_device tokens) = creator)"
proof -
  from assms(1) have name: "trim (po_device_name req) \<noteq> []"
    and off: "of_pairing_secret_hash offer = sha secret" "of_device_kind offer = po_device_kind req"
      "of_created_by_device_id offer = creator" "of_device_name offer = take 128 (trim (po_device_name req))"
      "of_expires_at offer = created_at + seconds (int (clamp_nat 60 max_pairing_ttl_secs
                     (unwrap_or default_pairing_ttl_secs (po_expires_in_secs req))))"
    and secret: "secret = mint_secret (str ''rcpo'') us"
    and stored: "bm_get (pairing_offers r') oid = Some offer"
    and len: "bm_len (pairing_offers r') \<le> max_pairing_offers"
    by (auto simp: create_pairing_offer_def Let_def normalize_device_name_eq max_pairing_offers_def
        evict_insert_len split: if_splits)
  have ttl: "60 \<le> clamp_nat 60 max_pairing_ttl_secs n \<and> clamp_nat 60 max_pairing_ttl_secs n \<le> 3600" for n
    using clamp_nat_bounds [of 60 max_pairing_ttl_secs n] by (simp add: max_pairing_ttl_secs_def)
  have "created_at + minutes 1 \<le> of_expires_at offer \<and> of_expires_at offer \<le> created_at + minutes 60"
    using ttl [of "unwrap_or default_pairing_ttl_secs (po_expires_in_secs req)"]
    by (auto simp: off minutes_def seconds_def)
  moreover have "trim (take 128 (trim (po_device_name req))) \<noteq> []"
    using trim_take_trim [OF name] by simp
  ultimately show ?thesis
    using len stored assms(2,3) off secret
    by (auto simp: accept_pairing_offer_def prune_expired_pairing_offers_def Let_def bm_get_retain
        normalize_device_name_eq new_device_def public_record_def)
qed

theorem pairing_round_trip_witness:
  "\<exists>offer secret r' tokens.
     create_pairing_offer (\<lambda>x. x) 0 0 5 (1, 2) None
       \<lparr>po_device_name = [65], po_device_kind = KindCli, po_expires_in_secs = Some 1\<rparr>
       (registry_default\<lparr>owner_device_id := Some 7\<rparr>) = (Inr (offer, secret), r')
     \<and> fst (accept_pairing_offer (\<lambda>x. x) 60 60 60 9 (1, 2) (3, 4)
           \<lparr>pa_offer_id = 5, pa_pairing_secret = secret, pa_device_name = None, pa_device_kind = None\<rparr> r')
       = Inr tokens"
proof -
  obtain offer secret r' where c: "create_pairing_offer (\<lambda>x. x) 0 0 5 (1, 2) None
       \<lparr>po_device_name = [65], po_device_kind = KindCli, po_expires_in_secs = Some 1\<rparr>
       (registry_default\<lparr>owner_device_id := Some 7\<rparr>) = (Inr (offer, secret), r')"
      and "60 \<le> of_expires_at offer"
    by (simp add: create_pairing_offer_def owner_claimed_def Let_def normalize_device_name_eq
        trim_id is_whitespace_def clamp_nat_def seconds_def max_pairing_ttl_secs_def)
  then show ?thesis using pairing_round_trip [OF c] by blast
qed

section \<open>What device operations leave alone\<close>

text \<open>The part of the registry that the device operations only ever read.\<close>

definition work_part where
  "work_part r = (runners r, sessions r, approvals r, artifacts r, queued_runner_commands r,
                  session_runner_index r)"

lemma work_part_eq_iff:
  "work_part r' = work_part r \<longleftrightarrow>
     runners r' = runners r \<and> sessions r' = sessions r \<and> approvals r' = approvals r
     \<and> artifacts r' = artifacts r \<and> queued_runner_commands r' = queued_runner_commands r
     \<and> session_runner_index r' = session_runner_index r"
  by (simp add: work_part_def)

lemma revoke_work_part: "work_part (snd (revoke_device did r)) = work_part r"
  by (simp add: work_part_def revoke_device_def split: option.splits)

lemma lookup_work_part:
  "work_part (snd (lookup_access_device sha now h r)) = work_part r"
  "work_part (snd (lookup_refresh_device sha h r)) = work_part r"
  "work_part (snd (touch_device now did b r)) = work_part r"
  "work_part (rotate_indices h a t did r) = work_part r"
  by (simp_all add: work_part_def lookup_access_device_def lookup_refresh_device_def touch_device_def
      rotate_indices_def Let_def split: option.splits)

lemma authenticate_work_part: "work_part (snd (authenticate_device_token sha now token r)) = work_part r"
  using lookup_work_part
  by (auto simp: authenticate_device_token_def Let_def split: prod.splits option.splits) (metis snd_conv)+

lemma insert_device_work_part [simp]: "work_part (r\<lparr>trusted_devices := x\<rparr>) = work_part r"
  by (simp add: work_part_def)

lemma refresh_work_part: "work_part (snd (refresh_access_token sha now ua ur token r)) = work_part r"
proof -
  obtain x r1 where l: "lookup_refresh_device sha (sha token) r = (x, r1)" by force
  then have "work_part r1 = work_part r" using lookup_work_part(2) [of sha "sha token" r] by simp
  with l show ?thesis
    by (simp add: refresh_access_token_def revoke_work_part lookup_work_part Let_def split: option.splits)
qed

lemma pairing_work_part:
  "work_part (snd (bootstrap_claim sha now did ur ua expected breq r)) = work_part r"
  "work_part (snd (create_pairing_offer sha tp tc oid us creator oreq r)) = work_part r"
  "work_part (snd (accept_pairing_offer sha tp tc now did ur ua areq r)) = work_part r"
  "work_part (snd (register_push_token now did preq r)) = work_part r"
  "work_part (snd (register_user_push_token now uid preq r)) = work_part r"
  by (simp_all add: work_part_def bootstrap_claim_def create_pairing_offer_def accept_pairing_offer_def
      register_push_token_def register_user_push_token_def add_device_def prune_expired_pairing_offers_def
      Let_def split: option.splits sum.splits)

lemmas device_ops_work_part =
  revoke_work_part authenticate_work_part refresh_work_part pairing_work_part

lemmas device_ops_frame = device_ops_work_part [unfolded work_part_eq_iff]

text \<open>Owners of runners are only ever dropped here, when their runner is unknown.\<close>

definition owners_shrink :: "registry \<Rightarrow> registry \<Rightarrow> bool" where
  "owners_shrink r r' \<longleftrightarrow>
     (\<forall>k v. bm_get (runner_owners r') k = Some v \<longrightarrow> bm_get (runner_owners r) k = Some v)"

lemma owners_shrink_same: "runner_owners r' = runner_owners r \<Longrightarrow> owners_shrink r r'"
  by (simp add: owners_shrink_def)

lemma lookup_owners:
  "runner_owners (snd (lookup_access_device sha now h r)) = runner_owners r"
  "runner_owners (snd (lookup_refresh_device sha h r)) = runner_owners r"
  "runner_owners (snd (touch_device now did b r)) = runner_owners r"
  "runner_owners (rotate_indices h a t did r) = runner_owners r"
  "runner_owners (snd (revoke_device did r)) = runner_owners r"
  by (simp_all add: lookup_access_device_def lookup_refresh_device_def touch_device_def
      rotate_indices_def revoke_device_def Let_def split: option.splits)

lemma authenticate_owners: "runner_owners (snd (authenticate_device_token sha now token r)) = runner_owners r"
  using lookup_owners
  by (auto simp: authenticate_device_token_def Let_def split: prod.splits option.splits) (metis snd_conv)+

lemma refresh_owners: "runner_owners (snd (refresh_access_token sha now ua ur token r)) = runner_owners r"
proof -
  obtain x r1 where l: "lookup_refresh_device sha (sha token) r = (x, r1)" by force
  then have "runner_owners r1 = runner_owners r" using lookup_owners(2) [of sha "sha token" r] by simp
  with l show ?thesis
    by (simp add: refresh_access_token_def lookup_owners Let_def split: option.splits)
qed

lemma device_ops_owners:
  "owners_shrink r (snd (revoke_device did r))"
  "owners_shrink r (snd (authenticate_device_token sha now token r))"
  "owners_shrink r (snd (refresh_access_token sha now ua ur token r))"
  "owners_shrink r (snd (bootstrap_claim sha now did ur ua expected breq r))"
  "owners_shrink r (snd (create_pairing_offer sha tp tc oid us creator oreq r))"
  "owners_shrink r (snd (accept_pairing_offer sha tp tc now did ur ua areq r))"
  "owners_shrink r (snd (register_push_token now did preq r))"
  "owners_shrink r (snd (register_user_push_token now uid preq r))"
  by (simp_all add: owners_shrink_same lookup_owners authenticate_owners refresh_owners
      owners_shrink_def bootstrap_claim_def create_pairing_offer_def accept_pairing_offer_def
      register_push_token_def register_user_push_token_def add_device_def prune_expired_pairing_offers_def
      Let_def split: option.splits sum.splits)

end
