(* ===== verification/Registry_Sessions.thy ===== *)
theory Registry_Sessions
  imports Registry_Devices
begin

text \<open>
  Runners and sessions: registration, heartbeats, placement of sessions on runners, the session state
  machine, the reverse index from sessions to runners, and the reaping of sessions whose runner went
  away (\<^verbatim>\<open>rc-control-plane/src/registry.rs\<close>). Operations named \<open>plan_*\<close> only read; the matching
  \<open>commit_*\<close> runs later, under a new lock, and validates again. The clock is read once per
  operation.
\<close>

section \<open>The session state machine\<close>

definition is_valid_session_transition :: "session_state \<Rightarrow> session_state \<Rightarrow> bool" where
  "is_valid_session_transition from to \<longleftrightarrow>
     from = to \<or>
     (case from of
        Pending \<Rightarrow> to \<in> {Assigned, Cancelled, Failed, Completed}
      | Assigned \<Rightarrow> to \<in> {Running, Pending, Cancelled, Failed, Completed}
      | Running \<Rightarrow> to \<in> {WaitingApproval, Completed, Failed, Cancelled}
      | WaitingApproval \<Rightarrow> to \<in> {Running, Failed, Cancelled, WaitingApproval}
      | Completed \<Rightarrow> False
      | Failed \<Rightarrow> False
      | Cancelled \<Rightarrow> False)"

definition is_terminal :: "session_state \<Rightarrow> bool" where
  "is_terminal st \<longleftrightarrow> st \<in> {Completed, Failed, Cancelled}"

section \<open>Session counts of a runner\<close>

definition counts_as_active :: "session_record \<Rightarrow> bool" where
  "counts_as_active s \<longleftrightarrow> ses_state s \<in> {Assigned, Running, WaitingApproval}"

definition counts_as_queued :: "session_record \<Rightarrow> bool" where
  "counts_as_queued s \<longleftrightarrow> ses_state s = Pending"

text \<open>The sessions that the reverse index lists for a runner, in the order of the index.\<close>

definition indexed_sessions :: "registry \<Rightarrow> rstring \<Rightarrow> session_record list" where
  "indexed_sessions r rid =
     filter_map (\<lambda>e. bm_get (sessions r) (fst e))
       (filter (\<lambda>e. snd e = rid) (entries (session_runner_index r)))"

definition session_count_fold :: "session_record list \<Rightarrow> nat \<times> nat" where
  "session_count_fold xs =
     fold (\<lambda>s (active, queued).
            (if counts_as_active s then active + 1 else active,
             if counts_as_queued s then queued + 1 else queued)) xs (0, 0)"

definition refresh_runner_session_counts :: "rstring \<Rightarrow> instant \<Rightarrow> registry \<Rightarrow> registry" where
  "refresh_runner_session_counts rid timestamp r =
     (case session_count_fold (indexed_sessions r rid) of
        (active, queued) \<Rightarrow>
          r\<lparr>runners := bm_update rid (\<lambda>s.
              s\<lparr>rs_active_sessions := active, rs_queued_sessions := queued,
                rs_state := (if 0 < active then Busy else Idle),
                rs_last_seen_at := max (rs_last_seen_at s) timestamp\<rparr>) (runners r)\<rparr>)"

section \<open>Runners\<close>

definition register_runner ::
  "instant \<Rightarrow> runner_registration_request \<Rightarrow> u64 \<Rightarrow> rstring option \<Rightarrow> registry
   \<Rightarrow> runner_registration_response option \<times> registry" where
  "register_runner now req lease user r =
     (let rid = rr_runner_id req;
          snapshot = \<lparr> rs_registration = req, rs_state = Idle, rs_active_sessions = 0,
                       rs_queued_sessions = 0, rs_registered_at = now, rs_last_seen_at = now \<rparr>;
          r1 = r\<lparr>runners := bm_insert rid snapshot (runners r)\<rparr>;
          r2 = (case user of
                  Some uid \<Rightarrow> r1\<lparr>runner_owners := bm_insert rid uid (runner_owners r1)\<rparr>
                | None \<Rightarrow> r1);
          r3 = refresh_runner_session_counts rid now r2
      in (map_option (\<lambda>s. \<lparr> rg_runner_id = rid, rg_registered_at = now, rg_lease_ttl_secs = lease,
                            rg_snapshot = s \<rparr>) (bm_get (runners r3) rid), r3))"

definition apply_heartbeat ::
  "rstring \<Rightarrow> runner_heartbeat \<Rightarrow> registry \<Rightarrow> runner_snapshot api \<times> registry" where
  "apply_heartbeat rid hb r =
     (case bm_get (runners r) rid of
        None \<Rightarrow> (Inl (NotFound ''runner {runner_id} was not found''), r)
      | Some s \<Rightarrow>
          (let s' = s\<lparr>rs_state := hb_state hb, rs_active_sessions := hb_active_sessions hb,
                      rs_queued_sessions := hb_queued_sessions hb,
                      rs_last_seen_at := hb_timestamp hb\<rparr>
           in (Inr s', r\<lparr>runners := bm_insert rid s' (runners r)\<rparr>)))"

definition select_runner ::
  "instant \<Rightarrow> rstring \<Rightarrow> rstring option \<Rightarrow> u64 \<Rightarrow> rstring option \<Rightarrow> registry \<Rightarrow> rstring option api" where
  "select_runner now workspace preferred lease user r =
     (case preferred of
        Some rid \<Rightarrow>
          (case bm_get (runners r) rid of
             None \<Rightarrow> Inl (NotFound ''runner {runner_id} was not found'')
           | Some s \<Rightarrow>
               if \<not> runner_can_host now s workspace lease
               then Inl (Conflict ''runner {runner_id} is not eligible for workspace {workspace_id}'')
               else Inr (Some rid))
      | None \<Rightarrow>
          Inr (map_option (\<lambda>s. rr_runner_id (rs_registration s))
                (min_by_key (\<lambda>s. (runner_rank (rs_state s), rs_active_sessions s,
                                  rr_runner_id (rs_registration s)))
                  (filter (\<lambda>s. is_none_or (\<lambda>uid. is_some_and (\<lambda>owner. owner = uid)
                              (bm_get (runner_owners r) (rr_runner_id (rs_registration s)))) user)
                    (filter (\<lambda>s. runner_can_host now s workspace lease) (bm_values (runners r)))))))"

section \<open>Creating a session\<close>

definition plan_session ::
  "instant \<Rightarrow> uuid \<Rightarrow> create_session_request \<Rightarrow> u64 \<Rightarrow> rstring option \<Rightarrow> registry \<Rightarrow> planned_session api" where
  "plan_session now fresh req lease user r =
     (let sid = unwrap_or fresh (cs_session_id req)
      in if bm_contains (sessions r) sid
         then Inl (Conflict ''session {session_id} already exists'')
         else if max_total_sessions \<le> bm_len (sessions r)
         then Inl (ServiceUnavailable ''session limit reached'')
         else bind_result
           (select_runner now (cs_workspace_id req) (cs_preferred_runner_id req) lease user r)
           (\<lambda>owner.
             Inr \<lparr> ps_record =
                     \<lparr> ses_session_id = sid, ses_workspace_id = cs_workspace_id req,
                       ses_owner_runner_id = owner,
                       ses_state = (if owner \<noteq> None then Assigned else Pending),
                       ses_metadata = cs_metadata req, ses_created_at = now, ses_updated_at = now,
                       ses_owner_user_id = user \<rparr>,
                   ps_owner_runner = Option.bind owner (bm_get (runners r)) \<rparr>))"

definition commit_session :: "session_record \<Rightarrow> registry \<Rightarrow> session_record api \<times> registry" where
  "commit_session s r =
     (if bm_contains (sessions r) (ses_session_id s)
      then (Inl (Conflict ''session {} already exists''), r)
      else
        (let r1 = (case ses_owner_runner_id s of
                     Some rid \<Rightarrow>
                       r\<lparr>session_runner_index := bm_insert (ses_session_id s) rid (session_runner_index r)\<rparr>
                   | None \<Rightarrow> r);
             r2 = r1\<lparr>sessions := bm_insert (ses_session_id s) s (sessions r1)\<rparr>
         in (Inr s,
             case ses_owner_runner_id s of
               Some rid \<Rightarrow> refresh_runner_session_counts rid (ses_updated_at s) r2
             | None \<Rightarrow> r2)))"

definition apply_session_state_update ::
  "uuid \<Rightarrow> session_state \<Rightarrow> metadata \<Rightarrow> instant \<Rightarrow> registry
   \<Rightarrow> (session_record \<times> session_state) api \<times> registry" where
  "apply_session_state_update sid st meta updated_at r =
     (case bm_get (sessions r) sid of
        None \<Rightarrow> (Inl (NotFound ''session {session_id} was not found''), r)
      | Some s \<Rightarrow>
          if \<not> is_valid_session_transition (ses_state s) st
          then (Inl (Conflict ''invalid session state transition from {previous_state} to {state}''), r)
          else
            (let s' = s\<lparr>ses_state := st, ses_updated_at := updated_at,
                        ses_metadata := bm_extend (ses_metadata s) meta\<rparr>;
                 r1 = r\<lparr>sessions := bm_insert sid s' (sessions r)\<rparr>;
                 r2 = r1\<lparr>session_runner_index :=
                       (case ses_owner_runner_id s' of
                          Some rid \<Rightarrow> bm_insert sid rid (session_runner_index r1)
                        | None \<Rightarrow> bm_remove sid (session_runner_index r1))\<rparr>;
                 r3 = (case ses_owner_runner_id s' of
                         Some rid \<Rightarrow> refresh_runner_session_counts rid updated_at r2
                       | None \<Rightarrow> r2)
             in (Inr (s', ses_state s), r3)))"

section \<open>Reaping sessions of runners that went away\<close>

text \<open>
  The product is a wrapping 64-bit multiplication, reinterpreted as signed (\<^verbatim>\<open>as i64\<close>).
\<close>

definition reap_cutoff :: "instant \<Rightarrow> u64 \<Rightarrow> instant" where
  "reap_cutoff now lease = now - seconds (sint (lease * 3))"

text \<open>The runner of a session to be reaped, and whether that runner is still registered.\<close>

definition reap_owner :: "instant \<Rightarrow> registry \<Rightarrow> session_record \<Rightarrow> (rstring \<times> bool) option" where
  "reap_owner cutoff r s =
     (if ses_state s \<noteq> Assigned then None
      else case ses_owner_runner_id s of
        None \<Rightarrow> None
      | Some rid \<Rightarrow>
          (case bm_get (runners r) rid of
             None \<Rightarrow> Some (rid, False)
           | Some runner \<Rightarrow> if rs_last_seen_at runner < cutoff then Some (rid, True) else None))"

definition reap_session :: "instant \<Rightarrow> session_record \<Rightarrow> session_record" where
  "reap_session now s = s\<lparr>ses_state := Pending, ses_owner_runner_id := None, ses_updated_at := now\<rparr>"

definition reap_orphaned_assigned_sessions ::
  "instant \<Rightarrow> u64 \<Rightarrow> registry \<Rightarrow> (uuid \<times> rstring \<times> session_state) list \<times> registry" where
  "reap_orphaned_assigned_sessions now lease r =
     (let cutoff = reap_cutoff now lease;
          all = bm_values (sessions r);
          reaped = filter_map (\<lambda>s. map_option (\<lambda>(rid, _). (ses_session_id s, rid, ses_state s))
                                    (reap_owner cutoff r s)) all;
          needing_refresh = filter_map (\<lambda>s. case reap_owner cutoff r s of
                                              Some (rid, True) \<Rightarrow> Some rid | _ \<Rightarrow> None) all;
          r1 = r\<lparr>sessions := bm_map (\<lambda>_ s. if reap_owner cutoff r s \<noteq> None then reap_session now s else s)
                              (sessions r),
                 session_runner_index :=
                   fold (\<lambda>(sid, _, _). bm_remove sid) reaped (session_runner_index r)\<rparr>
      in (reaped, fold (\<lambda>rid. refresh_runner_session_counts rid now) needing_refresh r1))"

section \<open>Dispatching pending sessions\<close>

definition plan_next_pending_session_for_runner ::
  "instant \<Rightarrow> rstring \<Rightarrow> u64 \<Rightarrow> uuid set \<Rightarrow> registry \<Rightarrow> pending_session_dispatch option api" where
  "plan_next_pending_session_for_runner now rid lease skipped r =
     bind_result (get_runner_snapshot r rid) (\<lambda>runner.
       Inr (min_by_key (\<lambda>d. map_option (\<lambda>s. (ses_created_at s, ses_session_id s))
                              (bm_get (sessions r) (pd_session_id d)))
             (filter_map (\<lambda>s.
                case select_runner now (ses_workspace_id s) None lease (ses_owner_user_id s) r of
                  Inl _ \<Rightarrow> None
                | Inr selected \<Rightarrow>
                    if selected = Some rid
                    then Some \<lparr> pd_session_id = ses_session_id s, pd_workspace_id = ses_workspace_id s,
                                pd_metadata = ses_metadata s, pd_runner = runner \<rparr>
                    else None)
               (filter (\<lambda>s. ses_session_id s \<notin> skipped)
                 (filter (\<lambda>s. ses_owner_runner_id s = None)
                   (filter (\<lambda>s. ses_state s = Pending) (bm_values (sessions r))))))))"

definition commit_pending_session_dispatch ::
  "uuid \<Rightarrow> rstring \<Rightarrow> runner_session_record \<Rightarrow> registry \<Rightarrow> (session_record \<times> session_state) api \<times> registry" where
  "commit_pending_session_dispatch sid rid dispatched r =
     (case bm_get (sessions r) sid of
        None \<Rightarrow> (Inl (NotFound ''session {session_id} was not found''), r)
      | Some s \<Rightarrow>
          if ses_state s \<noteq> Pending \<or> ses_owner_runner_id s \<noteq> None
          then (Inl (Conflict ''session {session_id} is no longer pending dispatch''), r)
          else
            (let s' = s\<lparr>ses_owner_runner_id := Some rid,
                        ses_state := session_state_from_runner (rsr_state dispatched),
                        ses_metadata := rsr_metadata dispatched,
                        ses_updated_at := rsr_updated_at dispatched\<rparr>;
                 r1 = r\<lparr>sessions := bm_insert sid s' (sessions r),
                        session_runner_index := bm_insert sid rid (session_runner_index r)\<rparr>
             in (Inr (s', ses_state s),
                 refresh_runner_session_counts rid (rsr_updated_at dispatched) r1)))"

section \<open>The reverse index\<close>

text \<open>
  The reverse index names, for every session, exactly its owning runner; sessions and runners are
  stored under their own identifiers; only registered runners have an owning user.
\<close>

definition index_inv :: "(uuid, session_record) btree \<Rightarrow> (uuid, rstring) btree \<Rightarrow> bool" where
  "index_inv ss idx \<longleftrightarrow> (\<forall>sid. bm_get idx sid = Option.bind (bm_get ss sid) ses_owner_runner_id)"

definition session_keys :: "(uuid, session_record) btree \<Rightarrow> bool" where
  "session_keys ss \<longleftrightarrow> (\<forall>k s. bm_get ss k = Some s \<longrightarrow> ses_session_id s = k)"

definition runner_keys :: "(rstring, runner_snapshot) btree \<Rightarrow> bool" where
  "runner_keys rs \<longleftrightarrow> (\<forall>k s. bm_get rs k = Some s \<longrightarrow> rr_runner_id (rs_registration s) = k)"

definition owners_inv :: "(rstring, runner_snapshot) btree \<Rightarrow> (rstring, rstring) btree \<Rightarrow> bool" where
  "owners_inv rs owners \<longleftrightarrow> (\<forall>k. bm_get owners k \<noteq> None \<longrightarrow> bm_get rs k \<noteq> None)"

definition session_inv :: "registry \<Rightarrow> bool" where
  "session_inv r \<longleftrightarrow>
     index_inv (sessions r) (session_runner_index r) \<and> session_keys (sessions r)
     \<and> runner_keys (runners r) \<and> owners_inv (runners r) (runner_owners r)"

lemmas session_inv_defs = session_inv_def index_inv_def session_keys_def runner_keys_def owners_inv_def

lemma session_inv_default: "session_inv registry_default"
  by (simp add: session_inv_defs registry_default_def)

lemma session_inv_sessionD: "session_inv r \<Longrightarrow> bm_get (sessions r) k = Some s \<Longrightarrow> ses_session_id s = k"
  by (simp add: session_inv_defs)

lemma session_inv_runnerD:
  "session_inv r \<Longrightarrow> bm_get (runners r) k = Some s \<Longrightarrow> rr_runner_id (rs_registration s) = k"
  by (simp add: session_inv_defs)

lemma runner_values_iff:
  "session_inv r \<Longrightarrow> s \<in> set (bm_values (runners r)) \<longleftrightarrow>
   bm_get (runners r) (rr_runner_id (rs_registration s)) = Some s"
  unfolding bm_values_iff using session_inv_runnerD by blast

lemma session_values_iff:
  "session_inv r \<Longrightarrow> s \<in> set (bm_values (sessions r)) \<longleftrightarrow> bm_get (sessions r) (ses_session_id s) = Some s"
  unfolding bm_values_iff using session_inv_sessionD by blast

text \<open>The reference the index replaces: scan every session and compare its owner.\<close>

definition owned_count :: "(session_record \<Rightarrow> bool) \<Rightarrow> rstring \<Rightarrow> registry \<Rightarrow> nat" where
  "owned_count P rid r =
     length (filter (\<lambda>s. ses_owner_runner_id s = Some rid \<and> P s) (bm_values (sessions r)))"

lemma session_count_fold_eq:
  "session_count_fold xs = (length (filter counts_as_active xs), length (filter counts_as_queued xs))"
proof -
  have "fold (\<lambda>s (active, queued).
            (if counts_as_active s then active + 1 else active,
             if counts_as_queued s then queued + 1 else queued)) xs (a, q)
        = (a + length (filter counts_as_active xs), q + length (filter counts_as_queued xs))" for a q
    by (induction xs arbitrary: a q) auto
  from this [of 0 0] show ?thesis by (simp add: session_count_fold_def)
qed

lemma length_filter_filter_map:
  "length (filter P (filter_map f xs)) = length (filter (\<lambda>x. is_some_and P (f x)) xs)"
  by (induction xs) (auto simp: filter_map_def map_filter_simps split: option.splits)

lemma count_entries:
  "length (filter (\<lambda>e. Q (fst e) (snd e)) (entries m)) = card {k. \<exists>v. bm_get m k = Some v \<and> Q k v}"
proof -
  let ?xs = "filter (\<lambda>e. Q (fst e) (snd e)) (entries m)"
  have "{k. \<exists>v. bm_get m k = Some v \<and> Q k v} = set (map fst ?xs)"
    by (force simp: in_entries_iff [symmetric])
  moreover have "distinct (map fst ?xs)"
    by (simp add: distinct_keys distinct_map_filter)
  ultimately show ?thesis by (metis distinct_card length_map)
qed

lemma indexed_count:
  assumes "index_inv (sessions r) (session_runner_index r)"
  shows "length (filter P (indexed_sessions r rid)) = owned_count P rid r"
proof -
  have "length (filter P (indexed_sessions r rid)) =
        length (filter (\<lambda>e. snd e = rid \<and> is_some_and P (bm_get (sessions r) (fst e)))
                  (entries (session_runner_index r)))"
    by (simp add: indexed_sessions_def length_filter_filter_map conj_commute)
  also have "\<dots> = card {k. \<exists>v. bm_get (session_runner_index r) k = Some v \<and>
                           (v = rid \<and> is_some_and P (bm_get (sessions r) k))}"
    by (rule count_entries)
  also have "{k. \<exists>v. bm_get (session_runner_index r) k = Some v \<and>
                           (v = rid \<and> is_some_and P (bm_get (sessions r) k))}
             = {k. \<exists>s. bm_get (sessions r) k = Some s \<and> (ses_owner_runner_id s = Some rid \<and> P s)}"
    using assms by (auto simp: index_inv_def is_some_and_iff bind_eq_Some_conv)
  also have "card \<dots> = owned_count P rid r"
    by (simp add: owned_count_def count_values)
  finally show ?thesis .
qed

text \<open>The operations change session counts of the runner at hand only.\<close>

lemma refresh_counts_simps [simp]:
  "sessions (refresh_runner_session_counts rid t r) = sessions r"
  "session_runner_index (refresh_runner_session_counts rid t r) = session_runner_index r"
  "runner_owners (refresh_runner_session_counts rid t r) = runner_owners r"
  "approvals (refresh_runner_session_counts rid t r) = approvals r"
  "artifacts (refresh_runner_session_counts rid t r) = artifacts r"
  "trusted_devices (refresh_runner_session_counts rid t r) = trusted_devices r"
  "owner_device_id (refresh_runner_session_counts rid t r) = owner_device_id r"
  "push_tokens (refresh_runner_session_counts rid t r) = push_tokens r"
  "queued_runner_commands (refresh_runner_session_counts rid t r) = queued_runner_commands r"
  "pairing_offers (refresh_runner_session_counts rid t r) = pairing_offers r"
  by (simp_all add: refresh_runner_session_counts_def split: prod.splits)

lemma refresh_counts_runner:
  "bm_get (runners (refresh_runner_session_counts rid t r)) k =
   (if k = rid
    then map_option (\<lambda>s.
           s\<lparr>rs_active_sessions := length (filter counts_as_active (indexed_sessions r rid)),
             rs_queued_sessions := length (filter counts_as_queued (indexed_sessions r rid)),
             rs_state := (if 0 < length (filter counts_as_active (indexed_sessions r rid)) then Busy else Idle),
             rs_last_seen_at := max (rs_last_seen_at s) t\<rparr>) (bm_get (runners r) rid)
    else bm_get (runners r) k)"
  by (simp add: refresh_runner_session_counts_def session_count_fold_eq)

lemma session_inv_refresh: "session_inv r \<Longrightarrow> session_inv (refresh_runner_session_counts rid t r)"
  by (auto simp: session_inv_def runner_keys_def owners_inv_def refresh_counts_runner)

lemma session_inv_register: "session_inv r \<Longrightarrow> session_inv (snd (register_runner now req lease user r))"
  unfolding register_runner_def Let_def snd_conv
  by (rule session_inv_refresh) (auto simp: session_inv_defs split: option.splits)

lemma session_inv_heartbeat: "session_inv r \<Longrightarrow> session_inv (snd (apply_heartbeat rid hb r))"
  by (auto simp: apply_heartbeat_def Let_def session_inv_defs split: option.splits)

text \<open>Storing a session together with its index entry keeps the invariant.\<close>

lemma session_inv_put:
  assumes "session_inv r" "sessions r' = bm_insert sid s (sessions r)"
    "runners r' = runners r" "runner_owners r' = runner_owners r" "ses_session_id s = sid"
    "\<And>k. bm_get (session_runner_index r') k
          = (if k = sid then ses_owner_runner_id s else bm_get (session_runner_index r) k)"
  shows "session_inv r'"
  using assms by (auto simp: session_inv_defs)

text \<open>The owner keeps its sessions where only other fields of the session change.\<close>

lemma session_inv_put_same:
  assumes "session_inv r" "sessions r = ss" "bm_get ss sid = Some s" "ses_session_id s' = ses_session_id s"
    "ses_owner_runner_id s' = ses_owner_runner_id s"
  shows "session_inv (r\<lparr>sessions := bm_insert sid s' ss\<rparr>)"
  using assms by (auto simp: session_inv_defs)

lemma index_absent:
  "session_inv r \<Longrightarrow> bm_get (sessions r) sid = None \<Longrightarrow> bm_get (session_runner_index r) sid = None"
  by (simp add: session_inv_defs)

lemma session_inv_commit:
  assumes "session_inv r" shows "session_inv (snd (commit_session s r))"
proof (cases "bm_get (sessions r) (ses_session_id s)")
  case None
  with index_absent [OF assms None] show ?thesis
    by (auto simp: commit_session_def Let_def split: option.splits
        intro!: session_inv_refresh session_inv_put [OF assms])
qed (use assms in \<open>simp add: commit_session_def\<close>)

lemma session_inv_state_update:
  assumes "session_inv r"
  shows "session_inv (snd (apply_session_state_update sid st meta t r))"
proof (cases "bm_get (sessions r) sid")
  case (Some s)
  with assms session_inv_sessionD [OF assms Some] show ?thesis
    by (auto simp: apply_session_state_update_def Let_def split: option.splits
        intro!: session_inv_refresh session_inv_put [OF assms])
qed (use assms in \<open>simp add: apply_session_state_update_def\<close>)

lemma session_inv_dispatch:
  assumes "session_inv r"
  shows "session_inv (snd (commit_pending_session_dispatch sid rid d r))"
proof (cases "bm_get (sessions r) sid")
  case (Some s)
  with assms session_inv_sessionD [OF assms Some] show ?thesis
    by (auto simp: commit_pending_session_dispatch_def Let_def
        intro!: session_inv_refresh session_inv_put [OF assms])
qed (use assms in \<open>simp add: commit_pending_session_dispatch_def\<close>)

lemma fold_refresh_frame [simp]:
  "sessions (fold (\<lambda>rid. refresh_runner_session_counts rid t) rids r) = sessions r"
  "session_runner_index (fold (\<lambda>rid. refresh_runner_session_counts rid t) rids r) = session_runner_index r"
  "runner_owners (fold (\<lambda>rid. refresh_runner_session_counts rid t) rids r) = runner_owners r"
  "approvals (fold (\<lambda>rid. refresh_runner_session_counts rid t) rids r) = approvals r"
  "artifacts (fold (\<lambda>rid. refresh_runner_session_counts rid t) rids r) = artifacts r"
  "trusted_devices (fold (\<lambda>rid. refresh_runner_session_counts rid t) rids r) = trusted_devices r"
  "owner_device_id (fold (\<lambda>rid. refresh_runner_session_counts rid t) rids r) = owner_device_id r"
  "push_tokens (fold (\<lambda>rid. refresh_runner_session_counts rid t) rids r) = push_tokens r"
  "queued_runner_commands (fold (\<lambda>rid. refresh_runner_session_counts rid t) rids r) = queued_runner_commands r"
  "pairing_offers (fold (\<lambda>rid. refresh_runner_session_counts rid t) rids r) = pairing_offers r"
  by (induction rids arbitrary: r) simp_all

lemma session_inv_fold_refresh:
  "session_inv r \<Longrightarrow> session_inv (fold (\<lambda>rid. refresh_runner_session_counts rid t) rids r)"
  by (induction rids arbitrary: r) (simp_all add: session_inv_refresh)

lemma bm_get_fold_remove:
  "bm_get (fold (\<lambda>(sid, _, _). bm_remove sid) xs m) k = (if k \<in> fst ` set xs then None else bm_get m k)"
  by (induction xs arbitrary: m) auto

lemma reap_session_simps [simp]:
  "ses_session_id (reap_session now s) = ses_session_id s"
  "ses_owner_runner_id (reap_session now s) = None"
  "ses_state (reap_session now s) = Pending"
  "ses_owner_user_id (reap_session now s) = ses_owner_user_id s"
  by (simp_all add: reap_session_def)

lemma session_inv_reap:
  assumes "session_inv r"
  shows "session_inv (snd (reap_orphaned_assigned_sessions now lease r))"
proof -
  let ?c = "reap_cutoff now lease"
  have keys: "ses_session_id s = k" if "bm_get (sessions r) k = Some s" for k s
    using session_inv_sessionD [OF assms that] .
  have reaped: "k \<in> fst ` set (filter_map (\<lambda>s. map_option (\<lambda>(rid, _). (ses_session_id s, rid, ses_state s))
                   (reap_owner ?c r s)) (bm_values (sessions r)))
        \<longleftrightarrow> (\<exists>s. bm_get (sessions r) k = Some s \<and> reap_owner ?c r s \<noteq> None)" for k
    using keys by (force simp: image_iff Bex_def set_filter_map bm_values_iff)
  let ?reap = "\<lambda>s. if reap_owner ?c r s \<noteq> None then reap_session now s else s"
  let ?idx = "fold (\<lambda>(sid, _, _). bm_remove sid) (filter_map (\<lambda>s.
      map_option (\<lambda>(rid, _). (ses_session_id s, rid, ses_state s)) (reap_owner ?c r s))
      (bm_values (sessions r))) (session_runner_index r)"
  have "index_inv (bm_map (\<lambda>_. ?reap) (sessions r)) ?idx"
    unfolding index_inv_def
  proof
    fix sid
    show "bm_get ?idx sid = Option.bind (bm_get (bm_map (\<lambda>_. ?reap) (sessions r)) sid) ses_owner_runner_id"
    proof (cases "bm_get (sessions r) sid")
      case None
      with index_absent [OF assms] show ?thesis by (simp add: bm_get_fold_remove reaped)
    next
      case (Some s)
      have "bm_get (session_runner_index r) sid = ses_owner_runner_id s"
        using assms Some by (simp add: session_inv_def index_inv_def)
      with Some show ?thesis by (simp add: bm_get_fold_remove reaped)
    qed
  qed
  moreover have "session_keys (bm_map (\<lambda>_. ?reap) (sessions r))"
    unfolding session_keys_def
  proof (intro allI impI)
    fix k s
    assume "bm_get (bm_map (\<lambda>_. ?reap) (sessions r)) k = Some s"
    then obtain s0 where "bm_get (sessions r) k = Some s0" "s = ?reap s0" by auto
    then show "ses_session_id s = k" using keys [of k s0] by simp
  qed
  ultimately show ?thesis
    using assms unfolding reap_orphaned_assigned_sessions_def Let_def snd_conv
    by (intro session_inv_fold_refresh) (simp add: session_inv_def)
qed

section \<open>Session counts are exact\<close>

text \<open>
  C12. The counts computed through the reverse index are the counts a scan over all sessions gives:
  refreshing a runner sets its active and queued counters to the number of sessions it owns in an
  active and in the pending state, makes it busy exactly when it owns an active one, never moves its
  last contact backwards, and touches no other runner.
\<close>

theorem refresh_counts_equal_scan:
  assumes "session_inv r"
  shows "bm_get (runners (refresh_runner_session_counts rid t r)) k =
         (if k = rid
          then map_option (\<lambda>s.
                 s\<lparr>rs_active_sessions := owned_count counts_as_active rid r,
                   rs_queued_sessions := owned_count counts_as_queued rid r,
                   rs_state := (if 0 < owned_count counts_as_active rid r then Busy else Idle),
                   rs_last_seen_at := max (rs_last_seen_at s) t\<rparr>) (bm_get (runners r) rid)
          else bm_get (runners r) k)"
  using assms by (simp only: refresh_counts_runner indexed_count session_inv_def)

text \<open>A runner with a running, a waiting and a pending session of its own, and one session of nobody.\<close>

definition demo_session :: "uuid \<Rightarrow> session_state \<Rightarrow> rstring option \<Rightarrow> session_record" where
  "demo_session sid st owner =
     \<lparr> ses_session_id = sid, ses_workspace_id = [2], ses_owner_runner_id = owner, ses_state = st,
       ses_metadata = bm_empty, ses_created_at = 0, ses_updated_at = 0, ses_owner_user_id = Some [7] \<rparr>"

definition demo_runner :: runner_snapshot where
  "demo_runner =
     \<lparr> rs_registration = \<lparr> rr_runner_id = [1], rr_control_plane_url = None, rr_public_base_url = None,
         rr_workspaces = [], rr_labels = bm_empty, rr_auth_token = None,
         rr_capabilities = \<lparr> rc_interactive_approvals = True, rc_background_sessions = True,
                             rc_artifact_uploads = True, rc_max_parallel_sessions = 4 \<rparr>,
         rr_platform = \<lparr> rp_os = [], rp_arch = [], rp_family = [] \<rparr> \<rparr>,
       rs_state = Idle, rs_active_sessions = 0, rs_queued_sessions = 0, rs_registered_at = 0, rs_last_seen_at = 9 \<rparr>"

definition demo_counted :: registry where
  "demo_counted = registry_default
     \<lparr>runners := bm_insert [1] demo_runner bm_empty,
      sessions := bm_insert 3 (demo_session 3 Running (Some [1])) (bm_insert 4 (demo_session 4 Pending (Some [1]))
        (bm_insert 5 (demo_session 5 WaitingApproval (Some [1])) (bm_insert 6 (demo_session 6 Pending None) bm_empty))),
      session_runner_index := bm_insert 3 [1] (bm_insert 4 [1] (bm_insert 5 [1] bm_empty))\<rparr>"

lemma session_inv_demo: "session_inv demo_counted"
  by (auto simp: session_inv_defs demo_counted_def demo_session_def demo_runner_def registry_default_def split: if_splits)

theorem refresh_counts_equal_scan_witness:
  "map_option (\<lambda>s. (rs_active_sessions s, rs_queued_sessions s, rs_state s, rs_last_seen_at s))
     (bm_get (runners (refresh_runner_session_counts [1] 5 demo_counted)) [1]) = Some (2, 1, Busy, 9)"
proof -
  have "owned_count counts_as_active [1] demo_counted = 2" "owned_count counts_as_queued [1] demo_counted = 1"
    by (simp_all add: owned_count_def demo_counted_def demo_session_def counts_as_active_def counts_as_queued_def
        bm_values_def registry_default_def)
  with refresh_counts_equal_scan [OF session_inv_demo, of "[1]" 5 "[1]"] show ?thesis
    by (simp add: demo_counted_def demo_runner_def)
qed

lemma owned_count_frame [simp]:
  "owned_count P rid (r\<lparr>runners := x\<rparr>) = owned_count P rid r"
  "owned_count P rid (r\<lparr>runner_owners := y\<rparr>) = owned_count P rid r"
  by (simp_all add: owned_count_def)

lemma indexed_sessions_frame [simp]:
  "indexed_sessions (r\<lparr>runners := x\<rparr>) rid = indexed_sessions r rid"
  "indexed_sessions (r\<lparr>runner_owners := y\<rparr>) rid = indexed_sessions r rid"
  by (simp_all add: indexed_sessions_def)

text \<open>
  Registering a runner always answers (the lookup the code expects to succeed does), and a runner
  that registers again does not appear empty: its counters are those of the sessions it still owns. The
  registering user becomes the runner's owner, whoever owned it before.
\<close>

theorem register_runner_keeps_sessions:
  assumes "session_inv r"
  shows "\<exists>resp r'. register_runner now req lease user r = (Some resp, r')
           \<and> rs_active_sessions (rg_snapshot resp) = owned_count counts_as_active (rr_runner_id req) r
           \<and> rs_queued_sessions (rg_snapshot resp) = owned_count counts_as_queued (rr_runner_id req) r
           \<and> rs_registration (rg_snapshot resp) = req
           \<and> sessions r' = sessions r
           \<and> bm_get (runners r') (rr_runner_id req) = Some (rg_snapshot resp)
           \<and> bm_get (runner_owners r') (rr_runner_id req)
               = (case user of Some uid \<Rightarrow> Some uid | None \<Rightarrow> bm_get (runner_owners r) (rr_runner_id req))"
  using assms indexed_count [of r _ "rr_runner_id req"]
  by (cases user)
    (simp_all add: register_runner_def Let_def refresh_counts_runner session_inv_def
      del: length_greater_0_conv)

theorem register_runner_keeps_sessions_witness:
  "\<exists>resp r'. register_runner 9
      \<lparr> rr_runner_id = [1], rr_control_plane_url = None, rr_public_base_url = None, rr_workspaces = [],
        rr_labels = bm_empty, rr_auth_token = None,
        rr_capabilities = \<lparr> rc_interactive_approvals = True, rc_background_sessions = True,
                            rc_artifact_uploads = True, rc_max_parallel_sessions = 4 \<rparr>,
        rr_platform = \<lparr> rp_os = [], rp_arch = [], rp_family = [] \<rparr> \<rparr> 30 (Some [7]) registry_default
     = (Some resp, r') \<and> bm_get (runner_owners r') [1] = Some [7]"
  using register_runner_keeps_sessions [OF session_inv_default, of 9
      "\<lparr> rr_runner_id = [1], rr_control_plane_url = None, rr_public_base_url = None, rr_workspaces = [],
        rr_labels = bm_empty, rr_auth_token = None,
        rr_capabilities = \<lparr> rc_interactive_approvals = True, rc_background_sessions = True,
                            rc_artifact_uploads = True, rc_max_parallel_sessions = 4 \<rparr>,
        rr_platform = \<lparr> rp_os = [], rp_arch = [], rp_family = [] \<rparr> \<rparr>" 30 "Some [7]"]
  by force

section \<open>Placement\<close>

definition eligible :: "instant \<Rightarrow> rstring \<Rightarrow> u64 \<Rightarrow> rstring option \<Rightarrow> registry \<Rightarrow> rstring \<Rightarrow> bool" where
  "eligible now workspace lease user r rid \<longleftrightarrow>
     is_some_and (\<lambda>s. runner_can_host now s workspace lease) (bm_get (runners r) rid)
     \<and> is_none_or (\<lambda>uid. bm_get (runner_owners r) rid = Some uid) user"

definition placement_key :: "registry \<Rightarrow> rstring \<Rightarrow> nat \<times> nat \<times> rstring" where
  "placement_key r rid =
     (case bm_get (runners r) rid of
        Some s \<Rightarrow> (runner_rank (rs_state s), rs_active_sessions s, rid)
      | None \<Rightarrow> (0, 0, rid))"

lemma select_runner_None_Some:
  assumes "session_inv r" "select_runner now workspace None lease user r = Inr (Some rid)"
  shows "eligible now workspace lease user r rid
         \<and> (\<forall>other. eligible now workspace lease user r other \<longrightarrow> placement_key r rid \<le> placement_key r other)"
proof -
  let ?id = "\<lambda>s. rr_runner_id (rs_registration s)"
  let ?cands = "filter (\<lambda>s. is_none_or (\<lambda>uid. is_some_and (\<lambda>owner. owner = uid)
                  (bm_get (runner_owners r) (?id s))) user)
                (filter (\<lambda>s. runner_can_host now s workspace lease) (bm_values (runners r)))"
  let ?key = "\<lambda>s. (runner_rank (rs_state s), rs_active_sessions s, ?id s)"
  obtain s where s: "min_by_key ?key ?cands = Some s" "?id s = rid"
    using assms(2) by (auto simp: select_runner_def)
  have cand: "c \<in> set ?cands \<longleftrightarrow> bm_get (runners r) (?id c) = Some c \<and> eligible now workspace lease user r (?id c)" for c
    by (cases user) (auto simp: runner_values_iff [OF assms(1)] eligible_def is_some_and_iff)
  from min_by_key_least [OF s(1)] have sm: "s \<in> set ?cands" and least: "\<And>c. c \<in> set ?cands \<Longrightarrow> ?key s \<le> ?key c"
    by blast+
  have "placement_key r rid \<le> placement_key r other" if "eligible now workspace lease user r other" for other
  proof -
    from that obtain c where c: "bm_get (runners r) other = Some c"
      by (auto simp: eligible_def is_some_and_iff)
    with session_inv_runnerD [OF assms(1) c] that have "c \<in> set ?cands" using cand [of c] by simp
    from least [OF this] c session_inv_runnerD [OF assms(1) c] sm cand [of s] s(2) show ?thesis
      by (simp add: placement_key_def)
  qed
  with sm cand [of s] s(2) show ?thesis by blast
qed

lemma select_runner_None_None:
  assumes "session_inv r"
  shows "select_runner now workspace None lease user r = Inr None \<longleftrightarrow>
         (\<nexists>rid. eligible now workspace lease user r rid)"
proof -
  have "(\<exists>s \<in> set (bm_values (runners r)). P s (rr_runner_id (rs_registration s))) \<longleftrightarrow>
        (\<exists>rid s. bm_get (runners r) rid = Some s \<and> P s rid)" for P
    unfolding bm_values_iff Bex_def using session_inv_runnerD [OF assms] by metis
  from this [of "\<lambda>s rid. runner_can_host now s workspace lease
      \<and> is_none_or (\<lambda>uid. bm_get (runner_owners r) rid = Some uid) user"]
  show ?thesis
    by (cases user) (auto simp: select_runner_def filter_empty_conv eligible_def is_some_and_iff)
qed

text \<open>
  Without a preferred runner, placement picks the best eligible runner and fails to place only if
  there is none: the chosen runner is registered, available, has spare capacity, serves the workspace
  and belongs to the requesting tenant, and no other such runner is idler, has fewer active sessions
  or, at a tie, a smaller identifier.
\<close>

theorem select_runner_best:
  assumes "session_inv r"
  shows "case select_runner now workspace None lease user r of
           Inl e \<Rightarrow> False
         | Inr None \<Rightarrow> (\<nexists>rid. eligible now workspace lease user r rid)
         | Inr (Some rid) \<Rightarrow>
             eligible now workspace lease user r rid
             \<and> (\<nexists>other. eligible now workspace lease user r other \<and> placement_key r other < placement_key r rid)"
proof (cases "select_runner now workspace None lease user r")
  case (Inl e)
  then show ?thesis by (simp add: select_runner_def)
next
  case (Inr x)
  with select_runner_None_None [OF assms, of now workspace lease user]
    select_runner_None_Some [OF assms, of now workspace lease user] show ?thesis
    by (cases x) (simp_all add: not_less)
qed

theorem select_runner_best_witness:
  "\<nexists>rid. eligible 0 [2] 30 (Some [7]) registry_default rid"
  using select_runner_best [OF session_inv_default, of 0 "[2]" 30 "Some [7]"]
  by (simp add: select_runner_def registry_default_def bm_values_def)

text \<open>
  With a preferred runner the tenant is not consulted: whoever asks, the answer is the same, so a
  user can have a session placed on another tenant's runner by naming it.
\<close>

theorem preferred_runner_ignores_tenant:
  "select_runner now workspace (Some rid) lease user r = select_runner now workspace (Some rid) lease user' r
   \<and> (select_runner now workspace (Some rid) lease user r = Inr (Some rid) \<longleftrightarrow>
        is_some_and (\<lambda>s. runner_can_host now s workspace lease) (bm_get (runners r) rid))"
  by (simp add: select_runner_def split: option.splits)

section \<open>Life of a session\<close>

text \<open>
  A planned session commits exactly if its identifier is still free, and a refused commit changes
  nothing. Planned and committed without interference, a session is always stored, is assigned exactly
  when it has a runner, is seen by the tenant that asked for it and by no other, and keeps the store
  within 10,000 sessions.
\<close>

theorem session_creation:
  assumes "plan_session now fresh req lease user r = Inr p"
  shows "(\<exists>r'. commit_session (ps_record p) r = (Inr (ps_record p), r')
            \<and> bm_get (sessions r') (unwrap_or fresh (cs_session_id req)) = Some (ps_record p)
            \<and> bm_len (sessions r') \<le> max_total_sessions)
         \<and> (ses_state (ps_record p) = Assigned \<longleftrightarrow> ses_owner_runner_id (ps_record p) \<noteq> None)
         \<and> (session_visible_to (ps_record p) viewer \<longleftrightarrow> viewer = None \<or> viewer = user)
         \<and> (is_ok (fst (commit_session (ps_record p) r2)) \<longleftrightarrow>
              bm_get (sessions r2) (unwrap_or fresh (cs_session_id req)) = None)
         \<and> (snd (commit_session (ps_record p) r2) = r2 \<or> is_ok (fst (commit_session (ps_record p) r2)))"
proof -
  from assms obtain owner where p: "ps_record p =
      \<lparr> ses_session_id = unwrap_or fresh (cs_session_id req), ses_workspace_id = cs_workspace_id req,
        ses_owner_runner_id = owner, ses_state = (if owner \<noteq> None then Assigned else Pending),
        ses_metadata = cs_metadata req, ses_created_at = now, ses_updated_at = now,
        ses_owner_user_id = user \<rparr>"
    and absent: "bm_get (sessions r) (unwrap_or fresh (cs_session_id req)) = None"
    and room: "bm_len (sessions r) < max_total_sessions"
    by (auto simp: plan_session_def Let_def bind_result_def not_le split: if_splits sum.splits)
  have "\<exists>r'. commit_session (ps_record p) r = (Inr (ps_record p), r')
      \<and> bm_get (sessions r') (unwrap_or fresh (cs_session_id req)) = Some (ps_record p)
      \<and> bm_len (sessions r') \<le> max_total_sessions"
    using absent room by (cases owner) (simp_all add: commit_session_def p Let_def bm_len_insert)
  moreover have "session_visible_to (ps_record p) viewer \<longleftrightarrow> viewer = None \<or> viewer = user"
    by (cases viewer) (auto simp: session_visible_to_def p)
  moreover have "is_ok (fst (commit_session (ps_record p) r2)) \<longleftrightarrow>
      bm_get (sessions r2) (unwrap_or fresh (cs_session_id req)) = None"
    by (simp add: commit_session_def p Let_def)
  moreover have "snd (commit_session (ps_record p) r2) = r2 \<or> is_ok (fst (commit_session (ps_record p) r2))"
    by (simp add: commit_session_def Let_def)
  ultimately show ?thesis by (simp add: p)
qed

theorem session_creation_witness:
  "\<exists>p. plan_session 5 8 \<lparr>cs_session_id = None, cs_workspace_id = [2], cs_preferred_runner_id = None,
          cs_metadata = bm_empty\<rparr> 30 (Some [7]) registry_default = Inr p
      \<and> is_ok (fst (commit_session (ps_record p) registry_default))"
proof -
  obtain p where p: "plan_session 5 8 \<lparr>cs_session_id = None, cs_workspace_id = [2], cs_preferred_runner_id = None,
          cs_metadata = bm_empty\<rparr> 30 (Some [7]) registry_default = Inr p"
    by (simp add: plan_session_def select_runner_def registry_default_def bm_values_def Let_def
        max_total_sessions_def)
  from session_creation [OF p, of None registry_default] p show ?thesis
    by (auto simp: registry_default_def)
qed

text \<open>
  C15. A state update is accepted exactly for a stored session and a transition of the documented state
  machine (or a repetition of the state); a refused one changes nothing. An accepted one merges the
  metadata (new values win), stamps the session and keeps its owner, workspace, tenant and creation time. A
  session in a terminal state accepts nothing but a repetition of that state. Completing a pending or
  assigned session is left out: the code accepts it although the documentation of the state machine does
  not list it.
\<close>

theorem session_state_update_spec:
  assumes "\<And>s. bm_get (sessions r) sid = Some s \<Longrightarrow> st = Completed \<Longrightarrow> ses_state s \<notin> {Pending, Assigned}"
  shows "case bm_get (sessions r) sid of
     None \<Rightarrow> apply_session_state_update sid st meta t r
             = (Inl (NotFound ''session {session_id} was not found''), r)
   | Some s \<Rightarrow>
       (let (res, r') = apply_session_state_update sid st meta t r
        in (is_ok res \<longleftrightarrow> ses_state s = st \<or> (ses_state s, st) \<in>
              {(Pending, Assigned), (Pending, Cancelled), (Pending, Failed),
               (Assigned, Running), (Assigned, Pending), (Assigned, Cancelled), (Assigned, Failed),
               (Running, WaitingApproval), (Running, Completed), (Running, Failed), (Running, Cancelled),
               (WaitingApproval, Running), (WaitingApproval, Failed), (WaitingApproval, Cancelled)})
           \<and> \<not> (ses_state s \<in> {Completed, Failed, Cancelled} \<and> ses_state s \<noteq> st \<and> is_ok res)
           \<and> (case res of
                 Inl e \<Rightarrow> error_status e = 409 \<and> r' = r
               | Inr (updated, previous) \<Rightarrow>
                   previous = ses_state s
                   \<and> updated = s\<lparr>ses_state := st, ses_updated_at := t,
                                 ses_metadata := bm_extend (ses_metadata s) meta\<rparr>
                   \<and> sessions r' = bm_insert sid updated (sessions r)))"
proof (cases "bm_get (sessions r) sid")
  case (Some s)
  with assms [OF Some] show ?thesis
    by (auto simp: apply_session_state_update_def Let_def is_valid_session_transition_def
        split: option.splits session_state.splits)
qed (simp add: apply_session_state_update_def)

theorem session_state_update_spec_witness:
  "is_ok (fst (apply_session_state_update 3 Completed bm_empty 5 demo_counted))
   \<and> \<not> is_ok (fst (apply_session_state_update 4 Running bm_empty 5 demo_counted))"
proof -
  have 3: "bm_get (sessions demo_counted) 3 = Some (demo_session 3 Running (Some [1]))"
    and 4: "bm_get (sessions demo_counted) 4 = Some (demo_session 4 Pending (Some [1]))"
    by (simp_all add: demo_counted_def)
  have "s = demo_session 3 Running (Some [1])" if "bm_get (sessions demo_counted) 3 = Some s" for s
    using that 3 by simp
  then show ?thesis
    using session_state_update_spec [of demo_counted 3 Completed bm_empty 5]
      session_state_update_spec [of demo_counted 4 Running bm_empty 5] 3 4
    by (auto simp: demo_session_def Let_def split: prod.splits)
qed

section \<open>Reaping\<close>

text \<open>An assigned session whose runner is unknown or was last seen before the cutoff.\<close>

definition orphaned :: "instant \<Rightarrow> registry \<Rightarrow> session_record \<Rightarrow> bool" where
  "orphaned cutoff r s \<longleftrightarrow>
     ses_state s = Assigned \<and> is_some_and (\<lambda>rid. is_none_or (\<lambda>runner. rs_last_seen_at runner < cutoff)
                                        (bm_get (runners r) rid)) (ses_owner_runner_id s)"

lemma reap_owner_iff: "reap_owner cutoff r s \<noteq> None \<longleftrightarrow> orphaned cutoff r s"
  by (auto simp: reap_owner_def orphaned_def is_none_or_def is_some_and_def split: option.splits)

lemma reap_owner_Some: "reap_owner cutoff r s = Some (rid, b) \<Longrightarrow> ses_owner_runner_id s = Some rid"
  by (auto simp: reap_owner_def split: if_splits option.splits)

text \<open>
  Reaping returns exactly the orphaned sessions to the pending pool, without an owner, and leaves
  every other session as it is; it reports each reaped session with the runner it was taken from; and
  no assigned session remains whose runner was gone when the reaper ran.
\<close>

theorem reap_exact:
  assumes "session_inv r"
  shows "let (reaped, r') = reap_orphaned_assigned_sessions now lease r; cutoff = reap_cutoff now lease
         in bm_get (sessions r') sid =
              map_option (\<lambda>s. if orphaned cutoff r s then reap_session now s else s) (bm_get (sessions r) sid)
            \<and> ((sid, rid, st) \<in> set reaped \<longleftrightarrow>
                 st = Assigned \<and> is_some_and (\<lambda>s. orphaned cutoff r s \<and> ses_owner_runner_id s = Some rid)
                                  (bm_get (sessions r) sid))
            \<and> session_inv r'"
proof -
  let ?c = "reap_cutoff now lease"
  have "(sid, rid, st) \<in> set (fst (reap_orphaned_assigned_sessions now lease r)) \<longleftrightarrow>
        (\<exists>s. bm_get (sessions r) sid = Some s \<and> (\<exists>b. reap_owner ?c r s = Some (rid, b)) \<and> st = ses_state s)"
    (is "?lhs \<longleftrightarrow> ?rhs")
  proof -
    have "?lhs \<longleftrightarrow> (\<exists>s. (\<exists>k. bm_get (sessions r) k = Some s) \<and> (\<exists>b. reap_owner ?c r s = Some (rid, b))
                       \<and> ses_session_id s = sid \<and> ses_state s = st)"
      unfolding reap_orphaned_assigned_sessions_def Let_def fst_conv set_filter_map bm_values_iff Bex_def
      by simp
    also have "\<dots> \<longleftrightarrow> ?rhs"
      by (rule arg_cong [where f = Ex]) (auto simp: fun_eq_iff dest: session_inv_sessionD [OF assms])
    finally show ?thesis .
  qed
  also have "\<dots> \<longleftrightarrow> st = Assigned \<and> is_some_and (\<lambda>s. orphaned ?c r s \<and> ses_owner_runner_id s = Some rid)
                                  (bm_get (sessions r) sid)"
    by (auto simp: is_some_and_iff reap_owner_def orphaned_def is_none_or_def split: option.splits if_splits)
  finally show ?thesis
    using session_inv_reap [OF assms, of now lease]
    by (simp add: split_beta Let_def reap_owner_iff [symmetric])
      (simp add: reap_orphaned_assigned_sessions_def Let_def)
qed

theorem reap_exact_witness:
  "let s = \<lparr> ses_session_id = 3, ses_workspace_id = [2], ses_owner_runner_id = Some [1], ses_state = Assigned,
             ses_metadata = bm_empty, ses_created_at = 0, ses_updated_at = 0, ses_owner_user_id = None \<rparr>;
       r = snd (commit_session s registry_default)
   in bm_get (sessions (snd (reap_orphaned_assigned_sessions 7 30 r))) 3 = Some (reap_session 7 s)"
proof -
  let ?s = "\<lparr> ses_session_id = 3, ses_workspace_id = [2], ses_owner_runner_id = Some [1], ses_state = Assigned,
             ses_metadata = bm_empty, ses_created_at = 0, ses_updated_at = 0, ses_owner_user_id = None \<rparr>"
  let ?r = "snd (commit_session ?s registry_default)"
  have "bm_get (sessions ?r) 3 = Some ?s" and "bm_get (runners ?r) [1] = None"
    by (simp_all add: commit_session_def registry_default_def Let_def refresh_counts_runner)
  then show ?thesis
    using reap_exact [OF session_inv_commit [OF session_inv_default, of ?s], of 7 30 3 "[]" Pending]
    by (simp add: split_beta Let_def orphaned_def)
qed

lemma get_runners_single:
  "bm_get (runners (registry_default\<lparr>runners := bm_insert k s bm_empty, sessions := ss\<rparr>)) k = Some s"
  by simp

lemma get_sessions_single:
  "bm_get (sessions (registry_default\<lparr>runners := rs, sessions := bm_insert k s bm_empty\<rparr>)) k = Some s"
  by simp

lemma refresh_last_seen:
  "bm_get (runners r) k = Some s \<Longrightarrow>
   \<exists>s'. bm_get (runners (refresh_runner_session_counts rid t r)) k = Some s'
      \<and> rs_last_seen_at s \<le> rs_last_seen_at s' \<and> (k = rid \<longrightarrow> t \<le> rs_last_seen_at s')
      \<and> (rs_state s \<in> {Idle, Busy} \<or> k = rid \<longrightarrow> rs_state s' \<in> {Idle, Busy})"
  by (cases "k = rid") (auto simp: refresh_counts_runner)

lemma fold_refresh_last_seen:
  assumes "bm_get (runners r) k = Some s"
  shows "\<exists>s'. bm_get (runners (fold (\<lambda>rid. refresh_runner_session_counts rid t) rids r)) k = Some s'
      \<and> rs_last_seen_at s \<le> rs_last_seen_at s' \<and> (k \<in> set rids \<longrightarrow> t \<le> rs_last_seen_at s')
      \<and> (rs_state s \<in> {Idle, Busy} \<or> k \<in> set rids \<longrightarrow> rs_state s' \<in> {Idle, Busy})"
  using assms
proof (induction rids arbitrary: r s)
  case (Cons rid rids)
  obtain s1 where s1: "bm_get (runners (refresh_runner_session_counts rid t r)) k = Some s1"
      "rs_last_seen_at s \<le> rs_last_seen_at s1" "k = rid \<longrightarrow> t \<le> rs_last_seen_at s1"
      "rs_state s \<in> {Idle, Busy} \<or> k = rid \<longrightarrow> rs_state s1 \<in> {Idle, Busy}"
    using refresh_last_seen [OF Cons.prems] by blast
  show ?case using Cons.IH [OF s1(1)] s1(2-4) by fastforce
qed simp

text \<open>
  Reaping a session makes the runner it was taken from look alive: the refreshed counters come
  with a fresh time of last contact and a healthy state, so the runner that was just found to be
  silent for three leases counts as available again at that very instant.
\<close>

theorem reap_revives_silent_runner:
  assumes "bm_get (sessions r) sid = Some s" "ses_state s = Assigned" "ses_owner_runner_id s = Some rid"
    "bm_get (runners r) rid = Some runner" "rs_last_seen_at runner < reap_cutoff now lease"
  shows "is_some_and (\<lambda>revived. runner_is_available now revived lease)
           (bm_get (runners (snd (reap_orphaned_assigned_sessions now lease r))) rid)"
proof -
  let ?c = "reap_cutoff now lease"
  let ?rids = "filter_map (\<lambda>s. case reap_owner ?c r s of Some (rid, True) \<Rightarrow> Some rid | _ \<Rightarrow> None)
                 (bm_values (sessions r))"
  have "reap_owner ?c r s = Some (rid, True)" using assms by (simp add: reap_owner_def)
  then have "rid \<in> set ?rids" using assms(1) by (force simp: set_filter_map intro: bm_valuesI)
  moreover have "\<exists>r1. snd (reap_orphaned_assigned_sessions now lease r)
      = fold (\<lambda>rid. refresh_runner_session_counts rid now) ?rids r1 \<and> runners r1 = runners r"
    unfolding reap_orphaned_assigned_sessions_def Let_def snd_conv by (rule exI, rule conjI, rule refl) simp
  then obtain r1 where r1: "snd (reap_orphaned_assigned_sessions now lease r)
      = fold (\<lambda>rid. refresh_runner_session_counts rid now) ?rids r1" "runners r1 = runners r"
    by blast
  ultimately obtain s' where "bm_get (runners (snd (reap_orphaned_assigned_sessions now lease r))) rid = Some s'"
    "now \<le> rs_last_seen_at s'" "rs_state s' \<in> {Idle, Busy}"
    using fold_refresh_last_seen [of r1 rid runner now ?rids] assms(4) by auto
  moreover have "0 \<le> seconds (lease_secs lease)" by (simp add: seconds_def lease_secs_def)
  ultimately show ?thesis by (auto simp: runner_is_available_def)
qed

theorem reap_revives_silent_runner_witness:
  "let reg = \<lparr> rr_runner_id = [1], rr_control_plane_url = None, rr_public_base_url = None, rr_workspaces = [],
               rr_labels = bm_empty, rr_auth_token = None,
               rr_capabilities = \<lparr> rc_interactive_approvals = True, rc_background_sessions = True,
                                   rc_artifact_uploads = True, rc_max_parallel_sessions = 4 \<rparr>,
               rr_platform = \<lparr> rp_os = [], rp_arch = [], rp_family = [] \<rparr> \<rparr>;
       s = \<lparr> ses_session_id = 3, ses_workspace_id = [2], ses_owner_runner_id = Some [1], ses_state = Assigned,
             ses_metadata = bm_empty, ses_created_at = 0, ses_updated_at = 0, ses_owner_user_id = None \<rparr>;
       runner = \<lparr> rs_registration = reg, rs_state = Offline, rs_active_sessions = 0, rs_queued_sessions = 0,
                  rs_registered_at = 0, rs_last_seen_at = 0 \<rparr>;
       r = registry_default\<lparr>runners := bm_insert [1] runner bm_empty, sessions := bm_insert 3 s bm_empty\<rparr>
   in \<not> runner_is_available (seconds 100) runner 30
      \<and> is_some_and (\<lambda>revived. runner_is_available (seconds 100) revived 30)
           (bm_get (runners (snd (reap_orphaned_assigned_sessions (seconds 100) 30 r))) [1])"
  unfolding Let_def
  by (intro conjI reap_revives_silent_runner [OF get_sessions_single _ _ get_runners_single])
    (simp_all add: reap_cutoff_def seconds_def runner_is_available_def)

section \<open>Dispatch\<close>

text \<open>
  C13. A pending session is dispatched at most once. The commit succeeds exactly for a session that is
  pending and unowned at that moment; afterwards the session belongs to that runner and is no longer
  pending, so every later dispatch of it, by whatever runner planned it, is refused with a conflict and
  changes nothing.
\<close>

theorem dispatch_once:
  "let (res, r') = commit_pending_session_dispatch sid rid d r
   in (is_ok res \<longleftrightarrow> is_some_and (\<lambda>s. ses_state s = Pending \<and> ses_owner_runner_id s = None)
                        (bm_get (sessions r) sid))
      \<and> (case res of
            Inl e \<Rightarrow> r' = r
          | Inr (s, previous) \<Rightarrow>
              previous = Pending \<and> ses_owner_runner_id s = Some rid \<and> ses_state s \<noteq> Pending
              \<and> bm_get (sessions r') sid = Some s
              \<and> commit_pending_session_dispatch sid rid2 d2 r'
                = (Inl (Conflict ''session {session_id} is no longer pending dispatch''), r'))"
proof -
  have "session_state_from_runner x \<noteq> Pending" for x by (cases x) simp_all
  then show ?thesis
    by (auto simp: commit_pending_session_dispatch_def Let_def split: option.splits)
qed

end
