(* ===== verification/Registry_Approvals.thy ===== *)
theory Registry_Approvals
  imports Registry_Sessions
begin

text \<open>
  Artifacts, approvals and the command queues of pulling runners
  (\<^verbatim>\<open>rc-control-plane/src/registry.rs\<close>).
\<close>

section \<open>Artifacts\<close>

definition octet_stream :: rstring where
  "octet_stream = str ''application/octet-stream''"

definition register_artifact ::
  "instant \<Rightarrow> uuid \<Rightarrow> uuid \<Rightarrow> artifact_create_request \<Rightarrow> nat \<Rightarrow> registry \<Rightarrow> artifact_record api \<times> registry" where
  "register_artifact now fresh sid req size_bytes r =
     (let name = trim (ac_name req)
      in if name = [] then (Inl (BadRequest ''artifact name cannot be empty''), r)
         else case bm_get (sessions r) sid of
           None \<Rightarrow> (Inl (NotFound ''session {session_id} was not found''), r)
         | Some s \<Rightarrow>
             (let a = \<lparr> ar_artifact_id = fresh, ar_session_id = sid,
                        ar_runner_id = ses_owner_runner_id s, ar_name = name,
                        ar_file_name = sanitize_artifact_component
                          (unwrap_or (ac_name req) (ac_file_name req)) (str ''artifact.bin''),
                        ar_media_type =
                          (case map_option trim (ac_media_type req) of
                             Some v \<Rightarrow> if v \<noteq> [] then v else octet_stream
                           | None \<Rightarrow> octet_stream),
                        ar_size_bytes = size_bytes, ar_metadata = ac_metadata req,
                        ar_created_at = now \<rparr>
              in (Inr a, r\<lparr>artifacts := bm_insert fresh a (artifacts r)\<rparr>)))"

section \<open>Requesting an approval\<close>

definition plan_approval ::
  "instant \<Rightarrow> uuid \<Rightarrow> uuid \<Rightarrow> approval_create_request \<Rightarrow> registry \<Rightarrow> planned_approval api" where
  "plan_approval now fresh sid req r =
     (case bm_get (sessions r) sid of
        None \<Rightarrow> Inl (NotFound ''session {session_id} was not found'')
      | Some s \<Rightarrow>
          Inr \<lparr> pl_approval =
                  \<lparr> ap_approval_id = unwrap_or fresh (acr_approval_id req), ap_session_id = sid,
                    ap_runner_id = (case ses_owner_runner_id s of Some rid \<Rightarrow> rid | None \<Rightarrow> []),
                    ap_state = ApPending, ap_title = acr_title req, ap_description = acr_description req,
                    ap_metadata = acr_metadata req, ap_created_at = now, ap_updated_at = now,
                    ap_responded_at = None, ap_responder = None, ap_note = None \<rparr>,
                pl_owner_runner = Option.bind (ses_owner_runner_id s) (bm_get (runners r)),
                pl_next_session_state = WaitingApproval,
                pl_transition =
                  (if ses_state s \<noteq> WaitingApproval
                   then Some \<lparr> tr_runner_id = ses_owner_runner_id s, tr_session_id = sid,
                               tr_previous_state = ses_state s, tr_state = WaitingApproval \<rparr>
                   else None) \<rparr>)"

definition session_approval_count :: "registry \<Rightarrow> uuid \<Rightarrow> nat" where
  "session_approval_count r sid =
     length (filter (\<lambda>a. ap_session_id a = sid) (bm_values (approvals r)))"

definition commit_planned_approval ::
  "planned_approval \<Rightarrow> registry
   \<Rightarrow> (approval_request_record \<times> session_state_transition option) api \<times> registry" where
  "commit_planned_approval planned r =
     (let a = pl_approval planned
      in if bm_contains (approvals r) (ap_approval_id a)
         then (Inl (Conflict ''approval {} already exists''), r)
         else if max_approvals_per_session \<le> session_approval_count r (ap_session_id a)
         then (Inl (Conflict ''session has reached the maximum number of pending approvals''), r)
         else case bm_get (sessions r) (ap_session_id a) of
           None \<Rightarrow> (Inl (NotFound ''session {} was not found''), r)
         | Some s \<Rightarrow>
             (let s' = s\<lparr>ses_state := pl_next_session_state planned, ses_updated_at := ap_updated_at a\<rparr>;
                  r1 = r\<lparr>sessions := bm_insert (ap_session_id a) s' (sessions r),
                         approvals := bm_insert (ap_approval_id a) a (approvals r)\<rparr>
              in (Inr (a, pl_transition planned),
                  case ses_owner_runner_id s' of
                    Some rid \<Rightarrow> refresh_runner_session_counts rid (ap_updated_at a) r1
                  | None \<Rightarrow> r1)))"

section \<open>Deciding an approval\<close>

definition has_other_pending :: "registry \<Rightarrow> approval_request_record \<Rightarrow> bool" where
  "has_other_pending r a \<longleftrightarrow>
     list_ex (\<lambda>c. ap_session_id c = ap_session_id a \<and> ap_approval_id c \<noteq> ap_approval_id a
                  \<and> ap_state c = ApPending) (bm_values (approvals r))"

definition plan_approval_decision ::
  "instant \<Rightarrow> uuid \<Rightarrow> approval_decision_request \<Rightarrow> registry \<Rightarrow> planned_approval_decision api" where
  "plan_approval_decision now aid req r =
     (case bm_get (approvals r) aid of
        None \<Rightarrow> Inl (NotFound ''approval {approval_id} was not found'')
      | Some a \<Rightarrow>
          if ap_state a \<noteq> ApPending
          then Inl (Conflict ''approval {approval_id} is already resolved'')
          else
            (let updated = a\<lparr>ap_state := approval_state_of (adr_decision req), ap_updated_at := now,
                             ap_responded_at := Some now, ap_responder := adr_responder req,
                             ap_note := adr_note req\<rparr>;
                 pending = has_other_pending r updated
             in case bm_get (sessions r) (ap_session_id updated) of
                  Some s \<Rightarrow>
                    (let st = session_state_after_approval (adr_decision req) pending
                     in Inr \<lparr> pn_approval = updated,
                              pn_owner_runner = Option.bind (ses_owner_runner_id s) (bm_get (runners r)),
                              pn_next_session_state = Some st,
                              pn_transition =
                                (if ses_state s \<noteq> st
                                 then Some \<lparr> tr_runner_id = ses_owner_runner_id s,
                                             tr_session_id = ses_session_id s,
                                             tr_previous_state = ses_state s, tr_state = st \<rparr>
                                 else None) \<rparr>)
                | None \<Rightarrow>
                    Inr \<lparr> pn_approval = updated, pn_owner_runner = None,
                          pn_next_session_state = None, pn_transition = None \<rparr>))"

definition commit_planned_approval_decision ::
  "planned_approval_decision \<Rightarrow> registry
   \<Rightarrow> (approval_request_record \<times> session_state_transition option) api \<times> registry" where
  "commit_planned_approval_decision planned r =
     (let updated = pn_approval planned
      in case bm_get (approvals r) (ap_approval_id updated) of
           None \<Rightarrow> (Inl (NotFound ''approval {} was not found''), r)
         | Some a \<Rightarrow>
             if ap_state a \<noteq> ApPending then (Inl (Conflict ''approval {} is already resolved''), r)
             else
               (let r1 = r\<lparr>approvals := bm_insert (ap_approval_id updated) updated (approvals r)\<rparr>
                in case bm_get (sessions r1) (ap_session_id updated) of
                     None \<Rightarrow> (Inr (updated, pn_transition planned), r1)
                   | Some s \<Rightarrow>
                       (let s' = s\<lparr>ses_state := (case pn_next_session_state planned of
                                                  Some st \<Rightarrow> st | None \<Rightarrow> ses_state s),
                                   ses_updated_at := ap_updated_at updated\<rparr>;
                            r2 = r1\<lparr>sessions := bm_insert (ap_session_id updated) s' (sessions r1)\<rparr>
                        in (Inr (updated, pn_transition planned),
                            case ses_owner_runner_id s' of
                              Some rid \<Rightarrow> refresh_runner_session_counts rid (ap_updated_at updated) r2
                            | None \<Rightarrow> r2))))"

section \<open>Command queues\<close>

definition command_queue :: "registry \<Rightarrow> rstring \<Rightarrow> runner_queued_command list" where
  "command_queue r rid = unwrap_or [] (bm_get (queued_runner_commands r) rid)"

definition enqueue_runner_command ::
  "instant \<Rightarrow> uuid \<Rightarrow> rstring \<Rightarrow> runner_queued_command_body \<Rightarrow> registry
   \<Rightarrow> runner_queued_command api \<times> registry" where
  "enqueue_runner_command now fresh rid body r =
     (if \<not> bm_contains (runners r) rid
      then (Inl (NotFound ''runner {runner_id} was not found''), r)
      else
        (let c = \<lparr> qc_command_id = fresh, qc_runner_id = rid, qc_created_at = now, qc_body = body \<rparr>
         in (Inr c,
             r\<lparr>queued_runner_commands :=
                 bm_insert rid (push_bounded max_commands_per_runner c (command_queue r rid))
                   (queued_runner_commands r)\<rparr>)))"

text \<open>\<^verbatim>\<open>for _ in 0..n\<close> with \<^verbatim>\<open>pop_front\<close>: the commands taken and the queue left.\<close>

fun pop_up_to :: "nat \<Rightarrow> 'a list \<Rightarrow> 'a list \<times> 'a list" where
  "pop_up_to 0 q = ([], q)"
| "pop_up_to (Suc n) [] = ([], [])"
| "pop_up_to (Suc n) (c # q) = (case pop_up_to n q of (taken, rest) \<Rightarrow> (c # taken, rest))"

definition pull_runner_commands ::
  "rstring \<Rightarrow> nat \<Rightarrow> registry \<Rightarrow> runner_queued_command list api \<times> registry" where
  "pull_runner_commands rid limit r =
     (if \<not> bm_contains (runners r) rid
      then (Inl (NotFound ''runner {runner_id} was not found''), r)
      else case pop_up_to (max limit 1) (command_queue r rid) of
        (taken, rest) \<Rightarrow>
          (Inr taken,
           r\<lparr>queued_runner_commands :=
               (if rest = [] then bm_remove rid (queued_runner_commands r)
                else bm_insert rid rest (queued_runner_commands r))\<rparr>))"

section \<open>Invariant\<close>

text \<open>
  Approvals and artifacts are stored under their own identifier and belong to a stored session; an
  approval carries the time of its answer exactly if it is no longer pending; no session has more than
  128 approvals; artifact names have been sanitised; queues are never empty or longer than 256 and hold
  commands for the runner they belong to, which is registered.
\<close>

definition approval_inv ::
  "(uuid, session_record) btree \<Rightarrow> (uuid, approval_request_record) btree \<Rightarrow> bool" where
  "approval_inv ss as \<longleftrightarrow>
     (\<forall>k a. bm_get as k = Some a \<longrightarrow>
        ap_approval_id a = k \<and> bm_get ss (ap_session_id a) \<noteq> None
        \<and> (ap_state a = ApPending \<longleftrightarrow> ap_responded_at a = None))
     \<and> (\<forall>sid. length (filter (\<lambda>a. ap_session_id a = sid) (bm_values as)) \<le> max_approvals_per_session)"

definition artifact_inv :: "(uuid, session_record) btree \<Rightarrow> (uuid, artifact_record) btree \<Rightarrow> bool" where
  "artifact_inv ss as \<longleftrightarrow>
     (\<forall>k a. bm_get as k = Some a \<longrightarrow>
        ar_artifact_id a = k \<and> bm_get ss (ar_session_id a) \<noteq> None \<and> ar_name a \<noteq> []
        \<and> ar_media_type a \<noteq> []
        \<and> (\<exists>raw. ar_file_name a = sanitize_artifact_component raw (str ''artifact.bin'')))"

definition queue_inv ::
  "(rstring, runner_snapshot) btree \<Rightarrow> (rstring, runner_queued_command list) btree \<Rightarrow> bool" where
  "queue_inv rs qs \<longleftrightarrow>
     (\<forall>k q. bm_get qs k = Some q \<longrightarrow>
        q \<noteq> [] \<and> length q \<le> max_commands_per_runner \<and> bm_get rs k \<noteq> None \<and> (\<forall>c \<in> set q. qc_runner_id c = k))"

definition work_inv :: "registry \<Rightarrow> bool" where
  "work_inv r \<longleftrightarrow> approval_inv (sessions r) (approvals r) \<and> artifact_inv (sessions r) (artifacts r)
     \<and> queue_inv (runners r) (queued_runner_commands r)"

lemma work_inv_default: "work_inv registry_default"
  by (simp add: work_inv_def approval_inv_def artifact_inv_def queue_inv_def registry_default_def bm_values_def)

text \<open>Sessions and runners are never removed, which keeps references valid.\<close>

definition grows :: "('k::linorder, 'v) btree \<Rightarrow> ('k, 'v) btree \<Rightarrow> bool" where
  "grows m n \<longleftrightarrow> (\<forall>k. bm_get m k \<noteq> None \<longrightarrow> bm_get n k \<noteq> None)"

lemma grows_refl [simp]: "grows m m"
  by (simp add: grows_def)

lemma grows_insert [simp]: "grows m n \<Longrightarrow> grows m (bm_insert k v n)"
  by (auto simp: grows_def)

lemma grows_trans: "grows a b \<Longrightarrow> grows b c \<Longrightarrow> grows a c"
  by (simp add: grows_def)

lemma grows_map [simp]: "grows m n \<Longrightarrow> grows m (bm_map f n)"
  by (auto simp: grows_def)

lemma grows_update [simp]: "grows m n \<Longrightarrow> grows m (bm_update k f n)"
  by (auto simp: grows_def)

lemma grows_refresh [simp]: "grows m (runners r) \<Longrightarrow> grows m (runners (refresh_runner_session_counts rid t r))"
  by (simp add: refresh_runner_session_counts_def split: prod.splits)

lemma grows_fold_refresh [simp]:
  "grows m (runners r) \<Longrightarrow> grows m (runners (fold (\<lambda>rid. refresh_runner_session_counts rid t) rids r))"
  by (induction rids arbitrary: r) simp_all

lemma work_inv_grows:
  assumes "work_inv r" "approvals r' = approvals r" "artifacts r' = artifacts r"
    "queued_runner_commands r' = queued_runner_commands r"
    "grows (sessions r) (sessions r')" "grows (runners r) (runners r')"
  shows "work_inv r'"
proof -
  have "approval_inv (sessions r') (approvals r)"
    using assms(1,5) unfolding work_inv_def approval_inv_def grows_def by blast
  moreover have "artifact_inv (sessions r') (artifacts r)"
    using assms(1,5) unfolding work_inv_def artifact_inv_def grows_def by blast
  moreover have "queue_inv (runners r') (queued_runner_commands r)"
    using assms(1,6) unfolding work_inv_def queue_inv_def grows_def by blast
  ultimately show ?thesis by (simp add: work_inv_def assms(2-4))
qed

lemma work_inv_sessions:
  "work_inv r \<Longrightarrow> work_inv (refresh_runner_session_counts rid t r)"
  "work_inv r \<Longrightarrow> work_inv (snd (register_runner now req lease user r))"
  "work_inv r \<Longrightarrow> work_inv (snd (apply_heartbeat rid hb r))"
  "work_inv r \<Longrightarrow> work_inv (snd (commit_session s r))"
  "work_inv r \<Longrightarrow> work_inv (snd (apply_session_state_update sid st meta t r))"
  "work_inv r \<Longrightarrow> work_inv (snd (reap_orphaned_assigned_sessions now lease r))"
  "work_inv r \<Longrightarrow> work_inv (snd (commit_pending_session_dispatch sid rid d r))"
  by (erule work_inv_grows; auto simp: register_runner_def apply_heartbeat_def commit_session_def
      apply_session_state_update_def reap_orphaned_assigned_sessions_def
      commit_pending_session_dispatch_def Let_def split: option.splits)+

lemma work_inv_devices:
  "work_inv r \<Longrightarrow> work_inv (snd (revoke_device did r))"
  "work_inv r \<Longrightarrow> work_inv (snd (authenticate_device_token sha now token r))"
  "work_inv r \<Longrightarrow> work_inv (snd (refresh_access_token sha now ua ur token r))"
  "work_inv r \<Longrightarrow> work_inv (snd (bootstrap_claim sha now did ur ua expected breq r))"
  "work_inv r \<Longrightarrow> work_inv (snd (create_pairing_offer sha tp tc oid us creator oreq r))"
  "work_inv r \<Longrightarrow> work_inv (snd (accept_pairing_offer sha tp tc now did ur ua areq r))"
  "work_inv r \<Longrightarrow> work_inv (snd (register_push_token now did preq r))"
  "work_inv r \<Longrightarrow> work_inv (snd (register_user_push_token now uid preq r))"
  by (simp_all add: work_inv_def device_ops_frame)

lemma session_inv_shrink:
  assumes "session_inv r" "work_part r' = work_part r" "owners_shrink r r'"
  shows "session_inv r'"
proof -
  have "owners_inv (runners r) (runner_owners r')"
    using assms(1,3) unfolding session_inv_def owners_inv_def owners_shrink_def by fastforce
  with assms(1,2) show ?thesis by (simp add: session_inv_def work_part_eq_iff)
qed

lemma session_inv_devices:
  assumes "session_inv r"
  shows "session_inv (snd (revoke_device did r))"
    "session_inv (snd (authenticate_device_token sha now token r))"
    "session_inv (snd (refresh_access_token sha now ua ur token r))"
    "session_inv (snd (bootstrap_claim sha now did ur ua expected breq r))"
    "session_inv (snd (create_pairing_offer sha tp tc oid us creator oreq r))"
    "session_inv (snd (accept_pairing_offer sha tp tc now did ur ua areq r))"
    "session_inv (snd (register_push_token now did preq r))"
    "session_inv (snd (register_user_push_token now uid preq r))"
  by (rule session_inv_shrink [OF assms device_ops_work_part(1) device_ops_owners(1)]
           session_inv_shrink [OF assms device_ops_work_part(2) device_ops_owners(2)]
           session_inv_shrink [OF assms device_ops_work_part(3) device_ops_owners(3)]
           session_inv_shrink [OF assms device_ops_work_part(4) device_ops_owners(4)]
           session_inv_shrink [OF assms device_ops_work_part(5) device_ops_owners(5)]
           session_inv_shrink [OF assms device_ops_work_part(6) device_ops_owners(6)]
           session_inv_shrink [OF assms device_ops_work_part(7) device_ops_owners(7)]
           session_inv_shrink [OF assms device_ops_work_part(8) device_ops_owners(8)])+

text \<open>The session operations never touch the device table.\<close>

definition device_part where
  "device_part r = (trusted_devices r, owner_device_id r, push_tokens r, pairing_offers r)"

lemma device_inv_part: "device_part r' = device_part r \<Longrightarrow> device_inv r \<Longrightarrow> device_inv r'"
  by (simp add: device_part_def device_inv_def)

lemma device_part_sessions:
  "device_part (refresh_runner_session_counts rid t r) = device_part r"
  "device_part (snd (register_runner now req lease user r)) = device_part r"
  "device_part (snd (apply_heartbeat rid hb r)) = device_part r"
  "device_part (snd (commit_session s r)) = device_part r"
  "device_part (snd (apply_session_state_update sid st meta t r)) = device_part r"
  "device_part (snd (reap_orphaned_assigned_sessions now lease r)) = device_part r"
  "device_part (snd (commit_pending_session_dispatch sid rid d r)) = device_part r"
  "device_part (snd (register_artifact now fresh sid areq n r)) = device_part r"
  "device_part (snd (commit_planned_approval pl r)) = device_part r"
  "device_part (snd (commit_planned_approval_decision pn r)) = device_part r"
  "device_part (snd (enqueue_runner_command now fresh rid body r)) = device_part r"
  "device_part (snd (pull_runner_commands rid n r)) = device_part r"
  by (simp_all add: device_part_def register_runner_def apply_heartbeat_def commit_session_def
      apply_session_state_update_def reap_orphaned_assigned_sessions_def
      commit_pending_session_dispatch_def register_artifact_def commit_planned_approval_def
      commit_planned_approval_decision_def enqueue_runner_command_def pull_runner_commands_def Let_def
      split: option.splits prod.splits)

section \<open>The approval operations keep the invariants\<close>

lemma session_inv_cong:
  assumes "session_inv r" "sessions r' = sessions r" "session_runner_index r' = session_runner_index r"
    "runners r' = runners r" "runner_owners r' = runner_owners r"
  shows "session_inv r'"
  using assms by (simp add: session_inv_def)

lemma session_inv_set_state:
  assumes "session_inv r" "bm_get (sessions r) sid = Some s"
    "sessions r' = bm_insert sid s' (sessions r)" "ses_session_id s' = ses_session_id s"
    "ses_owner_runner_id s' = ses_owner_runner_id s" "session_runner_index r' = session_runner_index r"
    "runners r' = runners r" "runner_owners r' = runner_owners r"
  shows "session_inv r'"
  using assms by (auto simp: session_inv_defs)

lemma session_inv_register_artifact:
  "session_inv r \<Longrightarrow> session_inv (snd (register_artifact now fresh sid req n r))"
  by (auto simp: register_artifact_def Let_def split: option.splits elim!: session_inv_cong)

lemma session_inv_queues:
  "session_inv r \<Longrightarrow> session_inv (snd (enqueue_runner_command now fresh rid body r))"
  "session_inv r \<Longrightarrow> session_inv (snd (pull_runner_commands rid n r))"
  by (auto simp: enqueue_runner_command_def pull_runner_commands_def Let_def
      split: prod.splits elim!: session_inv_cong)

lemma session_inv_commit_approval:
  assumes "session_inv r" shows "session_inv (snd (commit_planned_approval pl r))"
proof (cases "bm_get (sessions r) (ap_session_id (pl_approval pl))")
  case (Some s)
  with assms show ?thesis
    by (auto simp: commit_planned_approval_def Let_def split: option.splits
        intro!: session_inv_refresh session_inv_set_state [OF assms Some])
qed (use assms in \<open>simp add: commit_planned_approval_def Let_def\<close>)

lemma session_inv_commit_decision:
  assumes "session_inv r" shows "session_inv (snd (commit_planned_approval_decision pn r))"
proof (cases "bm_get (sessions r) (ap_session_id (pn_approval pn))")
  case (Some s)
  with assms show ?thesis
    by (auto simp: commit_planned_approval_decision_def Let_def split: option.splits
        intro!: session_inv_refresh session_inv_set_state [OF assms Some])
next
  case None
  with assms show ?thesis
    by (auto simp: commit_planned_approval_decision_def Let_def split: option.splits elim: session_inv_cong)
qed

lemma work_inv_register_artifact:
  assumes "work_inv r" shows "work_inv (snd (register_artifact now fresh sid req n r))"
proof -
  have "octet_stream \<noteq> []" by (simp add: octet_stream_def str_def)
  with assms show ?thesis
    by (auto simp: register_artifact_def Let_def work_inv_def artifact_inv_def split: option.splits)
qed

lemma filter_values_insert_le:
  "length (filter P (bm_values (bm_insert k v m))) \<le>
   (if P v then Suc (length (filter P (bm_values m))) else length (filter P (bm_values m)))"
proof -
  have fin: "finite {j. \<exists>w. bm_get m j = Some w \<and> P w}"
    by (rule finite_subset [OF _ finite_dom_bm_get [of m]]) auto
  have "{j. \<exists>w. bm_get (bm_insert k v m) j = Some w \<and> P w} \<subseteq>
        (if P v then insert k {j. \<exists>w. bm_get m j = Some w \<and> P w} else {j. \<exists>w. bm_get m j = Some w \<and> P w})"
    by auto
  then have "card {j. \<exists>w. bm_get (bm_insert k v m) j = Some w \<and> P w} \<le>
        card (if P v then insert k {j. \<exists>w. bm_get m j = Some w \<and> P w} else {j. \<exists>w. bm_get m j = Some w \<and> P w})"
    by (rule card_mono [rotated]) (simp add: fin)
  also have "\<dots> \<le> (if P v then Suc (card {j. \<exists>w. bm_get m j = Some w \<and> P w})
                  else card {j. \<exists>w. bm_get m j = Some w \<and> P w})"
    using fin by (simp add: card_insert_if)
  finally show ?thesis by (simp only: count_values)
qed

lemma filter_values_replace_le:
  assumes "bm_get m k = Some old" "P old = P v"
  shows "length (filter P (bm_values (bm_insert k v m))) \<le> length (filter P (bm_values m))"
proof -
  have "{j. \<exists>w. bm_get (bm_insert k v m) j = Some w \<and> P w} = {j. \<exists>w. bm_get m j = Some w \<and> P w}"
    using assms by auto
  then show ?thesis by (simp only: count_values)
qed

text \<open>A plan to request an approval, and a plan to answer one made when the approval was pending.\<close>

definition approval_plan_ok :: "planned_approval \<Rightarrow> bool" where
  "approval_plan_ok pl \<longleftrightarrow> ap_state (pl_approval pl) = ApPending \<and> ap_responded_at (pl_approval pl) = None
     \<and> pl_next_session_state pl = WaitingApproval"

definition decision_plan_ok :: "planned_approval_decision \<Rightarrow> registry \<Rightarrow> bool" where
  "decision_plan_ok pn r \<longleftrightarrow> ap_state (pn_approval pn) \<noteq> ApPending \<and> ap_responded_at (pn_approval pn) \<noteq> None
     \<and> is_some_and (\<lambda>a. ap_session_id a = ap_session_id (pn_approval pn))
         (bm_get (approvals r) (ap_approval_id (pn_approval pn)))"

lemma plan_approval_ok: "plan_approval now fresh sid req r = Inr pl \<Longrightarrow> approval_plan_ok pl"
  by (auto simp: plan_approval_def approval_plan_ok_def split: option.splits)

lemma plan_decision_ok:
  "work_inv r \<Longrightarrow> plan_approval_decision now aid req r = Inr pn \<Longrightarrow> decision_plan_ok pn r"
  by (auto simp: plan_approval_decision_def decision_plan_ok_def Let_def work_inv_def approval_inv_def
      split: option.splits if_splits)

lemma work_inv_commit_approval:
  assumes inv: "work_inv r" and ok: "approval_plan_ok pl"
  shows "work_inv (snd (commit_planned_approval pl r))"
proof -
  let ?a = "pl_approval pl"
  have bound: "length (filter (\<lambda>a. ap_session_id a = sid) (bm_values (bm_insert (ap_approval_id ?a) ?a (approvals r))))
      \<le> max_approvals_per_session"
    if "session_approval_count r (ap_session_id ?a) < max_approvals_per_session" for sid
    using filter_values_insert_le [of "\<lambda>a. ap_session_id a = sid" "ap_approval_id ?a" ?a "approvals r"] that inv
    by (auto simp: session_approval_count_def work_inv_def approval_inv_def split: if_splits
        intro: order_trans)
  have "work_inv (r\<lparr>sessions := bm_insert (ap_session_id ?a) s (sessions r),
                    approvals := bm_insert (ap_approval_id ?a) ?a (approvals r)\<rparr>)"
    if "session_approval_count r (ap_session_id ?a) < max_approvals_per_session" for s
    using inv ok bound [OF that]
    by (auto simp: work_inv_def approval_inv_def artifact_inv_def approval_plan_ok_def)
  then show ?thesis using inv
    by (auto simp: commit_planned_approval_def Let_def not_le split: option.splits intro: work_inv_sessions(1))
qed

lemma work_inv_commit_decision:
  assumes inv: "work_inv r" and ok: "decision_plan_ok pn r"
  shows "work_inv (snd (commit_planned_approval_decision pn r))"
proof -
  let ?a = "pn_approval pn"
  obtain old where old: "bm_get (approvals r) (ap_approval_id ?a) = Some old"
      "ap_session_id old = ap_session_id ?a"
    using ok by (auto simp: decision_plan_ok_def is_some_and_iff)
  have bound: "length (filter (\<lambda>a. ap_session_id a = sid) (bm_values (bm_insert (ap_approval_id ?a) ?a (approvals r))))
      \<le> max_approvals_per_session" for sid
    using filter_values_replace_le [OF old(1), of "\<lambda>a. ap_session_id a = sid" ?a] old(2) inv
    by (auto simp: work_inv_def approval_inv_def intro: order_trans)
  have "bm_get (sessions r) (ap_session_id ?a) \<noteq> None"
    using inv old unfolding work_inv_def approval_inv_def by metis
  then have "work_inv (r\<lparr>approvals := bm_insert (ap_approval_id ?a) ?a (approvals r),
                    sessions := bm_insert (ap_session_id ?a) s (sessions r)\<rparr>)" for s
    using inv ok bound
    by (auto simp: work_inv_def approval_inv_def artifact_inv_def decision_plan_ok_def)
  with inv \<open>bm_get (sessions r) (ap_session_id ?a) \<noteq> None\<close> show ?thesis
    by (auto simp: commit_planned_approval_decision_def Let_def split: option.splits
        intro: work_inv_sessions(1))
qed

lemma pop_up_to_eq: "pop_up_to n q = (take n q, drop n q)"
  by (induction n q rule: pop_up_to.induct) simp_all

lemma work_inv_enqueue:
  assumes "work_inv r" shows "work_inv (snd (enqueue_runner_command now fresh rid body r))"
proof -
  let ?c = "\<lparr> qc_command_id = fresh, qc_runner_id = rid, qc_created_at = now, qc_body = body \<rparr>"
  have q: "\<forall>c \<in> set (command_queue r rid). qc_runner_id c = rid"
    using assms by (cases "bm_get (queued_runner_commands r) rid")
      (simp_all add: command_queue_def work_inv_def queue_inv_def)
  let ?q = "push_bounded max_commands_per_runner ?c (command_queue r rid)"
  have "\<forall>c \<in> set ?q. qc_runner_id c = rid"
    using q set_push_bounded [of max_commands_per_runner ?c "command_queue r rid"] by auto
  moreover have "length ?q \<le> max_commands_per_runner" "?q \<noteq> []"
    using length_push_bounded [of max_commands_per_runner ?c "command_queue r rid"]
    by (auto simp: max_commands_per_runner_def simp flip: length_greater_0_conv)
  ultimately show ?thesis using assms
    by (auto simp: enqueue_runner_command_def Let_def work_inv_def queue_inv_def)
qed

lemma work_inv_pull: "work_inv r \<Longrightarrow> work_inv (snd (pull_runner_commands rid n r))"
  by (auto simp: pull_runner_commands_def pop_up_to_eq work_inv_def queue_inv_def command_queue_def
      unwrap_or_def diff_le_mono2 intro: order_trans [OF diff_le_self] split: option.splits
      dest: in_set_dropD)

section \<open>Approvals are answered once\<close>

text \<open>
  C14. An approval is answered at most once, whatever happens between planning the answer and
  committing it. The commit succeeds exactly if the approval is still stored and pending; then it is
  stored with the planned answer, and every later commit of an answer to the same approval is refused
  with a conflict and changes nothing.
\<close>

theorem approval_decided_once:
  assumes "plan_approval_decision now aid req r0 = Inr pn"
  shows "let (res, r') = commit_planned_approval_decision pn r
         in (is_ok res \<longleftrightarrow> is_some_and (\<lambda>a. ap_state a = ApPending)
                             (bm_get (approvals r) (ap_approval_id (pn_approval pn))))
            \<and> (case res of
                  Inl e \<Rightarrow> r' = r
                | Inr x \<Rightarrow>
                    bm_get (approvals r') (ap_approval_id (pn_approval pn)) = Some (pn_approval pn)
                    \<and> ap_state (pn_approval pn) = approval_state_of (adr_decision req)
                    \<and> commit_planned_approval_decision
                        (pn2\<lparr>pn_approval := (pn_approval pn2)\<lparr>ap_approval_id := ap_approval_id (pn_approval pn)\<rparr>\<rparr>) r'
                      = (Inl (Conflict ''approval {} is already resolved''), r'))"
proof -
  have st: "ap_state (pn_approval pn) = approval_state_of (adr_decision req)"
    using assms by (auto simp: plan_approval_decision_def Let_def split: option.splits if_splits)
  have "approvals (snd (commit_planned_approval_decision pn r)) =
        (if is_ok (fst (commit_planned_approval_decision pn r))
         then bm_insert (ap_approval_id (pn_approval pn)) (pn_approval pn) (approvals r) else approvals r)"
    by (auto simp: commit_planned_approval_decision_def Let_def split: option.splits)
  moreover have "is_ok (fst (commit_planned_approval_decision pn r)) \<longleftrightarrow>
      is_some_and (\<lambda>a. ap_state a = ApPending) (bm_get (approvals r) (ap_approval_id (pn_approval pn)))"
    by (auto simp: commit_planned_approval_decision_def Let_def split: option.splits)
  moreover have "\<not> is_ok (fst (commit_planned_approval_decision pn r)) \<Longrightarrow>
      snd (commit_planned_approval_decision pn r) = r"
    by (auto simp: commit_planned_approval_decision_def Let_def split: option.splits if_splits)
  ultimately show ?thesis using st
    by (auto simp: split_beta commit_planned_approval_decision_def [of "pn2\<lparr>pn_approval := _\<rparr>"] Let_def
        split: sum.splits)
qed

text \<open>A registry with one session and two pending approvals, for the witnesses.\<close>

definition wit_session :: "session_state \<Rightarrow> session_record" where
  "wit_session st = \<lparr> ses_session_id = 3, ses_workspace_id = [2], ses_owner_runner_id = None, ses_state = st,
     ses_metadata = bm_empty, ses_created_at = 0, ses_updated_at = 0, ses_owner_user_id = Some [7] \<rparr>"

definition wit_approval :: "uuid \<Rightarrow> approval_request_record" where
  "wit_approval k = \<lparr> ap_approval_id = k, ap_session_id = 3, ap_runner_id = [], ap_state = ApPending,
     ap_title = [], ap_description = [], ap_metadata = bm_empty, ap_created_at = 0, ap_updated_at = 0,
     ap_responded_at = None, ap_responder = None, ap_note = None \<rparr>"

definition wit_registry :: "session_state \<Rightarrow> registry" where
  "wit_registry st = registry_default\<lparr>sessions := bm_insert 3 (wit_session st) bm_empty,
     approvals := bm_insert 4 (wit_approval 4) (bm_insert 5 (wit_approval 5) bm_empty)\<rparr>"

definition wit_yes :: approval_decision_request where
  "wit_yes = \<lparr> adr_decision = Approved, adr_responder = None, adr_note = None \<rparr>"

lemmas wit_defs = wit_session_def wit_approval_def wit_registry_def wit_yes_def registry_default_def

lemma wit_plan:
  assumes "k = 4 \<or> k = 5"
  shows "\<exists>pn. plan_approval_decision 9 k wit_yes (wit_registry st) = Inr pn
              \<and> ap_approval_id (pn_approval pn) = k \<and> ap_session_id (pn_approval pn) = 3"
  using assms by (auto simp: plan_approval_decision_def wit_defs Let_def)

lemma wit_other_pending: "has_other_pending (wit_registry st) (wit_approval 4)"
proof -
  have "wit_approval 5 \<in> set (bm_values (approvals (wit_registry st)))"
    by (rule bm_valuesI [of _ 5]) (simp add: wit_registry_def)
  then show ?thesis
    unfolding has_other_pending_def list_ex_iff by (rule rev_bexI) (simp add: wit_approval_def)
qed

theorem approval_decided_once_witness:
  "\<exists>pn. plan_approval_decision 9 4 wit_yes (wit_registry WaitingApproval) = Inr pn
       \<and> is_ok (fst (commit_planned_approval_decision pn (wit_registry WaitingApproval)))"
proof -
  obtain pn where "plan_approval_decision 9 4 wit_yes (wit_registry WaitingApproval) = Inr pn"
      "ap_approval_id (pn_approval pn) = 4"
    using wit_plan [of 4] by blast
  then show ?thesis
    using approval_decided_once [of 9 4 wit_yes "wit_registry WaitingApproval" pn "wit_registry WaitingApproval"]
    by (auto simp: split_beta Let_def wit_defs)
qed

lemma commit_decision_session:
  assumes "is_ok (fst (commit_planned_approval_decision pn r))"
    "bm_get (sessions r) (ap_session_id (pn_approval pn)) = Some s" "pn_next_session_state pn = Some st"
  shows "bm_get (sessions (snd (commit_planned_approval_decision pn r))) sid =
         (if sid = ap_session_id (pn_approval pn)
          then Some (s\<lparr>ses_state := st, ses_updated_at := ap_updated_at (pn_approval pn)\<rparr>)
          else bm_get (sessions r) sid)"
  using assms by (auto simp: commit_planned_approval_decision_def Let_def split: option.splits if_splits)

text \<open>
  Planned and committed without interference, an answer moves the session as its meaning demands:
  while other approvals of the session are pending it keeps waiting; the last answer lets it run when
  it approves, fails it when it denies and cancels it otherwise.
\<close>

theorem decision_moves_session:
  assumes "plan_approval_decision now aid req r = Inr pn"
    and "bm_get (sessions r) (ap_session_id (pn_approval pn)) = Some s"
    and "bm_get (approvals r) aid = Some a" and "ap_approval_id a = aid"
  shows "map_option ses_state (bm_get (sessions (snd (commit_planned_approval_decision pn r))) (ap_session_id a))
         = Some (if has_other_pending r a then WaitingApproval
                 else case adr_decision req of
                        Approved \<Rightarrow> Running | Denied \<Rightarrow> Failed | DecisionCancelled \<Rightarrow> Cancelled)"
proof -
  from assms have pn: "ap_approval_id (pn_approval pn) = aid" "ap_session_id (pn_approval pn) = ap_session_id a"
      "ap_state a = ApPending"
      "pn_next_session_state pn = Some (session_state_after_approval (adr_decision req) (has_other_pending r a))"
    by (auto simp: plan_approval_decision_def Let_def has_other_pending_def split: option.splits if_splits)
  then have "is_ok (fst (commit_planned_approval_decision pn r))"
    using assms(3) by (auto simp: commit_planned_approval_decision_def Let_def split: option.splits)
  from commit_decision_session [OF this assms(2) pn(4)] pn(2) show ?thesis
    by (cases "adr_decision req"; cases "has_other_pending r a") simp_all
qed

theorem decision_moves_session_witness:
  "\<exists>pn. map_option ses_state (bm_get (sessions (snd (commit_planned_approval_decision pn
          (wit_registry WaitingApproval)))) 3) = Some WaitingApproval"
proof -
  obtain pn where pn: "plan_approval_decision 9 4 wit_yes (wit_registry WaitingApproval) = Inr pn"
      "ap_session_id (pn_approval pn) = 3"
    using wit_plan [of 4] by blast
  show ?thesis
    using wit_other_pending decision_moves_session [OF pn(1), of "wit_session WaitingApproval" "wit_approval 4"] pn(2)
    by (fastforce simp: wit_defs)
qed

lemma plan_decision_D:
  assumes "plan_approval_decision now aid req r = Inr pn" "bm_get (approvals r) aid = Some a"
    "ap_approval_id a = aid" "bm_get (sessions r) (ap_session_id a) = Some s"
  shows "ap_approval_id (pn_approval pn) = aid" "ap_session_id (pn_approval pn) = ap_session_id a"
    "ap_state (pn_approval pn) \<noteq> ApPending" "ap_state a = ApPending"
    "pn_next_session_state pn = Some (session_state_after_approval (adr_decision req) (has_other_pending r a))"
  using assms
  by (auto simp: plan_approval_decision_def Let_def has_other_pending_def split: option.splits if_splits)

lemma commit_decision_ok:
  assumes "bm_get (approvals r) (ap_approval_id (pn_approval pn)) = Some a" "ap_state a = ApPending"
  shows "is_ok (fst (commit_planned_approval_decision pn r))"
    "approvals (snd (commit_planned_approval_decision pn r))
      = bm_insert (ap_approval_id (pn_approval pn)) (pn_approval pn) (approvals r)"
  using assms by (auto simp: commit_planned_approval_decision_def Let_def split: option.splits)

text \<open>
  Two answers planned while both approvals were pending, then committed one after the other, leave
  the session waiting although neither approval is pending any more: each plan counted the other
  approval as open, and the commit does not look again.
\<close>

theorem concurrent_decisions_strand_session:
  assumes "plan_approval_decision now1 ka req1 r = Inr pa" "plan_approval_decision now2 kb req2 r = Inr pb"
    and "bm_get (approvals r) ka = Some a" "ap_approval_id a = ka"
    and "bm_get (approvals r) kb = Some b" "ap_approval_id b = kb"
    and "ka \<noteq> kb" "ap_session_id a = sid" "ap_session_id b = sid" "bm_get (sessions r) sid = Some s"
  shows "let r2 = snd (commit_planned_approval_decision pb (snd (commit_planned_approval_decision pa r)))
         in map_option ses_state (bm_get (sessions r2) sid) = Some WaitingApproval
            \<and> \<not> is_some_and (\<lambda>x. ap_state x = ApPending) (bm_get (approvals r2) ka)
            \<and> \<not> is_some_and (\<lambda>x. ap_state x = ApPending) (bm_get (approvals r2) kb)
            \<and> is_ok (fst (commit_planned_approval_decision pa r))
            \<and> is_ok (fst (commit_planned_approval_decision pb (snd (commit_planned_approval_decision pa r))))"
proof -
  note pa = plan_decision_D [OF assms(1,3,4)] and pb = plan_decision_D [OF assms(2,5,6)]
  have other: "has_other_pending r a" "has_other_pending r b"
    using assms bm_valuesI [OF assms(3)] bm_valuesI [OF assms(5)] pa(4) pb(4)
    by (auto simp: has_other_pending_def list_ex_iff)
  let ?r1 = "snd (commit_planned_approval_decision pa r)"
  have oka: "is_ok (fst (commit_planned_approval_decision pa r))"
    "approvals ?r1 = bm_insert ka (pn_approval pa) (approvals r)"
    using commit_decision_ok [of r pa a] assms pa by simp_all
  have okb: "is_ok (fst (commit_planned_approval_decision pb ?r1))"
    "approvals (snd (commit_planned_approval_decision pb ?r1)) = bm_insert kb (pn_approval pb) (approvals ?r1)"
    using commit_decision_ok [of ?r1 pb b] assms pb oka(2) by simp_all
  have "\<exists>s1. bm_get (sessions ?r1) sid = Some s1"
    using commit_decision_session [OF oka(1), of s] assms pa by simp
  then obtain s1 where "bm_get (sessions ?r1) sid = Some s1" by blast
  then have "map_option ses_state (bm_get (sessions (snd (commit_planned_approval_decision pb ?r1))) sid)
             = Some WaitingApproval"
    using commit_decision_session [OF okb(1), of s1] assms pb other by simp
  with oka okb pa pb assms show ?thesis by (simp add: Let_def is_some_and_iff)
qed

theorem concurrent_decisions_strand_session_witness:
  "\<exists>pa pb. let r2 = snd (commit_planned_approval_decision pb
                    (snd (commit_planned_approval_decision pa (wit_registry WaitingApproval))))
     in map_option ses_state (bm_get (sessions r2) 3) = Some WaitingApproval
        \<and> filter (\<lambda>k. is_some_and (\<lambda>x. ap_state x = ApPending) (bm_get (approvals r2) k)) [4, 5] = []"
proof -
  let ?r = "wit_registry WaitingApproval"
  obtain pa pb where "plan_approval_decision 9 4 wit_yes ?r = Inr pa" "plan_approval_decision 9 5 wit_yes ?r = Inr pb"
    using wit_plan [of 4] wit_plan [of 5] by blast
  from concurrent_decisions_strand_session [OF this, of "wit_approval 4" "wit_approval 5" 3 "wit_session WaitingApproval"]
  show ?thesis by (intro exI [of _ pa] exI [of _ pb]) (simp add: Let_def wit_defs)
qed

text \<open>
  Requesting an approval puts the session back to work, whatever its state: a session that has
  completed, failed or been cancelled is waiting for approval again afterwards. Everything else is
  checked: the identifier is fresh, the session exists and has fewer than 128 approvals, and a refused
  request changes nothing.
\<close>

theorem approval_request_spec:
  assumes "plan_approval now fresh sid req r0 = Inr pl"
  shows "let (res, r') = commit_planned_approval pl r; aid = unwrap_or fresh (acr_approval_id req)
         in (is_ok res \<longleftrightarrow> bm_get (approvals r) aid = None \<and> bm_get (sessions r) sid \<noteq> None
                          \<and> session_approval_count r sid < 128)
            \<and> (case res of
                  Inl e \<Rightarrow> r' = r
                | Inr x \<Rightarrow> bm_get (approvals r') aid = Some (pl_approval pl)
                           \<and> map_option ses_state (bm_get (sessions r') sid) = Some WaitingApproval)"
proof -
  have pl: "ap_approval_id (pl_approval pl) = unwrap_or fresh (acr_approval_id req)"
    "ap_session_id (pl_approval pl) = sid" "pl_next_session_state pl = WaitingApproval"
    using assms by (auto simp: plan_approval_def split: option.splits)
  show ?thesis
    by (auto simp: commit_planned_approval_def Let_def pl max_approvals_per_session_def not_le
        split: option.splits)
qed

theorem approval_request_spec_witness:
  "\<exists>pl. let (res, r') = commit_planned_approval pl (wit_registry Completed)
        in is_ok res \<and> map_option ses_state (bm_get (sessions r') 3) = Some WaitingApproval"
proof -
  obtain pl where pl: "plan_approval 9 6 3 \<lparr>acr_approval_id = None, acr_title = [], acr_description = [],
      acr_metadata = bm_empty\<rparr> (wit_registry Completed) = Inr pl"
    by (simp add: plan_approval_def wit_defs)
  have "session_approval_count (wit_registry Completed) 3 < 128"
    using filter_values_insert_le [of "\<lambda>a. ap_session_id a = 3" 4 "wit_approval 4" "bm_insert 5 (wit_approval 5) bm_empty"]
      filter_values_insert_le [of "\<lambda>a. ap_session_id a = 3" 5 "wit_approval 5" bm_empty]
    by (simp add: session_approval_count_def wit_registry_def wit_approval_def bm_values_def)
  with approval_request_spec [OF pl, of "wit_registry Completed"] show ?thesis
    by (intro exI [of _ pl]) (auto simp: split_beta Let_def wit_defs split: sum.splits)
qed

section \<open>Command queues are bounded first-in first-out buffers\<close>

definition queued_command :: "rstring \<Rightarrow> instant \<times> uuid \<times> runner_queued_command_body \<Rightarrow> runner_queued_command" where
  "queued_command rid e =
     \<lparr> qc_command_id = fst (snd e), qc_runner_id = rid, qc_created_at = fst e, qc_body = snd (snd e) \<rparr>"

interpretation command_log:
  bounded_log "\<lambda>r. command_queue r rid" "\<lambda>e r. snd (enqueue_runner_command (fst e) (fst (snd e)) rid (snd (snd e)) r)"
    "queued_command rid" max_commands_per_runner "\<lambda>r. bm_contains (runners r) rid" for rid
  by unfold_locales (auto simp: enqueue_runner_command_def command_queue_def queued_command_def Let_def)

lemma command_queue_bound: "work_inv r \<Longrightarrow> length (command_queue r rid) \<le> max_commands_per_runner"
  by (cases "bm_get (queued_runner_commands r) rid")
    (simp_all add: command_queue_def work_inv_def queue_inv_def)

text \<open>
  C20. Commands for a pulling runner are delivered in order and at most once. After any run of
  enqueues the queue holds the newest 256 of all commands; a pull hands out the oldest ones, at least
  one if there is any, and leaves exactly the others queued.
\<close>

theorem commands_fifo:
  assumes "work_inv r" "bm_contains (runners r) rid"
  shows "let r1 = fold (\<lambda>(now, fresh, body) r. snd (enqueue_runner_command now fresh rid body r)) cmds r;
             queued = drop (length (command_queue r rid) + length cmds - 256)
                        (command_queue r rid @ map (queued_command rid) cmds)
         in command_queue r1 rid = queued
            \<and> (\<exists>r2. pull_runner_commands rid limit r1 = (Inr (take (max limit 1) queued), r2)
                   \<and> command_queue r2 rid = drop (max limit 1) queued)"
proof -
  let ?r1 = "fold (\<lambda>(now, fresh, body) r. snd (enqueue_runner_command now fresh rid body r)) cmds r"
  have eq: "(\<lambda>(now, fresh, body) r. snd (enqueue_runner_command now fresh rid body r))
      = (\<lambda>e r. snd (enqueue_runner_command (fst e) (fst (snd e)) rid (snd (snd e)) r))"
    by (auto simp: fun_eq_iff)
  have "bm_contains (runners ?r1) rid"
    unfolding eq by (rule command_log.pushes_ok [OF assms(2)])
  moreover have "command_queue ?r1 rid = drop (length (command_queue r rid) + length cmds - 256)
                        (command_queue r rid @ map (queued_command rid) cmds)"
    unfolding eq using command_log.pushes_contents [OF assms(2) command_queue_bound [OF assms(1)]]
    by (simp add: max_commands_per_runner_def)
  ultimately show ?thesis
    by (simp add: Let_def pull_runner_commands_def pop_up_to_eq command_queue_def)
qed

theorem commands_fifo_witness:
  "let req = \<lparr> rr_runner_id = [1], rr_control_plane_url = None, rr_public_base_url = None, rr_workspaces = [],
              rr_labels = bm_empty, rr_auth_token = None,
              rr_capabilities = \<lparr> rc_interactive_approvals = True, rc_background_sessions = True,
                                  rc_artifact_uploads = True, rc_max_parallel_sessions = 4 \<rparr>,
              rr_platform = \<lparr> rp_os = [], rp_arch = [], rp_family = [] \<rparr> \<rparr>;
       r = snd (register_runner 0 req 30 None registry_default);
       r1 = fold (\<lambda>(now, fresh, body) r. snd (enqueue_runner_command now fresh [1] body r))
              [(1, 11, CmdSessionCommand 3 (SendPrompt [5])), (2, 12, CmdSessionCommand 3 Interrupt)] r
   in map qc_command_id (command_queue r1 [1]) = [11, 12]
      \<and> (\<exists>cs r2. pull_runner_commands [1] 1 r1 = (Inr cs, r2) \<and> map qc_command_id cs = [11])"
proof -
  let ?req = "\<lparr> rr_runner_id = [1], rr_control_plane_url = None, rr_public_base_url = None, rr_workspaces = [],
              rr_labels = bm_empty, rr_auth_token = None,
              rr_capabilities = \<lparr> rc_interactive_approvals = True, rc_background_sessions = True,
                                  rc_artifact_uploads = True, rc_max_parallel_sessions = 4 \<rparr>,
              rr_platform = \<lparr> rp_os = [], rp_arch = [], rp_family = [] \<rparr> \<rparr>"
  let ?r = "snd (register_runner 0 ?req 30 None registry_default)"
  have "bm_contains (runners ?r) [1]" "command_queue ?r [1] = []"
    by (simp_all add: register_runner_def Let_def refresh_counts_runner command_queue_def registry_default_def)
  then show ?thesis
    using commands_fifo [OF work_inv_sessions(2) [OF work_inv_default, of 0 ?req 30 None], of "[1]"
        "[(1, 11, CmdSessionCommand 3 (SendPrompt [5])), (2, 12, CmdSessionCommand 3 Interrupt)]" 1]
    by (fastforce simp: Let_def queued_command_def)
qed

section \<open>Artifacts\<close>

text \<open>
  An artifact is recorded exactly for a stored session and a name that is not blank; nothing
  changes otherwise. A recorded artifact can be read back under its identifier, carries the session's
  runner, a media type that is never empty and a sanitised file name, and is listed for the tenant that
  owns the session and for no other.
\<close>

theorem artifact_registered:
  "let (res, r') = register_artifact now fresh sid req n r
   in (is_ok res \<longleftrightarrow> trim (ac_name req) \<noteq> [] \<and> bm_get (sessions r) sid \<noteq> None)
      \<and> (case res of
            Inl e \<Rightarrow> r' = r
          | Inr a \<Rightarrow>
              get_artifact r' fresh = Inr a \<and> ar_session_id a = sid \<and> ar_size_bytes a = n
              \<and> ar_media_type a \<noteq> []
              \<and> ar_file_name a = sanitize_artifact_component (unwrap_or (ac_name req) (ac_file_name req))
                                  (str ''artifact.bin'')
              \<and> ar_runner_id a = Option.bind (bm_get (sessions r) sid) ses_owner_runner_id
              \<and> (a \<in> set (list_artifacts_for_user r' (Some uid)) \<longleftrightarrow> session_owner r sid = Some uid))"
proof -
  have ne: "octet_stream \<noteq> []" by (simp add: octet_stream_def str_def)
  show ?thesis
  proof (cases "is_ok (fst (register_artifact now fresh sid req n r))")
    case False
    then show ?thesis by (auto simp: register_artifact_def Let_def split: option.splits if_splits)
  next
    case True
    then obtain a r' where res: "register_artifact now fresh sid req n r = (Inr a, r')"
      by (cases "register_artifact now fresh sid req n r"; cases "fst (register_artifact now fresh sid req n r)")
        auto
    then obtain s where s: "bm_get (sessions r) sid = Some s" "trim (ac_name req) \<noteq> []"
      by (auto simp: register_artifact_def Let_def split: option.splits if_splits)
    with res have a: "bm_get (artifacts r') fresh = Some a" "ar_session_id a = sid" "sessions r' = sessions r"
      and fields: "ar_size_bytes a = n" "ar_media_type a \<noteq> []" "ar_runner_id a = ses_owner_runner_id s"
        "ar_file_name a = sanitize_artifact_component (unwrap_or (ac_name req) (ac_file_name req))
                                  (str ''artifact.bin'')"
      using ne by (auto simp: register_artifact_def Let_def split: option.splits if_splits)
    have "a \<in> set (list_artifacts_for_user r' (Some uid)) \<longleftrightarrow> session_owner r sid = Some uid"
      using a bm_valuesI [OF a(1)]
      by (simp add: artifact_view.tenant_sees_own list_artifacts_def session_owner_def)
    with res s a fields show ?thesis by simp
  qed
qed

end
