(* ===== verification/Timeline.thy ===== *)
theory Timeline
  imports Registry_Approvals
begin

text \<open>
  The event timeline: the in-memory store with its bounded history
  (\<^verbatim>\<open>rc-control-plane/src/registry.rs\<close>), the table of persisted events and its queries
  (\<^verbatim>\<open>rc-control-plane/src/state.rs\<close>), and the WebSocket streams that replay a backlog and then follow the
  live feed (\<^verbatim>\<open>rc-control-plane/src/streams.rs\<close>).

  JSON is the argument pair \<open>enc\<close>, \<open>dec\<close>; what the code relies on is that decoding an encoded event
  gives the event back. The SQLite table is a map from the integer primary key to the row, so that
  \<^verbatim>\<open>ORDER BY sequence\<close> is the order of its entries.
\<close>

section \<open>The in-memory store\<close>

record timeline_store =
  tl_history_limit :: nat
  tl_next_sequence :: u64
  tl_history :: "timeline_event list"

definition timeline_new :: "nat \<Rightarrow> timeline_store" where
  "timeline_new limit =
     \<lparr> tl_history_limit = max limit 1, tl_next_sequence = 1, tl_history = [] \<rparr>"

definition timeline_from_snapshot :: "nat \<Rightarrow> u64 \<times> timeline_event list \<Rightarrow> timeline_store" where
  "timeline_from_snapshot limit snap =
     \<lparr> tl_history_limit = max limit 1, tl_next_sequence = fst snap, tl_history = snd snap \<rparr>"

definition timeline_snapshot :: "timeline_store \<Rightarrow> u64 \<times> timeline_event list" where
  "timeline_snapshot ts = (tl_next_sequence ts, tl_history ts)"

definition timeline_publish ::
  "instant \<Rightarrow> timeline_event_draft \<Rightarrow> timeline_store \<Rightarrow> timeline_event \<times> timeline_store" where
  "timeline_publish now draft ts =
     (let e = \<lparr> ev_sequence = tl_next_sequence ts, ev_recorded_at = now,
                ev_runner_id = dr_runner_id draft, ev_session_id = dr_session_id draft,
                ev_detail = dr_detail draft \<rparr>
      in (e, ts\<lparr>tl_next_sequence := tl_next_sequence ts + 1,
                tl_history := push_bounded (tl_history_limit ts) e (tl_history ts)\<rparr>))"

section \<open>The table of persisted events\<close>

record event_row =
  row_recorded_at :: instant
  row_runner_id :: "rstring option"
  row_session_id :: "rstring option"
  row_kind :: string
  row_is_approval :: int
  row_payload :: rstring

type_synonym event_table = "(int, event_row) btree"
type_synonym event_encoder = "timeline_event \<Rightarrow> rstring"
type_synonym event_decoder = "rstring \<Rightarrow> timeline_event option"

text \<open>\<^verbatim>\<open>i64::try_from\<close>, and its use with \<^verbatim>\<open>unwrap_or(i64::MAX)\<close> for the primary key.\<close>

definition i64_try_from :: "u64 \<Rightarrow> int option" where
  "i64_try_from n = (if uint n < 2 ^ 63 then Some (uint n) else None)"

definition row_key :: "timeline_event \<Rightarrow> int" where
  "row_key e = unwrap_or (2 ^ 63 - 1) (i64_try_from (ev_sequence e))"

definition event_row_of :: "event_encoder \<Rightarrow> timeline_event \<Rightarrow> event_row" where
  "event_row_of enc e =
     \<lparr> row_recorded_at = ev_recorded_at e, row_runner_id = ev_runner_id e,
       row_session_id = map_option uuid_string (ev_session_id e),
       row_kind = event_kind_name_for_detail (ev_detail e),
       row_is_approval = (if is_approval_kind (event_kind (ev_detail e)) then 1 else 0),
       row_payload = enc e \<rparr>"

text \<open>\<^verbatim>\<open>INSERT OR IGNORE\<close>: a row whose key is taken is dropped silently.\<close>

definition persist_timeline_event :: "event_encoder \<Rightarrow> timeline_event \<Rightarrow> event_table \<Rightarrow> event_table" where
  "persist_timeline_event enc e tbl =
     (if bm_contains tbl (row_key e) then tbl else bm_insert (row_key e) (event_row_of enc e) tbl)"

definition backfill_persisted_events ::
  "event_encoder \<Rightarrow> u64 \<times> timeline_event list \<Rightarrow> event_table \<Rightarrow> event_table" where
  "backfill_persisted_events enc snap tbl = fold (persist_timeline_event enc) (snd snap) tbl"

record persisted_event_query =
  pq_after :: "u64 option"
  pq_limit :: "nat option"
  pq_kind :: "timeline_event_kind option"
  pq_session_id :: "uuid option"
  pq_runner_id :: "rstring option"
  pq_approvals_only :: bool

text \<open>The clauses both queries share; SQL's equality is never true of \<^verbatim>\<open>NULL\<close>.\<close>

definition row_matches :: "persisted_event_query \<Rightarrow> event_row \<Rightarrow> bool" where
  "row_matches q row \<longleftrightarrow>
     is_none_or (\<lambda>sid. row_session_id row = Some (uuid_string sid)) (pq_session_id q)
     \<and> is_none_or (\<lambda>rid. row_runner_id row = Some rid) (pq_runner_id q)
     \<and> is_none_or (\<lambda>k. row_kind row = event_kind_name k) (pq_kind q)
     \<and> (pq_approvals_only q \<longrightarrow> row_is_approval row = 1)"

text \<open>Decode every payload in turn; the first that fails fails the query.\<close>

fun decode_all :: "event_decoder \<Rightarrow> rstring list \<Rightarrow> timeline_event list option" where
  "decode_all dec [] = Some []"
| "decode_all dec (p # ps) =
     (case dec p of None \<Rightarrow> None | Some e \<Rightarrow> map_option ((#) e) (decode_all dec ps))"

definition load_persisted_events ::
  "event_decoder \<Rightarrow> persisted_event_query \<Rightarrow> event_table \<Rightarrow> timeline_event list option" where
  "load_persisted_events dec q tbl =
     (let select = (\<lambda>after.
        let rows = filter (\<lambda>kr. is_none_or (\<lambda>a. a < fst kr) after \<and> row_matches q (snd kr)) (entries tbl);
            newest_first = rev rows;
            page = (case pq_limit q of
                      Some n \<Rightarrow> take (clamp_nat 1 max_event_list_limit n) newest_first
                    | None \<Rightarrow> newest_first)
        in map_option rev (decode_all dec (map (row_payload \<circ> snd) page)))
      in case pq_after q of
           None \<Rightarrow> select None
         | Some after \<Rightarrow>
             (case i64_try_from after of None \<Rightarrow> None | Some a \<Rightarrow> select (Some a)))"

text \<open>
  The greatest matching key; negative keys do not convert to \<^verbatim>\<open>u64\<close> and fail the query. The outer
  option is the error, the inner one the absence of a row.
\<close>

definition load_latest_persisted_event_sequence ::
  "persisted_event_query \<Rightarrow> event_table \<Rightarrow> u64 option option" where
  "load_latest_persisted_event_sequence q tbl =
     (case rev (filter (\<lambda>kr. row_matches q (snd kr)) (entries tbl)) of
        [] \<Rightarrow> Some None
      | kr # _ \<Rightarrow> if 0 \<le> fst kr then Some (Some (word_of_int (fst kr))) else None)"

section \<open>Streams\<close>

text \<open>
  What a subscriber receives: an event, the notice that it fell behind, or the end of the feed. A
  stream is modelled by what it sends, as long as the socket accepts: \<open>sends\<close> is the number of messages
  the peer takes before a send fails.
\<close>

datatype feed_item = Received timeline_event | Lagged u64

fun replay_backlog :: "timeline_event list \<Rightarrow> nat \<Rightarrow> u64 \<Rightarrow> timeline_event list \<times> (nat \<times> u64) option" where
  "replay_backlog [] sends last_seq = ([], Some (sends, last_seq))"
| "replay_backlog (e # es) 0 last_seq = ([], None)"
| "replay_backlog (e # es) (Suc sends) last_seq =
     (case replay_backlog es sends (ev_sequence e) of (out, st) \<Rightarrow> (e # out, st))"

fun follow_feed ::
  "(timeline_event \<Rightarrow> bool) \<Rightarrow> feed_item list \<Rightarrow> nat \<Rightarrow> u64 \<Rightarrow> timeline_event list" where
  "follow_feed f [] sends last_seq = []"
| "follow_feed f (Lagged n # feed) sends last_seq = follow_feed f feed sends last_seq"
| "follow_feed f (Received e # feed) sends last_seq =
     (if ev_sequence e \<le> last_seq \<or> \<not> f e then follow_feed f feed sends last_seq
      else case sends of
        0 \<Rightarrow> []
      | Suc k \<Rightarrow> e # follow_feed f feed k (ev_sequence e))"

definition serve_filtered_event_stream ::
  "nat \<Rightarrow> feed_item list \<Rightarrow> timeline_event list \<Rightarrow> (timeline_event \<Rightarrow> bool) \<Rightarrow> timeline_event list" where
  "serve_filtered_event_stream sends feed backlog f =
     (case replay_backlog backlog sends 0 of
        (out, None) \<Rightarrow> out
      | (out, Some (sends', last_seq)) \<Rightarrow> out @ follow_feed f feed sends' last_seq)"

definition serve_session_event_stream ::
  "nat \<Rightarrow> feed_item list \<Rightarrow> timeline_event list \<Rightarrow> uuid \<Rightarrow> timeline_event_kind option \<Rightarrow> timeline_event list" where
  "serve_session_event_stream sends feed backlog sid kind =
     serve_filtered_event_stream sends feed backlog
       (\<lambda>e. ev_session_id e = Some sid \<and> event_matches_kind e kind)"

definition serve_runner_event_stream ::
  "nat \<Rightarrow> feed_item list \<Rightarrow> timeline_event list \<Rightarrow> rstring \<Rightarrow> timeline_event_kind option \<Rightarrow> timeline_event list" where
  "serve_runner_event_stream sends feed backlog rid kind =
     serve_filtered_event_stream sends feed backlog
       (\<lambda>e. ev_runner_id e = Some rid \<and> event_matches_kind e kind)"

definition serve_runner_approval_stream ::
  "nat \<Rightarrow> feed_item list \<Rightarrow> timeline_event list \<Rightarrow> rstring \<Rightarrow> timeline_event_kind option \<Rightarrow> timeline_event list" where
  "serve_runner_approval_stream sends feed backlog rid kind =
     serve_filtered_event_stream sends feed backlog
       (\<lambda>e. ev_runner_id e = Some rid \<and> approval_event_matches e kind)"

definition serve_session_approval_stream ::
  "nat \<Rightarrow> feed_item list \<Rightarrow> timeline_event list \<Rightarrow> uuid \<Rightarrow> timeline_event_kind option \<Rightarrow> timeline_event list" where
  "serve_session_approval_stream sends feed backlog sid kind =
     serve_filtered_event_stream sends feed backlog
       (\<lambda>e. ev_session_id e = Some sid \<and> approval_event_matches e kind)"

section \<open>Sequence numbers and history\<close>

text \<open>What a draft contributes to its event, apart from the sequence number.\<close>

definition event_content where
  "event_content e = (ev_recorded_at e, ev_runner_id e, ev_session_id e, ev_detail e)"

definition draft_content where
  "draft_content d = (fst d, dr_runner_id (snd d), dr_session_id (snd d), dr_detail (snd d))"

lemma map_push_bounded: "map f (push_bounded l x q) = push_bounded l (f x) (map f q)"
  by (simp add: push_bounded_eq flip: drop_map)

interpretation timeline_log:
  bounded_log "\<lambda>ts. map event_content (tl_history ts)" "\<lambda>d ts. snd (timeline_publish (fst d) (snd d) ts)"
    draft_content limit "\<lambda>ts. tl_history_limit ts = limit" for limit
  by unfold_locales
    (simp_all add: timeline_publish_def Let_def map_push_bounded event_content_def draft_content_def)

definition seq_inv :: "timeline_store \<Rightarrow> bool" where
  "seq_inv ts \<longleftrightarrow> length (tl_history ts) < unat (tl_next_sequence ts)
     \<and> map (\<lambda>e. unat (ev_sequence e)) (tl_history ts)
       = [unat (tl_next_sequence ts) - length (tl_history ts) ..< unat (tl_next_sequence ts)]"

lemma unat_Suc_u64: "unat (n :: u64) < 2 ^ 64 - 1 \<Longrightarrow> unat (n + 1) = Suc (unat n)"
  by (simp add: unat_word_ariths)

lemma push_bounded_upt:
  assumes "ns = [n - length ns ..< n]" "length ns \<le> n"
  shows "push_bounded l n ns = [Suc n - length (push_bounded l n ns) ..< Suc n]"
proof -
  let ?k = "Suc (length ns) - l"
  have "ns @ [n] = [n - length ns ..< Suc n]" using assms(1) by simp
  then have "push_bounded l n ns = [n - length ns + ?k ..< Suc n]"
    by (metis drop_upt push_bounded_eq)
  moreover have "Suc n - length (push_bounded l n ns) = n - length ns + ?k"
    using assms(2) by (simp add: length_push_bounded)
  ultimately show ?thesis by simp
qed

lemma seq_inv_publish:
  assumes "seq_inv ts" "unat (tl_next_sequence ts) < 2 ^ 64 - 1"
  shows "seq_inv (snd (timeline_publish now d ts))"
    "unat (tl_next_sequence (snd (timeline_publish now d ts))) = Suc (unat (tl_next_sequence ts))"
proof -
  let ?n = "unat (tl_next_sequence ts)" and ?h = "tl_history ts"
  have n: "unat (tl_next_sequence ts + 1) = Suc ?n" using assms(2) by (rule unat_Suc_u64)
  then show "unat (tl_next_sequence (snd (timeline_publish now d ts))) = Suc ?n"
    by (simp add: timeline_publish_def Let_def)
  let ?ns = "map (\<lambda>e. unat (ev_sequence e)) ?h"
  have "push_bounded l ?n ?ns = [Suc ?n - length (push_bounded l ?n ?ns) ..< Suc ?n]" for l
    using assms(1) by (intro push_bounded_upt) (simp_all add: seq_inv_def)
  then show "seq_inv (snd (timeline_publish now d ts))"
    using assms(1) n min.strict_coboundedI2 [of "Suc (length ?h)" "Suc ?n"]
    by (simp add: seq_inv_def timeline_publish_def Let_def map_push_bounded length_push_bounded)
qed

lemma seq_inv_pushes:
  assumes "seq_inv ts" "unat (tl_next_sequence ts) + length ds < 2 ^ 64"
  shows "seq_inv (fold (\<lambda>d ts. snd (timeline_publish (fst d) (snd d) ts)) ds ts)
     \<and> unat (tl_next_sequence (fold (\<lambda>d ts. snd (timeline_publish (fst d) (snd d) ts)) ds ts))
       = unat (tl_next_sequence ts) + length ds"
  using assms
proof (induction ds arbitrary: ts)
  case (Cons d ds)
  from seq_inv_publish [OF Cons.prems(1), of "fst d" "snd d"] Cons.prems(2)
  have "seq_inv (snd (timeline_publish (fst d) (snd d) ts))"
    "unat (tl_next_sequence (snd (timeline_publish (fst d) (snd d) ts))) = Suc (unat (tl_next_sequence ts))"
    by simp_all
  with Cons.IH Cons.prems(2) show ?case by simp
qed simp

text \<open>
  Events are numbered without gaps from one, and the history is the newest part of the timeline:
  after publishing any run of drafts (fewer than the 64-bit counter can number) to a new store, the
  history holds the last of them, as many as its limit allows and at least one, in order, with their
  exact sequence numbers.
\<close>

theorem timeline_history_exact:
  assumes "length ds < 2 ^ 64 - 1"
  shows "let ts = fold (\<lambda>d ts. snd (timeline_publish (fst d) (snd d) ts)) ds (timeline_new limit);
             gone = length ds - max limit 1
         in map event_content (tl_history ts) = drop gone (map draft_content ds)
            \<and> map (\<lambda>e. unat (ev_sequence e)) (tl_history ts) = [Suc gone ..< Suc (length ds)]
            \<and> unat (tl_next_sequence ts) = Suc (length ds)"
proof -
  let ?ts = "fold (\<lambda>d ts. snd (timeline_publish (fst d) (snd d) ts)) ds (timeline_new limit)"
  have "seq_inv (timeline_new limit)" "unat (tl_next_sequence (timeline_new limit)) = 1"
    by (simp_all add: seq_inv_def timeline_new_def)
  with seq_inv_pushes [of "timeline_new limit" ds] assms
  have seq: "seq_inv ?ts" "unat (tl_next_sequence ?ts) = Suc (length ds)" by simp_all
  have content: "map event_content (tl_history ?ts) = drop (length ds - max limit 1) (map draft_content ds)"
    using timeline_log.pushes_contents [of "timeline_new limit" "max limit 1" ds]
    by (simp add: timeline_new_def)
  have "length (tl_history ?ts) = length ds - (length ds - max limit 1)"
    using arg_cong [OF content, of length] by simp
  then have "Suc (length ds) - length (tl_history ?ts) = Suc (length ds - max limit 1)" by simp
  with seq have "map (\<lambda>e. unat (ev_sequence e)) (tl_history ?ts) = [Suc (length ds - max limit 1) ..< Suc (length ds)]"
    by (simp only: seq_inv_def)
  with seq(2) content show ?thesis by (simp only: Let_def)
qed

theorem timeline_history_exact_witness:
  "map (\<lambda>e. unat (ev_sequence e)) (tl_history (fold (\<lambda>d ts. snd (timeline_publish (fst d) (snd d) ts))
     [(1, \<lparr>dr_runner_id = None, dr_session_id = None, dr_detail = EvRuntimeError []\<rparr>),
      (2, \<lparr>dr_runner_id = None, dr_session_id = None, dr_detail = EvRuntimeError [5]\<rparr>)]
     (timeline_new 1))) = [2]"
proof -
  let ?ds = "[(1, \<lparr>dr_runner_id = None, dr_session_id = None, dr_detail = EvRuntimeError []\<rparr>),
      (2, \<lparr>dr_runner_id = None, dr_session_id = None, dr_detail = EvRuntimeError [5]\<rparr>)]"
  have "length ?ds < 2 ^ 64 - 1" and up: "[Suc (length ?ds - max 1 1) ..< Suc (length ?ds)] = [2]" by simp_all
  from timeline_history_exact [OF this(1), of 1] up show ?thesis by (simp only: Let_def)
qed

section \<open>Persisted events\<close>

lemma alist_insert_last:
  "\<forall>k' \<in> fst ` set xs. k' < k \<Longrightarrow> alist_insert k v xs = xs @ [(k, v)]"
  by (induction xs) auto

lemma hex_of_nat_inj:
  "hex_of_nat w m = hex_of_nat w n \<Longrightarrow> m < 16 ^ w \<Longrightarrow> n < 16 ^ w \<Longrightarrow> m = n"
proof (induction w arbitrary: m n)
  case (Suc w)
  then have "hex_of_nat w (m div 16) = hex_of_nat w (n div 16)"
    and d: "hex_digit (m mod 16) = hex_digit (n mod 16)" by simp_all
  with Suc have "m div 16 = n div 16" by (auto simp: less_mult_imp_div_less)
  moreover have "m mod 16 = n mod 16" using d by (auto simp: hex_digit_def split: if_splits)
  ultimately show ?case by (metis mod_mult_div_eq)
qed simp

lemma uuid_string_inj: "uuid_string u = uuid_string v \<Longrightarrow> u = v"
proof -
  assume eq: "uuid_string u = uuid_string v"
  have parts: "take 8 (uuid_string w) @ take 4 (drop 9 (uuid_string w)) @ take 4 (drop 14 (uuid_string w))
        @ take 4 (drop 19 (uuid_string w)) @ drop 24 (uuid_string w) = uuid_simple w" for w
  proof -
    have len: "length (uuid_simple w) = 32" by (simp add: uuid_simple_def)
    let ?h = "uuid_simple w"
    have "?h = take 8 ?h @ take 4 (drop 8 ?h) @ take 4 (drop 12 ?h) @ take 4 (drop 16 ?h) @ drop 20 ?h"
      by (simp flip: take_add add: append_assoc [symmetric] del: append_assoc)
    then show ?thesis using len by (simp add: uuid_string_def Let_def)
  qed
  have "uuid_simple u = uuid_simple v" using eq parts by metis
  moreover have "unat w < 16 ^ 32" for w :: uuid using unsigned_less [of w, where ?'a = nat] by simp
  ultimately have "unat u = unat v" unfolding uuid_simple_def using hex_of_nat_inj by blast
  then show "u = v" by (rule unsigned_word_eqI)
qed

text \<open>The reference the SQL query implements.\<close>

definition event_matches :: "persisted_event_query \<Rightarrow> timeline_event \<Rightarrow> bool" where
  "event_matches q e \<longleftrightarrow>
     is_none_or (\<lambda>a. a < ev_sequence e) (pq_after q)
     \<and> is_none_or (\<lambda>sid. ev_session_id e = Some sid) (pq_session_id q)
     \<and> is_none_or (\<lambda>rid. ev_runner_id e = Some rid) (pq_runner_id q)
     \<and> event_matches_kind e (pq_kind q)
     \<and> (is_approval_event e \<or> \<not> pq_approvals_only q)"

definition persisted :: "event_encoder \<Rightarrow> timeline_event list \<Rightarrow> event_table" where
  "persisted enc es = fold (persist_timeline_event enc) es bm_empty"

definition persistable :: "timeline_event list \<Rightarrow> bool" where
  "persistable es \<longleftrightarrow> sorted_wrt (<) (map ev_sequence es) \<and> list_all (\<lambda>e. ev_sequence e < 2 ^ 63) es"

lemma row_key_eq: "ev_sequence e < 2 ^ 63 \<Longrightarrow> row_key e = uint (ev_sequence e)"
  by (simp add: row_key_def i64_try_from_def word_less_def)

lemma entries_persisted:
  assumes "persistable es"
  shows "entries (persisted enc es) = map (\<lambda>e. (uint (ev_sequence e), event_row_of enc e)) es"
  using assms
proof (induction es rule: rev_induct)
  case Nil
  show ?case by (simp add: persisted_def)
next
  case (snoc e es)
  then have IH: "entries (persisted enc es) = map (\<lambda>e. (uint (ev_sequence e), event_row_of enc e)) es"
    and less: "\<forall>x \<in> set es. uint (ev_sequence x) < uint (ev_sequence e)"
    and k: "row_key e = uint (ev_sequence e)"
    by (simp_all add: persistable_def sorted_wrt_append word_less_def row_key_eq)
  have "\<not> bm_contains (persisted enc es) (row_key e)"
    using less k by (auto simp: in_entries_iff [symmetric] IH)
  then have "persisted enc (es @ [e]) = bm_insert (row_key e) (event_row_of enc e) (persisted enc es)"
    by (simp add: persisted_def persist_timeline_event_def del: bm_contains_iff)
  then show ?case
    using less k by (simp add: IH alist_insert_last)
qed

lemma decode_all_enc:
  "\<forall>e \<in> set es. dec (enc e) = Some e \<Longrightarrow> decode_all dec (map enc es) = Some es"
  by (induction es) simp_all

lemma row_matches_event:
  "row_matches q (event_row_of enc e) \<longleftrightarrow> event_matches (q\<lparr>pq_after := None\<rparr>) e"
  using uuid_string_inj event_kind_name_inj
  by (cases "pq_session_id q"; cases "pq_kind q")
    (auto simp: row_matches_def event_matches_def event_row_of_def event_matches_kind_def
      is_approval_kind_iff is_approval_event_def event_kind_name_for_detail_def)

text \<open>
  C19. Replaying persisted events is exact. If the events were persisted in the order of their sequence
  numbers, the query returns precisely the events that match its session, runner, kind, approval and
  ``after'' conditions, in ascending order; a limit, forced into 1..200, keeps the newest ones.
\<close>

theorem persisted_query_exact:
  assumes "list_all (\<lambda>e. dec (enc e) = Some e) es" "persistable es"
    and "is_none_or (\<lambda>a. a < 2 ^ 63) (pq_after q)"
  shows "load_persisted_events dec q (persisted enc es) =
         Some (let hits = filter (event_matches q) es
               in case pq_limit q of
                    None \<Rightarrow> hits
                  | Some n \<Rightarrow> drop (length hits - clamp_nat 1 200 n) hits)"
proof -
  define ok where "ok = (\<lambda>(after :: int option) e. is_none_or (\<lambda>a. a < uint (ev_sequence e)) after
      \<and> event_matches (q\<lparr>pq_after := None\<rparr>) e)"
  have rows: "filter (\<lambda>kr. is_none_or (\<lambda>a. a < fst kr) after \<and> row_matches q (snd kr)) (entries (persisted enc es))
      = map (\<lambda>e. (uint (ev_sequence e), event_row_of enc e)) (filter (ok after) es)" for after
    by (simp add: entries_persisted [OF assms(2)] filter_map comp_def row_matches_event ok_def)
  have pay: "row_payload (event_row_of enc e) = enc e" for e by (simp add: event_row_of_def)
  have page: "map_option rev (decode_all dec (map (row_payload \<circ> snd)
        (case pq_limit q of Some n \<Rightarrow> take (clamp_nat 1 max_event_list_limit n) (rev (map (\<lambda>e. (uint (ev_sequence e), event_row_of enc e)) hits))
         | None \<Rightarrow> rev (map (\<lambda>e. (uint (ev_sequence e), event_row_of enc e)) hits))))
      = Some (case pq_limit q of None \<Rightarrow> hits | Some n \<Rightarrow> drop (length hits - clamp_nat 1 200 n) hits)" if "set hits \<subseteq> set es" for hits
  proof -
    have dec: "decode_all dec (map enc xs) = Some xs" if "set xs \<subseteq> set hits" for xs
      using that \<open>set hits \<subseteq> set es\<close> assms(1) by (intro decode_all_enc) (auto simp: list_all_iff)
    show ?thesis
      by (cases "pq_limit q")
        (simp_all add: rev_map take_map comp_def pay dec max_event_list_limit_def take_rev
          set_drop_subset)
  qed
  show ?thesis
  proof (cases "pq_after q")
    case None
    then have "filter (ok None) es = filter (event_matches q) es"
      by (intro filter_cong) (simp_all add: ok_def event_matches_def)
    with None page [OF filter_is_subset [of "ok None" es]] show ?thesis
      by (simp only: load_persisted_events_def Let_def rows option.case)
  next
    case (Some a)
    with assms(3) have a: "i64_try_from a = Some (uint a)" by (simp add: i64_try_from_def word_less_def)
    have "filter (ok (Some (uint a))) es = filter (event_matches q) es"
      using Some by (intro filter_cong) (simp_all add: ok_def event_matches_def word_less_def)
    with Some a page [OF filter_is_subset [of "ok (Some (uint a))" es]] show ?thesis
      by (simp only: load_persisted_events_def Let_def rows option.case)
  qed
qed

definition wit_event :: "u64 \<Rightarrow> timeline_event" where
  "wit_event n = \<lparr> ev_sequence = n, ev_recorded_at = 0, ev_runner_id = Some [1], ev_session_id = None,
                  ev_detail = EvRuntimeError [] \<rparr>"

theorem persisted_query_exact_witness:
  "load_persisted_events (\<lambda>p. Some (wit_event (if p = [1] then 1 else 2)))
     \<lparr>pq_after = Some 0, pq_limit = Some 1, pq_kind = None, pq_session_id = None, pq_runner_id = Some [1],
      pq_approvals_only = False\<rparr>
     (persisted (\<lambda>e. [if ev_sequence e = 1 then 1 else 2]) [wit_event 1, wit_event 2]) = Some [wit_event 2]"
proof -
  have "persistable [wit_event 1, wit_event 2]" by (simp add: persistable_def wit_event_def)
  moreover have "list_all (\<lambda>e. Some (wit_event (if [if ev_sequence e = 1 then 1 else 2] = [1 :: nat] then 1 else 2)) = Some e)
      [wit_event 1, wit_event 2]"
    by (simp add: wit_event_def)
  ultimately show ?thesis
    using persisted_query_exact [of "\<lambda>p. Some (wit_event (if p = [1] then 1 else 2))"
        "\<lambda>e. [if ev_sequence e = 1 then 1 else 2]" "[wit_event 1, wit_event 2]"
        "\<lparr>pq_after = Some 0, pq_limit = Some 1, pq_kind = None, pq_session_id = None, pq_runner_id = Some [1],
          pq_approvals_only = False\<rparr>"]
    by (simp add: event_matches_def event_matches_kind_def clamp_nat_def Let_def wit_event_def)
qed

text \<open>
  The newest persisted sequence number is that of the last matching event, and no matching event
  is newer.
\<close>

theorem latest_sequence_exact:
  assumes "persistable es" "pq_after q = None"
  shows "load_latest_persisted_event_sequence q (persisted enc es) =
         Some (let hits = filter (event_matches q) es
               in if hits = [] then None else Some (ev_sequence (last hits)))"
proof -
  have "q\<lparr>pq_after := None\<rparr> = q" using assms(2) by simp
  then have "filter (\<lambda>kr. row_matches q (snd kr)) (entries (persisted enc es))
        = map (\<lambda>e. (uint (ev_sequence e), event_row_of enc e)) (filter (event_matches q) es)"
    by (simp add: entries_persisted [OF assms(1)] filter_map comp_def row_matches_event)
  then show ?thesis
    by (cases "filter (event_matches q) es" rule: rev_cases)
      (simp_all add: load_latest_persisted_event_sequence_def Let_def)
qed

theorem latest_sequence_exact_witness:
  "load_latest_persisted_event_sequence
     \<lparr>pq_after = None, pq_limit = None, pq_kind = None, pq_session_id = None, pq_runner_id = Some [1],
      pq_approvals_only = False\<rparr>
     (persisted (\<lambda>e. []) [wit_event 1, wit_event 2]) = Some (Some 2)"
  using latest_sequence_exact [of "[wit_event 1, wit_event 2]"
      "\<lparr>pq_after = None, pq_limit = None, pq_kind = None, pq_session_id = None, pq_runner_id = Some [1],
        pq_approvals_only = False\<rparr>" "\<lambda>e. []"]
  by (simp add: persistable_def wit_event_def event_matches_def event_matches_kind_def Let_def)

text \<open>
  A restart from a snapshot that is older than the event table loses events. The counter resumes
  at the snapshot's value, so the next event gets the number of one that is already in the table, and
  the insertion is ignored: the table does not change and the new event is not persisted.
\<close>

theorem restart_from_old_snapshot_drops_events:
  "let e1 = fst (timeline_publish now1 d1 ts);
       restarted = timeline_from_snapshot limit (timeline_snapshot ts);
       tbl1 = backfill_persisted_events enc (timeline_snapshot ts) (persist_timeline_event enc e1 tbl);
       e2 = fst (timeline_publish now2 d2 restarted)
   in ev_sequence e2 = ev_sequence e1 \<and> persist_timeline_event enc e2 tbl1 = tbl1"
proof -
  let ?e1 = "fst (timeline_publish now1 d1 ts)"
  have keep: "bm_contains (persist_timeline_event enc e t) k" if "bm_contains t k" for e t k
    using that by (auto simp: persist_timeline_event_def)
  have "bm_contains (fold (persist_timeline_event enc) es t) k" if "bm_contains t k" for es t k
    using that by (induction es arbitrary: t) (simp_all add: keep del: bm_contains_iff)
  moreover have "bm_contains (persist_timeline_event enc ?e1 tbl) (row_key ?e1)"
    by (simp add: persist_timeline_event_def)
  ultimately have "bm_contains (backfill_persisted_events enc (timeline_snapshot ts)
      (persist_timeline_event enc ?e1 tbl)) (row_key ?e1)"
    by (simp add: backfill_persisted_events_def del: bm_contains_iff)
  then show ?thesis
    by (simp add: Let_def timeline_publish_def timeline_from_snapshot_def timeline_snapshot_def
        persist_timeline_event_def row_key_def del: bm_contains_iff)
qed

section \<open>Streams deliver in order, once\<close>

lemma replay_backlog_eq:
  "replay_backlog es sends l =
     (take sends es,
      if length es \<le> sends then Some (sends - length es, if es = [] then l else ev_sequence (last es)) else None)"
proof (induction es sends l rule: replay_backlog.induct)
  case (3 e es sends l)
  then show ?case by (cases es) simp_all
qed simp_all

lemma sorted_le_last:
  fixes f :: "'a \<Rightarrow> 'b::linorder"
  shows "sorted_wrt (<) (map f xs) \<Longrightarrow> x \<in> set xs \<Longrightarrow> f x \<le> f (last xs)"
  by (induction xs rule: rev_induct) (auto simp: sorted_wrt_append intro: less_imp_le)

lemma follow_feed_sound:
  "sorted_wrt (<) (map ev_sequence (follow_feed f feed sends l))
   \<and> (\<forall>e \<in> set (follow_feed f feed sends l). l < ev_sequence e \<and> f e \<and> Received e \<in> set feed)"
proof (induction f feed sends l rule: follow_feed.induct)
  case (3 f e feed sends l)
  show ?case
  proof (cases "ev_sequence e \<le> l \<or> \<not> f e")
    case True
    with "3.IH"(1) show ?thesis by auto
  next
    case False
    then show ?thesis
    proof (cases sends)
      case (Suc k)
      with False have "follow_feed f (Received e # feed) sends l = e # follow_feed f feed k (ev_sequence e)"
        and "l < ev_sequence e" "f e" by auto
      with "3.IH"(2) [OF False Suc] show ?thesis by (auto intro: less_trans)
    qed simp
  qed
qed auto

text \<open>
  A stream never repeats or reorders: whatever the live feed delivers (events the subscriber fell
  behind on, duplicates of the backlog, events out of order) and whenever the peer stops reading, what
  is sent has strictly increasing sequence numbers, starts with the backlog, and continues with events
  of the feed that pass the filter.
\<close>

theorem stream_strictly_increasing:
  assumes "sorted_wrt (<) (map ev_sequence backlog)"
  shows "let out = serve_filtered_event_stream sends feed backlog f
         in sorted_wrt (<) (map ev_sequence out)
            \<and> take (length backlog) out = take sends backlog
            \<and> filter (\<lambda>e. \<not> (f e \<and> Received e \<in> set feed)) (drop (length backlog) out) = []"
proof (cases "length backlog \<le> sends")
  case False
  then have "serve_filtered_event_stream sends feed backlog f = take sends backlog"
    by (simp add: serve_filtered_event_stream_def replay_backlog_eq)
  with assms False show ?thesis by (simp add: Let_def take_map [symmetric] sorted_wrt_take)
next
  case True
  let ?l = "if backlog = [] then 0 else ev_sequence (last backlog)"
  let ?live = "follow_feed f feed (sends - length backlog) ?l"
  have out: "serve_filtered_event_stream sends feed backlog f = backlog @ ?live"
    using True by (simp add: serve_filtered_event_stream_def replay_backlog_eq)
  note live = follow_feed_sound [of f feed "sends - length backlog" ?l]
  have "ev_sequence b < ev_sequence e" if "b \<in> set backlog" "e \<in> set ?live" for b e
  proof -
    have "ev_sequence b \<le> ev_sequence (last backlog)" using sorted_le_last [OF assms that(1)] .
    moreover have "ev_sequence (last backlog) < ev_sequence e"
      using bspec [OF conjunct2 [OF live] that(2)] that(1) by (cases "backlog = []") simp_all
    ultimately show ?thesis by simp
  qed
  with live assms True show ?thesis
    by (auto simp: out Let_def sorted_wrt_append filter_empty_conv)
qed

theorem stream_strictly_increasing_witness:
  "map ev_sequence (serve_filtered_event_stream (Suc (Suc (Suc 0))) [Received (wit_event 2), Received (wit_event 4), Received (wit_event 3)]
     [wit_event 1, wit_event 2] (\<lambda>_. True)) = [1, 2, 4]
   \<and> sorted_wrt (<) (map ev_sequence (serve_filtered_event_stream (Suc (Suc (Suc 0)))
       [Received (wit_event 2), Received (wit_event 4), Received (wit_event 3)] [wit_event 1, wit_event 2] (\<lambda>_. True)))"
  using stream_strictly_increasing [of "[wit_event 1, wit_event 2]" "Suc (Suc (Suc 0))"
      "[Received (wit_event 2), Received (wit_event 4), Received (wit_event 3)]" "\<lambda>_. True"]
  by (simp add: Let_def wit_event_def serve_filtered_event_stream_def)

lemma follow_feed_sorted:
  assumes "sorted_wrt (<) (map ev_sequence es)" "length (filter (\<lambda>e. f e \<and> l < ev_sequence e) es) \<le> sends"
  shows "follow_feed f (map Received es) sends l = filter (\<lambda>e. f e \<and> l < ev_sequence e) es"
  using assms
proof (induction es arbitrary: sends l)
  case (Cons e es)
  show ?case
  proof (cases "f e \<and> l < ev_sequence e")
    case True
    then have eq: "filter (\<lambda>x. f x \<and> ev_sequence e < ev_sequence x) es = filter (\<lambda>x. f x \<and> l < ev_sequence x) es"
      using Cons.prems(1) by (intro filter_cong) auto
    from True Cons.prems(2) obtain k where "sends = Suc k" by (cases sends) auto
    with True eq Cons show ?thesis by (auto simp: not_le)
  next
    case False
    with Cons show ?thesis by (auto simp: not_le)
  qed
qed simp

text \<open>
  C18. The switch from replay to the live feed loses nothing and repeats nothing, under these conditions: the
  events are numbered from one on in ascending order; the backlog holds the matching ones among the first
  \<open>i\<close> events; the feed delivers, in that order, without a gap and without a lag notice, every event from
  the \<open>j\<close>-th on with \<open>j \<le> i\<close>, so that each event missing from the backlog still comes on the feed; and
  the peer takes every message. Then the stream sends exactly the matching events, each once and in order.
  The code subscribes before it reads the backlog, and broadcasts an event after the timeline's lock is
  released and before the event is stored, so these are conditions on the run, not facts about every run.
\<close>

theorem stream_handover_seamless:
  assumes "sorted_wrt (<) (map ev_sequence es)" "list_all (\<lambda>e. 0 < ev_sequence e) es"
    and "j \<le> i" "length es \<le> sends"
  shows "serve_filtered_event_stream sends (map Received (drop j es)) (filter f (take i es)) f = filter f es"
proof -
  let ?b = "filter f (take i es)"
  let ?l = "if ?b = [] then 0 else ev_sequence (last ?b)"
  have sorted: "sorted_wrt (<) (map ev_sequence (take i es @ drop i es))" using assms(1) by simp
  have "drop j es = drop j (take i es @ drop i es)" by simp
  also have "\<dots> = drop j (take i es) @ drop (j - length (take i es)) (drop i es)" by (rule drop_append)
  also have "drop (j - length (take i es)) (drop i es) = drop i es"
    using assms(3) by (cases "i \<le> length es") simp_all
  finally have split: "drop j es = drop j (take i es) @ drop i es" .
  have old: "ev_sequence e \<le> ?l" if "e \<in> set (take i es)" "f e" for e
  proof -
    have "sorted_wrt (<) (map ev_sequence ?b)"
      using sorted by (simp add: sorted_wrt_append sorted_wrt_map sorted_wrt_filter)
    moreover have "e \<in> set ?b" using that by simp
    ultimately show ?thesis using sorted_le_last [of ev_sequence ?b e] by (cases "?b = []") auto
  qed
  have new: "?l < ev_sequence e" if "e \<in> set (drop i es)" for e
  proof (cases "?b = []")
    case True
    with that assms(2) show ?thesis by (auto simp: list_all_iff dest: in_set_dropD)
  next
    case False
    then have "last ?b \<in> set (take i es)" using last_in_set [OF False] by simp
    with False sorted that show ?thesis unfolding map_append sorted_wrt_append by simp
  qed
  have live: "filter (\<lambda>e. f e \<and> ?l < ev_sequence e) (drop j es) = filter f (drop i es)"
  proof -
    have "filter (\<lambda>e. f e \<and> ?l < ev_sequence e) (drop j (take i es)) = []"
    proof (rule filter_False, rule ballI)
      fix e assume "e \<in> set (drop j (take i es))"
      then show "\<not> (f e \<and> ?l < ev_sequence e)" using old [of e] in_set_dropD [of e j "take i es"] leD by blast
    qed
    moreover have "filter (\<lambda>e. f e \<and> ?l < ev_sequence e) (drop i es) = filter f (drop i es)"
      using new by (intro filter_cong) auto
    ultimately show ?thesis by (simp only: split filter_append append_Nil)
  qed
  have all: "?b @ filter f (drop i es) = filter f es" by (simp flip: filter_append)
  then have "length ?b + length (filter f (drop i es)) \<le> sends"
    using length_filter_le [of f es] assms(4) by (metis le_trans length_append)
  with live have "follow_feed f (map Received (drop j es)) (sends - length ?b) ?l = filter f (drop i es)"
    using assms(1) by (subst follow_feed_sorted) (simp_all add: drop_map [symmetric] sorted_wrt_drop)
  then show ?thesis
    using all \<open>length ?b + _ \<le> sends\<close>
    by (simp add: serve_filtered_event_stream_def replay_backlog_eq)
qed

text \<open>
  The order of the feed matters. Two events are numbered under the lock but broadcast after it is released,
  so they can reach a subscriber in the wrong order; the one that comes late is then dropped.
\<close>

lemma reordered_broadcast_lost:
  "serve_filtered_event_stream 9 [Received (wit_event 2), Received (wit_event 1)] [] (\<lambda>_. True) = [wit_event 2]"
  by (simp add: serve_filtered_event_stream_def replay_backlog_eq wit_event_def)

theorem stream_handover_seamless_witness:
  "serve_filtered_event_stream 9 (map Received (drop 1 [wit_event 1, wit_event 2, wit_event 3]))
     (filter (\<lambda>e. ev_sequence e \<noteq> 2) (take 2 [wit_event 1, wit_event 2, wit_event 3]))
     (\<lambda>e. ev_sequence e \<noteq> 2) = [wit_event 1, wit_event 3]"
  using stream_handover_seamless [of "[wit_event 1, wit_event 2, wit_event 3]" 1 2 9 "\<lambda>e. ev_sequence e \<noteq> 2"]
  by (simp add: wit_event_def)

end
