(* ===== verification/Cp_Auth.thy ===== *)
theory Cp_Auth
  imports Timeline
begin

text \<open>
  Who may call what: principals, stream tickets, the rate limiter and the authentication middleware
  (\<^verbatim>\<open>rc-control-plane/src/auth.rs\<close>, \<^verbatim>\<open>rate_limit.rs\<close> and the ticket operations of \<^verbatim>\<open>state.rs\<close>).
\<close>

section \<open>Principals\<close>

datatype auth_principal = SharedToken | Device trusted_device_record | User rstring

fun created_by_device_id :: "auth_principal \<Rightarrow> uuid option" where
  "created_by_device_id SharedToken = None"
| "created_by_device_id (User _) = None"
| "created_by_device_id (Device d) = Some (td_device_id d)"

fun principal_user_id :: "auth_principal \<Rightarrow> rstring option" where
  "principal_user_id (User uid) = Some uid"
| "principal_user_id SharedToken = None"
| "principal_user_id (Device _) = None"

definition user_id_from_principal :: "auth_principal \<Rightarrow> rstring option" where
  "user_id_from_principal p = principal_user_id p"

fun require_owner_or_shared :: "auth_principal \<Rightarrow> unit api" where
  "require_owner_or_shared SharedToken = Inr ()"
| "require_owner_or_shared (Device d) =
     (if td_owner d then Inr () else Inl (Forbidden ''owner or shared-token access is required''))"
| "require_owner_or_shared (User _) = Inl (Forbidden ''owner or shared-token access is required'')"

section \<open>Stream tickets\<close>

record stream_ticket =
  st_principal :: auth_principal
  st_path :: rstring
  st_expires_at :: instant

type_synonym tickets = "(rstring, stream_ticket) btree"

definition max_stream_tickets :: nat where "max_stream_tickets = 1024"

definition prune_expired_stream_tickets :: "instant \<Rightarrow> tickets \<Rightarrow> tickets" where
  "prune_expired_stream_tickets now m = bm_retain (\<lambda>_ t. now < st_expires_at t) m"

text \<open>The lifetime is an unsigned count of seconds read as signed (\<^verbatim>\<open>ttl_secs as i64\<close>).\<close>

definition mint_stream_ticket ::
  "instant \<Rightarrow> instant \<Rightarrow> uuid \<times> uuid \<Rightarrow> auth_principal \<Rightarrow> rstring \<Rightarrow> u64 \<Rightarrow> tickets \<Rightarrow> rstring \<times> tickets" where
  "mint_stream_ticket now t_prune u who path ttl m =
     (let ticket = mint_secret (str ''rcst'') u;
          m1 = evict_while_full st_expires_at max_stream_tickets (prune_expired_stream_tickets t_prune m)
      in (ticket,
          bm_insert ticket
            \<lparr> st_principal = who, st_path = path, st_expires_at = now + seconds (sint ttl) \<rparr> m1))"

definition consume_stream_ticket ::
  "instant \<Rightarrow> instant \<Rightarrow> rstring \<Rightarrow> rstring \<Rightarrow> tickets \<Rightarrow> auth_principal option \<times> tickets" where
  "consume_stream_ticket t_prune now ticket path m =
     (let m1 = prune_expired_stream_tickets t_prune m
      in case bm_get m1 ticket of
           None \<Rightarrow> (None, m1)
         | Some stored \<Rightarrow>
             (if st_path stored = path \<and> now < st_expires_at stored then Some (st_principal stored) else None,
              bm_remove ticket m1))"

definition normalize_stream_ticket_path :: "rstring \<Rightarrow> rstring api" where
  "normalize_stream_ticket_path raw =
     (let path = trim raw
      in if \<not> starts_with path (str ''/v1/'') \<or> \<not> ends_with path (str ''/stream'')
            \<or> 63 \<in> set path \<or> 35 \<in> set path \<or> contains_str path (str ''://'')
         then Inl (BadRequest ''stream ticket path must be a /v1/*/stream path without query parameters'')
         else Inr path)"

section \<open>Rate limiting\<close>

record window_entry =
  we_count :: nat
  we_started_at :: instant

record rate_limiter =
  rl_entries :: "(rstring, window_entry) btree"
  rl_max_requests :: nat
  rl_window_secs :: nat

definition default_max_requests :: nat where "default_max_requests = 20"
definition window_secs :: nat where "window_secs = 60"
definition max_tracked_ips :: nat where "max_tracked_ips = 10000"

definition rate_limiter_new :: "nat \<Rightarrow> nat \<Rightarrow> rate_limiter" where
  "rate_limiter_new m w = \<lparr> rl_entries = bm_empty, rl_max_requests = m, rl_window_secs = w \<rparr>"

definition rate_limiter_default :: rate_limiter where
  "rate_limiter_default = rate_limiter_new default_max_requests window_secs"

text \<open>\<^verbatim>\<open>duration_since(..).as_secs()\<close>: whole seconds, zero when the clock reads earlier.\<close>

definition elapsed_secs :: "instant \<Rightarrow> instant \<Rightarrow> nat" where
  "elapsed_secs now started = nat ((now - started) div seconds 1)"

definition allow :: "instant \<Rightarrow> rstring \<Rightarrow> rate_limiter \<Rightarrow> bool \<times> rate_limiter" where
  "allow now key rl =
     (let m0 = (if max_tracked_ips < bm_len (rl_entries rl)
                then bm_retain (\<lambda>_ e. elapsed_secs now (we_started_at e) < rl_window_secs rl) (rl_entries rl)
                else rl_entries rl);
          e0 = unwrap_or \<lparr> we_count = 0, we_started_at = now \<rparr> (bm_get m0 key);
          e1 = (if rl_window_secs rl \<le> elapsed_secs now (we_started_at e0)
                then e0\<lparr>we_count := 0, we_started_at := now\<rparr> else e0);
          e2 = e1\<lparr>we_count := we_count e1 + 1\<rparr>
      in (we_count e2 \<le> rl_max_requests rl, rl\<lparr>rl_entries := bm_insert key e2 m0\<rparr>))"

text \<open>
  The router's limiter on bootstrap, pairing and refresh: the key is the first entry of
  \<^verbatim>\<open>X-Forwarded-For\<close> (absent if it is not visible ASCII), else the peer's address.
\<close>

definition extract_client_ip :: "rstring option \<Rightarrow> rstring option \<Rightarrow> rstring" where
  "extract_client_ip forwarded peer =
     (let first = (case forwarded of None \<Rightarrow> [] | Some xs \<Rightarrow> trim (hd (split_on 44 xs)))
      in if first \<noteq> [] then first else unwrap_or (str ''unknown'') peer)"

definition rate_limit_middleware ::
  "instant \<Rightarrow> rstring option \<Rightarrow> rstring option \<Rightarrow> rate_limiter \<Rightarrow> unit api \<times> rate_limiter" where
  "rate_limit_middleware now forwarded peer rl =
     (case allow now (extract_client_ip forwarded peer) rl of
        (ok, rl') \<Rightarrow> (if ok then Inr () else Inl (TooManyRequests ''rate limit exceeded; try again later''), rl'))"

section \<open>Requests\<close>

text \<open>
  The part of an HTTP request that authentication reads. Header values that are not visible ASCII
  (\<^verbatim>\<open>to_str\<close> fails) count as absent.
\<close>

datatype http_method = GET | POST | DELETE | OPTIONS | OtherMethod

record http_request =
  rq_method :: http_method
  rq_path :: rstring
  rq_query :: "rstring option"
  rq_authorization :: "rstring option"
  rq_upgrade :: "rstring option"

definition strip_prefix :: "rstring \<Rightarrow> rstring \<Rightarrow> rstring option" where
  "strip_prefix p s = (if starts_with s p then Some (drop (length p) s) else None)"

definition request_allows_query_auth :: "http_request \<Rightarrow> bool" where
  "request_allows_query_auth rq \<longleftrightarrow>
     ends_with (rq_path rq) (str ''/stream'')
     \<and> (is_some_and (\<lambda>v. eq_ignore_ascii_case v (str ''websocket'')) (rq_upgrade rq) \<or> rq_method rq = GET)"

text \<open>\<^verbatim>\<open>splitn(2, '=')\<close>: the text up to the first separator, and the rest if there is one.\<close>

definition split_once_opt :: "rchar \<Rightarrow> rstring \<Rightarrow> rstring \<times> rstring" where
  "split_once_opt d s = (takeWhile (\<lambda>c. c \<noteq> d) s, tl (dropWhile (\<lambda>c. c \<noteq> d) s))"

fun find_query_value :: "(rstring \<Rightarrow> bool) \<Rightarrow> rstring list \<Rightarrow> rstring option" where
  "find_query_value wanted [] = None"
| "find_query_value wanted (pair # pairs) =
     (let (k, v) = split_once_opt 61 pair
      in if wanted (trim k) \<and> trim v \<noteq> [] then Some (percent_decode_query_value (trim v))
         else find_query_value wanted pairs)"

definition extract_auth_token_from_query :: "rstring \<Rightarrow> rstring option" where
  "extract_auth_token_from_query q =
     find_query_value (\<lambda>k. k = str ''token'' \<or> k = str ''access_token'') (split_on 38 q)"

definition extract_stream_ticket_from_query :: "rstring \<Rightarrow> rstring option" where
  "extract_stream_ticket_from_query q =
     find_query_value (\<lambda>k. k = str ''stream_ticket'') (split_on 38 q)"

text \<open>The query without the pairs that carry a secret.\<close>

fun join_with :: "rchar \<Rightarrow> rstring list \<Rightarrow> rstring" where
  "join_with d [] = []"
| "join_with d [x] = x"
| "join_with d (x # y # xs) = x @ [d] @ join_with d (y # xs)"

definition strip_auth_from_query :: "rstring \<Rightarrow> rstring" where
  "strip_auth_from_query q =
     join_with 38 (filter (\<lambda>pair. trim (fst (split_once_opt 61 pair))
                                 \<notin> {str ''token'', str ''access_token'', str ''stream_ticket''})
                    (split_on 38 q))"

definition strip_auth_from_request_uri :: "http_request \<Rightarrow> http_request" where
  "strip_auth_from_request_uri rq =
     (case rq_query rq of
        None \<Rightarrow> rq
      | Some q \<Rightarrow>
          (let cleaned = strip_auth_from_query q
           in rq\<lparr>rq_query := (if cleaned = [] then None else Some cleaned)\<rparr>))"

definition bearer_token :: "http_request \<Rightarrow> rstring option" where
  "bearer_token rq =
     Option.bind (rq_authorization rq) (\<lambda>v.
       Option.bind (strip_prefix (str ''Bearer '') v) (\<lambda>t. if trim t \<noteq> [] then Some (trim t) else None))"

definition extract_request_auth_token :: "bool \<Rightarrow> http_request \<Rightarrow> rstring option \<times> http_request" where
  "extract_request_auth_token legacy rq =
     (case bearer_token rq of
        Some t \<Rightarrow> (Some t, rq)
      | None \<Rightarrow>
          if \<not> legacy \<or> \<not> request_allows_query_auth rq then (None, rq)
          else (case Option.bind (rq_query rq) extract_auth_token_from_query of
                  Some t \<Rightarrow> (Some t, strip_auth_from_request_uri rq)
                | None \<Rightarrow> (None, rq)))"

definition runner_id_subpath_allows_tenant_user :: "rstring \<Rightarrow> http_method \<Rightarrow> bool" where
  "runner_id_subpath_allows_tenant_user path m \<longleftrightarrow>
     (path = str ''/v1/runners'' \<and> m = POST)
     \<or> (path = str ''/v1/runners'' \<and> m = GET)
     \<or> (ends_with path (str ''/heartbeat'') \<and> m = POST)
     \<or> (ends_with path (str ''/sessions'') \<and> m = POST)
     \<or> (ends_with path (str ''/command'') \<and> m = POST)
     \<or> (ends_with path (str ''/events'') \<and> m = POST)
     \<or> (ends_with path (str ''/poll-commands'') \<and> m = POST)"

definition request_allows_tenant_user_auth :: "http_request \<Rightarrow> bool" where
  "request_allows_tenant_user_auth rq \<longleftrightarrow>
     (rq_path rq = str ''/v1/devices/push-token'' \<and> rq_method rq = POST)
     \<or> (rq_path rq = str ''/v1/stream-ticket'' \<and> rq_method rq = POST)
     \<or> runner_id_subpath_allows_tenant_user (rq_path rq) (rq_method rq)
     \<or> starts_with (rq_path rq) (str ''/v1/sessions'')
     \<or> starts_with (rq_path rq) (str ''/v1/approvals'')
     \<or> starts_with (rq_path rq) (str ''/v1/artifacts'')
     \<or> rq_path rq = str ''/v1/events'' \<or> rq_path rq = str ''/v1/events/stream''"

section \<open>The middleware\<close>

text \<open>
  What the middleware reads of the service: the configured secrets, the registry and the tickets. A
  request goes on to its handler with a principal, or is answered with an error. The debug-only bypass
  (\<^verbatim>\<open>cfg!(debug_assertions)\<close>) is not part of a release build and is left out.
\<close>

record auth_config =
  cfg_auth_token :: "rstring option"
  cfg_bootstrap_secret_hash :: "rstring option"
  cfg_allowed_user_key_hashes :: "rstring list"
  cfg_legacy_query_tokens :: bool

definition auth_required :: "auth_config \<Rightarrow> registry \<Rightarrow> bool" where
  "auth_required cfg r \<longleftrightarrow>
     cfg_auth_token cfg \<noteq> None \<or> cfg_bootstrap_secret_hash cfg \<noteq> None \<or> owner_claimed r"

definition accepts_derived_user_key :: "hash \<Rightarrow> auth_config \<Rightarrow> rstring \<Rightarrow> bool" where
  "accepts_derived_user_key sha cfg provided \<longleftrightarrow>
     cfg_allowed_user_key_hashes cfg \<noteq> []
     \<and> list_ex (\<lambda>expected. constant_time_value_eq sha (sha provided) expected)
         (cfg_allowed_user_key_hashes cfg)"

definition derived_user_id_from_key :: "hash \<Rightarrow> rstring \<Rightarrow> rstring" where
  "derived_user_id_from_key sha raw = str ''sha256:'' @ sha raw"

datatype auth_outcome = Proceed auth_principal http_request | Reject api_error

definition request_stream_ticket ::
  "instant \<Rightarrow> instant \<Rightarrow> http_request \<Rightarrow> tickets \<Rightarrow> auth_principal option \<times> http_request \<times> tickets" where
  "request_stream_ticket t_prune now rq m =
     (if \<not> request_allows_query_auth rq then (None, rq, m)
      else case Option.bind (rq_query rq) extract_stream_ticket_from_query of
        None \<Rightarrow> (None, rq, m)
      | Some ticket \<Rightarrow>
          (let rq' = strip_auth_from_request_uri rq
           in case consume_stream_ticket t_prune now ticket (rq_path rq') m of
                (p, m') \<Rightarrow> (p, rq', m')))"

definition check_bearer ::
  "hash \<Rightarrow> instant \<Rightarrow> auth_config \<Rightarrow> rstring \<Rightarrow> http_request \<Rightarrow> registry \<Rightarrow> auth_outcome \<times> registry" where
  "check_bearer sha now cfg provided rq r =
     (if is_some_and (\<lambda>expected. constant_time_value_eq sha provided expected) (cfg_auth_token cfg)
      then (Proceed SharedToken rq, r)
      else case authenticate_device_token sha now provided r of
        (Some (device, is_access), r') \<Rightarrow>
          (if \<not> is_access
           then Reject (Unauthorized ''refresh tokens must be exchanged at /v1/auth/refresh before calling protected APIs'')
           else Proceed (Device device) rq, r')
      | (None, r') \<Rightarrow>
          (if request_allows_tenant_user_auth rq \<and> accepts_derived_user_key sha cfg provided
           then Proceed (User (derived_user_id_from_key sha provided)) rq
           else Reject (Unauthorized ''missing or invalid control plane bearer token''), r'))"

definition require_api_auth ::
  "hash \<Rightarrow> instant \<Rightarrow> instant \<Rightarrow> instant \<Rightarrow> auth_config \<Rightarrow> http_request \<Rightarrow> registry \<times> tickets
   \<Rightarrow> auth_outcome \<times> registry \<times> tickets" where
  "require_api_auth sha t_prune t_ticket now cfg rq st =
     (let (r, m) = st
      in if cfg_auth_token cfg = None \<and> cfg_bootstrap_secret_hash cfg = None
            \<and> bm_len (trusted_devices r) = 0
         then (Proceed SharedToken rq, r, m)
         else case request_stream_ticket t_prune t_ticket rq m of
           (Some p, rq1, m1) \<Rightarrow> (Proceed p rq1, r, m1)
         | (None, rq1, m1) \<Rightarrow>
             (case extract_request_auth_token (cfg_legacy_query_tokens cfg) rq1 of
                (None, rq2) \<Rightarrow>
                  (Reject (Unauthorized ''missing or invalid control plane bearer token''), r, m1)
              | (Some provided, rq2) \<Rightarrow>
                  (case check_bearer sha now cfg provided rq2 r of (out, r') \<Rightarrow> (out, r', m1))))"

section \<open>Tickets are single-use\<close>

text \<open>
  C25. A stream ticket opens one stream once. At most 1024 tickets are stored after minting. The minted
  ticket yields the principal it was minted for exactly on its own path and strictly before its expiry;
  whatever the outcome of the first use, a second use yields nothing, on any path and at any time.
\<close>

theorem stream_ticket_single_use:
  "let (ticket, m1) = mint_stream_ticket now t_prune u who path ttl m;
       (res, m2) = consume_stream_ticket t1 t2 ticket request_path m1;
       expiry = now + seconds (sint ttl)
   in bm_len m1 \<le> 1024
      \<and> res = (if t1 < expiry \<and> t2 < expiry \<and> request_path = path then Some who else None)
      \<and> fst (consume_stream_ticket t3 t4 ticket path' m2) = None"
proof -
  have "bm_len (snd (mint_stream_ticket now t_prune u who path ttl m)) \<le> 1024"
    by (simp add: mint_stream_ticket_def Let_def max_stream_tickets_def evict_insert_len)
  then show ?thesis
    by (auto simp: mint_stream_ticket_def consume_stream_ticket_def prune_expired_stream_tickets_def Let_def
        bm_get_retain split: option.splits)
qed

section \<open>The rate limiter counts per window\<close>

text \<open>The number of requests of a key that its current window has counted, and the window's start.\<close>

definition key_state :: "rate_limiter \<Rightarrow> rstring \<Rightarrow> window_entry option" where
  "key_state rl key = bm_get (rl_entries rl) key"

fun allow_run :: "rstring \<Rightarrow> instant list \<Rightarrow> rate_limiter \<Rightarrow> bool list \<times> rate_limiter" where
  "allow_run key [] rl = ([], rl)"
| "allow_run key (t # ts) rl =
     (case allow t key rl of (ok, rl1) \<Rightarrow> (case allow_run key ts rl1 of (oks, rl2) \<Rightarrow> (ok # oks, rl2)))"

lemma allow_frame [simp]:
  "rl_max_requests (snd (allow t key rl)) = rl_max_requests rl"
  "rl_window_secs (snd (allow t key rl)) = rl_window_secs rl"
  by (simp_all add: allow_def Let_def)

lemma allow_open:
  assumes "bm_get (rl_entries rl) key = Some e" "elapsed_secs t (we_started_at e) < rl_window_secs rl"
  shows "fst (allow t key rl) \<longleftrightarrow> we_count e < rl_max_requests rl"
    "bm_get (rl_entries (snd (allow t key rl))) key = Some (e\<lparr>we_count := Suc (we_count e)\<rparr>)"
  using assms by (simp_all add: allow_def Let_def bm_get_retain Suc_le_eq not_le)

lemma allow_fresh:
  assumes "bm_get (rl_entries rl) key = None" "0 < rl_window_secs rl"
  shows "fst (allow t key rl) \<longleftrightarrow> 1 \<le> rl_max_requests rl"
    "bm_get (rl_entries (snd (allow t key rl))) key = Some \<lparr>we_count = 1, we_started_at = t\<rparr>"
  using assms by (simp_all add: allow_def Let_def bm_get_retain elapsed_secs_def)

lemma allow_other:
  assumes "key' \<noteq> key" "bm_get (rl_entries rl) key' = Some e"
    "elapsed_secs t (we_started_at e) < rl_window_secs rl"
  shows "bm_get (rl_entries (snd (allow t key rl))) key' = Some e"
  using assms by (simp add: allow_def Let_def bm_get_retain)

lemma allow_run_open:
  assumes "bm_get (rl_entries rl) key = Some e"
    "\<forall>t \<in> set ts. elapsed_secs t (we_started_at e) < rl_window_secs rl"
  shows "fst (allow_run key ts rl) = map (\<lambda>i. we_count e + i < rl_max_requests rl) [0 ..< length ts]"
  using assms
proof (induction ts arbitrary: rl e)
  case (Cons t ts)
  have e': "bm_get (rl_entries (snd (allow t key rl))) key = Some (e\<lparr>we_count := Suc (we_count e)\<rparr>)"
    using allow_open(2) Cons.prems by simp
  have IH: "fst (allow_run key ts (snd (allow t key rl)))
      = map (\<lambda>i. we_count (e\<lparr>we_count := Suc (we_count e)\<rparr>) + i < rl_max_requests rl) [0 ..< length ts]"
    using Cons.IH [OF e'] Cons.prems(2) by simp
  have "fst (allow_run key (t # ts) rl) = fst (allow t key rl) # fst (allow_run key ts (snd (allow t key rl)))"
    by (simp add: split_beta)
  with IH allow_open(1) [OF Cons.prems(1), of t] Cons.prems(2) show ?case
    by (simp add: upt_conv_Cons map_Suc_upt [symmetric] del: upt_Suc)
qed simp

text \<open>
  Within one window the limiter lets through exactly the first \<open>max_requests\<close> requests of a key:
  starting from a key it has not seen, for any run of requests less than a window after the first, the
  request number \<open>i\<close> is allowed if and only if \<open>i\<close> is below the limit. Requests of other keys, and the
  pruning they may trigger, change nothing while the window is open.
\<close>

theorem rate_limit_window:
  assumes "bm_get (rl_entries rl) key = None" "0 < rl_window_secs rl" "key' \<noteq> key"
    and "list_all (\<lambda>t. elapsed_secs t t0 < rl_window_secs rl) (t' # ts)"
  shows "fst (allow_run key (t0 # ts) rl) = map (\<lambda>i. i < rl_max_requests rl) [0 ..< Suc (length ts)]
         \<and> bm_get (rl_entries (snd (allow t' key' (snd (allow t0 key rl))))) key
           = bm_get (rl_entries (snd (allow t0 key rl))) key"
proof -
  let ?rl1 = "snd (allow t0 key rl)"
  have e1: "bm_get (rl_entries ?rl1) key = Some \<lparr>we_count = 1, we_started_at = t0\<rparr>"
    using allow_fresh(2) [OF assms(1,2)] .
  have "fst (allow_run key ts ?rl1) = map (\<lambda>i. Suc i < rl_max_requests rl) [0 ..< length ts]"
    using allow_run_open [OF e1, of ts] assms(4) by (simp add: list_all_iff)
  moreover have "fst (allow t0 key rl) \<longleftrightarrow> 0 < rl_max_requests rl"
    using allow_fresh(1) [OF assms(1,2)] by (simp add: Suc_le_eq)
  ultimately have "fst (allow_run key (t0 # ts) rl) = map (\<lambda>i. i < rl_max_requests rl) [0 ..< Suc (length ts)]"
    by (simp add: split_beta upt_conv_Cons map_Suc_upt [symmetric] del: upt_Suc)
  moreover have "bm_get (rl_entries (snd (allow t' key' ?rl1))) key = Some \<lparr>we_count = 1, we_started_at = t0\<rparr>"
    using allow_other [of key key' ?rl1 "\<lparr>we_count = 1, we_started_at = t0\<rparr>" t'] assms(3,4) e1 by auto
  ultimately show ?thesis by (simp only: e1)
qed

theorem rate_limit_window_witness:
  "fst (allow_run [1] [0, 0, 0] (rate_limiter_new 2 60)) = [True, True, False]"
  using rate_limit_window [of "rate_limiter_new 2 60" "[1]" "[2]" 0 0 "[0, 0]"]
  by (simp add: rate_limiter_new_def elapsed_secs_def eval_nat_numeral)

lemma allow_expired:
  assumes "bm_get (rl_entries rl) key = Some e" "rl_window_secs rl \<le> elapsed_secs t (we_started_at e)"
    "0 < rl_window_secs rl"
  shows "fst (allow t key rl) \<longleftrightarrow> 1 \<le> rl_max_requests rl"
    "bm_get (rl_entries (snd (allow t key rl))) key = Some \<lparr>we_count = 1, we_started_at = t\<rparr>"
  using assms by (auto simp: allow_def Let_def bm_get_retain elapsed_secs_def unwrap_or_def split: option.splits)

text \<open>
  The window is fixed, not sliding: it starts with the first request of a key and the count starts again
  when it has expired, so twice the limit can pass within a second around that moment.
\<close>

lemma rate_limit_fixed_window:
  "fst (allow_run key [0, seconds 59, seconds 60, seconds 60] (rate_limiter_new 2 60)) = [True, True, True, True]"
proof -
  let ?r0 = "rate_limiter_new 2 60" let ?r1 = "snd (allow 0 key ?r0)"
  let ?r2 = "snd (allow (seconds 59) key ?r1)" let ?r3 = "snd (allow (seconds 60) key ?r2)"
  have w: "rl_window_secs ?r0 = 60" "rl_max_requests ?r0 = 2" "bm_get (rl_entries ?r0) key = None"
    by (simp_all add: rate_limiter_new_def)
  have e1: "bm_get (rl_entries ?r1) key = Some \<lparr>we_count = 1, we_started_at = 0\<rparr>" "fst (allow 0 key ?r0)"
    using allow_fresh [of ?r0 key 0] w by simp_all
  have e2: "bm_get (rl_entries ?r2) key = Some \<lparr>we_count = 2, we_started_at = 0\<rparr>" "fst (allow (seconds 59) key ?r1)"
    using allow_open [OF e1(1), of "seconds 59"] w by (simp_all add: elapsed_secs_def seconds_def)
  have e3: "bm_get (rl_entries ?r3) key = Some \<lparr>we_count = 1, we_started_at = seconds 60\<rparr>"
    "fst (allow (seconds 60) key ?r2)"
    using allow_expired [OF e2(1), of "seconds 60"] w by (simp_all add: elapsed_secs_def seconds_def)
  have "fst (allow (seconds 60) key ?r3)"
    using allow_open [OF e3(1), of "seconds 60"] w by (simp add: elapsed_secs_def seconds_def)
  with e1(2) e2(2) e3(2) show ?thesis by (simp add: split_beta)
qed

section \<open>The middleware lets nobody in without a credential\<close>

lemma split_on_not_Nil [simp]: "split_on d s \<noteq> []"
  by (induction s) (auto split: list.splits)

lemma split_on_no_sep: "p \<in> set (split_on d s) \<Longrightarrow> d \<notin> set p"
  by (induction s arbitrary: p) (auto split: list.splits if_splits)

lemma split_on_append_sep: "d \<notin> set p \<Longrightarrow> split_on d (p @ d # s) = p # split_on d s"
  by (induction p) (auto split: list.splits)

lemma split_on_single: "d \<notin> set p \<Longrightarrow> split_on d p = [p]"
  by (induction p) auto

lemma split_on_join:
  assumes "ps \<noteq> []" "\<forall>p \<in> set ps. d \<notin> set p"
  shows "split_on d (join_with d ps) = ps"
  using assms by (induction d ps rule: join_with.induct) (auto simp: split_on_append_sep split_on_single)

lemma find_query_value_None:
  "(\<forall>pair \<in> set pairs. \<not> wanted (trim (fst (split_once_opt 61 pair)))) \<Longrightarrow> find_query_value wanted pairs = None"
  by (induction pairs) (auto simp: split_beta Let_def)

text \<open>Stripping removes every secret that the extraction functions can find.\<close>

lemma stripped_query_has_no_secret:
  assumes "rq_query (strip_auth_from_request_uri rq) = Some q"
  shows "extract_auth_token_from_query q = None" "extract_stream_ticket_from_query q = None"
proof -
  obtain q0 where q0: "rq_query rq = Some q0" and q: "q = strip_auth_from_query q0" "q \<noteq> []"
    using assms by (auto simp: strip_auth_from_request_uri_def Let_def split: option.splits if_splits)
  let ?ps = "filter (\<lambda>pair. trim (fst (split_once_opt 61 pair))
                 \<notin> {str ''token'', str ''access_token'', str ''stream_ticket''}) (split_on 38 q0)"
  have "?ps \<noteq> []" using q by (auto simp: strip_auth_from_query_def)
  then have "split_on 38 q = ?ps"
    unfolding q strip_auth_from_query_def by (rule split_on_join) (auto dest: split_on_no_sep)
  then show "extract_auth_token_from_query q = None" "extract_stream_ticket_from_query q = None"
    by (auto simp: extract_auth_token_from_query_def extract_stream_ticket_from_query_def
        intro!: find_query_value_None)
qed

lemma strip_auth_frame [simp]:
  "rq_method (strip_auth_from_request_uri rq) = rq_method rq"
  "rq_path (strip_auth_from_request_uri rq) = rq_path rq"
  "rq_authorization (strip_auth_from_request_uri rq) = rq_authorization rq"
  "rq_upgrade (strip_auth_from_request_uri rq) = rq_upgrade rq"
  "bearer_token (strip_auth_from_request_uri rq) = bearer_token rq"
  "request_allows_query_auth (strip_auth_from_request_uri rq) = request_allows_query_auth rq"
  "request_allows_tenant_user_auth (strip_auth_from_request_uri rq) = request_allows_tenant_user_auth rq"
  by (simp_all add: strip_auth_from_request_uri_def bearer_token_def request_allows_query_auth_def
      request_allows_tenant_user_auth_def Let_def split: option.split)

text \<open>The ticket a request carries, and the tokens it presents: in the header or, for streams, in the query.\<close>

definition carried_ticket :: "http_request \<Rightarrow> rstring option" where
  "carried_ticket rq =
     (if request_allows_query_auth rq then Option.bind (rq_query rq) extract_stream_ticket_from_query else None)"

definition presents_token :: "bool \<Rightarrow> http_request \<Rightarrow> rstring \<Rightarrow> bool" where
  "presents_token legacy rq tok \<longleftrightarrow>
     bearer_token rq = Some tok
     \<or> legacy \<and> request_allows_query_auth rq \<and> Option.bind (rq_query rq) extract_auth_token_from_query = Some tok"

lemma request_stream_ticket_cases:
  assumes "request_stream_ticket t_prune now rq m = (res, rq1, m1)"
  shows "(res = None \<and> carried_ticket rq = None \<and> rq1 = rq)
         \<or> (rq1 = strip_auth_from_request_uri rq
            \<and> (res = None \<or> (\<exists>ticket stored. carried_ticket rq = Some ticket \<and> bm_get m ticket = Some stored
                  \<and> res = Some (st_principal stored) \<and> st_path stored = rq_path rq
                  \<and> now < st_expires_at stored \<and> bm_get m1 ticket = None)))"
  using assms
  by (auto simp: request_stream_ticket_def carried_ticket_def consume_stream_ticket_def
      prune_expired_stream_tickets_def bm_get_retain Let_def split: if_splits option.splits prod.splits)

lemma extract_request_auth_token_presented:
  assumes "extract_request_auth_token legacy rq1 = (Some tok, rq2)"
    and "rq1 = rq \<or> rq1 = strip_auth_from_request_uri rq"
  shows "presents_token legacy rq tok"
    "request_allows_tenant_user_auth rq2 = request_allows_tenant_user_auth rq"
  using assms stripped_query_has_no_secret(1) [of rq]
  by (auto simp: extract_request_auth_token_def presents_token_def split: option.splits if_splits bind_splits)

text \<open>What entitles a principal: the credential \<open>tok\<close> checked against the configuration and the registry.\<close>

fun entitled :: "hash \<Rightarrow> instant \<Rightarrow> auth_config \<Rightarrow> registry \<Rightarrow> http_request \<Rightarrow> rstring \<Rightarrow> auth_principal \<Rightarrow> bool" where
  "entitled sha now cfg r rq tok SharedToken =
     is_some_and (\<lambda>expected. sha tok = sha expected) (cfg_auth_token cfg)"
| "entitled sha now cfg r rq tok (Device d) =
     is_some_and (access_live sha now (sha tok)) (bm_get (trusted_devices r) (td_device_id d))"
| "entitled sha now cfg r rq tok (User uid) =
     (uid = derived_user_id_from_key sha tok \<and> request_allows_tenant_user_auth rq
      \<and> list_ex (\<lambda>expected. sha (sha tok) = sha expected) (cfg_allowed_user_key_hashes cfg))"

lemma check_bearer_sound:
  assumes "device_inv r" "check_bearer sha now cfg tok rq r = (Proceed p rq', r')"
  shows "entitled sha now cfg r rq tok p" "rq' = rq"
  using assms authenticate_sound [where sha = sha and now = now and token = tok, OF assms(1)]
  by (auto simp: check_bearer_def constant_time_value_eq_def accepts_derived_user_key_def is_some_and_iff
      split: if_splits prod.splits option.splits)

text \<open>
  C2. The authentication middleware is sound. A request reaches its handler with a principal only if
  the instance is completely unconfigured (no shared token, no bootstrap secret, no device), or it
  carried a stored ticket for exactly its path that had not expired and is spent now, or it presented a
  token that entitles it: the shared token for the shared principal, the live access token of a stored
  device for that device (a refresh token never), an allowed user key, on a route open to tenants, for
  the user derived from that key. Every rejection is a 401.
\<close>

theorem require_api_auth_sound:
  assumes "device_inv r"
  shows "case require_api_auth sha t_prune t_ticket now cfg rq (r, m) of
           (Reject e, r', m') \<Rightarrow> error_status e = 401
         | (Proceed p rq', r', m') \<Rightarrow>
             (p = SharedToken \<and> cfg_auth_token cfg = None \<and> cfg_bootstrap_secret_hash cfg = None
              \<and> bm_len (trusted_devices r) = 0)
             \<or> (\<exists>ticket stored. carried_ticket rq = Some ticket \<and> bm_get m ticket = Some stored
                  \<and> p = st_principal stored \<and> st_path stored = rq_path rq \<and> t_ticket < st_expires_at stored
                  \<and> bm_get m' ticket = None \<and> carried_ticket rq' = None)
             \<or> (\<exists>tok. presents_token (cfg_legacy_query_tokens cfg) rq tok \<and> entitled sha now cfg r rq tok p)"
proof -
  obtain res rq1 m1 where t: "request_stream_ticket t_prune t_ticket rq m = (res, rq1, m1)"
    by (cases "request_stream_ticket t_prune t_ticket rq m")
  note tc = request_stream_ticket_cases [OF t]
  have no_ticket: "carried_ticket (strip_auth_from_request_uri rq) = None"
    using stripped_query_has_no_secret(2) [of rq] by (auto simp: carried_ticket_def split: bind_splits)
  show ?thesis
  proof (cases "cfg_auth_token cfg = None \<and> cfg_bootstrap_secret_hash cfg = None \<and> bm_len (trusted_devices r) = 0")
    case True then show ?thesis by (simp add: require_api_auth_def)
  next
    case False
    show ?thesis
    proof (cases res)
      case (Some p)
      with tc no_ticket t False show ?thesis by (auto simp: require_api_auth_def)
    next
      case None
      obtain x rq2 where x: "extract_request_auth_token (cfg_legacy_query_tokens cfg) rq1 = (x, rq2)" by force
      show ?thesis
      proof (cases x)
        case None
        with \<open>res = None\<close> t x False show ?thesis by (auto simp: require_api_auth_def)
      next
        case (Some tok)
        obtain out r' where c: "check_bearer sha now cfg tok rq2 r = (out, r')" by force
        have "require_api_auth sha t_prune t_ticket now cfg rq (r, m) = (out, r', m1)"
          using \<open>res = None\<close> t x Some c False by (auto simp: require_api_auth_def)
        moreover have "presents_token (cfg_legacy_query_tokens cfg) rq tok"
          "request_allows_tenant_user_auth rq2 = request_allows_tenant_user_auth rq"
          using extract_request_auth_token_presented [OF x [unfolded Some]] tc by blast+
        moreover have "entitled sha now cfg r rq tok p" if "out = Proceed p rq'" for p rq'
          using check_bearer_sound(1) [OF assms c [unfolded that]] calculation(3)
          by (cases p) simp_all
        moreover have "error_status e = 401" if "out = Reject e" for e
          using c that by (auto simp: check_bearer_def split: if_splits prod.splits option.splits)
        ultimately show ?thesis by (cases out) auto
      qed
    qed
  qed
qed

theorem require_api_auth_sound_witness:
  "let r = add_device (new_device (\<lambda>x. x) 0 7 [65] KindCli False None [3] [4]) registry_default;
       cfg = \<lparr>cfg_auth_token = None, cfg_bootstrap_secret_hash = None, cfg_allowed_user_key_hashes = [],
              cfg_legacy_query_tokens = False\<rparr>;
       rq = \<lparr>rq_method = GET, rq_path = [], rq_query = None,
             rq_authorization = Some (str ''Bearer '' @ [3]), rq_upgrade = None\<rparr>
   in presents_token False rq [3]
      \<and> (case require_api_auth (\<lambda>x. x) 0 0 5 cfg rq (r, bm_empty) of
            (Reject e, r', m') \<Rightarrow> False
          | (Proceed p rq', r', m') \<Rightarrow> \<exists>tok. presents_token False rq tok \<and> entitled (\<lambda>x. x) 5 cfg r rq tok p)"
proof -
  let ?r = "add_device (new_device (\<lambda>x. x) 0 7 [65] KindCli False None [3] [4]) registry_default"
  let ?cfg = "\<lparr>cfg_auth_token = None, cfg_bootstrap_secret_hash = None, cfg_allowed_user_key_hashes = [],
              cfg_legacy_query_tokens = False\<rparr>"
  let ?rq = "\<lparr>rq_method = GET, rq_path = [], rq_query = None,
             rq_authorization = Some (str ''Bearer '' @ [3]), rq_upgrade = None\<rparr>"
  have inv: "device_inv ?r"
    by (intro device_inv_add_plain device_inv_default) (simp_all add: add_device_def registry_default_def)
  have len: "bm_len (trusted_devices ?r) \<noteq> 0"
    by (simp add: add_device_def registry_default_def bm_len_insert)
  have b: "bearer_token ?rq = Some [3]"
    by (simp add: bearer_token_def strip_prefix_def starts_with_def trim_def trim_start_by_def trim_end_by_def
        is_whitespace_def str_def)
  have q: "\<not> request_allows_query_auth ?rq" by (simp add: request_allows_query_auth_def ends_with_def str_def)
  have a: "fst (authenticate_device_token (\<lambda>x. x) 5 [3] ?r) \<noteq> None \<and> snd (the (fst (authenticate_device_token (\<lambda>x. x) 5 [3] ?r)))"
    by (simp add: add_device_def registry_default_def authenticate_device_token_def
        lookup_access_device_def access_live_def touch_device_def access_token_ttl_def minutes_def seconds_def
        constant_time_value_eq_def Let_def)
  obtain p r' where run: "require_api_auth (\<lambda>x. x) 0 0 5 ?cfg ?rq (?r, bm_empty) = (Proceed p ?rq, r', bm_empty)"
    using a b q
    by (cases "authenticate_device_token (\<lambda>x. x) 5 [3] ?r")
      (auto simp: require_api_auth_def request_stream_ticket_def extract_request_auth_token_def check_bearer_def
        add_device_def registry_default_def bm_len_insert)
  show ?thesis
    using require_api_auth_sound [where sha = "\<lambda>x. x" and t_prune = 0 and t_ticket = 0 and now = 5
        and cfg = ?cfg and rq = ?rq and m = bm_empty, OF inv] run b
    by (simp add: Let_def presents_token_def carried_ticket_def q len)
qed

section \<open>Limits of the guards\<close>

text \<open>
  The limiter's key is what the client writes into \<^verbatim>\<open>X-Forwarded-For\<close>: a name that is not tracked yet
  always passes, whatever the peer's address has used up.
\<close>

lemma forwarded_name_evades_limit:
  assumes "bm_get (rl_entries rl) key = None" "0 < rl_max_requests rl" "key \<noteq> []" "trim key = key"
    and "split_on 44 key = [key]"
  shows "fst (rate_limit_middleware now (Some key) peer rl) = Inr ()"
proof -
  have "extract_client_ip (Some key) peer = key"
    using assms(3-5) by (simp add: extract_client_ip_def)
  moreover have "fst (allow now key rl)"
    using assms(1,2)
    by (auto simp: allow_def Let_def bm_get_retain elapsed_secs_def unwrap_or_def split: option.splits)
  ultimately show ?thesis
    by (simp add: rate_limit_middleware_def case_prod_beta)
qed

text \<open>
  The allowlist for tenants names \<^verbatim>\<open>POST /v1/runners\<close> and \<^verbatim>\<open>.../poll-commands\<close>; the router's routes for a
  runner are \<^verbatim>\<open>POST /v1/runners/register\<close> and \<^verbatim>\<open>POST /v1/runners/{id}/commands/pull\<close>. A tenant's key does not
  open them.
\<close>

lemma ends_with_append: "length p \<le> length u \<Longrightarrow> ends_with (s @ t @ u) p \<longleftrightarrow> ends_with u p"
  by (auto simp: ends_with_def)

lemma tenant_cannot_register_runner:
  "rq_path rq = str ''/v1/runners/register'' \<Longrightarrow> \<not> request_allows_tenant_user_auth rq"
  "rq_path rq = str ''/v1/runners/'' @ rid @ str ''/commands/pull'' \<Longrightarrow> \<not> request_allows_tenant_user_auth rq"
proof -
  show "rq_path rq = str ''/v1/runners/register'' \<Longrightarrow> \<not> request_allows_tenant_user_auth rq"
    by (simp add: request_allows_tenant_user_auth_def runner_id_subpath_allows_tenant_user_def ends_with_def
        starts_with_def str_def)
  assume path: "rq_path rq = str ''/v1/runners/'' @ rid @ str ''/commands/pull''"
  have "\<not> ends_with (rq_path rq) p"
    if "p \<in> {str ''/heartbeat'', str ''/sessions'', str ''/command'', str ''/events'', str ''/poll-commands''}" for p
    using that unfolding path by (auto simp: ends_with_append str_def) (simp_all add: ends_with_def)
  then show "\<not> request_allows_tenant_user_auth rq"
    by (simp add: request_allows_tenant_user_auth_def runner_id_subpath_allows_tenant_user_def)
      (simp add: path starts_with_def str_def)
qed

end
