(* ===== verification/Net_Addr.thy ===== *)
theory Net_Addr
  imports Cp_Helpers
begin

text \<open>
  Which addresses a runner may announce (\<^verbatim>\<open>rc-control-plane/src/handlers.rs\<close>): the control plane sends
  requests to the \<^verbatim>\<open>public_base_url\<close> of a runner, so registration refuses URLs that point at loopback,
  private and similar hosts. The text of an IP address is read by the standard library
  (\<^verbatim>\<open>str::parse::<IpAddr>\<close>), which is modelled here; URLs are taken apart by the \<^verbatim>\<open>url\<close> crate, which
  is the argument \<open>parse_url\<close>.
\<close>

unbundle bit_operations_syntax

section \<open>Reading IP addresses\<close>

datatype ip_addr = V4 "8 word" "8 word" "8 word" "8 word" | V6 "16 word list"

definition digit_value :: "nat \<Rightarrow> rchar \<Rightarrow> nat option" where
  "digit_value radix c =
     (let v = (if 48 \<le> c \<and> c \<le> 57 then Some (c - 48)
               else if 97 \<le> c \<and> c \<le> 122 then Some (c - 87)
               else if 65 \<le> c \<and> c \<le> 90 then Some (c - 55) else None)
      in Option.bind v (\<lambda>d. if d < radix then Some d else None))"

text \<open>The longest run of digits, with the rest of the input.\<close>

fun read_digits :: "nat \<Rightarrow> rstring \<Rightarrow> nat list \<times> rstring" where
  "read_digits radix [] = ([], [])"
| "read_digits radix (c # s) =
     (case digit_value radix c of
        None \<Rightarrow> ([], c # s)
      | Some d \<Rightarrow> (case read_digits radix s of (ds, rest) \<Rightarrow> (d # ds, rest)))"

definition digits_value :: "nat \<Rightarrow> nat list \<Rightarrow> nat" where
  "digits_value radix ds = fold (\<lambda>d acc. acc * radix + d) ds 0"

text \<open>
  \<^verbatim>\<open>Parser::read_number\<close>: between one and \<open>max_digits\<close> digits, a value below \<open>limit\<close>, and no superfluous
  leading zero unless \<open>allow_zero_prefix\<close>.
\<close>

definition read_number :: "nat \<Rightarrow> nat \<Rightarrow> bool \<Rightarrow> nat \<Rightarrow> rstring \<Rightarrow> (nat \<times> rstring) option" where
  "read_number radix max_digits allow_zero_prefix limit s =
     (case read_digits radix s of (ds, rest) \<Rightarrow>
        if ds = [] \<or> max_digits < length ds \<or> limit \<le> digits_value radix ds
           \<or> (\<not> allow_zero_prefix \<and> hd ds = 0 \<and> 1 < length ds)
        then None else Some (digits_value radix ds, rest))"

definition read_given_char :: "rchar \<Rightarrow> rstring \<Rightarrow> rstring option" where
  "read_given_char c s = (case s of [] \<Rightarrow> None | x # rest \<Rightarrow> if x = c then Some rest else None)"

text \<open>\<^verbatim>\<open>read_separator\<close>: the separator is expected before every item but the first.\<close>

definition read_separator ::
  "rchar \<Rightarrow> nat \<Rightarrow> (rstring \<Rightarrow> ('a \<times> rstring) option) \<Rightarrow> rstring \<Rightarrow> ('a \<times> rstring) option" where
  "read_separator sep i item s = Option.bind (if 0 < i then read_given_char sep s else Some s) item"

definition read_octet :: "nat \<Rightarrow> rstring \<Rightarrow> (nat \<times> rstring) option" where
  "read_octet i = read_separator 46 i (read_number 10 3 False 256)"

definition read_ipv4_addr :: "rstring \<Rightarrow> ((nat \<times> nat \<times> nat \<times> nat) \<times> rstring) option" where
  "read_ipv4_addr s0 =
     Option.bind (read_octet 0 s0) (\<lambda>(a, s1).
     Option.bind (read_octet 1 s1) (\<lambda>(b, s2).
     Option.bind (read_octet 2 s2) (\<lambda>(c, s3).
     Option.bind (read_octet 3 s3) (\<lambda>(d, s4). Some ((a, b, c, d), s4)))))"

text \<open>
  \<^verbatim>\<open>read_groups\<close>: up to \<open>left\<close> groups from index \<open>i\<close> on; an embedded IPv4 address ends them and counts as
  two. The flag tells whether there was one.
\<close>

fun read_groups :: "nat \<Rightarrow> nat \<Rightarrow> rstring \<Rightarrow> (nat list \<times> bool) \<times> rstring" where
  "read_groups i 0 s = (([], False), s)"
| "read_groups i (Suc left) s =
     (case (if 0 < left then read_separator 58 i read_ipv4_addr s else None) of
        Some ((a, b, c, d), rest) \<Rightarrow> (([a * 256 + b, c * 256 + d], True), rest)
      | None \<Rightarrow>
          (case read_separator 58 i (read_number 16 4 True 65536) s of
             None \<Rightarrow> (([], False), s)
           | Some (g, rest) \<Rightarrow>
               (case read_groups (Suc i) left rest of ((gs, v4), rest') \<Rightarrow> ((g # gs, v4), rest'))))"

definition read_ipv6_addr :: "rstring \<Rightarrow> (nat list \<times> rstring) option" where
  "read_ipv6_addr s =
     (case read_groups 0 8 s of ((head, head_v4), rest) \<Rightarrow>
        if length head = 8 then Some (head, rest)
        else if head_v4 then None
        else Option.bind (read_given_char 58 rest) (\<lambda>s1.
             Option.bind (read_given_char 58 s1) (\<lambda>s2.
               case read_groups 0 (8 - (length head + 1)) s2 of ((tail, _), s3) \<Rightarrow>
                 Some (head @ replicate (8 - length head - length tail) 0 @ tail, s3))))"

text \<open>\<^verbatim>\<open>IpAddr::from_str\<close>: an IPv4 or else an IPv6 address, and nothing after it.\<close>

definition parse_ip :: "rstring \<Rightarrow> ip_addr option" where
  "parse_ip s =
     (case read_ipv4_addr s of
        Some ((a, b, c, d), []) \<Rightarrow> Some (V4 (of_nat a) (of_nat b) (of_nat c) (of_nat d))
      | _ \<Rightarrow> (case read_ipv6_addr s of
                Some (gs, []) \<Rightarrow> Some (V6 (map of_nat gs))
              | _ \<Rightarrow> None))"

section \<open>Classes of addresses\<close>

fun is_loopback :: "ip_addr \<Rightarrow> bool" where
  "is_loopback (V4 a b c d) \<longleftrightarrow> a = 127"
| "is_loopback (V6 gs) \<longleftrightarrow> gs = [0, 0, 0, 0, 0, 0, 0, 1]"

definition is_forbidden_ipv4 :: "8 word \<Rightarrow> 8 word \<Rightarrow> 8 word \<Rightarrow> 8 word \<Rightarrow> bool" where
  "is_forbidden_ipv4 a b c d \<longleftrightarrow>
     a = 127
     \<or> (a = 10 \<or> (a = 172 \<and> 16 \<le> b \<and> b \<le> 31) \<or> (a = 192 \<and> b = 168))
     \<or> (a = 169 \<and> b = 254)
     \<or> (a = 255 \<and> b = 255 \<and> c = 255 \<and> d = 255)
     \<or> ((a = 192 \<and> b = 0 \<and> c = 2) \<or> (a = 198 \<and> b = 51 \<and> c = 100) \<or> (a = 203 \<and> b = 0 \<and> c = 113))
     \<or> (a = 0 \<and> b = 0 \<and> c = 0 \<and> d = 0)
     \<or> (224 \<le> a \<and> a \<le> 239)"

definition is_forbidden_ipv6 :: "16 word list \<Rightarrow> bool" where
  "is_forbidden_ipv6 gs \<longleftrightarrow>
     (let first = hd gs;
          unique_local = (first AND 0xfe00 = 0xfc00);
          link_local = (first AND 0xffc0 = 0xfe80)
      in gs = [0, 0, 0, 0, 0, 0, 0, 1] \<or> gs = [0, 0, 0, 0, 0, 0, 0, 0]
         \<or> first AND 0xff00 = 0xff00 \<or> unique_local \<or> link_local)"

definition is_loopback_host :: "rstring \<Rightarrow> bool" where
  "is_loopback_host host \<longleftrightarrow>
     eq_ignore_ascii_case host (str ''localhost'') \<or> is_some_and is_loopback (parse_ip host)"

definition is_forbidden_runner_public_host :: "rstring \<Rightarrow> bool" where
  "is_forbidden_runner_public_host host \<longleftrightarrow>
     (if eq_ignore_ascii_case host (str ''localhost'') then True
      else case parse_ip host of
        None \<Rightarrow> False
      | Some (V4 a b c d) \<Rightarrow> is_forbidden_ipv4 a b c d
      | Some (V6 gs) \<Rightarrow> is_forbidden_ipv6 gs)"

section \<open>The allow-list\<close>

definition parse_allowed_runner_hosts :: "rstring \<Rightarrow> rstring list" where
  "parse_allowed_runner_hosts raw =
     filter (\<lambda>h. h \<noteq> [])
       (map (\<lambda>h. map ascii_lower (trim_start_by (\<lambda>c. c = 46) (trim h))) (split_on 44 raw))"

definition allowed_runner_host_matches :: "rstring \<Rightarrow> rstring list \<Rightarrow> bool" where
  "allowed_runner_host_matches host allowed_hosts \<longleftrightarrow>
     (let h = map ascii_lower (trim_end_by (\<lambda>c. c = 46) host)
      in list_ex (\<lambda>allowed. h = allowed \<or> ends_with h (46 # allowed)) allowed_hosts)"

section \<open>Validation of a runner's public URL\<close>

text \<open>The two parts of a parsed URL that are read. \<open>debug\<close> stands for \<^verbatim>\<open>cfg!(debug_assertions)\<close>.\<close>

record url =
  url_scheme :: rstring
  url_host :: "rstring option"

definition validate_runner_registration_public_base_url ::
  "(rstring \<Rightarrow> url option) \<Rightarrow> bool \<Rightarrow> rstring option \<Rightarrow> rstring option \<Rightarrow> rstring option \<Rightarrow> unit api" where
  "validate_runner_registration_public_base_url parse_url debug env_allowed base control_plane_base =
     (case Option.bind (map_option trim base) (\<lambda>v. if v \<noteq> [] then Some v else None) of
        None \<Rightarrow> Inr ()
      | Some raw \<Rightarrow>
          (case parse_url raw of
             None \<Rightarrow> Inl (BadRequest ''runner public_base_url is invalid'')
           | Some u \<Rightarrow>
               (case url_host u of
                  None \<Rightarrow> Inl (BadRequest ''runner public_base_url must include a host'')
                | Some host \<Rightarrow>
                    if \<not> (url_scheme u = str ''https''
                           \<or> (debug \<and> url_scheme u = str ''http'' \<and> is_loopback_host host))
                    then Inl (BadRequest ''runner public_base_url must use https outside loopback development'')
                    else if \<not> debug \<and> is_forbidden_runner_public_host host
                    then Inl (BadRequest ''runner public_base_url must not target loopback, private, link-local, multicast, or unspecified hosts'')
                    else if is_some_and (eq_ignore_ascii_case host)
                              (Option.bind (Option.bind control_plane_base parse_url) url_host)
                    then Inl (BadRequest ''runner public_base_url must not point at the control plane host'')
                    else if is_some_and (\<lambda>hosts. \<not> allowed_runner_host_matches host hosts)
                              (Option.bind (map_option parse_allowed_runner_hosts env_allowed)
                                (\<lambda>hosts. if hosts \<noteq> [] then Some hosts else None))
                    then Inl (BadRequest ''runner public_base_url host is not in REMOTE_CODE_ALLOWED_RUNNER_PUBLIC_HOSTS'')
                    else Inr ())))"

section \<open>The forbidden IPv4 addresses as network blocks\<close>

text \<open>An IPv4 address as a number, and membership in a block given by its network and prefix length.\<close>

definition octets_number :: "nat \<times> nat \<times> nat \<times> nat \<Rightarrow> nat" where
  "octets_number q = (case q of (a, b, c, d) \<Rightarrow> ((a * 256 + b) * 256 + c) * 256 + d)"

definition in_block :: "nat \<times> nat \<times> nat \<times> nat \<Rightarrow> (nat \<times> nat \<times> nat \<times> nat) \<times> nat \<Rightarrow> bool" where
  "in_block ip blk =
     (octets_number ip div 2 ^ (32 - snd blk) = octets_number (fst blk) div 2 ^ (32 - snd blk))"

definition forbidden_blocks :: "((nat \<times> nat \<times> nat \<times> nat) \<times> nat) list" where
  "forbidden_blocks =
     [((127, 0, 0, 0), 8), ((10, 0, 0, 0), 8), ((172, 16, 0, 0), 12), ((192, 168, 0, 0), 16),
      ((169, 254, 0, 0), 16), ((255, 255, 255, 255), 32), ((192, 0, 2, 0), 24), ((198, 51, 100, 0), 24),
      ((203, 0, 113, 0), 24), ((0, 0, 0, 0), 32), ((224, 0, 0, 0), 4)]"

lemma radix_div:
  fixes x y :: nat assumes "y < 256"
  shows "(x * 256 + y) div 256 = x" "(x * 256 + y) mod 256 = y" "(x * 256 + y) div 16 = x * 16 + y div 16"
proof -
  show "(x * 256 + y) div 256 = x" "(x * 256 + y) mod 256 = y" using assms by simp_all
  have "(x * 256 + y) div 16 = (y + (x * 16) * 16) div 16" by (simp add: ac_simps)
  then show "(x * 256 + y) div 16 = x * 16 + y div 16" by (simp only: div_mult_self1)
qed

lemma radix_eq:
  fixes x y :: nat assumes "y < 256" "Y < 256"
  shows "x * 256 + y = X * 256 + Y \<longleftrightarrow> x = X \<and> y = Y"
  using radix_div(1,2) assms by metis

lemma octets_number_div:
  assumes "b < 256" "c < 256" "d < 256"
  shows "octets_number (a, b, c, d) div 256 = (a * 256 + b) * 256 + c"
    "octets_number (a, b, c, d) div 65536 = a * 256 + b"
    "octets_number (a, b, c, d) div 16777216 = a"
    "octets_number (a, b, c, d) div 1048576 = a * 16 + b div 16"
    "octets_number (a, b, c, d) div 268435456 = a div 16"
proof -
  let ?n = "octets_number (a, b, c, d)"
  show 1: "?n div 256 = (a * 256 + b) * 256 + c"
    unfolding octets_number_def prod.case using assms(3) by (rule radix_div)
  show 2: "?n div 65536 = a * 256 + b"
    using div_mult2_eq [of ?n 256 256] 1 radix_div(1) [OF assms(2), of "a * 256 + b"] by simp
  show 3: "?n div 16777216 = a"
    using div_mult2_eq [of ?n 65536 256] 2 radix_div(1) [OF assms(1), of a] by simp
  show "?n div 1048576 = a * 16 + b div 16"
    using div_mult2_eq [of ?n 65536 16] 2 radix_div(3) [OF assms(1), of a] by simp
  show "?n div 268435456 = a div 16"
    using div_mult2_eq [of ?n 16777216 16] 3 by simp
qed

lemma octets_number_eq:
  assumes "b < 256" "c < 256" "d < 256" "B < 256" "C < 256" "D < 256"
  shows "octets_number (a, b, c, d) = octets_number (A, B, C, D) \<longleftrightarrow> a = A \<and> b = B \<and> c = C \<and> d = D"
  unfolding octets_number_def prod.case using assms by (simp only: radix_eq) blast

lemma octet_bound [simp]: "unat (w :: 8 word) < 256"
  using unsigned_less [of w] by simp

lemma in_block_octets:
  assumes "b < 256" "c < 256" "d < 256" "B < 256" "C < 256" "D < 256"
  shows "in_block (a, b, c, d) ((A, B, C, D), 8) \<longleftrightarrow> a = A"
    "in_block (a, b, c, d) ((A, B, C, D), 16) \<longleftrightarrow> a = A \<and> b = B"
    "in_block (a, b, c, d) ((A, B, C, D), 24) \<longleftrightarrow> a = A \<and> b = B \<and> c = C"
    "in_block (a, b, c, d) ((A, B, C, D), 32) \<longleftrightarrow> a = A \<and> b = B \<and> c = C \<and> d = D"
    "in_block (a, b, c, d) ((A, B, C, D), 12) \<longleftrightarrow> a * 16 + b div 16 = A * 16 + B div 16"
    "in_block (a, b, c, d) ((A, B, C, D), 4) \<longleftrightarrow> a div 16 = A div 16"
  using assms radix_eq [of b B a A] radix_eq [of c C "a * 256 + b" "A * 256 + B"]
  by (simp_all only: in_block_def octets_number_div octets_number_eq fst_conv snd_conv) (simp_all add: octets_number_div octets_number_eq)

lemma div16_iff:
  fixes n k :: nat shows "n div 16 = k \<longleftrightarrow> k * 16 \<le> n \<and> n < k * 16 + 16"
  using div_mult_mod_eq [of n 16] mod_less_divisor [of 16 n] by auto

lemma forbidden_ipv4_blocks:
  "is_forbidden_ipv4 a b c d \<longleftrightarrow> list_ex (in_block (unat a, unat b, unat c, unat d)) forbidden_blocks"
proof -
  have "unat b div 16 < 16" using octet_bound [of b] by (simp add: div_less_iff_less_mult)
  then have "unat a * 16 + unat b div 16 = 2753 \<longleftrightarrow> unat a = 172 \<and> unat b div 16 = 1"
    using div16_iff [of "unat a * 16 + unat b div 16" 172] by (auto simp: div_mult_self3)
  also have "\<dots> \<longleftrightarrow> unat a = 172 \<and> 16 \<le> unat b \<and> unat b \<le> 31" by (auto simp: div16_iff)
  finally have p12: "unat a * 16 + unat b div 16 = 2753 \<longleftrightarrow> unat a = 172 \<and> 16 \<le> unat b \<and> unat b \<le> 31" .
  have p4: "unat a div 16 = 14 \<longleftrightarrow> 224 \<le> unat a \<and> unat a \<le> 239" by (auto simp: div16_iff)
  have e: "w = x \<longleftrightarrow> unat w = unat x" for w x :: "8 word" by (simp add: word_unat_eq_iff)
  show ?thesis
    unfolding is_forbidden_ipv4_def forbidden_blocks_def e [of a] e [of b] e [of c] e [of d] word_le_nat_alt
    by (simp add: in_block_octets p12 p4)
qed

section \<open>The forbidden IPv6 addresses as ranges\<close>

lemma leading_bits:
  fixes x :: "16 word"
  assumes "k \<le> 16"
  shows "unat (x AND push_bit k (mask (16 - k))) = unat x div 2 ^ k * 2 ^ k"
proof -
  have small: "unat x < 2 ^ 16" using unsigned_less [of x] by simp
  have "x AND push_bit k (mask (16 - k)) = push_bit k (drop_bit k x)"
    using assms by (auto simp: bit_eq_iff bit_simps)
  moreover have "unat (push_bit k (drop_bit k x)) = take_bit 16 (unat x div 2 ^ k * 2 ^ k)"
    unfolding unsigned_push_bit_eq unsigned_drop_bit_eq
    using small by (simp add: push_bit_eq_mult drop_bit_eq_div take_bit_nat_eq_self)
  moreover have "unat x div 2 ^ k * 2 ^ k < 2 ^ 16"
    using small div_times_less_eq_dividend [of "unat x" "2 ^ k"] by linarith
  ultimately show ?thesis by (simp add: take_bit_nat_eq_self)
qed

lemma forbidden_ipv6_ranges:
  "is_forbidden_ipv6 gs \<longleftrightarrow>
     gs = [0, 0, 0, 0, 0, 0, 0, 1] \<or> gs = [0, 0, 0, 0, 0, 0, 0, 0]
     \<or> 0xff00 \<le> unat (hd gs)
     \<or> (0xfc00 \<le> unat (hd gs) \<and> unat (hd gs) \<le> 0xfdff)
     \<or> (0xfe80 \<le> unat (hd gs) \<and> unat (hd gs) \<le> 0xfebf)"
proof -
  let ?g = "hd gs"
  have e: "w = x \<longleftrightarrow> unat w = unat x" for w x :: "16 word" by (simp add: word_unat_eq_iff)
  have masks: "push_bit 9 (mask 7) = (0xfe00 :: 16 word)" "push_bit 6 (mask 10) = (0xffc0 :: 16 word)"
    "push_bit 8 (mask 8) = (0xff00 :: 16 word)"
    by (simp_all add: mask_numeral push_bit_eq_mult)
  have small: "unat ?g < 65536" using unsigned_less [of ?g] by simp
  have "(?g AND 0xfe00 = 0xfc00) \<longleftrightarrow> 0xfc00 \<le> unat ?g \<and> unat ?g \<le> 0xfdff"
    using leading_bits [of 9 ?g] by (simp add: masks e [of "?g AND 0xfe00"]) linarith
  moreover have "(?g AND 0xffc0 = 0xfe80) \<longleftrightarrow> 0xfe80 \<le> unat ?g \<and> unat ?g \<le> 0xfebf"
    using leading_bits [of 6 ?g] by (simp add: masks e [of "?g AND 0xffc0"]) linarith
  moreover have "(?g AND 0xff00 = 0xff00) \<longleftrightarrow> 0xff00 \<le> unat ?g"
    using leading_bits [of 8 ?g] small by (simp add: masks e [of "?g AND 0xff00"]) linarith
  ultimately show ?thesis by (simp add: is_forbidden_ipv6_def Let_def)
qed

lemma ends_with_front: "ends_with s p \<longleftrightarrow> (\<exists>front. s = front @ p)"
proof
  assume "ends_with s p"
  then have "s = take (length s - length p) s @ p" by (metis append_take_drop_id ends_with_def)
  then show "\<exists>front. s = front @ p" by blast
qed (auto simp: ends_with_def)

text \<open>
  C16. In a release build a runner may register with a public URL exactly if the URL is blank, or it
  parses, uses https and names a host that is not ``localhost'', does not read as an IPv4 address within
  one of eleven reserved network blocks (loopback, the three private ones, link-local, broadcast, the
  three documentation ones, unspecified, multicast) nor as an IPv6 address that is loopback, unspecified,
  multicast, unique local or link-local, is not the control plane's own host, and, if the operator's list
  names any host, is one of them or below one of them. Upper and lower case do not matter. Every refusal is
  a 400. Hosts in brackets are left out.
\<close>

theorem runner_url_guard_exact:
  assumes "\<And>u host. parse_url (trim raw) = Some u \<Longrightarrow> url_host u = Some host \<Longrightarrow> \<not> starts_with host (str ''['')"
  shows
  "let res = validate_runner_registration_public_base_url parse_url False env_allowed (Some raw) control_plane_base
   in (is_ok res \<longleftrightarrow>
         trim raw = []
         \<or> (\<exists>u host. parse_url (trim raw) = Some u \<and> url_scheme u = str ''https'' \<and> url_host u = Some host
              \<and> map ascii_lower host \<noteq> str ''localhost''
              \<and> (case parse_ip host of
                    Some (V4 a b c d) \<Rightarrow>
                      filter (in_block (unat a, unat b, unat c, unat d)) forbidden_blocks = []
                  | Some (V6 gs) \<Rightarrow>
                      gs \<noteq> [0, 0, 0, 0, 0, 0, 0, 1] \<and> gs \<noteq> [0, 0, 0, 0, 0, 0, 0, 0]
                      \<and> unat (hd gs) < 0xff00
                      \<and> \<not> (0xfc00 \<le> unat (hd gs) \<and> unat (hd gs) \<le> 0xfdff)
                      \<and> \<not> (0xfe80 \<le> unat (hd gs) \<and> unat (hd gs) \<le> 0xfebf)
                  | None \<Rightarrow> True)
              \<and> is_none_or (\<lambda>own. map ascii_lower host \<noteq> map ascii_lower own)
                   (Option.bind (Option.bind control_plane_base parse_url) url_host)
              \<and> is_none_or (\<lambda>env.
                   let listed = {e. e \<noteq> [] \<and> (\<exists>h \<in> set (split_on 44 env).
                                   e = map ascii_lower (trim_start_by (\<lambda>c. c = 46) (trim h)))};
                       name = map ascii_lower (trim_end_by (\<lambda>c. c = 46) host)
                   in listed = {} \<or> name \<in> listed \<or> (\<exists>below allowed. allowed \<in> listed \<and> name = below @ 46 # allowed))
                   env_allowed))
      \<and> (case res of Inl e \<Rightarrow> error_status e = 400 | Inr _ \<Rightarrow> True)"
proof -
  have low: "map ascii_lower (str ''localhost'') = str ''localhost''" by (simp add: str_def ascii_lower_def)
  have ex: "list_ex P xs \<longleftrightarrow> filter P xs \<noteq> []" for P and xs :: "((nat \<times> nat \<times> nat \<times> nat) \<times> nat) list"
    by (simp add: list_ex_iff filter_empty_conv)
  let ?listed = "\<lambda>env. {e. e \<noteq> [] \<and> (\<exists>h \<in> set (split_on 44 env).
                                   e = map ascii_lower (trim_start_by (\<lambda>c. c = 46) (trim h)))}"
  have listed: "?listed env = set (parse_allowed_runner_hosts env)" for env
    by (auto simp: parse_allowed_runner_hosts_def)
  have ok: "allowed_runner_host_matches host xs \<longleftrightarrow> map ascii_lower (trim_end_by (\<lambda>c. c = 46) host) \<in> set xs
      \<or> (\<exists>below allowed. allowed \<in> set xs \<and> map ascii_lower (trim_end_by (\<lambda>c. c = 46) host) = below @ 46 # allowed)" for host xs
    by (auto simp: allowed_runner_host_matches_def ends_with_front list_ex_iff Let_def)
  show ?thesis
    unfolding listed Let_def ok [symmetric] set_empty
    by (auto simp: validate_runner_registration_public_base_url_def is_forbidden_runner_public_host_def
        forbidden_ipv4_blocks forbidden_ipv6_ranges ex eq_ignore_ascii_case_def low is_ok_def is_some_and_def
        is_none_or_def Let_def split: option.splits if_splits ip_addr.splits sum.splits bind_splits)
qed

text \<open>A runner at \<^verbatim>\<open>https://10.0.0.9\<close> is refused, one at \<^verbatim>\<open>https://runner.dev\<close> is accepted.\<close>

definition demo_parse_url :: "rstring \<Rightarrow> url option" where
  "demo_parse_url s = (if starts_with s (str ''https://'')
     then Some \<lparr> url_scheme = str ''https'', url_host = Some (drop 8 s) \<rparr> else None)"

theorem runner_url_guard_exact_witness:
  "is_ok (validate_runner_registration_public_base_url demo_parse_url False (Some (str ''dev''))
      (Some (str ''https://runner.dev'')) None)
   \<and> \<not> is_ok (validate_runner_registration_public_base_url demo_parse_url False None
      (Some (str ''https://10.0.0.9'')) None)"
proof -
  have trims: "trim (str ''https://runner.dev'') = str ''https://runner.dev''"
    "trim (str ''https://10.0.0.9'') = str ''https://10.0.0.9''" "trim (str ''dev'') = str ''dev''"
    by (simp_all add: str_def trim_def trim_start_by_def trim_end_by_def is_whitespace_def)
  have parsed: "demo_parse_url (str ''https://runner.dev'') = Some \<lparr> url_scheme = str ''https'', url_host = Some (str ''runner.dev'') \<rparr>"
    "demo_parse_url (str ''https://10.0.0.9'') = Some \<lparr> url_scheme = str ''https'', url_host = Some (str ''10.0.0.9'') \<rparr>"
    by (simp_all add: demo_parse_url_def starts_with_def str_def)
  have hosts: "\<not> starts_with (str ''runner.dev'') (str ''['')" "\<not> starts_with (str ''10.0.0.9'') (str ''['')"
    by (simp_all add: starts_with_def str_def)
  have plain: "\<not> starts_with host (str ''['')"
    if "demo_parse_url (trim (str ''https://runner.dev'')) = Some u" "url_host u = Some host" for u host
    using that hosts by (auto simp: trims parsed)
  have plain': "\<not> starts_with host (str ''['')"
    if "demo_parse_url (trim (str ''https://10.0.0.9'')) = Some u" "url_host u = Some host" for u host
    using that hosts by (auto simp: trims parsed)
  have name: "read_number radix m z l (str ''runner.dev'') = None" if "radix \<le> 16" for radix m z l
    using that by (simp add: read_number_def digit_value_def str_def)
  have v4: "read_ipv4_addr (str ''runner.dev'') = None"
    by (simp add: read_ipv4_addr_def read_octet_def read_separator_def name)
  have "read_groups 0 8 (str ''runner.dev'') = (([], False), str ''runner.dev'')"
    using read_groups.simps(2) [of 0 7 "str ''runner.dev''"] by (simp add: read_separator_def name v4)
  then have "parse_ip (str ''runner.dev'') = None"
    by (simp add: parse_ip_def v4 read_ipv6_addr_def) (simp add: read_given_char_def str_def)
  moreover have "parse_ip (str ''10.0.0.9'') = Some (V4 10 0 0 9)"
    by (simp add: parse_ip_def read_ipv4_addr_def read_octet_def read_separator_def read_given_char_def
        read_number_def digit_value_def digits_value_def str_def)
  ultimately have ips: "parse_ip (str ''runner.dev'') = None" "parse_ip (str ''10.0.0.9'') = Some (V4 10 0 0 9)"
    by simp_all
  have "filter (in_block (unat (10 :: 8 word), unat (0 :: 8 word), unat (0 :: 8 word), unat (9 :: 8 word))) forbidden_blocks \<noteq> []"
    by (simp add: forbidden_blocks_def in_block_def octets_number_def)
  then have no: "\<not> is_ok (validate_runner_registration_public_base_url demo_parse_url False None
      (Some (str ''https://10.0.0.9'')) None)"
    using runner_url_guard_exact [of demo_parse_url "str ''https://10.0.0.9''" None None, OF plain']
    by (simp add: trims parsed ips Let_def) (simp add: str_def)
  have listed: "split_on 44 (str ''dev'') = [str ''dev'']" "trim_start_by (\<lambda>c. c = 46) (str ''dev'') = str ''dev''"
    "map ascii_lower (str ''dev'') = str ''dev''" "trim_end_by (\<lambda>c. c = 46) (str ''runner.dev'') = str ''runner.dev''"
    "map ascii_lower (str ''runner.dev'') = str ''runner'' @ 46 # str ''dev''"
    by (simp_all add: str_def trim_start_by_def trim_end_by_def ascii_lower_def)
  have "is_ok (validate_runner_registration_public_base_url demo_parse_url False (Some (str ''dev''))
      (Some (str ''https://runner.dev'')) None)"
    using runner_url_guard_exact [of demo_parse_url "str ''https://runner.dev''" "Some (str ''dev'')" None, OF plain]
    by (simp add: trims parsed ips listed Let_def) (auto simp: str_def)
  with no show ?thesis by blast
qed

text \<open>
  The guard does not see IPv6 literals. The \<^verbatim>\<open>url\<close> crate hands out the host of such a URL with its
  brackets (\<^verbatim>\<open>[::1]\<close>), which does not read as an IP address, so no IPv6 address is ever refused: a URL
  that names the loopback address is accepted, although the address alone is recognised as forbidden.
\<close>

theorem bracketed_host_not_guarded:
  "\<not> is_forbidden_runner_public_host (91 # rest)
   \<and> is_forbidden_ipv6 [0, 0, 0, 0, 0, 0, 0, 1]
   \<and> validate_runner_registration_public_base_url
       (\<lambda>_. Some \<lparr>url_scheme = str ''https'', url_host = Some (str ''[::1]'')\<rparr>) False None
       (Some (str ''https://[::1]:8443'')) None = Inr ()"
proof -
  have n: "read_number radix m z l (91 # t) = None" for radix m z l t
    by (simp add: read_number_def digit_value_def)
  have v4: "read_ipv4_addr (91 # t) = None" for t
    by (simp add: read_ipv4_addr_def read_octet_def read_separator_def n)
  have "read_groups 0 8 (91 # t) = (([], False), 91 # t)" for t
    using read_groups.simps(2) [of 0 7 "91 # t"] by (simp add: read_separator_def n v4)
  then have p: "parse_ip (91 # t) = None" for t
    by (simp add: parse_ip_def v4 read_ipv6_addr_def read_given_char_def)
  have f: "\<not> is_forbidden_runner_public_host (91 # t)" for t
    by (simp add: is_forbidden_runner_public_host_def p eq_ignore_ascii_case_def str_def ascii_lower_def)
  have "trim (str ''https://[::1]:8443'') \<noteq> []"
    by (simp add: trim_def trim_start_by_def trim_end_by_def is_whitespace_def str_def)
  moreover have "str ''[::1]'' = 91 # str ''::1]''" by (simp add: str_def)
  ultimately show ?thesis
    using f by (simp add: validate_runner_registration_public_base_url_def is_forbidden_ipv6_def)
qed

end
