(* ===== verification/Registry_System.thy ===== *)
theory Registry_System
  imports Registry_Approvals
begin

text \<open>
  All write-locked sections of the control plane as one interleaved system.

  The registry sits behind a read-write lock (\<^verbatim>\<open>Arc<RwLock<Registry>>\<close> of \<^verbatim>\<open>state.rs\<close>). A request handler
  is a sequence of lock sections; between two of them any other request may run. The system below has
  one step per write-locked registry call. Approvals and decisions are planned under a read lock and
  committed later, so the plans in flight are part of the system's state: a commit may use a plan that
  was made many steps ago. Identifiers that the server draws for new devices are assumed not to be in
  use (version 4 UUIDs); every other identifier is arbitrary, including those clients choose.
\<close>

section \<open>The steps\<close>

record system =
  sys_registry :: registry
  sys_approval_plans :: "planned_approval list"
  sys_decision_plans :: "planned_approval_decision list"

definition system_start :: "system \<Rightarrow> bool" where
  "system_start s \<longleftrightarrow>
     s = \<lparr> sys_registry = registry_default, sys_approval_plans = [], sys_decision_plans = [] \<rparr>"

text \<open>The calls that need no plan.\<close>

inductive registry_op :: "hash \<Rightarrow> registry \<Rightarrow> registry \<Rightarrow> bool" for sha :: hash where
  op_revoke: "registry_op sha r (snd (revoke_device did r))"
| op_authenticate: "registry_op sha r (snd (authenticate_device_token sha now token r))"
| op_refresh: "registry_op sha r (snd (refresh_access_token sha now ua ur token r))"
| op_bootstrap:
    "bm_get (trusted_devices r) did = None \<Longrightarrow>
     registry_op sha r (snd (bootstrap_claim sha now did ur ua expected breq r))"
| op_create_offer: "registry_op sha r (snd (create_pairing_offer sha tp tc oid us creator oreq r))"
| op_accept_offer:
    "bm_get (trusted_devices r) did = None \<Longrightarrow>
     registry_op sha r (snd (accept_pairing_offer sha tp tc now did ur ua areq r))"
| op_push: "registry_op sha r (snd (register_push_token now did preq r))"
| op_user_push: "registry_op sha r (snd (register_user_push_token now uid preq r))"
| op_register_runner: "registry_op sha r (snd (register_runner now req lease user r))"
| op_heartbeat: "registry_op sha r (snd (apply_heartbeat rid hb r))"
| op_reap: "registry_op sha r (snd (reap_orphaned_assigned_sessions now lease r))"
| op_commit_session: "registry_op sha r (snd (commit_session ses r))"
| op_state_update: "registry_op sha r (snd (apply_session_state_update sid st meta t r))"
| op_dispatch: "registry_op sha r (snd (commit_pending_session_dispatch sid rid d r))"
| op_artifact: "registry_op sha r (snd (register_artifact now fresh sid acreq n r))"
| op_enqueue: "registry_op sha r (snd (enqueue_runner_command now fresh rid body r))"
| op_pull: "registry_op sha r (snd (pull_runner_commands rid n r))"

inductive system_step :: "hash \<Rightarrow> system \<Rightarrow> system \<Rightarrow> bool" for sha :: hash where
  step_op:
    "registry_op sha (sys_registry s) r' \<Longrightarrow> system_step sha s (s\<lparr>sys_registry := r'\<rparr>)"
| step_plan_approval:
    "plan_approval now fresh sid req (sys_registry s) = Inr pl \<Longrightarrow>
     system_step sha s (s\<lparr>sys_approval_plans := pl # sys_approval_plans s\<rparr>)"
| step_commit_approval:
    "pl \<in> set (sys_approval_plans s) \<Longrightarrow>
     system_step sha s
       (s\<lparr>sys_registry := snd (commit_planned_approval pl (sys_registry s)),
          sys_approval_plans := remove1 pl (sys_approval_plans s)\<rparr>)"
| step_plan_decision:
    "plan_approval_decision now aid dreq (sys_registry s) = Inr pn \<Longrightarrow>
     system_step sha s (s\<lparr>sys_decision_plans := pn # sys_decision_plans s\<rparr>)"
| step_commit_decision:
    "pn \<in> set (sys_decision_plans s) \<Longrightarrow>
     system_step sha s
       (s\<lparr>sys_registry := snd (commit_planned_approval_decision pn (sys_registry s)),
          sys_decision_plans := remove1 pn (sys_decision_plans s)\<rparr>)"

inductive_cases registry_opE: "registry_op sha r r'"
inductive_cases system_stepE: "system_step sha s t"

section \<open>The invariant\<close>

definition registry_inv :: "registry \<Rightarrow> bool" where
  "registry_inv r \<longleftrightarrow> device_inv r \<and> session_inv r \<and> work_inv r"

definition system_inv :: "system \<Rightarrow> bool" where
  "system_inv s \<longleftrightarrow> registry_inv (sys_registry s)
     \<and> list_all approval_plan_ok (sys_approval_plans s)
     \<and> list_all (\<lambda>pn. decision_plan_ok pn (sys_registry s)) (sys_decision_plans s)"

text \<open>Approvals are never removed and never move to another session.\<close>

definition approvals_kept :: "registry \<Rightarrow> registry \<Rightarrow> bool" where
  "approvals_kept r r' \<longleftrightarrow>
     (\<forall>k a. bm_get (approvals r) k = Some a \<longrightarrow>
        (\<exists>a'. bm_get (approvals r') k = Some a' \<and> ap_session_id a' = ap_session_id a))"

lemma decision_plan_ok_kept:
  "decision_plan_ok pn r \<Longrightarrow> approvals_kept r r' \<Longrightarrow> decision_plan_ok pn r'"
  by (fastforce simp: decision_plan_ok_def approvals_kept_def is_some_and_iff)

lemma approvals_kept_same: "approvals r' = approvals r \<Longrightarrow> approvals_kept r r'"
  by (simp add: approvals_kept_def)

lemmas [registry_simps] =
  register_runner_def apply_heartbeat_def commit_session_def apply_session_state_update_def
  reap_orphaned_assigned_sessions_def commit_pending_session_dispatch_def register_artifact_def
  enqueue_runner_command_def pull_runner_commands_def commit_planned_approval_def
  commit_planned_approval_decision_def Let_def

lemma approvals_op: "registry_op sha r r' \<Longrightarrow> approvals r' = approvals r"
  by (induction rule: registry_op.induct)
    (simp_all add: device_ops_frame registry_simps split_beta split: option.split sum.split)

lemma approvals_kept_commit_approval: "approvals_kept r (snd (commit_planned_approval pl r))"
  by (auto simp: approvals_kept_def registry_simps bm_contains_def split: option.splits)

lemma approvals_kept_commit_decision:
  "decision_plan_ok pn r \<Longrightarrow> approvals_kept r (snd (commit_planned_approval_decision pn r))"
  by (auto simp: approvals_kept_def decision_plan_ok_def registry_simps is_some_and_iff split: option.splits)

lemmas [inv_intros] =
  device_inv_revoke device_inv_authenticate device_inv_refresh device_inv_bootstrap
  device_inv_create_offer device_inv_accept device_inv_push
  device_inv_part [OF device_part_sessions(2)] device_inv_part [OF device_part_sessions(3)]
  device_inv_part [OF device_part_sessions(4)] device_inv_part [OF device_part_sessions(5)]
  device_inv_part [OF device_part_sessions(6)] device_inv_part [OF device_part_sessions(7)]
  device_inv_part [OF device_part_sessions(8)] device_inv_part [OF device_part_sessions(9)]
  device_inv_part [OF device_part_sessions(10)] device_inv_part [OF device_part_sessions(11)]
  device_inv_part [OF device_part_sessions(12)]
  session_inv_devices session_inv_register session_inv_heartbeat session_inv_commit
  session_inv_state_update session_inv_dispatch session_inv_reap session_inv_register_artifact
  session_inv_queues session_inv_commit_approval session_inv_commit_decision
  work_inv_devices work_inv_sessions work_inv_register_artifact work_inv_enqueue work_inv_pull
  work_inv_commit_approval work_inv_commit_decision

lemma registry_inv_op: "registry_op sha r r' \<Longrightarrow> registry_inv r \<Longrightarrow> registry_inv r'"
  unfolding registry_inv_def by (induction rule: registry_op.induct) (auto intro: inv_intros)

lemma registry_inv_commit_approval:
  "registry_inv r \<Longrightarrow> approval_plan_ok pl \<Longrightarrow> registry_inv (snd (commit_planned_approval pl r))"
  by (simp add: registry_inv_def inv_intros)

lemma registry_inv_commit_decision:
  "registry_inv r \<Longrightarrow> decision_plan_ok pn r \<Longrightarrow> registry_inv (snd (commit_planned_approval_decision pn r))"
  by (simp add: registry_inv_def inv_intros)

lemma system_inv_registry:
  assumes "system_inv s" "registry_inv r'" "approvals_kept (sys_registry s) r'"
    "sys_registry t = r'" "set (sys_approval_plans t) \<subseteq> set (sys_approval_plans s)"
    "set (sys_decision_plans t) \<subseteq> set (sys_decision_plans s)"
  shows "system_inv t"
  using assms by (auto simp: system_inv_def list_all_iff intro: decision_plan_ok_kept)

lemma system_inv_step:
  assumes "system_inv s" "system_step sha s t"
  shows "system_inv t"
  using assms(2,1)
proof (induction rule: system_step.induct)
  case (step_op s r')
  have "registry_inv r'" using registry_inv_op [OF step_op.hyps] step_op.prems by (simp add: system_inv_def)
  then show ?case
    by (rule system_inv_registry [OF step_op.prems _ approvals_kept_same [OF approvals_op [OF step_op.hyps]]])
      simp_all
next
  case (step_plan_approval now fresh sid req s pl)
  then show ?case by (simp add: system_inv_def plan_approval_ok)
next
  case (step_commit_approval pl s)
  then have "registry_inv (snd (commit_planned_approval pl (sys_registry s)))"
    by (simp add: system_inv_def list_all_iff registry_inv_commit_approval)
  then show ?case
    by (rule system_inv_registry [OF step_commit_approval.prems _ approvals_kept_commit_approval])
      (simp_all add: set_remove1_subset)
next
  case (step_plan_decision now aid dreq s pn)
  then show ?case by (auto simp: system_inv_def registry_inv_def intro: plan_decision_ok)
next
  case (step_commit_decision pn s)
  then have ok: "decision_plan_ok pn (sys_registry s)"
    and "registry_inv (snd (commit_planned_approval_decision pn (sys_registry s)))"
    by (simp_all add: system_inv_def list_all_iff registry_inv_commit_decision)
  from this(2) show ?case
    by (rule system_inv_registry [OF step_commit_decision.prems _ approvals_kept_commit_decision [OF ok]])
      (simp_all add: set_remove1_subset)
qed

lemma system_inv_start: "system_start s \<Longrightarrow> system_inv s"
  by (simp add: system_start_def system_inv_def registry_inv_def device_inv_default session_inv_default
      work_inv_default)

interpretation registry_system: locked_system system_start "system_step sha" system_inv for sha
  by unfold_locales (auto intro: system_inv_start system_inv_step)

text \<open>
  C7. Whatever requests are served, in whatever interleaving, every state the registry can reach is
  consistent: the owner entry names exactly the device flagged as owner; push tokens belong to stored
  devices; the reverse index gives each session's runner; approvals and artifacts belong to stored
  sessions and are filed under their own identifiers; at most 128 approvals exist per session; a command
  queue belongs to a registered runner and holds between 1 and 256 commands, each addressed to it.
\<close>

theorem control_plane_invariant:
  assumes "reachable system_start (system_step sha) s"
  shows "let r = sys_registry s
         in (owner_device_id r = Some did \<longleftrightarrow> is_some_and dev_owner (bm_get (trusted_devices r) did))
            \<and> \<not> (bm_contains (push_tokens r) did \<and> \<not> bm_contains (trusted_devices r) did)
            \<and> bm_get (session_runner_index r) sid = Option.bind (bm_get (sessions r) sid) ses_owner_runner_id
            \<and> is_none_or (\<lambda>a. ap_approval_id a = aid \<and> bm_contains (sessions r) (ap_session_id a))
                (bm_get (approvals r) aid)
            \<and> is_none_or (\<lambda>a. ar_artifact_id a = aid \<and> bm_contains (sessions r) (ar_session_id a))
                (bm_get (artifacts r) aid)
            \<and> session_approval_count r sid \<le> 128
            \<and> is_none_or (\<lambda>q. q \<noteq> [] \<and> length q \<le> 256 \<and> bm_contains (runners r) rid
                               \<and> list_all (\<lambda>c. qc_runner_id c = rid) q)
                (bm_get (queued_runner_commands r) rid)"
proof -
  have inv: "device_inv (sys_registry s)" "session_inv (sys_registry s)" "work_inv (sys_registry s)"
    using registry_system.inv_reachable [OF assms] by (simp_all add: system_inv_def registry_inv_def)
  have "is_none_or (\<lambda>a. ap_approval_id a = aid \<and> bm_contains (sessions (sys_registry s)) (ap_session_id a))
          (bm_get (approvals (sys_registry s)) aid)"
    "session_approval_count (sys_registry s) sid \<le> 128"
    using inv(3) by (auto simp: work_inv_def approval_inv_def is_none_or_def bm_contains_def
        session_approval_count_def max_approvals_per_session_def split: option.splits)
  moreover have "is_none_or (\<lambda>a. ar_artifact_id a = aid \<and> bm_contains (sessions (sys_registry s)) (ar_session_id a))
          (bm_get (artifacts (sys_registry s)) aid)"
    using inv(3) by (auto simp: work_inv_def artifact_inv_def is_none_or_def bm_contains_def split: option.splits)
  moreover have "is_none_or (\<lambda>q. q \<noteq> [] \<and> length q \<le> 256 \<and> bm_contains (runners (sys_registry s)) rid
                               \<and> list_all (\<lambda>c. qc_runner_id c = rid) q)
                (bm_get (queued_runner_commands (sys_registry s)) rid)"
    using inv(3) by (auto simp: work_inv_def queue_inv_def is_none_or_def bm_contains_def list_all_iff
        max_commands_per_runner_def split: option.splits)
  moreover have "\<not> (bm_contains (push_tokens (sys_registry s)) did
                     \<and> \<not> bm_contains (trusted_devices (sys_registry s)) did)"
    using inv(1) unfolding device_inv_defs bm_contains_def by blast
  moreover have "bm_get (session_runner_index (sys_registry s)) sid
                 = Option.bind (bm_get (sessions (sys_registry s)) sid) ses_owner_runner_id"
    "owner_device_id (sys_registry s) = Some did
     \<longleftrightarrow> is_some_and dev_owner (bm_get (trusted_devices (sys_registry s)) did)"
    using inv(1,2) by (simp_all add: device_inv_defs session_inv_defs is_some_and_iff)
  ultimately show ?thesis by (simp add: Let_def)
qed

definition wit_start :: system where
  "wit_start = \<lparr> sys_registry = registry_default, sys_approval_plans = [], sys_decision_plans = [] \<rparr>"

definition wit_stored :: registry where
  "wit_stored = snd (commit_session (wit_session Completed) registry_default)"

lemma wit_stored_get: "bm_get (sessions wit_stored) 3 = Some (wit_session Completed)"
  by (simp add: wit_stored_def commit_session_def registry_default_def wit_session_def bm_contains_def)

theorem control_plane_invariant_witness:
  "let s = wit_start\<lparr>sys_registry := wit_stored\<rparr>
   in reachable system_start (system_step (\<lambda>x. x)) s
      \<and> bm_get (session_runner_index (sys_registry s)) 3
        = Option.bind (bm_get (sessions (sys_registry s)) 3) ses_owner_runner_id
      \<and> session_approval_count (sys_registry s) 3 \<le> 128"
proof -
  let ?s = "wit_start\<lparr>sys_registry := wit_stored\<rparr>"
  have "registry_op (\<lambda>x. x) (sys_registry wit_start) wit_stored"
    unfolding wit_start_def wit_stored_def by (simp add: op_commit_session)
  then have "system_step (\<lambda>x. x) wit_start ?s" by (rule step_op)
  moreover have "reachable system_start (system_step (\<lambda>x. x)) wit_start"
    by (rule reach_start) (simp add: system_start_def wit_start_def)
  ultimately have "reachable system_start (system_step (\<lambda>x. x)) ?s" by (rule reach_step [rotated])
  with control_plane_invariant [OF this] show ?thesis by (simp add: Let_def)
qed

section \<open>What no step can change\<close>

text \<open>
  A stored session stays stored, with its identifier, tenant, workspace and time of creation.
\<close>

definition session_identity :: "session_record \<Rightarrow> uuid \<times> rstring option \<times> rstring \<times> instant" where
  "session_identity s = (ses_session_id s, ses_owner_user_id s, ses_workspace_id s, ses_created_at s)"

definition identities_kept :: "registry \<Rightarrow> registry \<Rightarrow> bool" where
  "identities_kept r r' \<longleftrightarrow>
     (\<forall>sid s. bm_get (sessions r) sid = Some s \<longrightarrow>
        map_option session_identity (bm_get (sessions r') sid) = Some (session_identity s))"

definition terminal_kept :: "registry \<Rightarrow> registry \<Rightarrow> bool" where
  "terminal_kept r r' \<longleftrightarrow>
     (\<forall>sid s. bm_get (sessions r) sid = Some s \<and> is_terminal (ses_state s) \<longrightarrow>
        map_option ses_state (bm_get (sessions r') sid) = Some (ses_state s))"

lemma kept_same:
  "sessions r' = sessions r \<Longrightarrow> identities_kept r r'"
  "sessions r' = sessions r \<Longrightarrow> terminal_kept r r'"
  by (simp_all add: identities_kept_def terminal_kept_def)

lemma session_keeping_ops:
  "sessions (snd (register_runner now req lease user r)) = sessions r"
  "sessions (snd (apply_heartbeat rid hb r)) = sessions r"
  "sessions (snd (register_artifact now fresh sid acreq n r)) = sessions r"
  "sessions (snd (enqueue_runner_command now fresh rid body r)) = sessions r"
  "sessions (snd (pull_runner_commands rid n r)) = sessions r"
  by (simp_all add: registry_simps split_beta split: option.split sum.split)

lemma commit_session_kept:
  "identities_kept r (snd (commit_session s r))" "terminal_kept r (snd (commit_session s r))"
  by (auto simp: identities_kept_def terminal_kept_def commit_session_def bm_contains_def Let_def
      split: option.splits)

lemma state_update_kept:
  "identities_kept r (snd (apply_session_state_update sid st meta t r))"
  "terminal_kept r (snd (apply_session_state_update sid st meta t r))"
  by (auto simp: identities_kept_def terminal_kept_def apply_session_state_update_def session_identity_def
      is_valid_session_transition_def is_terminal_def Let_def split: option.splits if_splits)

lemma reap_kept:
  "identities_kept r (snd (reap_orphaned_assigned_sessions now lease r))"
  "terminal_kept r (snd (reap_orphaned_assigned_sessions now lease r))"
  by (auto simp: identities_kept_def terminal_kept_def reap_orphaned_assigned_sessions_def reap_session_def
      reap_owner_def session_identity_def is_terminal_def Let_def split: if_splits)

lemma dispatch_kept:
  "identities_kept r (snd (commit_pending_session_dispatch sid rid d r))"
  "terminal_kept r (snd (commit_pending_session_dispatch sid rid d r))"
  by (auto simp: identities_kept_def terminal_kept_def commit_pending_session_dispatch_def
      session_identity_def is_terminal_def Let_def split: option.splits if_splits)

lemma approval_commits_kept:
  "identities_kept r (snd (commit_planned_approval pl r))"
  "identities_kept r (snd (commit_planned_approval_decision pn r))"
  by (auto simp: identities_kept_def commit_planned_approval_def commit_planned_approval_decision_def
      session_identity_def Let_def split: option.splits if_splits)

lemma kept_op:
  assumes "registry_op sha r r'"
  shows "identities_kept r r' \<and> terminal_kept r r'"
  using assms
  by (induction rule: registry_op.induct)
    (simp_all add: kept_same device_ops_frame session_keeping_ops commit_session_kept state_update_kept
      reap_kept dispatch_kept)

lemma identities_kept_step: "system_step sha s t \<Longrightarrow> identities_kept (sys_registry s) (sys_registry t)"
  by (induction rule: system_step.induct) (simp_all add: kept_op approval_commits_kept kept_same)

lemma identities_kept_trans:
  assumes "identities_kept a b" "identities_kept b c" shows "identities_kept a c"
  unfolding identities_kept_def
proof (intro allI impI)
  fix sid s assume "bm_get (sessions a) sid = Some s"
  then obtain x where "bm_get (sessions b) sid = Some x" "session_identity x = session_identity s"
    using assms(1) by (auto simp: identities_kept_def)
  then show "map_option session_identity (bm_get (sessions c) sid) = Some (session_identity s)"
    using assms(2) by (fastforce simp: identities_kept_def)
qed

lemma terminal_kept_trans:
  assumes "terminal_kept a b" "terminal_kept b c" shows "terminal_kept a c"
  unfolding terminal_kept_def
proof (intro allI impI)
  fix sid s assume s: "bm_get (sessions a) sid = Some s \<and> is_terminal (ses_state s)"
  then obtain x where "bm_get (sessions b) sid = Some x" "ses_state x = ses_state s"
    using assms(1) by (auto simp: terminal_kept_def)
  then show "map_option ses_state (bm_get (sessions c) sid) = Some (ses_state s)"
    using assms(2) s by (fastforce simp: terminal_kept_def)
qed

text \<open>
  Tenancy is permanent. Over any run of requests a stored session stays stored and keeps its
  identifier, the user it belongs to, its workspace and its time of creation: no request, of whatever
  user, can delete a session or move it to another tenant.
\<close>

theorem session_identity_permanent:
  assumes "(system_step sha)\<^sup>*\<^sup>* s t" and "bm_get (sessions (sys_registry s)) sid = Some ses"
  shows "map_option (\<lambda>x. (ses_session_id x, ses_owner_user_id x, ses_workspace_id x, ses_created_at x))
           (bm_get (sessions (sys_registry t)) sid)
         = Some (ses_session_id ses, ses_owner_user_id ses, ses_workspace_id ses, ses_created_at ses)"
proof -
  have "identities_kept (sys_registry s) (sys_registry t)"
    using assms(1)
    by (induction rule: rtranclp_induct) (auto intro: kept_same identities_kept_trans identities_kept_step)
  with assms(2) show ?thesis by (fastforce simp: identities_kept_def session_identity_def)
qed

theorem session_identity_permanent_witness:
  "let s = wit_start\<lparr>sys_registry := wit_stored\<rparr>;
       t = s\<lparr>sys_registry := snd (revoke_device 1 wit_stored)\<rparr>
   in map_option ses_owner_user_id (bm_get (sessions (sys_registry t)) 3) = Some (Some [7])"
proof -
  let ?s = "wit_start\<lparr>sys_registry := wit_stored\<rparr>"
  have "system_step (\<lambda>x. x) ?s (?s\<lparr>sys_registry := snd (revoke_device 1 wit_stored)\<rparr>)"
    by (rule step_op) (simp add: op_revoke)
  then have "(system_step (\<lambda>x. x))\<^sup>*\<^sup>* ?s (?s\<lparr>sys_registry := snd (revoke_device 1 wit_stored)\<rparr>)"
    by (rule r_into_rtranclp)
  from session_identity_permanent [OF this, of 3 "wit_session Completed"]
  show ?thesis by (auto simp: Let_def wit_stored_get wit_session_def)
qed

text \<open>
  A finished session stays finished. Over any run of requests other than those that request or
  answer approvals, a session that is completed, failed or cancelled keeps exactly that state: neither
  state updates, nor the dispatcher, nor the reaper, nor a runner that registers again revive it.
\<close>

theorem finished_session_stays_finished:
  assumes "(registry_op sha)\<^sup>*\<^sup>* r r'" and "bm_get (sessions r) sid = Some ses"
    and "ses_state ses \<in> {Completed, Failed, Cancelled}"
  shows "map_option ses_state (bm_get (sessions r') sid) = Some (ses_state ses)"
proof -
  have "terminal_kept r r'"
    using assms(1)
    by (induction rule: rtranclp_induct) (auto intro: kept_same terminal_kept_trans dest: kept_op)
  with assms(2,3) show ?thesis by (auto simp: terminal_kept_def is_terminal_def)
qed

theorem finished_session_stays_finished_witness:
  "map_option ses_state
     (bm_get (sessions (snd (apply_session_state_update 3 Running bm_empty 5 wit_stored))) 3) = Some Completed"
proof -
  have "registry_op (\<lambda>x. x) wit_stored (snd (apply_session_state_update 3 Running bm_empty 5 wit_stored))"
    by (rule op_state_update)
  then have "(registry_op (\<lambda>x. x))\<^sup>*\<^sup>* wit_stored (snd (apply_session_state_update 3 Running bm_empty 5 wit_stored))"
    by (rule r_into_rtranclp)
  from finished_session_stays_finished [OF this wit_stored_get] show ?thesis by (simp add: wit_session_def)
qed

end
