(* ===== verification/Cp_State.thy ===== *)
theory Cp_State
  imports Cp_Auth Net_Addr Registry_System
begin

text \<open>
  The service state and its persistence (\<^verbatim>\<open>rc-control-plane/src/state.rs\<close>): the parts of
  \<^verbatim>\<open>ControlPlaneService\<close> that requests read and change, start-up from the database, writing the snapshot,
  and the checks on the configuration. The files of the artifact directory are part of the state; they
  survive a restart.

  JSON is the argument \<open>cd\<close>: an encoder and a decoder for events and one pair for snapshots. What the
  code relies on is that decoding inverts encoding, except for the fields that the source marks
  \<^verbatim>\<open>skip_serializing\<close>, which come back as their default.
\<close>

section \<open>Configuration\<close>

record control_plane_config =
  cc_bind :: "ip_addr \<times> 16 word"
  cc_public_base_url :: "rstring option"
  cc_service_name :: rstring
  cc_runner_lease_ttl_secs :: u64
  cc_profile_dir :: rstring
  cc_state_db_path :: rstring
  cc_artifact_root_dir :: "rstring list"
  cc_auth_token :: "rstring option"
  cc_bootstrap_secret :: "rstring option"

definition is_local_control_plane_url :: "(rstring \<Rightarrow> url option) \<Rightarrow> rstring \<Rightarrow> bool" where
  "is_local_control_plane_url parse_url raw =
     (case parse_url raw of
        None \<Rightarrow> False
      | Some u \<Rightarrow>
          (case url_host u of
             Some host \<Rightarrow> host = str ''localhost'' \<or> is_some_and is_loopback (parse_ip host)
           | None \<Rightarrow> False))"

definition validate_control_plane_config ::
  "(rstring \<Rightarrow> url option) \<Rightarrow> control_plane_config \<Rightarrow> string list" where
  "validate_control_plane_config parse_url cfg =
     (let auth_configured = (cc_auth_token cfg \<noteq> None \<or> cc_bootstrap_secret cfg \<noteq> None);
          remote_public_url = Option.bind (cc_public_base_url cfg)
            (\<lambda>u. if \<not> is_local_control_plane_url parse_url u then Some u else None)
      in (if \<not> is_loopback (fst (cc_bind cfg)) \<and> \<not> auth_configured
          then [''non-loopback control-plane binds require REMOTE_CODE_CONTROL_PLANE_AUTH_TOKEN or REMOTE_CODE_CONTROL_PLANE_BOOTSTRAP_SECRET'']
          else [])
         @ (if remote_public_url \<noteq> None \<and> \<not> auth_configured
            then [''remote public_base_url requires REMOTE_CODE_CONTROL_PLANE_AUTH_TOKEN or REMOTE_CODE_CONTROL_PLANE_BOOTSTRAP_SECRET'']
            else [])
         @ (if is_some_and (\<lambda>u. \<not> starts_with u (str ''https://'')) remote_public_url
            then [''remote public_base_url must use https''] else []))"

text \<open>The keys that tenants may present: the valid entries of a comma-separated list of hashes.\<close>

definition is_ascii_hexdigit :: "rchar \<Rightarrow> bool" where
  "is_ascii_hexdigit c \<longleftrightarrow> (48 \<le> c \<and> c \<le> 57) \<or> (65 \<le> c \<and> c \<le> 70) \<or> (97 \<le> c \<and> c \<le> 102)"

definition is_sha256_hex :: "rstring \<Rightarrow> bool" where
  "is_sha256_hex v \<longleftrightarrow> length v = 64 \<and> list_all is_ascii_hexdigit v"

definition load_allowed_user_key_hashes_from_env :: "rstring option \<Rightarrow> rstring list" where
  "load_allowed_user_key_hashes_from_env var =
     (case var of
        None \<Rightarrow> []
      | Some raw \<Rightarrow>
          filter_map (\<lambda>value.
              let normalized = map ascii_lower (trim (unwrap_or value (strip_prefix (str ''sha256:'') value)))
              in if is_sha256_hex normalized then Some normalized else None)
            (filter (\<lambda>v. v \<noteq> []) (map trim (split_on 44 raw))))"

section \<open>The database and the service\<close>

type_synonym snapshot = "registry \<times> (u64 \<times> timeline_event list)"

record codec =
  cd_enc_event :: event_encoder
  cd_dec_event :: event_decoder
  cd_enc_state :: "snapshot \<Rightarrow> rstring"
  cd_dec_state :: "rstring \<Rightarrow> snapshot option"

text \<open>The two tables: the single row of the snapshot, and the events.\<close>

record database =
  db_snapshot :: "rstring option"
  db_events :: event_table

definition empty_database :: database where
  "empty_database = \<lparr> db_snapshot = None, db_events = bm_empty \<rparr>"

record service =
  sv_config :: control_plane_config
  sv_auth :: auth_config
  sv_registry :: registry
  sv_timeline :: timeline_store
  sv_tickets :: tickets
  sv_limiter :: rate_limiter
  sv_db :: database
  sv_files :: "(rstring list, nat list) btree"
  sv_loaded :: bool

definition sv_lease :: "service \<Rightarrow> u64" where
  "sv_lease sv = cc_runner_lease_ttl_secs (sv_config sv)"

definition persist_control_plane_state_from_payload :: "rstring \<Rightarrow> database \<Rightarrow> database" where
  "persist_control_plane_state_from_payload payload db = db\<lparr>db_snapshot := Some payload\<rparr>"

text \<open>
  Persisting has two steps: the payload is encoded while the registry is locked, and stored when the
  database is. \<open>persist_state\<close> is the two of them with nothing in between.
\<close>

definition snapshot_payload :: "codec \<Rightarrow> service \<Rightarrow> rstring" where
  "snapshot_payload cd sv = cd_enc_state cd (sv_registry sv, timeline_snapshot (sv_timeline sv))"

definition store_snapshot :: "rstring \<Rightarrow> service \<Rightarrow> service" where
  "store_snapshot payload sv = sv\<lparr>sv_db := persist_control_plane_state_from_payload payload (sv_db sv)\<rparr>"

definition persist_state :: "codec \<Rightarrow> service \<Rightarrow> service" where
  "persist_state cd sv = store_snapshot (snapshot_payload cd sv) sv"

definition list_persisted_events :: "codec \<Rightarrow> persisted_event_query \<Rightarrow> service \<Rightarrow> timeline_event list option" where
  "list_persisted_events cd q sv = load_persisted_events (cd_dec_event cd) q (db_events (sv_db sv))"

definition latest_persisted_event_sequence :: "persisted_event_query \<Rightarrow> service \<Rightarrow> u64 option option" where
  "latest_persisted_event_sequence q sv = load_latest_persisted_event_sequence q (db_events (sv_db sv))"

text \<open>
  Start-up: the snapshot, with the indices rebuilt; nothing but an empty registry when there is none. A
  snapshot that does not decode is an error, after which the service starts empty all the same.
\<close>

definition load_persisted_state_with_conn ::
  "codec \<Rightarrow> database \<Rightarrow> ((registry \<times> timeline_store) \<times> database) option" where
  "load_persisted_state_with_conn cd db =
     (case db_snapshot db of
        None \<Rightarrow> Some ((registry_default, timeline_new default_event_history_limit), db)
      | Some payload \<Rightarrow>
          (case cd_dec_state cd payload of
             None \<Rightarrow> None
           | Some (r, tl_snap) \<Rightarrow>
               Some ((rebuild_token_hash_index (rebuild_session_runner_index r),
                      timeline_from_snapshot default_event_history_limit tl_snap),
                     db\<lparr>db_events := backfill_persisted_events (cd_enc_event cd) tl_snap (db_events db)\<rparr>)))"

definition with_http_client ::
  "codec \<Rightarrow> hash \<Rightarrow> control_plane_config \<Rightarrow> rstring option \<Rightarrow> bool
   \<Rightarrow> (rstring list, nat list) btree \<Rightarrow> database option \<Rightarrow> service" where
  "with_http_client cd sha cfg user_key_hashes legacy disk conn =
     (let db = unwrap_or empty_database conn;
          loaded = Option.bind conn (load_persisted_state_with_conn cd);
          ((registry, timeline), db') =
            unwrap_or ((registry_default, timeline_new default_event_history_limit), db) loaded
      in \<lparr> sv_config = cfg,
           sv_auth = \<lparr> cfg_auth_token = cc_auth_token cfg,
                       cfg_bootstrap_secret_hash = map_option sha (cc_bootstrap_secret cfg),
                       cfg_allowed_user_key_hashes = load_allowed_user_key_hashes_from_env user_key_hashes,
                       cfg_legacy_query_tokens = legacy \<rparr>,
           sv_registry = registry, sv_timeline = timeline, sv_tickets = bm_empty,
           sv_limiter = rate_limiter_default, sv_db = db', sv_files = disk, sv_loaded = (loaded \<noteq> None) \<rparr>)"

section \<open>Configuration is checked\<close>

lemma allowed_user_keys_are_hashes:
  "list_all (\<lambda>h. is_sha256_hex h \<and> map ascii_lower h = h) (load_allowed_user_key_hashes_from_env var)"
proof -
  have "ascii_lower (ascii_lower c) = ascii_lower c" for c by (simp add: ascii_lower_def)
  then show ?thesis
    by (auto simp: load_allowed_user_key_hashes_from_env_def list_all_iff set_filter_map Let_def
        split: option.splits if_splits)
qed

lemma config_without_issues_is_safe:
  assumes "validate_control_plane_config parse_url cfg = []"
  shows "(is_loopback (fst (cc_bind cfg))
          \<and> is_none_or (is_local_control_plane_url parse_url) (cc_public_base_url cfg))
         \<or> cc_auth_token cfg \<noteq> None \<or> cc_bootstrap_secret cfg \<noteq> None"
  using assms by (auto simp: validate_control_plane_config_def Let_def is_none_or_def
      split: if_splits option.splits bind_splits)

section \<open>A restart restores the state\<close>

text \<open>What the snapshot holds of a registry: everything but the access tokens of runners.\<close>

definition forget_runner_token :: "runner_snapshot \<Rightarrow> runner_snapshot" where
  "forget_runner_token s = s\<lparr>rs_registration := (rs_registration s)\<lparr>rr_auth_token := None\<rparr>\<rparr>"

definition serialized_part :: "snapshot \<Rightarrow> snapshot" where
  "serialized_part s = ((fst s)\<lparr>runners := bm_map (\<lambda>_. forget_runner_token) (runners (fst s))\<rparr>, snd s)"

lemma rebuild_index_get:
  assumes "distinct (map fst es)"
  shows "bm_get (fold (\<lambda>e idx. case ses_owner_runner_id (snd e) of
                                 Some rid \<Rightarrow> bm_insert (fst e) rid idx | None \<Rightarrow> idx) es m) k
         = (case Option.bind (map_of es k) ses_owner_runner_id of Some rid \<Rightarrow> Some rid | None \<Rightarrow> bm_get m k)"
  using assms
proof (induction es arbitrary: m)
  case (Cons e es)
  then have "k = fst e \<Longrightarrow> map_of es k = None" by (simp add: map_of_eq_None_iff)
  with Cons show ?case by (cases e) (auto split: option.splits bind_splits)
qed simp

lemma rebuild_session_runner_index_same:
  assumes "session_inv r"
  shows "session_runner_index (rebuild_session_runner_index r) = session_runner_index r"
proof (rule bm_eqI)
  fix k
  show "bm_get (session_runner_index (rebuild_session_runner_index r)) k = bm_get (session_runner_index r) k"
    using assms rebuild_index_get [OF distinct_keys [of "sessions r"], of bm_empty k]
    by (simp add: rebuild_session_runner_index_def session_inv_defs bm_get_def [symmetric] split: option.splits)
qed

text \<open>The rebuilt index of access tokens leads to a device that holds the token.\<close>

abbreviation access_index :: "(uuid \<times> stored_trusted_device) list \<Rightarrow> (rstring, uuid) btree \<Rightarrow> (rstring, uuid) btree" where
  "access_index \<equiv> fold (\<lambda>e idx. case dev_access_token_hash (snd e) of
                                 Some h \<Rightarrow> bm_insert h (fst e) idx | None \<Rightarrow> idx)"

lemma access_index_sound:
  "bm_get (access_index es m) h = Some k \<Longrightarrow>
   (\<exists>d. (k, d) \<in> set es \<and> dev_access_token_hash d = Some h) \<or> bm_get m h = Some k"
  by (induction es arbitrary: m) (fastforce split: option.splits if_splits)+

lemma access_index_grows: "bm_get m h \<noteq> None \<Longrightarrow> bm_get (access_index es m) h \<noteq> None"
  by (induction es arbitrary: m) (auto split: option.splits)

lemma access_index_complete:
  "(k, d) \<in> set es \<Longrightarrow> dev_access_token_hash d = Some h \<Longrightarrow> bm_get (access_index es m) h \<noteq> None"
proof (induction es arbitrary: m)
  case (Cons e es)
  show ?case
  proof (cases "e = (k, d)")
    case True
    then show ?thesis using Cons.prems access_index_grows [of "bm_insert h k m" h es] by simp
  next
    case False
    then show ?thesis using Cons by simp
  qed
qed simp

lemma rebuilt_access_index:
  assumes "bm_get (trusted_devices r) did = Some d" "dev_access_token_hash d = Some h"
    and "\<And>k d'. bm_get (trusted_devices r) k = Some d' \<Longrightarrow> dev_access_token_hash d' = Some h \<Longrightarrow> k = did"
  shows "bm_get (access_token_hash_to_device (rebuild_token_hash_index r)) h = Some did"
proof -
  have "bm_get (access_index (entries (trusted_devices r)) bm_empty) h \<noteq> None"
    using assms(1,2) by (intro access_index_complete) (simp_all add: in_entries_iff)
  then show ?thesis
    using access_index_sound [of "entries (trusted_devices r)" bm_empty h] assms(3)
    by (fastforce simp: rebuild_token_hash_index_def in_entries_iff)
qed

lemma authenticate_indexed:
  assumes "bm_get (access_token_hash_to_device r) (sha token) = Some did"
    "bm_get (trusted_devices r) did = Some d" "access_live sha now (sha token) d"
  shows "fst (authenticate_device_token sha now token r) = Some (public_record (d\<lparr>dev_last_seen_at := now\<rparr>), True)"
  using assms
  by (simp add: authenticate_device_token_def lookup_access_device_def touch_device_def is_some_and_def Let_def)

lemma registry_inv_serialized:
  assumes "registry_inv r"
  shows "registry_inv (r\<lparr>runners := bm_map (\<lambda>_. forget_runner_token) (runners r)\<rparr>)"
proof -
  let ?r = "r\<lparr>runners := bm_map (\<lambda>_. forget_runner_token) (runners r)\<rparr>"
  have "session_inv ?r" using assms
    by (auto simp: registry_inv_def session_inv_defs forget_runner_token_def)
  moreover have "device_inv ?r" using assms by (simp add: registry_inv_def device_inv_def)
  moreover have "work_inv ?r"
    by (rule work_inv_grows [of r]) (use assms in \<open>simp_all add: registry_inv_def grows_map\<close>)
  ultimately show ?thesis by (simp add: registry_inv_def)
qed

lemma registry_inv_indices:
  "registry_inv (r\<lparr>token_hash_to_device := t, access_token_hash_to_device := a\<rparr>) = registry_inv r"
  by (simp add: registry_inv_def device_inv_def session_inv_def work_inv_def)

lemma rebuilt_eq:
  assumes "session_inv r"
  shows "\<exists>t a. rebuild_token_hash_index (rebuild_session_runner_index r)
               = r\<lparr>token_hash_to_device := t, access_token_hash_to_device := a\<rparr>"
proof -
  have "rebuild_session_runner_index r = r"
    using rebuild_session_runner_index_same [OF assms] by (simp add: rebuild_session_runner_index_def)
  then show ?thesis unfolding rebuild_token_hash_index_def by metis
qed

text \<open>
  C10. A restart loses nothing that was in the snapshot but the runners' access tokens. If the snapshot of a
  consistent service is written, the codec gives back the serialised part of that state, and the service is
  started on that database, then the registry is the old one (its reverse index of sessions rebuilt exactly,
  the token indices rebuilt) and consistent, and the timeline continues with the same history and the same
  next number. The secret with which the control plane identifies itself to a runner is gone, for every
  runner. And an unexpired access token that is the token of one stored device and of no other still
  authenticates as that device.
\<close>

theorem restart_restores_state:
  assumes "cd_dec_state cd (cd_enc_state cd (sv_registry sv, timeline_snapshot (sv_timeline sv)))
           = Some (serialized_part (sv_registry sv, timeline_snapshot (sv_timeline sv)))"
    and "registry_inv (sv_registry sv)"
  shows "let sv' = with_http_client cd sha cfg keys legacy disk (Some (sv_db (persist_state cd sv)))
         in sv_loaded sv'
            \<and> (\<exists>t a. sv_registry sv' = (sv_registry sv)
                  \<lparr>runners := bm_map (\<lambda>_. forget_runner_token) (runners (sv_registry sv)),
                   token_hash_to_device := t, access_token_hash_to_device := a\<rparr>)
            \<and> registry_inv (sv_registry sv')
            \<and> timeline_snapshot (sv_timeline sv') = timeline_snapshot (sv_timeline sv)
            \<and> (\<forall>rid s. bm_get (runners (sv_registry sv')) rid = Some s \<longrightarrow> authorize_runner_request s = None)
            \<and> (\<forall>did d token now.
                 bm_get (trusted_devices (sv_registry sv)) did = Some d
                 \<and> dev_access_token_hash d = Some (sha token) \<and> access_live sha now (sha token) d
                 \<and> (\<forall>k d'. bm_get (trusted_devices (sv_registry sv)) k = Some d'
                      \<and> dev_access_token_hash d' = Some (sha token) \<longrightarrow> k = did)
                 \<longrightarrow> fst (authenticate_device_token sha now token (sv_registry sv'))
                   = Some (public_record (d\<lparr>dev_last_seen_at := now\<rparr>), True))"
proof -
  let ?sv = "with_http_client cd sha cfg keys legacy disk (Some (sv_db (persist_state cd sv)))"
  let ?base = "(sv_registry sv)\<lparr>runners := bm_map (\<lambda>_. forget_runner_token) (runners (sv_registry sv))\<rparr>"
  let ?r = "rebuild_token_hash_index (rebuild_session_runner_index ?base)"
  obtain db' where "load_persisted_state_with_conn cd (sv_db (persist_state cd sv))
      = Some ((?r, timeline_from_snapshot default_event_history_limit (timeline_snapshot (sv_timeline sv))), db')"
    by (simp add: load_persisted_state_with_conn_def persist_state_def store_snapshot_def snapshot_payload_def
        persist_control_plane_state_from_payload_def assms(1) serialized_part_def)
  then have sv': "sv_loaded ?sv" "sv_registry ?sv = ?r"
    "timeline_snapshot (sv_timeline ?sv) = timeline_snapshot (sv_timeline sv)"
    by (simp_all add: with_http_client_def timeline_from_snapshot_def timeline_snapshot_def Let_def)
  have inv0: "registry_inv ?base" by (rule registry_inv_serialized [OF assms(2)])
  then obtain t a where r: "?r = ?base\<lparr>token_hash_to_device := t, access_token_hash_to_device := a\<rparr>"
    using rebuilt_eq [of ?base] by (auto simp: registry_inv_def)
  have td: "trusted_devices (rebuild_session_runner_index ?base) = trusted_devices (sv_registry sv)"
    by (simp add: rebuild_session_runner_index_def)
  have auth: "fst (authenticate_device_token sha now token ?r) = Some (public_record (d\<lparr>dev_last_seen_at := now\<rparr>), True)"
    if d: "bm_get (trusted_devices (sv_registry sv)) did = Some d" "dev_access_token_hash d = Some (sha token)"
      "access_live sha now (sha token) d"
      and only: "\<And>k d'. bm_get (trusted_devices (sv_registry sv)) k = Some d' \<Longrightarrow>
                 dev_access_token_hash d' = Some (sha token) \<Longrightarrow> k = did" for did d token now
  proof (rule authenticate_indexed)
    show "bm_get (access_token_hash_to_device ?r) (sha token) = Some did"
      by (rule rebuilt_access_index [of "rebuild_session_runner_index ?base" did d "sha token", unfolded td, OF d(1,2) only])
  qed (use d(1,3) in \<open>simp_all add: r\<close>)
  have "registry_inv ?r" unfolding r registry_inv_indices by (rule inv0)
  moreover have "authorize_runner_request s = None" if "bm_get (runners ?r) rid = Some s" for rid s
    using that by (auto simp: r authorize_runner_request_def forget_runner_token_def)
  moreover have "\<exists>t a. ?r = (sv_registry sv)\<lparr>runners := bm_map (\<lambda>_. forget_runner_token) (runners (sv_registry sv)),
      token_hash_to_device := t, access_token_hash_to_device := a\<rparr>" using r by auto
  ultimately show ?thesis unfolding Let_def sv' using auth sv' by (intro conjI) blast+
qed

definition wit_service :: service where
  "wit_service = \<lparr> sv_config = \<lparr> cc_bind = (V4 127 0 0 1, 8080), cc_public_base_url = None, cc_service_name = [],
       cc_runner_lease_ttl_secs = 30, cc_profile_dir = [], cc_state_db_path = [], cc_artifact_root_dir = [],
       cc_auth_token = None, cc_bootstrap_secret = None \<rparr>,
     sv_auth = \<lparr> cfg_auth_token = None, cfg_bootstrap_secret_hash = None, cfg_allowed_user_key_hashes = [],
       cfg_legacy_query_tokens = False \<rparr>,
     sv_registry = add_device (new_device (\<lambda>x. x) 0 7 [65] KindCli False None [3] [4]) registry_default,
     sv_timeline = timeline_new 256, sv_tickets = bm_empty, sv_limiter = rate_limiter_default,
     sv_db = empty_database, sv_files = bm_empty, sv_loaded = True \<rparr>"

text \<open>A codec that tells the state of one service from every other state.\<close>

definition wit_codec :: "service \<Rightarrow> codec" where
  "wit_codec sv = \<lparr> cd_enc_event = (\<lambda>_. []), cd_dec_event = (\<lambda>_. None),
     cd_enc_state = (\<lambda>x. if x = (sv_registry sv, timeline_snapshot (sv_timeline sv)) then [1] else [2]),
     cd_dec_state = (\<lambda>p. if p = [1] then Some (serialized_part (sv_registry sv, timeline_snapshot (sv_timeline sv)))
        else if p = [2] then Some (serialized_part (registry_default, timeline_snapshot (timeline_new 1))) else None) \<rparr>"

lemma registry_inv_default: "registry_inv registry_default"
  by (simp add: registry_inv_def device_inv_default session_inv_default work_inv_default)

theorem restart_restores_state_witness:
  "let cd = wit_codec wit_service;
       sv' = with_http_client cd (\<lambda>x. x) (sv_config wit_service) None False bm_empty
               (Some (sv_db (persist_state cd wit_service)))
   in cd_enc_state cd (registry_default, timeline_snapshot (sv_timeline wit_service))
        \<noteq> cd_enc_state cd (sv_registry wit_service, timeline_snapshot (sv_timeline wit_service))
      \<and> sv_loaded sv' \<and> registry_inv (sv_registry sv')
      \<and> fst (authenticate_device_token (\<lambda>x. x) 5 [3] (sv_registry sv')) \<noteq> None"
proof -
  let ?d = "new_device (\<lambda>x. x) 0 7 [65] KindCli False None [3] [4]"
  have r: "sv_registry wit_service = add_device ?d registry_default" by (simp add: wit_service_def)
  have inv: "registry_inv (sv_registry wit_service)"
    using registry_inv_default device_inv_add_plain [OF device_inv_default, of ?d]
    by (simp add: r registry_inv_def add_device_def registry_default_def session_inv_def work_inv_def)
  have dev: "bm_get (trusted_devices (sv_registry wit_service)) k = (if k = 7 then Some ?d else None)" for k
    by (simp add: r add_device_def registry_default_def)
  have live: "access_live (\<lambda>x. x) 5 [3] ?d"
    by (simp add: access_live_def constant_time_value_eq_def access_token_ttl_def minutes_def seconds_def)
  have codec: "cd_dec_state (wit_codec wit_service) (cd_enc_state (wit_codec wit_service)
      (sv_registry wit_service, timeline_snapshot (sv_timeline wit_service)))
      = Some (serialized_part (sv_registry wit_service, timeline_snapshot (sv_timeline wit_service)))"
    by (simp add: wit_codec_def)
  have "bm_get (trusted_devices registry_default) 7 \<noteq> bm_get (trusted_devices (sv_registry wit_service)) 7"
    by (simp add: dev) (simp add: registry_default_def)
  then have "registry_default \<noteq> sv_registry wit_service" by metis
  then have differ: "cd_enc_state (wit_codec wit_service) (registry_default, timeline_snapshot (sv_timeline wit_service))
        \<noteq> cd_enc_state (wit_codec wit_service) (sv_registry wit_service, timeline_snapshot (sv_timeline wit_service))"
    by (simp add: wit_codec_def)
  note all = restart_restores_state [where sha = "\<lambda>x. x" and cfg = "sv_config wit_service" and keys = None
      and legacy = False and disk = bm_empty, OF codec inv, unfolded Let_def]
  have "bm_get (trusted_devices (sv_registry wit_service)) 7 = Some ?d" "dev_access_token_hash ?d = Some ((\<lambda>x. x) [3])"
    "\<forall>k d'. bm_get (trusted_devices (sv_registry wit_service)) k = Some d' \<and> dev_access_token_hash d' = Some [3] \<longrightarrow> k = 7"
    by (simp_all add: dev)
  with all live have "fst (authenticate_device_token (\<lambda>x. x) 5 [3] (sv_registry (with_http_client (wit_codec wit_service)
      (\<lambda>x. x) (sv_config wit_service) None False bm_empty (Some (sv_db (persist_state (wit_codec wit_service) wit_service))))))
      \<noteq> None" by blast
  with all differ show ?thesis unfolding Let_def by blast
qed

end
