(* ===== verification/Cp_Tasks.thy ===== *)
theory Cp_Tasks
  imports Cp_State
begin

text \<open>
  Request handlers as sequences of lock sections.

  An \<^verbatim>\<open>async\<close> handler of the control plane takes a lock, works on the state, releases it, and may then be
  suspended while other requests run; HTTP calls to runners happen between lock sections. A task is
  modelled as a function of the service and a tick that counts its sections. Everything that happens
  outside comes from the world: at tick \<open>n\<close>, before the section runs, \<open>w_env w n\<close> is what the other
  requests did to the service meanwhile; \<open>w_now\<close> and \<open>w_uuid\<close> are the clock readings and the random
  identifiers of that section, \<open>w_http\<close> the answers of runners and \<open>w_io\<close> whether a file operation works.
\<close>

section \<open>Tasks\<close>

record http_clients =
  hc_create :: "(runner_session_create_request, runner_session_record) http_client"
  hc_state :: "(runner_session_state_update_request, runner_session_record) http_client"
  hc_approval :: "(approval_create_request, approval_request_record) http_client"
  hc_decision :: "(approval_decision_request, approval_request_record) http_client"
  hc_command :: "(runner_session_command_request, runner_session_command_response) http_client"

record world =
  w_now :: "nat \<Rightarrow> nat \<Rightarrow> instant"
  w_uuid :: "nat \<Rightarrow> nat \<Rightarrow> uuid"
  w_env :: "nat \<Rightarrow> service \<Rightarrow> service"
  w_http :: "nat \<Rightarrow> http_clients"
  w_io :: "nat \<Rightarrow> bool"

type_synonym 'a task = "world \<Rightarrow> service \<times> nat \<Rightarrow> 'a api \<times> service \<times> nat"

definition done_with :: "'a \<Rightarrow> 'a task" where
  "done_with x w s = (Inr x, s)"

definition fail_with :: "api_error \<Rightarrow> 'a task" where
  "fail_with e w s = (Inl e, s)"

text \<open>\<^verbatim>\<open>?\<close>: the first error ends the task; what was done before stays done.\<close>

definition and_then :: "'a task \<Rightarrow> ('a \<Rightarrow> 'b task) \<Rightarrow> 'b task" where
  "and_then t k w s = (case t w s of (Inl e, s') \<Rightarrow> (Inl e, s') | (Inr x, s') \<Rightarrow> k x w s')"

text \<open>\<^verbatim>\<open>.ok()\<close>: an error becomes the absence of a value.\<close>

definition attempt :: "'a task \<Rightarrow> 'a option task" where
  "attempt t w s = (case t w s of (Inl e, s') \<Rightarrow> (Inr None, s') | (Inr x, s') \<Rightarrow> (Inr (Some x), s'))"

text \<open>One section: the environment first, then the section on what it finds.\<close>

definition section_on ::
  "((nat \<Rightarrow> instant) \<Rightarrow> (nat \<Rightarrow> uuid) \<Rightarrow> service \<Rightarrow> 'a api \<times> service) \<Rightarrow> 'a task" where
  "section_on f w s =
     (case s of (sv, n) \<Rightarrow>
        (case f (w_now w n) (w_uuid w n) (w_env w n sv) of (res, sv') \<Rightarrow> (res, sv', Suc n)))"

definition write_registry ::
  "((nat \<Rightarrow> instant) \<Rightarrow> (nat \<Rightarrow> uuid) \<Rightarrow> registry \<Rightarrow> 'a api \<times> registry) \<Rightarrow> 'a task" where
  "write_registry f =
     section_on (\<lambda>now ids sv. case f now ids (sv_registry sv) of (res, r) \<Rightarrow> (res, sv\<lparr>sv_registry := r\<rparr>))"

definition read_service :: "((nat \<Rightarrow> instant) \<Rightarrow> (nat \<Rightarrow> uuid) \<Rightarrow> service \<Rightarrow> 'a api) \<Rightarrow> 'a task" where
  "read_service f = section_on (\<lambda>now ids sv. (f now ids sv, sv))"

definition read_registry :: "((nat \<Rightarrow> instant) \<Rightarrow> (nat \<Rightarrow> uuid) \<Rightarrow> registry \<Rightarrow> 'a api) \<Rightarrow> 'a task" where
  "read_registry f = read_service (\<lambda>now ids sv. f now ids (sv_registry sv))"

text \<open>A call to a runner: no lock is held.\<close>

definition remote_call :: "(http_clients \<Rightarrow> 'a api) \<Rightarrow> 'a task" where
  "remote_call f w s = (case s of (sv, n) \<Rightarrow> (f (w_http w n), sv, Suc n))"

text \<open>
  Publishing takes the timeline's lock, then the database's. The broadcast to live subscribers happens between
  the two, with neither lock held; it is not a step of the task but appears as the feed of the streams.
\<close>

definition publish_event :: "codec \<Rightarrow> timeline_event_draft \<Rightarrow> timeline_event task" where
  "publish_event cd draft =
     and_then (section_on (\<lambda>now ids sv.
         case timeline_publish (now 0) draft (sv_timeline sv) of (e, ts) \<Rightarrow> (Inr e, sv\<lparr>sv_timeline := ts\<rparr>)))
       (\<lambda>e. and_then (section_on (\<lambda>now ids sv.
              (Inr (), sv\<lparr>sv_db := (sv_db sv)\<lparr>db_events :=
                 persist_timeline_event (cd_enc_event cd) e (db_events (sv_db sv))\<rparr>\<rparr>)))
          (\<lambda>_. done_with e))"

definition persist_state_logged :: "codec \<Rightarrow> unit task" where
  "persist_state_logged cd =
     and_then (read_service (\<lambda>now ids sv. Inr (snapshot_payload cd sv)))
       (\<lambda>payload. section_on (\<lambda>now ids sv. (Inr (), store_snapshot payload sv)))"

section \<open>Rely and guarantee\<close>

text \<open>
  Reasoning about a task while others run. \<open>G\<close> is what every lock section of every task may do to the
  registry, \<open>J\<close> an invariant that such steps keep. The environment is assumed to make \<open>G\<close> steps only, and
  a task is shown to make \<open>G\<close> steps only, so any number of tasks can run at once.

  \<open>triple P t Q\<close>: started with \<open>J\<close> and \<open>P\<close>, the task makes a \<open>G\<close> step, and its result, if it is not an error,
  satisfies \<open>Q\<close> together with the registry it leaves. A condition is stable if \<open>G\<close> steps keep it; only
  stable conditions survive between two sections.
\<close>

named_theorems keeps_intros \<open>rules that show that a task makes guaranteed steps only\<close>

locale rely_guarantee =
  fixes G :: "registry \<Rightarrow> registry \<Rightarrow> bool"
    and J :: "registry \<Rightarrow> bool"
  assumes G_refl: "G r r"
    and G_trans: "G r r' \<Longrightarrow> G r' r'' \<Longrightarrow> G r r''"
    and J_step: "J r \<Longrightarrow> G r r' \<Longrightarrow> J r'"
begin

definition env_ok :: "world \<Rightarrow> bool" where
  "env_ok w \<longleftrightarrow> (\<forall>n sv. G (sv_registry sv) (sv_registry (w_env w n sv)))"

definition stable :: "(registry \<Rightarrow> bool) \<Rightarrow> bool" where
  "stable P \<longleftrightarrow> (\<forall>r r'. P r \<longrightarrow> G r r' \<longrightarrow> P r')"

definition triple :: "(registry \<Rightarrow> bool) \<Rightarrow> 'a task \<Rightarrow> ('a \<Rightarrow> registry \<Rightarrow> bool) \<Rightarrow> bool" where
  "triple P t Q \<longleftrightarrow>
     (\<forall>w sv n. env_ok w \<longrightarrow> J (sv_registry sv) \<longrightarrow> P (sv_registry sv) \<longrightarrow>
        (case t w (sv, n) of (res, sv', n') \<Rightarrow>
           G (sv_registry sv) (sv_registry sv')
           \<and> (case res of Inl e \<Rightarrow> True | Inr x \<Rightarrow> Q x (sv_registry sv'))))"

abbreviation keeps :: "'a task \<Rightarrow> bool" where
  "keeps t \<equiv> triple (\<lambda>_. True) t (\<lambda>_ _. True)"

declare G_refl [simp]

lemma stable_True [simp]: "stable (\<lambda>_. b)"
  by (simp add: stable_def)

lemma tripleI:
  assumes "\<And>w sv n res sv' n'. env_ok w \<Longrightarrow> J (sv_registry sv) \<Longrightarrow> P (sv_registry sv) \<Longrightarrow>
      t w (sv, n) = (res, sv', n') \<Longrightarrow>
      G (sv_registry sv) (sv_registry sv') \<and> (\<forall>x. res = Inr x \<longrightarrow> Q x (sv_registry sv'))"
  shows "triple P t Q"
  unfolding triple_def using assms by (auto split: prod.splits sum.splits)

lemma tripleD:
  assumes "triple P t Q" "env_ok w" "J (sv_registry sv)" "P (sv_registry sv)"
    "t w (sv, n) = (res, sv', n')"
  shows "G (sv_registry sv) (sv_registry sv')" "res = Inr x \<Longrightarrow> Q x (sv_registry sv')"
    "J (sv_registry sv')"
proof -
  note all = assms(1) [unfolded triple_def, rule_format, OF assms(2-4), of n]
  show "G (sv_registry sv) (sv_registry sv')" "res = Inr x \<Longrightarrow> Q x (sv_registry sv')"
    using all assms(5) by simp_all
  then show "J (sv_registry sv')" using assms(3) by (simp add: J_step)
qed

lemma triple_weaken:
  assumes "triple P t Q" "\<And>r. P' r \<Longrightarrow> P r" "\<And>x r. Q x r \<Longrightarrow> Q' x r"
  shows "triple P' t Q'"
proof (rule tripleI)
  fix w sv n res sv' n'
  assume "env_ok w" "J (sv_registry sv)" "P' (sv_registry sv)" "t w (sv, n) = (res, sv', n')"
  from tripleD(1,2) [OF assms(1) this(1,2) assms(2) [OF this(3)] this(4)] assms(3)
  show "G (sv_registry sv) (sv_registry sv') \<and> (\<forall>x. res = Inr x \<longrightarrow> Q' x (sv_registry sv'))" by blast
qed

lemma triple_done: "triple (Q x) (done_with x) Q"
  by (simp add: triple_def done_with_def)

lemma triple_fail: "triple P (fail_with e) Q"
  by (simp add: triple_def fail_with_def)

lemma triple_and_then:
  assumes "triple P t Q" "\<And>x. triple (Q x) (k x) R"
  shows "triple P (and_then t k) R"
proof (rule tripleI)
  fix w sv n res sv' n'
  assume w: "env_ok w" and inv: "J (sv_registry sv)" and P: "P (sv_registry sv)"
    and run: "and_then t k w (sv, n) = (res, sv', n')"
  obtain res1 sv1 n1 where t: "t w (sv, n) = (res1, sv1, n1)" by (cases "t w (sv, n)")
  note t1 = tripleD [OF assms(1) w inv P t]
  show "G (sv_registry sv) (sv_registry sv') \<and> (\<forall>x. res = Inr x \<longrightarrow> R x (sv_registry sv'))"
  proof (cases res1)
    case (Inl e)
    with t t1(1) run show ?thesis by (auto simp: and_then_def)
  next
    case (Inr x)
    then have "k x w (sv1, n1) = (res, sv', n')" using t run by (simp add: and_then_def)
    from tripleD [OF assms(2) w t1(3) t1(2) [OF Inr] this] t1(1) show ?thesis
      by (blast intro: G_trans)
  qed
qed

lemma triple_attempt:
  assumes "triple P t Q"
  shows "triple P (attempt t) (\<lambda>x r. is_none_or (\<lambda>y. Q y r) x)"
proof (rule tripleI)
  fix w sv n res sv' n'
  assume w: "env_ok w" and inv: "J (sv_registry sv)" and P: "P (sv_registry sv)"
    and run: "attempt t w (sv, n) = (res, sv', n')"
  obtain res1 sv1 n1 where t: "t w (sv, n) = (res1, sv1, n1)" by (cases "t w (sv, n)")
  note t1 = tripleD [OF assms w inv P t]
  show "G (sv_registry sv) (sv_registry sv')
        \<and> (\<forall>x. res = Inr x \<longrightarrow> is_none_or (\<lambda>y. Q y (sv_registry sv')) x)"
    using t run t1(1,2) by (cases res1) (auto simp: attempt_def)
qed

lemma triple_section:
  assumes "stable P"
    and "\<And>now ids sv res sv'. f now ids sv = (res, sv') \<Longrightarrow> J (sv_registry sv) \<Longrightarrow> P (sv_registry sv)
           \<Longrightarrow> G (sv_registry sv) (sv_registry sv') \<and> (\<forall>x. res = Inr x \<longrightarrow> Q x (sv_registry sv'))"
  shows "triple P (section_on f) Q"
proof (rule tripleI)
  fix w sv n res sv' n'
  assume w: "env_ok w" and inv: "J (sv_registry sv)" and P: "P (sv_registry sv)"
    and run: "section_on f w (sv, n) = (res, sv', n')"
  have g: "G (sv_registry sv) (sv_registry (w_env w n sv))" using w by (simp add: env_ok_def)
  then have "J (sv_registry (w_env w n sv))" "P (sv_registry (w_env w n sv))"
    using inv P assms(1) by (auto simp: J_step stable_def)
  moreover have "f (w_now w n) (w_uuid w n) (w_env w n sv) = (res, sv')"
    using run by (simp add: section_on_def split: prod.splits)
  ultimately show "G (sv_registry sv) (sv_registry sv') \<and> (\<forall>x. res = Inr x \<longrightarrow> Q x (sv_registry sv'))"
    using assms(2) g by (blast intro: G_trans)
qed

lemma triple_write:
  assumes "stable P"
    and "\<And>now ids r. J r \<Longrightarrow> P r \<Longrightarrow> G r (snd (f now ids r))"
  shows "triple P (write_registry f) (\<lambda>_ _. True)"
  unfolding write_registry_def
  by (rule triple_section [OF assms(1)]) (use assms(2) in \<open>auto simp: split_beta split: sum.splits\<close>)

lemma triple_read:
  assumes "stable P" "\<And>now ids r x. J r \<Longrightarrow> P r \<Longrightarrow> f now ids r = Inr x \<Longrightarrow> Q x r"
  shows "triple P (read_registry f) Q"
  unfolding read_registry_def read_service_def
  by (rule triple_section [OF assms(1)]) (use assms(2) in \<open>auto split: sum.splits\<close>)

lemma keeps_read: "keeps (read_service f)"
  unfolding read_service_def by (rule triple_section) (auto split: sum.splits)

lemma triple_remote: "triple P (remote_call f) (\<lambda>_. P)"
  by (simp add: triple_def remote_call_def split: sum.splits)

lemma triple_framed:
  assumes "stable P" "\<And>now ids sv. sv_registry (snd (f now ids sv)) = sv_registry sv"
  shows "triple P (section_on f) (\<lambda>_. P)"
proof (rule triple_section [OF assms(1)])
  fix now ids sv res sv'
  assume "f now ids sv = (res, sv')" "P (sv_registry sv)"
  then show "G (sv_registry sv) (sv_registry sv') \<and> (\<forall>x. res = Inr x \<longrightarrow> P (sv_registry sv'))"
    using assms(2) [of now ids sv] by simp
qed

lemma triple_publish: "stable P \<Longrightarrow> triple P (publish_event cd draft) (\<lambda>_. P)"
  unfolding publish_event_def
  by (rule triple_and_then [OF triple_framed triple_and_then [OF triple_framed triple_done]])
    (simp_all add: split_beta)

lemma triple_persist: "stable P \<Longrightarrow> triple P (persist_state_logged cd) (\<lambda>_. P)"
  unfolding persist_state_logged_def read_service_def
  by (rule triple_and_then [OF triple_framed triple_framed]) (simp_all add: store_snapshot_def)

lemma keeps_done [keeps_intros]: "keeps (done_with x)"
  using triple_done [of "\<lambda>_. (\<lambda>_. True)" x] .

lemma keeps_fail [keeps_intros]: "keeps (fail_with e)"
  by (rule triple_fail)

lemma keeps_and_then [keeps_intros]: "keeps t \<Longrightarrow> (\<And>x. keeps (k x)) \<Longrightarrow> keeps (and_then t k)"
  by (rule triple_and_then)

lemma keeps_attempt [keeps_intros]: "keeps t \<Longrightarrow> keeps (attempt t)"
  by (rule triple_weaken [OF triple_attempt]) simp_all

lemma keeps_read_registry [keeps_intros]: "keeps (read_registry f)" "keeps (read_service g)"
  by (simp_all add: read_registry_def keeps_read)

lemma keeps_write [keeps_intros]: "(\<And>now ids r. G r (snd (f now ids r))) \<Longrightarrow> keeps (write_registry f)"
  by (rule triple_write) simp_all

lemma keeps_remote [keeps_intros]: "keeps (remote_call f)"
  by (rule triple_remote)

lemma keeps_publish [keeps_intros]: "keeps (publish_event cd draft)" "keeps (persist_state_logged cd)"
  by (simp_all add: triple_publish triple_persist)

lemma keeps_section [keeps_intros]:
  "(\<And>now ids sv. G (sv_registry sv) (sv_registry (snd (f now ids sv)))) \<Longrightarrow> keeps (section_on f)"
  by (rule triple_section) (auto, metis snd_conv)

lemma keeps_cases [keeps_intros]:
  "(b \<Longrightarrow> keeps t) \<Longrightarrow> (\<not> b \<Longrightarrow> keeps u) \<Longrightarrow> keeps (if b then t else u)"
  "(opt = None \<Longrightarrow> keeps t) \<Longrightarrow> (\<And>x. opt = Some x \<Longrightarrow> keeps (k x)) \<Longrightarrow> keeps (case opt of None \<Rightarrow> t | Some x \<Rightarrow> k x)"
  "(\<And>a b. keeps (j a b)) \<Longrightarrow> keeps (case pr of (a, b) \<Rightarrow> j a b)"
  "(\<And>e. keeps (f e)) \<Longrightarrow> (\<And>y. keeps (g y)) \<Longrightarrow> keeps (case res of Inl e \<Rightarrow> f e | Inr y \<Rightarrow> g y)"
  "(\<And>y. keeps (g y)) \<Longrightarrow> keeps (let y = z in g y)"
  by (simp_all split: option.split prod.split sum.split)

text \<open>
  A first section that is safe only on what it finds, such as one that needs an unused identifier.
\<close>

lemma first_section:
  assumes "env_ok w" "J (sv_registry sv)"
    and "G (sv_registry (w_env w n sv)) (sv_registry (snd (f (w_now w n) (w_uuid w n) (w_env w n sv))))"
    and "\<And>x. keeps (k x)" and run: "and_then (section_on f) k w (sv, n) = (res, sv', n')"
  shows "G (sv_registry sv) (sv_registry sv')"
proof -
  obtain res1 sv1 where f: "f (w_now w n) (w_uuid w n) (w_env w n sv) = (res1, sv1)" by (meson surj_pair)
  have "G (sv_registry sv) (sv_registry (w_env w n sv))" using assms(1) by (simp add: env_ok_def)
  with assms(3) f have g: "G (sv_registry sv) (sv_registry sv1)" by (auto intro: G_trans)
  show ?thesis
  proof (cases res1)
    case (Inl e)
    with f g run show ?thesis by (simp add: and_then_def section_on_def)
  next
    case (Inr x)
    then have "k x w (sv1, Suc n) = (res, sv', n')" using f run by (simp add: and_then_def section_on_def)
    from tripleD(1) [OF assms(4) assms(1) J_step [OF assms(2) g] _ this] g show ?thesis
      by (auto intro: G_trans)
  qed
qed

end

section \<open>Steps that keep the registry consistent\<close>

text \<open>
  A good step keeps the registry consistent, removes no approval and no session, and leaves the identity
  of sessions alone.
\<close>

definition good_step :: "registry \<Rightarrow> registry \<Rightarrow> bool" where
  "good_step r r' \<longleftrightarrow> (registry_inv r \<longrightarrow> registry_inv r') \<and> approvals_kept r r' \<and> identities_kept r r'"

lemma good_step_refl [simp]: "good_step r r"
  by (simp add: good_step_def approvals_kept_def kept_same)

lemma approvals_kept_trans: "approvals_kept a b \<Longrightarrow> approvals_kept b c \<Longrightarrow> approvals_kept a c"
  unfolding approvals_kept_def by metis

lemma good_step_trans: "good_step a b \<Longrightarrow> good_step b c \<Longrightarrow> good_step a c"
  unfolding good_step_def using approvals_kept_trans identities_kept_trans by blast

lemma good_step_op: "registry_op sha r r' \<Longrightarrow> good_step r r'"
  by (simp add: good_step_def registry_inv_op approvals_kept_same approvals_op kept_op)

lemma good_step_commit_approval:
  "approval_plan_ok pl \<Longrightarrow> good_step r (snd (commit_planned_approval pl r))"
  by (simp add: good_step_def registry_inv_commit_approval approvals_kept_commit_approval approval_commits_kept)

lemma good_step_commit_decision:
  "decision_plan_ok pn r \<Longrightarrow> good_step r (snd (commit_planned_approval_decision pn r))"
  by (simp add: good_step_def registry_inv_commit_decision approvals_kept_commit_decision approval_commits_kept)

lemma good_steps [simp]:
  "good_step r (snd (enqueue_runner_command now fresh rid body r))"
  "good_step r (snd (pull_runner_commands rid n r))"
  "good_step r (snd (commit_session ses r))"
  "good_step r (snd (commit_pending_session_dispatch sid rid d r))"
  "good_step r (snd (apply_session_state_update sid st meta t r))"
  "good_step r (snd (register_artifact now fresh sid acreq n r))"
  "good_step r (snd (register_runner now req lease user r))"
  "good_step r (snd (apply_heartbeat rid hb r))"
  "good_step r (snd (reap_orphaned_assigned_sessions now lease r))"
  "good_step r (snd (revoke_device did r))"
  "good_step r (snd (register_push_token now did preq r))"
  "good_step r (snd (register_user_push_token now uid preq r))"
  by (rule good_step_op [where sha = "\<lambda>x. x"],
      (rule op_enqueue op_pull op_commit_session op_dispatch op_state_update op_artifact op_register_runner
         op_heartbeat op_reap op_revoke op_push op_user_push))+

lemma good_steps_sha [simp]:
  "good_step r (snd (refresh_access_token sha now ua ur token r))"
  "good_step r (snd (create_pairing_offer sha tp tc oid us creator oreq r))"
  by (rule good_step_op [where sha = sha], (rule op_refresh op_create_offer))+

text \<open>Two calls under one lock.\<close>

lemma good_step_seq:
  assumes "good_step r (snd (f r))" "\<And>x r1. f r = (Inr x, r1) \<Longrightarrow> good_step r1 (snd (g x r1))"
  shows "good_step r (snd (case f r of (Inl e, r1) \<Rightarrow> (h e, r1) | (Inr x, r1) \<Rightarrow> g x r1))"
proof (cases "f r")
  case (Pair res r1)
  with assms show ?thesis by (cases res) (auto intro: good_step_trans)
qed

interpretation consistent: rely_guarantee good_step registry_inv
proof
  show "good_step r r" for r by simp
  show "good_step r r' \<Longrightarrow> good_step r' r'' \<Longrightarrow> good_step r r''" for r r' r'' by (rule good_step_trans)
  show "registry_inv r \<Longrightarrow> good_step r r' \<Longrightarrow> registry_inv r'" for r r' by (simp add: good_step_def)
qed

lemma stable_decision_plan_ok [simp]: "consistent.stable (decision_plan_ok pn)"
  by (auto simp: consistent.stable_def good_step_def intro: decision_plan_ok_kept)

end
