(* ===== verification/Cp_Handlers.thy ===== *)
theory Cp_Handlers
  imports Cp_Tasks
begin

text \<open>
  The request handlers that change state (\<^verbatim>\<open>rc-control-plane/src/handlers.rs\<close>), each a sequence of lock
  sections in the order of the code: what is checked under a read lock, what is sent to the runner, what
  is committed under a write lock, which events are published, and when the snapshot is written.
\<close>

section \<open>Views of sessions\<close>

definition build_session_view :: "instant \<Rightarrow> u64 \<Rightarrow> registry \<Rightarrow> session_record \<Rightarrow> session_view" where
  "build_session_view now lease r s =
     (let (available, state, last_seen, url) =
        (case Option.bind (ses_owner_runner_id s) (bm_get (runners r)) of
           Some runner \<Rightarrow> (runner_is_available now runner lease, Some (rs_state runner),
                           Some (rs_last_seen_at runner), rr_public_base_url (rs_registration runner))
         | None \<Rightarrow> (False, None, None, None))
      in \<lparr> sv_session = s, sv_owner_runner_available = available, sv_owner_runner_state = state,
           sv_owner_runner_last_seen_at = last_seen, sv_owner_runner_public_base_url = url \<rparr>)"

definition build_session_views ::
  "instant \<Rightarrow> u64 \<Rightarrow> registry \<Rightarrow> session_record list \<Rightarrow> session_view list" where
  "build_session_views now lease r = map (build_session_view now lease r)"

definition session_state_changed ::
  "rstring option \<Rightarrow> uuid \<Rightarrow> session_state \<Rightarrow> session_state \<Rightarrow> timeline_event_draft" where
  "session_state_changed rid sid previous st =
     \<lparr> dr_runner_id = rid, dr_session_id = Some sid, dr_detail = EvSessionStateChanged previous st \<rparr>"

definition transition_draft :: "session_state_transition \<Rightarrow> timeline_event_draft" where
  "transition_draft t = session_state_changed (tr_runner_id t) (tr_session_id t) (tr_previous_state t) (tr_state t)"

text \<open>\<^verbatim>\<open>(!id.is_empty()).then(|| id)\<close>\<close>

definition nonempty :: "rstring \<Rightarrow> rstring option" where
  "nonempty s = (if s \<noteq> [] then Some s else None)"

section \<open>Dispatching pending sessions\<close>

definition runner_of :: "runner_snapshot \<Rightarrow> rstring" where
  "runner_of s = rr_runner_id (rs_registration s)"

definition dispatch_request :: "pending_session_dispatch \<Rightarrow> runner_session_create_request" where
  "dispatch_request p =
     \<lparr> rcr_session_id = Some (pd_session_id p), rcr_workspace_id = pd_workspace_id p,
       rcr_metadata = pd_metadata p \<rparr>"

text \<open>A pulling runner: the command is queued and the session assigned in one write-locked section.\<close>

definition enqueue_and_commit ::
  "(nat \<Rightarrow> instant) \<Rightarrow> (nat \<Rightarrow> uuid) \<Rightarrow> pending_session_dispatch \<Rightarrow> registry
   \<Rightarrow> (session_record \<times> session_state) option api \<times> registry" where
  "enqueue_and_commit now ids p r =
     (case enqueue_runner_command (now 0) (ids 0) (runner_of (pd_runner p))
             (CmdCreateSession (dispatch_request p)) r of
        (Inl _, r1) \<Rightarrow> (Inr None, r1)
      | (Inr _, r1) \<Rightarrow>
          (case commit_pending_session_dispatch (pd_session_id p) (runner_of (pd_runner p))
                  \<lparr> rsr_session_id = pd_session_id p, rsr_runner_id = runner_of (pd_runner p),
                    rsr_workspace_id = pd_workspace_id p, rsr_state = RsPending,
                    rsr_metadata = pd_metadata p, rsr_created_at = now 1, rsr_updated_at = now 2 \<rparr> r1 of
             (Inl _, r2) \<Rightarrow> (Inr None, r2)
           | (Inr x, r2) \<Rightarrow> (Inr (Some x), r2)))"

definition publish_dispatched :: "codec \<Rightarrow> session_record \<times> session_state \<Rightarrow> timeline_event task" where
  "publish_dispatched cd x =
     publish_event cd (session_state_changed (ses_owner_runner_id (fst x)) (ses_session_id (fst x)) (snd x)
       (ses_state (fst x)))"

fun dispatch_loop :: "codec \<Rightarrow> rstring \<Rightarrow> nat \<Rightarrow> uuid set \<Rightarrow> unit task" where
  "dispatch_loop cd rid 0 skipped = done_with ()"
| "dispatch_loop cd rid (Suc k) skipped =
     and_then (read_service (\<lambda>now ids sv.
         case plan_next_pending_session_for_runner (now 0) rid (sv_lease sv) skipped (sv_registry sv) of
           Inl _ \<Rightarrow> Inr None | Inr planned \<Rightarrow> Inr planned))
       (\<lambda>planned. case planned of
          None \<Rightarrow> done_with ()
        | Some p \<Rightarrow>
            if runner_uses_pull_commands (pd_runner p)
            then and_then (write_registry (\<lambda>now ids. enqueue_and_commit now ids p))
                   (\<lambda>committed. case committed of
                      None \<Rightarrow> dispatch_loop cd rid k (insert (pd_session_id p) skipped)
                    | Some x \<Rightarrow>
                        and_then (persist_state_logged cd) (\<lambda>_.
                        and_then (publish_dispatched cd x) (\<lambda>_.
                        dispatch_loop cd rid k skipped)))
            else and_then (attempt (remote_call (\<lambda>h.
                     dispatch_session_to_runner (hc_create h) (pd_runner p) (dispatch_request p))))
                   (\<lambda>dispatched. case dispatched of
                      None \<Rightarrow> dispatch_loop cd rid k (insert (pd_session_id p) skipped)
                    | Some d \<Rightarrow>
                        and_then (attempt (write_registry (\<lambda>now ids.
                            commit_pending_session_dispatch (pd_session_id p) (runner_of (pd_runner p)) d)))
                          (\<lambda>committed. case committed of
                             None \<Rightarrow> dispatch_loop cd rid k (insert (pd_session_id p) skipped)
                           | Some x \<Rightarrow>
                               and_then (publish_dispatched cd x) (\<lambda>_.
                               dispatch_loop cd rid k skipped))))"

definition max_dispatch_iterations :: nat where "max_dispatch_iterations = 64"

definition dispatch_pending_sessions_for_runner :: "codec \<Rightarrow> rstring \<Rightarrow> unit task" where
  "dispatch_pending_sessions_for_runner cd rid = dispatch_loop cd rid max_dispatch_iterations {}"

section \<open>Runners\<close>

text \<open>
  \<open>parse_url\<close>, \<open>debug\<close> and \<open>env_allowed\<close> are the arguments of the URL check. The registry call panics when
  the runner it just stored is missing; it never is.
\<close>

definition register_runner_handler ::
  "codec \<Rightarrow> (rstring \<Rightarrow> url option) \<Rightarrow> bool \<Rightarrow> rstring option \<Rightarrow> auth_principal \<Rightarrow> runner_registration_request
   \<Rightarrow> runner_registration_response task" where
  "register_runner_handler cd parse_url debug env_allowed who req =
     and_then (read_service (\<lambda>now ids sv.
         validate_runner_registration_public_base_url parse_url debug env_allowed
           (rr_public_base_url req) (cc_public_base_url (sv_config sv))))
       (\<lambda>_. and_then (section_on (\<lambda>now ids sv.
              case register_runner (now 0) req (sv_lease sv) (user_id_from_principal who) (sv_registry sv) of
                (resp, r) \<Rightarrow>
                  (case resp of Some x \<Rightarrow> Inr x | None \<Rightarrow> Inl (Internal ''panic''), sv\<lparr>sv_registry := r\<rparr>)))
       (\<lambda>resp. and_then (publish_event cd
              \<lparr> dr_runner_id = Some (rg_runner_id resp), dr_session_id = None,
                dr_detail = EvRunnerRegistered (rg_lease_ttl_secs resp)
                  (map ws_workspace_id (rr_workspaces (rs_registration (rg_snapshot resp))))
                  (rs_state (rg_snapshot resp)) \<rparr>)
       (\<lambda>_. and_then (dispatch_pending_sessions_for_runner cd (rg_runner_id resp))
       (\<lambda>_. and_then (attempt (read_registry (\<lambda>now ids r. get_runner_snapshot r (rg_runner_id resp))))
       (\<lambda>snap. done_with (case snap of Some s \<Rightarrow> resp\<lparr>rg_snapshot := s\<rparr> | None \<Rightarrow> resp))))))"

definition heartbeat_and_reap ::
  "instant \<Rightarrow> u64 \<Rightarrow> rstring option \<Rightarrow> rstring \<Rightarrow> runner_heartbeat \<Rightarrow> registry
   \<Rightarrow> (runner_snapshot \<times> (uuid \<times> rstring \<times> session_state) list) api \<times> registry" where
  "heartbeat_and_reap now lease user rid hb r =
     (if \<not> runner_visible_to r rid user then (Inl (NotFound ''runner {runner_id} was not found''), r)
      else case apply_heartbeat rid hb r of
        (Inl e, r1) \<Rightarrow> (Inl e, r1)
      | (Inr snap, r1) \<Rightarrow>
          (case reap_orphaned_assigned_sessions now lease r1 of (reaped, r2) \<Rightarrow> (Inr (snap, reaped), r2)))"

fun publish_reaped :: "codec \<Rightarrow> (uuid \<times> rstring \<times> session_state) list \<Rightarrow> unit task" where
  "publish_reaped cd [] = done_with ()"
| "publish_reaped cd ((sid, old_runner, previous) # rest) =
     and_then (read_registry (\<lambda>now ids r.
         Inr (unwrap_or Pending (map_option ses_state (bm_get (sessions r) sid)))))
       (\<lambda>st. and_then (publish_event cd (session_state_changed (Some old_runner) sid previous st))
       (\<lambda>_. publish_reaped cd rest))"

definition update_runner_heartbeat ::
  "codec \<Rightarrow> auth_principal \<Rightarrow> rstring \<Rightarrow> runner_heartbeat \<Rightarrow> runner_snapshot task" where
  "update_runner_heartbeat cd who rid hb =
     and_then (section_on (\<lambda>now ids sv.
         case heartbeat_and_reap (now 0) (sv_lease sv) (user_id_from_principal who) rid hb (sv_registry sv) of
           (res, r) \<Rightarrow> (res, sv\<lparr>sv_registry := r\<rparr>)))
       (\<lambda>(snap, reaped).
         and_then (publish_event cd
             \<lparr> dr_runner_id = Some (runner_of snap), dr_session_id = None,
               dr_detail = EvRunnerHeartbeat (rs_state snap) (rs_active_sessions snap)
                 (rs_queued_sessions snap) (rs_last_seen_at snap) \<rparr>)
           (\<lambda>_. and_then (publish_reaped cd reaped)
           (\<lambda>_. and_then (attempt (read_registry (\<lambda>now ids r. get_runner_snapshot r rid)))
           (\<lambda>fallback. and_then (dispatch_pending_sessions_for_runner cd rid)
           (\<lambda>_. and_then (attempt (read_registry (\<lambda>now ids r. get_runner_snapshot r rid)))
           (\<lambda>final. done_with (unwrap_or (unwrap_or snap fallback) final)))))))"

text \<open>
  Long polling: the queue is looked at under a read lock, drained under a write lock, and looked at again
  until the deadline. \<open>None\<close> means that the given number of rounds was not enough.
\<close>

fun pull_loop ::
  "codec \<Rightarrow> rstring \<Rightarrow> nat \<Rightarrow> instant \<Rightarrow> nat \<Rightarrow> runner_queued_command list option task" where
  "pull_loop cd rid limit deadline 0 = done_with None"
| "pull_loop cd rid limit deadline (Suc rounds) =
     and_then (read_registry (\<lambda>now ids r.
         Inr (is_some_and (\<lambda>q. q \<noteq> []) (bm_get (queued_runner_commands r) rid))))
       (\<lambda>has_commands.
         and_then (if has_commands then write_registry (\<lambda>now ids. pull_runner_commands rid limit)
                   else done_with [])
           (\<lambda>commands.
             if commands \<noteq> [] then and_then (persist_state_logged cd) (\<lambda>_. done_with (Some commands))
             else and_then (read_service (\<lambda>now ids sv. Inr (deadline \<le> now 0)))
               (\<lambda>over. if over then done_with (Some []) else pull_loop cd rid limit deadline rounds)))"

definition pull_runner_commands_handler ::
  "codec \<Rightarrow> nat \<Rightarrow> auth_principal \<Rightarrow> rstring \<Rightarrow> nat option \<Rightarrow> nat option
   \<Rightarrow> runner_queued_command list option task" where
  "pull_runner_commands_handler cd rounds who rid limit timeout =
     and_then (read_registry (\<lambda>now ids r.
         if runner_visible_to r rid (user_id_from_principal who) then Inr ()
         else Inl (NotFound ''runner {runner_id} was not found'')))
       (\<lambda>_. and_then (read_service (\<lambda>now ids sv. Inr (now 0 + seconds (int (min (unwrap_or 0 timeout) 30)))))
       (\<lambda>deadline. pull_loop cd rid (clamp_nat 1 64 (unwrap_or 16 limit)) deadline rounds))"

text \<open>
  The socket a runner may open instead: what wakes the loop up, with whether the send it causes succeeds.
  A drain takes up to sixteen commands off the queue and sends them as one frame; the result is the
  frames that were sent. The snapshot is not written here.
\<close>

datatype socket_event = PingDue bool | DrainDue bool | PeerClosed | PeerPing | PeerOther

fun serve_runner_command_stream :: "rstring \<Rightarrow> socket_event list \<Rightarrow> runner_queued_command list list task" where
  "serve_runner_command_stream rid [] = done_with []"
| "serve_runner_command_stream rid (PingDue ok # evs) =
     (if ok then serve_runner_command_stream rid evs else done_with [])"
| "serve_runner_command_stream rid (DrainDue ok # evs) =
     and_then (attempt (write_registry (\<lambda>now ids. pull_runner_commands rid 16)))
       (\<lambda>res. let commands = unwrap_or [] res
              in if commands = [] then serve_runner_command_stream rid evs
                 else if ok then and_then (serve_runner_command_stream rid evs) (\<lambda>sent. done_with (commands # sent))
                 else done_with [])"
| "serve_runner_command_stream rid (PeerClosed # evs) = done_with []"
| "serve_runner_command_stream rid (PeerPing # evs) = serve_runner_command_stream rid evs"
| "serve_runner_command_stream rid (PeerOther # evs) = serve_runner_command_stream rid evs"

definition stream_runner_commands ::
  "auth_principal \<Rightarrow> rstring \<Rightarrow> socket_event list \<Rightarrow> runner_queued_command list list task" where
  "stream_runner_commands who rid evs =
     and_then (read_registry (\<lambda>now ids r.
         if runner_visible_to r rid (user_id_from_principal who) then Inr ()
         else Inl (NotFound ''runner {runner_id} was not found'')))
       (\<lambda>_. serve_runner_command_stream rid evs)"

section \<open>Sessions\<close>

definition state_update_request ::
  "session_state_update_request \<Rightarrow> runner_session_state_update_request" where
  "state_update_request req =
     \<lparr> rsu_state = session_state_to_runner (su_state req), rsu_metadata = su_metadata req \<rparr>"

definition update_session_state ::
  "codec \<Rightarrow> auth_principal \<Rightarrow> uuid \<Rightarrow> session_state_update_request \<Rightarrow> session_view task" where
  "update_session_state cd who sid req =
     and_then (read_registry (\<lambda>now ids r.
         bind_result (get_session_for_user r sid (user_id_from_principal who))
           (\<lambda>s. Inr (Option.bind (ses_owner_runner_id s) (bm_get (runners r))))))
       (\<lambda>runner_opt. and_then
         (case runner_opt of
            None \<Rightarrow> done_with None
          | Some runner \<Rightarrow>
              if runner_uses_pull_commands runner
              then and_then (write_registry (\<lambda>now ids.
                       enqueue_runner_command (now 0) (ids 0) (runner_of runner)
                         (CmdUpdateSessionState sid (state_update_request req))))
                     (\<lambda>_. and_then (persist_state_logged cd) (\<lambda>_. done_with None))
              else and_then (remote_call (\<lambda>h.
                       update_runner_session_state (hc_state h) runner sid (state_update_request req)))
                     (\<lambda>record. done_with (Some record)))
       (\<lambda>runner_update. and_then (write_registry (\<lambda>now ids.
              apply_session_state_update sid
                (case runner_update of Some rec \<Rightarrow> session_state_from_runner (rsr_state rec)
                 | None \<Rightarrow> su_state req)
                (case runner_update of Some rec \<Rightarrow> rsr_metadata rec | None \<Rightarrow> su_metadata req)
                (case runner_update of Some rec \<Rightarrow> rsr_updated_at rec | None \<Rightarrow> now 0)))
       (\<lambda>(updated, previous). and_then (publish_event cd
              (session_state_changed (ses_owner_runner_id updated) (ses_session_id updated) previous
                 (ses_state updated)))
       (\<lambda>_. read_service (\<lambda>now ids sv.
              Inr (build_session_view (now 0) (sv_lease sv) (sv_registry sv) updated))))))"

definition command_message :: "runner_session_command_request \<Rightarrow> bool \<Rightarrow> string" where
  "command_message req available =
     (case req of
        SendPrompt _ \<Rightarrow> if available then ''prompt queued for runner delivery''
                        else ''prompt queued; runner currently unavailable''
      | Interrupt \<Rightarrow> if available then ''interrupt queued for runner delivery''
                     else ''interrupt queued; runner currently unavailable'')"

definition post_session_command ::
  "codec \<Rightarrow> auth_principal \<Rightarrow> uuid \<Rightarrow> runner_session_command_request \<Rightarrow> runner_session_command_response task" where
  "post_session_command cd who sid req =
     and_then (read_registry (\<lambda>now ids r. get_session_for_user r sid (user_id_from_principal who)))
       (\<lambda>s. case ses_owner_runner_id s of
          None \<Rightarrow> fail_with (ServiceUnavailable ''session {session_id} is not assigned to a runner'')
        | Some rid \<Rightarrow>
            and_then (read_service (\<lambda>now ids sv.
                case bm_get (runners (sv_registry sv)) rid of
                  None \<Rightarrow> Inl (NotFound ''runner {owner_runner_id} was not found'')
                | Some runner \<Rightarrow> Inr (runner, runner_is_available (now 0) runner (sv_lease sv))))
              (\<lambda>(runner, available).
                if runner_uses_pull_commands runner
                then and_then (write_registry (\<lambda>now ids.
                         enqueue_runner_command (now 0) (ids 0) rid (CmdSessionCommand sid req)))
                       (\<lambda>_. and_then (persist_state_logged cd)
                       (\<lambda>_. done_with \<lparr> rcs_session_id = sid, rcs_accepted = True,
                                        rcs_message = command_message req available \<rparr>))
                else remote_call (\<lambda>h. dispatch_session_command_to_runner (hc_command h) runner sid req)))"

definition create_session ::
  "codec \<Rightarrow> auth_principal \<Rightarrow> create_session_request \<Rightarrow> session_view task" where
  "create_session cd who req =
     and_then (read_service (\<lambda>now ids sv.
         plan_session (now 0) (ids 0) req (sv_lease sv) (user_id_from_principal who) (sv_registry sv)))
       (\<lambda>planned. and_then
         (let rec = ps_record planned;
              dreq = \<lparr> rcr_session_id = Some (ses_session_id rec), rcr_workspace_id = ses_workspace_id rec,
                       rcr_metadata = ses_metadata rec \<rparr>
          in case ps_owner_runner planned of
               None \<Rightarrow> done_with rec
             | Some runner \<Rightarrow>
                 if runner_uses_pull_commands runner
                 then and_then (write_registry (\<lambda>now ids.
                          enqueue_runner_command (now 0) (ids 0) (runner_of runner) (CmdCreateSession dreq)))
                        (\<lambda>_. done_with rec)
                 else and_then (remote_call (\<lambda>h. dispatch_session_to_runner (hc_create h) runner dreq))
                        (\<lambda>d. done_with (rec\<lparr>ses_state := session_state_from_runner (rsr_state d),
                                            ses_updated_at := rsr_updated_at d\<rparr>)))
       (\<lambda>rec. and_then (write_registry (\<lambda>now ids. commit_session rec))
       (\<lambda>rec. and_then (publish_event cd
              \<lparr> dr_runner_id = ses_owner_runner_id rec, dr_session_id = Some (ses_session_id rec),
                dr_detail = EvSessionCreated (ses_workspace_id rec) (ses_owner_runner_id rec) (ses_state rec) \<rparr>)
       (\<lambda>_. and_then (persist_state_logged cd)
       (\<lambda>_. read_service (\<lambda>now ids sv.
              Inr (build_session_view (now 0) (sv_lease sv) (sv_registry sv) rec)))))))"

section \<open>Runtime events\<close>

definition require_non_empty_runtime_field :: "rstring \<Rightarrow> unit api" where
  "require_non_empty_runtime_field v =
     (if trim v = [] then Inl (BadRequest ''runtime event field {field} cannot be empty'') else Inr ())"

fun check_manifest :: "registry \<Rightarrow> uuid \<Rightarrow> uuid list \<Rightarrow> unit api" where
  "check_manifest r sid [] = Inr ()"
| "check_manifest r sid (aid # aids) =
     bind_result (get_artifact r aid) (\<lambda>a.
       if ar_session_id a \<noteq> sid
       then Inl (Conflict ''artifact {artifact_id} does not belong to session {session_id}'')
       else check_manifest r sid aids)"

fun validate_runtime_event_request :: "registry \<Rightarrow> uuid \<Rightarrow> runtime_event_detail \<Rightarrow> unit api" where
  "validate_runtime_event_request r sid (RtMessageDelta _ delta _) = require_non_empty_runtime_field delta"
| "validate_runtime_event_request r sid (RtMessageCommitted _ txt _) = require_non_empty_runtime_field txt"
| "validate_runtime_event_request r sid (RtToolStarted tid name) =
     bind_result (require_non_empty_runtime_field tid) (\<lambda>_. require_non_empty_runtime_field name)"
| "validate_runtime_event_request r sid (RtToolProgress tid name delta elapsed) =
     (if is_none_or (\<lambda>s. s = []) tid \<and> is_none_or (\<lambda>s. s = []) name
      then Inl (BadRequest ''runtime tool_progress events require tool_call_id or tool_name'')
      else if is_none_or (\<lambda>s. s = []) delta \<and> elapsed = None
      then Inl (BadRequest ''runtime tool_progress events require delta or elapsed_time_seconds'')
      else Inr ())"
| "validate_runtime_event_request r sid (RtToolFinished tid name _ _) =
     bind_result (require_non_empty_runtime_field tid) (\<lambda>_. require_non_empty_runtime_field name)"
| "validate_runtime_event_request r sid (RtArtifactManifest aids) =
     (if aids = [] then Inl (BadRequest ''runtime artifact_manifest events require at least one artifact_id'')
      else check_manifest r sid aids)"
| "validate_runtime_event_request r sid (RtRuntimeError msg) = require_non_empty_runtime_field msg"
| "validate_runtime_event_request r sid (RtDaemonPresenceChanged _) = Inr ()"
| "validate_runtime_event_request r sid (RtSubtaskStarted _ _ descr _) = require_non_empty_runtime_field descr"
| "validate_runtime_event_request r sid (RtSubtaskProgress tid _ _) = require_non_empty_runtime_field tid"
| "validate_runtime_event_request r sid (RtSubtaskCompleted tid _ _ _) = require_non_empty_runtime_field tid"
| "validate_runtime_event_request r sid (RtBatchProgress _ _ _) = Inr ()"
| "validate_runtime_event_request r sid (RtContextUsage _ _ _ _) = Inr ()"
| "validate_runtime_event_request r sid (RtContextOverflow _ _ _ _) = Inr ()"
| "validate_runtime_event_request r sid (RtContextCompacted _ _) = Inr ()"

definition create_session_runtime_event ::
  "codec \<Rightarrow> auth_principal \<Rightarrow> uuid \<Rightarrow> runtime_event_detail \<Rightarrow> timeline_event task" where
  "create_session_runtime_event cd who sid detail =
     and_then (read_registry (\<lambda>now ids r.
         bind_result (get_session_for_user r sid (user_id_from_principal who)) (\<lambda>s.
         bind_result (validate_runtime_event_request r sid detail) (\<lambda>_. Inr s))))
       (\<lambda>s. publish_event cd
          \<lparr> dr_runner_id = ses_owner_runner_id s, dr_session_id = Some sid,
            dr_detail = timeline_of_runtime detail \<rparr>)"

section \<open>Artifacts\<close>

text \<open>
  \<open>b64\<close> is the decoder of the \<^verbatim>\<open>base64\<close> crate. The size limit is on the encoded text. Creating the
  directory and writing the file may fail; a file that could not be written completely is removed, the
  registry entry stays.
\<close>

definition io_step :: "string \<Rightarrow> (service \<Rightarrow> service) \<Rightarrow> (service \<Rightarrow> service) \<Rightarrow> unit task" where
  "io_step msg on_success on_failure w s =
     (case s of (sv, n) \<Rightarrow>
        if w_io w n then (Inr (), on_success sv, Suc n) else (Inl (Internal msg), on_failure sv, Suc n))"

definition create_artifact ::
  "codec \<Rightarrow> (rstring \<Rightarrow> nat list option) \<Rightarrow> auth_principal \<Rightarrow> uuid \<Rightarrow> artifact_create_request
   \<Rightarrow> artifact_record task" where
  "create_artifact cd b64 who sid req =
     and_then (read_registry (\<lambda>now ids r. get_session_for_user r sid (user_id_from_principal who)))
       (\<lambda>_. if max_artifact_size_bytes * 4 div 3 < length (utf8 (ac_content_base64 req))
            then fail_with (BadRequest ''artifact exceeds {MAX_ARTIFACT_SIZE_BYTES} byte limit'')
            else case b64 (ac_content_base64 req) of
              None \<Rightarrow> fail_with (BadRequest ''artifact content is not valid base64'')
            | Some contents \<Rightarrow>
                and_then (write_registry (\<lambda>now ids.
                    register_artifact (now 0) (ids 0) sid req (length contents)))
                  (\<lambda>a. and_then (io_step ''failed to create {}'' (\<lambda>sv. sv) (\<lambda>sv. sv))
                  (\<lambda>_. and_then (read_service (\<lambda>now ids sv.
                         Inr (artifact_file_path (cc_artifact_root_dir (sv_config sv)) a)))
                  (\<lambda>path. and_then (io_step ''failed to write {}''
                         (\<lambda>sv. sv\<lparr>sv_files := bm_insert path contents (sv_files sv)\<rparr>)
                         (\<lambda>sv. sv\<lparr>sv_files := bm_remove path (sv_files sv)\<rparr>))
                  (\<lambda>_. and_then (publish_event cd
                         \<lparr> dr_runner_id = ar_runner_id a, dr_session_id = Some (ar_session_id a),
                           dr_detail = EvArtifactCreated (ar_artifact_id a) (ar_name a) (ar_file_name a)
                             (ar_media_type a) (ar_size_bytes a) \<rparr>)
                  (\<lambda>_. done_with a))))))"

definition download_artifact ::
  "auth_principal \<Rightarrow> uuid \<Rightarrow> (rstring \<times> rstring \<times> nat list) task" where
  "download_artifact who aid =
     and_then (read_registry (\<lambda>now ids r.
         bind_result (get_artifact r aid) (\<lambda>a.
         bind_result (get_session_for_user r (ar_session_id a) (user_id_from_principal who)) (\<lambda>_. Inr a))))
       (\<lambda>a. read_service (\<lambda>now ids sv.
          case bm_get (sv_files sv) (artifact_file_path (cc_artifact_root_dir (sv_config sv)) a) of
            None \<Rightarrow> Inl (Internal ''failed to read {}'')
          | Some bytes \<Rightarrow> Inr (ar_media_type a, build_content_disposition (ar_file_name a), bytes)))"

section \<open>Approvals\<close>

definition approval_relay_request :: "approval_request_record \<Rightarrow> approval_create_request" where
  "approval_relay_request a =
     \<lparr> acr_approval_id = Some (ap_approval_id a), acr_title = ap_title a,
       acr_description = ap_description a, acr_metadata = ap_metadata a \<rparr>"

definition publish_transition :: "codec \<Rightarrow> session_state_transition option \<Rightarrow> unit task" where
  "publish_transition cd t =
     (case t of
        None \<Rightarrow> done_with ()
      | Some tr \<Rightarrow> and_then (publish_event cd (transition_draft tr)) (\<lambda>_. done_with ()))"

text \<open>The runner has to acknowledge the approval that was sent, for the session it belongs to.\<close>

definition relay_new_approval :: "uuid \<Rightarrow> planned_approval \<Rightarrow> unit task" where
  "relay_new_approval sid planned =
     (case pl_owner_runner planned of
        None \<Rightarrow> done_with ()
      | Some runner \<Rightarrow>
          if runner_uses_pull_commands runner then done_with ()
          else and_then (remote_call (\<lambda>h.
                   relay_approval_to_runner (hc_approval h) runner sid (approval_relay_request (pl_approval planned))))
                 (\<lambda>relayed.
                   if ap_approval_id relayed \<noteq> ap_approval_id (pl_approval planned)
                   then fail_with (BadGateway ''runner {} acknowledged approval {} instead of {}'')
                   else if ap_session_id relayed \<noteq> sid \<or> ap_runner_id relayed \<noteq> runner_of runner
                   then fail_with (BadGateway ''runner {} returned mismatched approval routing for session {session_id}'')
                   else done_with ()))"

definition create_approval ::
  "codec \<Rightarrow> auth_principal \<Rightarrow> uuid \<Rightarrow> approval_create_request \<Rightarrow> approval_request_record task" where
  "create_approval cd who sid req =
     and_then (read_registry (\<lambda>now ids r.
         bind_result (get_session_for_user r sid (user_id_from_principal who)) (\<lambda>_.
           plan_approval (now 0) (ids 0) sid req r)))
       (\<lambda>planned. and_then (relay_new_approval sid planned)
       (\<lambda>_. and_then (write_registry (\<lambda>now ids. commit_planned_approval planned))
       (\<lambda>(a, transition). and_then (publish_event cd
              \<lparr> dr_runner_id = nonempty (ap_runner_id a), dr_session_id = Some (ap_session_id a),
                dr_detail = EvApprovalRequested (ap_approval_id a) (ap_title a) (ap_state a) \<rparr>)
       (\<lambda>_. and_then (publish_transition cd transition)
       (\<lambda>_. if ap_runner_id a = [] then done_with a
            else and_then (read_registry (\<lambda>now ids r. Inr (bm_get (runners r) (ap_runner_id a))))
              (\<lambda>runner.
                if is_some_and runner_uses_pull_commands runner
                then and_then (write_registry (\<lambda>now ids.
                         enqueue_runner_command (now 0) (ids 0) (ap_runner_id a)
                           (CmdCreateApproval sid (approval_relay_request a))))
                       (\<lambda>_. and_then (persist_state_logged cd) (\<lambda>_. done_with a))
                else done_with a))))))"

text \<open>The decision a state stands for; a pending approval has none.\<close>

fun decision_of :: "approval_state \<Rightarrow> approval_decision option" where
  "decision_of ApApproved = Some Approved"
| "decision_of ApDenied = Some Denied"
| "decision_of ApCancelled = Some DecisionCancelled"
| "decision_of ApPending = None"

definition decision_relay_request :: "approval_request_record \<Rightarrow> approval_decision_request option" where
  "decision_relay_request a =
     map_option (\<lambda>d. \<lparr> adr_decision = d, adr_responder = ap_responder a, adr_note = ap_note a \<rparr>)
       (decision_of (ap_state a))"

definition queue_for_runner :: "planned_approval_decision \<Rightarrow> bool" where
  "queue_for_runner planned = is_some_and runner_uses_pull_commands (pn_owner_runner planned)"

definition relay_decision :: "planned_approval_decision \<Rightarrow> unit task" where
  "relay_decision planned =
     (case pn_owner_runner planned of
        None \<Rightarrow> done_with ()
      | Some runner \<Rightarrow>
          if queue_for_runner planned then done_with ()
          else case decision_relay_request (pn_approval planned) of
            None \<Rightarrow> fail_with (Internal ''approval {approval_id} remained pending during decision relay'')
          | Some dreq \<Rightarrow>
              and_then (remote_call (\<lambda>h.
                  relay_approval_decision_to_runner (hc_decision h) runner
                    (ap_approval_id (pn_approval planned)) dreq))
                (\<lambda>relayed.
                  if ap_approval_id relayed \<noteq> ap_approval_id (pn_approval planned)
                  then fail_with (BadGateway ''runner {} acknowledged approval decision for {} instead of {}'')
                  else if ap_state relayed \<noteq> ap_state (pn_approval planned)
                  then fail_with (BadGateway ''runner {} returned approval state {} instead of {} for {}'')
                  else done_with ()))"

definition apply_approval_decision ::
  "codec \<Rightarrow> auth_principal \<Rightarrow> uuid \<Rightarrow> approval_decision_request \<Rightarrow> approval_request_record task" where
  "apply_approval_decision cd who aid req =
     and_then (read_registry (\<lambda>now ids r.
         bind_result (get_approval r aid) (\<lambda>a.
         bind_result (get_session_for_user r (ap_session_id a) (user_id_from_principal who)) (\<lambda>_.
           plan_approval_decision (now 0) aid req r))))
       (\<lambda>planned. and_then (relay_decision planned)
       (\<lambda>_. and_then (write_registry (\<lambda>now ids. commit_planned_approval_decision planned))
       (\<lambda>(a, transition). and_then (publish_event cd
              \<lparr> dr_runner_id = nonempty (ap_runner_id a), dr_session_id = Some (ap_session_id a),
                dr_detail = EvApprovalResolved (ap_approval_id a) (ap_state a) (ap_responder a) \<rparr>)
       (\<lambda>_. and_then (publish_transition cd transition)
       (\<lambda>_. if queue_for_runner planned
            then (case decision_relay_request a of
                    None \<Rightarrow> fail_with (Internal ''approval {approval_id} remained pending after commit'')
                  | Some dreq \<Rightarrow>
                      and_then (write_registry (\<lambda>now ids.
                          enqueue_runner_command (now 0) (ids 0) (ap_runner_id a)
                            (CmdApplyApprovalDecision (ap_approval_id a) dreq)))
                        (\<lambda>_. and_then (persist_state_logged cd) (\<lambda>_. done_with a)))
            else done_with a)))))"

section \<open>Devices, pairing, tickets and push tokens\<close>

definition claim_bootstrap_device ::
  "codec \<Rightarrow> hash \<Rightarrow> bootstrap_claim_request \<Rightarrow> dual_token_response task" where
  "claim_bootstrap_device cd sha req =
     and_then (section_on (\<lambda>now ids sv.
         case bootstrap_claim sha (now 0) (ids 0) (ids 1, ids 2) (ids 3, ids 4)
                (cfg_bootstrap_secret_hash (sv_auth sv)) req (sv_registry sv) of
           (res, r) \<Rightarrow> (res, sv\<lparr>sv_registry := r\<rparr>)))
       (\<lambda>tokens. and_then (persist_state_logged cd) (\<lambda>_. done_with tokens))"

definition owner_only :: "auth_principal \<Rightarrow> 'a task \<Rightarrow> 'a task" where
  "owner_only who t = (case require_owner_or_shared who of Inl e \<Rightarrow> fail_with e | Inr _ \<Rightarrow> t)"

definition list_devices :: "auth_principal \<Rightarrow> trusted_device_record list task" where
  "list_devices who = owner_only who (read_registry (\<lambda>now ids r. Inr (list_trusted_devices r)))"

definition revoke_device_handler :: "codec \<Rightarrow> auth_principal \<Rightarrow> uuid \<Rightarrow> unit task" where
  "revoke_device_handler cd who did =
     owner_only who (and_then (write_registry (\<lambda>now ids. revoke_device did))
       (\<lambda>_. persist_state_logged cd))"

text \<open>The response also carries a URL for the offer, built by the \<^verbatim>\<open>url\<close> crate, which is left out.\<close>

definition create_pairing_offer_handler ::
  "codec \<Rightarrow> hash \<Rightarrow> auth_principal \<Rightarrow> pairing_offer_create_request \<Rightarrow> (stored_pairing_offer \<times> rstring) task" where
  "create_pairing_offer_handler cd sha who req =
     owner_only who (and_then (write_registry (\<lambda>now ids.
         create_pairing_offer sha (now 0) (now 1) (ids 0) (ids 1, ids 2) (created_by_device_id who) req))
       (\<lambda>x. and_then (persist_state_logged cd) (\<lambda>_. done_with x)))"

definition accept_pairing_offer_handler ::
  "codec \<Rightarrow> hash \<Rightarrow> pairing_accept_request \<Rightarrow> dual_token_response task" where
  "accept_pairing_offer_handler cd sha req =
     and_then (write_registry (\<lambda>now ids.
         accept_pairing_offer sha (now 0) (now 1) (now 2) (ids 0) (ids 1, ids 2) (ids 3, ids 4) req))
       (\<lambda>tokens. and_then (persist_state_logged cd) (\<lambda>_. done_with tokens))"

definition refresh_token :: "codec \<Rightarrow> hash \<Rightarrow> rstring \<Rightarrow> (rstring \<times> rstring) task" where
  "refresh_token cd sha token =
     and_then (write_registry (\<lambda>now ids. refresh_access_token sha (now 0) (ids 0, ids 1) (ids 2, ids 3) token))
       (\<lambda>(_, access, refresh). and_then (persist_state_logged cd) (\<lambda>_. done_with (access, refresh)))"

definition create_stream_ticket :: "auth_principal \<Rightarrow> rstring \<Rightarrow> (rstring \<times> nat) task" where
  "create_stream_ticket who raw_path =
     (case normalize_stream_ticket_path raw_path of
        Inl e \<Rightarrow> fail_with e
      | Inr path \<Rightarrow>
          section_on (\<lambda>now ids sv.
            case mint_stream_ticket (now 0) (now 1) (ids 0, ids 1) who path
                   (of_nat stream_ticket_ttl_secs) (sv_tickets sv) of
              (ticket, m) \<Rightarrow> (Inr (ticket, stream_ticket_ttl_secs), sv\<lparr>sv_tickets := m\<rparr>)))"

definition store_push_token ::
  "instant \<Rightarrow> auth_principal \<Rightarrow> push_token_registration_request \<Rightarrow> registry \<Rightarrow> bool api \<times> registry" where
  "store_push_token now who body r =
     (case created_by_device_id who of
        Some did \<Rightarrow> register_push_token now did body r
      | None \<Rightarrow>
          (case principal_user_id who of
             Some uid \<Rightarrow> (case register_user_push_token now uid body r of (new, r') \<Rightarrow> (Inr new, r'))
           | None \<Rightarrow> (Inl (Unauthorized ''no device or user identity''), r)))"

definition register_push_token_handler ::
  "codec \<Rightarrow> auth_principal \<Rightarrow> push_token_registration_request \<Rightarrow> bool task" where
  "register_push_token_handler cd who body =
     (if trim (pt_push_token body) = [] then fail_with (BadRequest ''push_token cannot be empty'')
      else and_then (write_registry (\<lambda>now ids. store_push_token (now 0) who body))
        (\<lambda>_. and_then (persist_state_logged cd) (\<lambda>_. done_with True)))"

end
