(* ===== verification/Cp_Serve.thy ===== *)
theory Cp_Serve
  imports Cp_Handlers
begin

text \<open>
  Requests and what serving them guarantees. \<open>serve\<close> gathers all state-changing routes of
  \<^verbatim>\<open>rc-control-plane/src/router.rs\<close>, that is every \<^verbatim>\<open>POST\<close> and \<^verbatim>\<open>DELETE\<close> route and the socket over
  which runners fetch commands.
\<close>

section \<open>The routes\<close>

datatype request =
    ReqRegisterRunner runner_registration_request
  | ReqHeartbeat rstring runner_heartbeat
  | ReqPullCommands rstring "nat option" "nat option"
  | ReqStreamCommands rstring "socket_event list"
  | ReqCreateSession create_session_request
  | ReqUpdateSessionState uuid session_state_update_request
  | ReqSessionCommand uuid runner_session_command_request
  | ReqRuntimeEvent uuid runtime_event_detail
  | ReqCreateArtifact uuid artifact_create_request
  | ReqCreateApproval uuid approval_create_request
  | ReqApprovalDecision uuid approval_decision_request
  | ReqRevokeDevice uuid
  | ReqCreatePairingOffer pairing_offer_create_request
  | ReqRefreshToken rstring
  | ReqStreamTicket rstring
  | ReqPushToken push_token_registration_request
  | ReqClaimBootstrap bootstrap_claim_request
  | ReqAcceptPairing pairing_accept_request

text \<open>The code outside the repository that the handlers call.\<close>

record platform =
  pf_codec :: codec
  pf_sha :: hash
  pf_parse_url :: "rstring \<Rightarrow> url option"
  pf_base64 :: "rstring \<Rightarrow> nat list option"
  pf_debug :: bool
  pf_allowed_hosts :: "rstring option"
  pf_poll_rounds :: nat

definition ignore_result :: "'a task \<Rightarrow> unit task" where
  "ignore_result t = and_then t (\<lambda>_. done_with ())"

fun serve :: "platform \<Rightarrow> auth_principal \<Rightarrow> request \<Rightarrow> unit task" where
  "serve pf who (ReqRegisterRunner req) =
     ignore_result (register_runner_handler (pf_codec pf) (pf_parse_url pf) (pf_debug pf) (pf_allowed_hosts pf) who req)"
| "serve pf who (ReqHeartbeat rid hb) = ignore_result (update_runner_heartbeat (pf_codec pf) who rid hb)"
| "serve pf who (ReqPullCommands rid limit timeout) =
     ignore_result (pull_runner_commands_handler (pf_codec pf) (pf_poll_rounds pf) who rid limit timeout)"
| "serve pf who (ReqStreamCommands rid evs) = ignore_result (stream_runner_commands who rid evs)"
| "serve pf who (ReqCreateSession req) = ignore_result (create_session (pf_codec pf) who req)"
| "serve pf who (ReqUpdateSessionState sid req) = ignore_result (update_session_state (pf_codec pf) who sid req)"
| "serve pf who (ReqSessionCommand sid req) = ignore_result (post_session_command (pf_codec pf) who sid req)"
| "serve pf who (ReqRuntimeEvent sid detail) =
     ignore_result (create_session_runtime_event (pf_codec pf) who sid detail)"
| "serve pf who (ReqCreateArtifact sid req) =
     ignore_result (create_artifact (pf_codec pf) (pf_base64 pf) who sid req)"
| "serve pf who (ReqCreateApproval sid req) = ignore_result (create_approval (pf_codec pf) who sid req)"
| "serve pf who (ReqApprovalDecision aid req) = ignore_result (apply_approval_decision (pf_codec pf) who aid req)"
| "serve pf who (ReqRevokeDevice did) = revoke_device_handler (pf_codec pf) who did"
| "serve pf who (ReqCreatePairingOffer req) =
     ignore_result (create_pairing_offer_handler (pf_codec pf) (pf_sha pf) who req)"
| "serve pf who (ReqRefreshToken token) = ignore_result (refresh_token (pf_codec pf) (pf_sha pf) token)"
| "serve pf who (ReqStreamTicket path) = ignore_result (create_stream_ticket who path)"
| "serve pf who (ReqPushToken body) = ignore_result (register_push_token_handler (pf_codec pf) who body)"
| "serve pf who (ReqClaimBootstrap req) = ignore_result (claim_bootstrap_device (pf_codec pf) (pf_sha pf) req)"
| "serve pf who (ReqAcceptPairing req) = ignore_result (accept_pairing_offer_handler (pf_codec pf) (pf_sha pf) req)"

text \<open>
  The two routes that create a device. They draw its identifier in their first section; the identifier
  is free if no device of the registry they find has it.
\<close>

fun adds_device :: "request \<Rightarrow> bool" where
  "adds_device (ReqClaimBootstrap _) = True"
| "adds_device (ReqAcceptPairing _) = True"
| "adds_device _ = False"

definition new_device_id_free :: "world \<Rightarrow> service \<Rightarrow> nat \<Rightarrow> bool" where
  "new_device_id_free w sv n \<longleftrightarrow> bm_get (trusted_devices (sv_registry (w_env w n sv))) (w_uuid w n 0) = None"

section \<open>Every handler makes good steps only\<close>

lemma good_step_enqueue_and_commit: "good_step r (snd (enqueue_and_commit now ids p r))"
  unfolding enqueue_and_commit_def
proof (rule good_step_seq)
  fix x r1
  let ?commit = "commit_pending_session_dispatch (pd_session_id p) (runner_of (pd_runner p))
      \<lparr> rsr_session_id = pd_session_id p, rsr_runner_id = runner_of (pd_runner p),
        rsr_workspace_id = pd_workspace_id p, rsr_state = RsPending,
        rsr_metadata = pd_metadata p, rsr_created_at = now 1, rsr_updated_at = now 2 \<rparr>"
  show "good_step r1 (snd (case ?commit r1 of (Inl e, r2) \<Rightarrow> (Inr None, r2) | (Inr y, r2) \<Rightarrow> (Inr (Some y), r2)))"
    by (rule good_step_seq) simp_all
qed simp

lemma good_step_heartbeat_and_reap: "good_step r (snd (heartbeat_and_reap now lease user rid hb r))"
proof -
  have "good_step r (snd (case apply_heartbeat rid hb r of
        (Inl e, r1) \<Rightarrow> (Inl e, r1)
      | (Inr snap, r1) \<Rightarrow>
          (case reap_orphaned_assigned_sessions now lease r1 of (reaped, r2) \<Rightarrow> (Inr (snap, reaped), r2))))"
    by (rule good_step_seq) (simp_all add: split_beta)
  then show ?thesis by (simp add: heartbeat_and_reap_def)
qed

lemma keeps_dispatch_loop [keeps_intros]: "consistent.keeps (dispatch_loop cd rid k skipped)"
  by (induction k arbitrary: skipped)
    (auto simp: publish_dispatched_def good_step_enqueue_and_commit intro!: keeps_intros)

lemma keeps_dispatch [keeps_intros]: "consistent.keeps (dispatch_pending_sessions_for_runner cd rid)"
  unfolding dispatch_pending_sessions_for_runner_def by (rule keeps_dispatch_loop)

lemma keeps_register_runner: "consistent.keeps (register_runner_handler cd parse_url debug env_allowed who req)"
  unfolding register_runner_handler_def by (intro keeps_intros) (simp add: split_beta)

lemma keeps_publish_reaped [keeps_intros]: "consistent.keeps (publish_reaped cd xs)"
  by (induction cd xs rule: publish_reaped.induct) (auto intro!: keeps_intros)

lemma keeps_heartbeat: "consistent.keeps (update_runner_heartbeat cd who rid hb)"
  unfolding update_runner_heartbeat_def
  by (intro keeps_intros) (simp add: split_beta good_step_heartbeat_and_reap)

lemma keeps_pull_loop [keeps_intros]: "consistent.keeps (pull_loop cd rid limit deadline rounds)"
  by (induction rounds) (auto intro!: keeps_intros)

lemma keeps_pull: "consistent.keeps (pull_runner_commands_handler cd rounds who rid limit timeout)"
  unfolding pull_runner_commands_handler_def by (intro keeps_intros)

lemma keeps_command_stream [keeps_intros]: "consistent.keeps (serve_runner_command_stream rid evs)"
proof (induction evs)
  case (Cons e evs)
  then show ?case by (cases e) (auto simp: Let_def intro!: keeps_intros)
qed (simp add: keeps_intros)

lemma keeps_stream_commands: "consistent.keeps (stream_runner_commands who rid evs)"
  unfolding stream_runner_commands_def by (intro keeps_intros)

lemma keeps_update_session_state: "consistent.keeps (update_session_state cd who sid req)"
  unfolding update_session_state_def by (intro keeps_intros) simp_all

lemma keeps_post_session_command: "consistent.keeps (post_session_command cd who sid req)"
  unfolding post_session_command_def by (intro keeps_intros) simp_all

lemma keeps_create_session: "consistent.keeps (create_session cd who req)"
  unfolding create_session_def by (intro keeps_intros) simp_all

lemma keeps_runtime_event: "consistent.keeps (create_session_runtime_event cd who sid detail)"
  unfolding create_session_runtime_event_def by (intro keeps_intros)

lemma keeps_io [keeps_intros]:
  assumes "\<And>sv. sv_registry (f sv) = sv_registry sv" "\<And>sv. sv_registry (g sv) = sv_registry sv"
  shows "consistent.keeps (io_step msg f g)"
  by (rule consistent.tripleI) (use assms in \<open>auto simp: io_step_def split: if_splits\<close>)

lemma keeps_create_artifact: "consistent.keeps (create_artifact cd b64 who sid req)"
  unfolding create_artifact_def by (intro keeps_intros) simp_all

lemma keeps_publish_transition [keeps_intros]: "consistent.keeps (publish_transition cd t)"
  unfolding publish_transition_def by (intro keeps_intros)

lemma triple_relay_new_approval: "consistent.triple P (relay_new_approval sid planned) (\<lambda>_. P)"
  unfolding relay_new_approval_def
  by (auto split: option.split intro!: consistent.triple_and_then [OF consistent.triple_remote] consistent.triple_done consistent.triple_fail)

lemma triple_relay_decision: "consistent.triple P (relay_decision planned) (\<lambda>_. P)"
  unfolding relay_decision_def
  by (auto split: option.split intro!: consistent.triple_and_then [OF consistent.triple_remote] consistent.triple_done consistent.triple_fail)

lemma keeps_create_approval: "consistent.keeps (create_approval cd who sid req)"
proof -
  have plan: "consistent.triple (\<lambda>_. True) (read_registry (\<lambda>now ids r.
         bind_result (get_session_for_user r sid (user_id_from_principal who)) (\<lambda>_.
           plan_approval (now 0) (ids 0) sid req r))) (\<lambda>pl r. approval_plan_ok pl)"
    by (rule consistent.triple_read) (auto simp: bind_result_def plan_approval_ok split: sum.splits)
  have commit: "consistent.triple (\<lambda>r. approval_plan_ok pl) (write_registry (\<lambda>now ids. commit_planned_approval pl)) (\<lambda>_ _. True)" for pl
    by (rule consistent.triple_write) (simp_all add: consistent.stable_def good_step_commit_approval)
  show ?thesis
    unfolding create_approval_def
    by (rule consistent.triple_and_then [OF plan consistent.triple_and_then [OF triple_relay_new_approval consistent.triple_and_then [OF commit]]])
      (auto intro!: keeps_intros)
qed

lemma keeps_apply_approval_decision: "consistent.keeps (apply_approval_decision cd who aid req)"
proof -
  have plan: "consistent.triple (\<lambda>_. True) (read_registry (\<lambda>now ids r.
         bind_result (get_approval r aid) (\<lambda>a.
         bind_result (get_session_for_user r (ap_session_id a) (user_id_from_principal who)) (\<lambda>_.
           plan_approval_decision (now 0) aid req r)))) decision_plan_ok"
    by (rule consistent.triple_read) (auto simp: bind_result_def registry_inv_def intro: plan_decision_ok split: sum.splits)
  have commit: "consistent.triple (decision_plan_ok pn) (write_registry (\<lambda>now ids. commit_planned_approval_decision pn)) (\<lambda>_ _. True)" for pn
    by (rule consistent.triple_write) (simp_all add: good_step_commit_decision)
  show ?thesis
    unfolding apply_approval_decision_def
    by (rule consistent.triple_and_then [OF plan consistent.triple_and_then [OF triple_relay_decision consistent.triple_and_then [OF commit]]])
      (auto intro!: keeps_intros)
qed

lemma good_step_store_push_token: "good_step r (snd (store_push_token now who body r))"
  using good_steps(12) [of r now _ body]
  by (simp add: store_push_token_def split_beta split: option.split)

lemma keeps_devices:
  "consistent.keeps (revoke_device_handler cd who did)" "consistent.keeps (create_pairing_offer_handler cd sha who oreq)"
  "consistent.keeps (refresh_token cd sha token)" "consistent.keeps (create_stream_ticket who path)"
  "consistent.keeps (register_push_token_handler cd who body)"
  unfolding revoke_device_handler_def create_pairing_offer_handler_def refresh_token_def create_stream_ticket_def
    register_push_token_handler_def owner_only_def
  by (intro keeps_intros; simp add: good_step_store_push_token split_beta)+

lemma keeps_ignore [keeps_intros]: "consistent.keeps t \<Longrightarrow> consistent.keeps (ignore_result t)"
  unfolding ignore_result_def by (intro keeps_intros)

lemma keeps_serve: "\<not> adds_device rq \<Longrightarrow> consistent.keeps (serve pf who rq)"
  by (cases rq) (simp_all add: keeps_ignore keeps_register_runner keeps_heartbeat keeps_pull keeps_stream_commands
      keeps_create_session keeps_update_session_state keeps_post_session_command keeps_runtime_event
      keeps_create_artifact keeps_create_approval keeps_apply_approval_decision keeps_devices)

lemma good_step_new_device:
  assumes "bm_get (trusted_devices r) did = None"
  shows "good_step r (snd (bootstrap_claim sha now did ur ua expected breq r))"
    "good_step r (snd (accept_pairing_offer sha tp tc now did ur ua areq r))"
  by (rule good_step_op [where sha = sha], rule op_bootstrap op_accept_offer, rule assms)+

lemma ignore_result_service:
  "ignore_result t w s = (res, sv', n') \<Longrightarrow> \<exists>res1. t w s = (res1, sv', n')"
  by (auto simp: ignore_result_def and_then_def done_with_def split: prod.splits sum.splits)

lemma good_step_claim_bootstrap:
  assumes "consistent.env_ok w" "registry_inv (sv_registry sv)" "new_device_id_free w sv n"
    and "claim_bootstrap_device cd sha breq w (sv, n) = (res, sv', n')"
  shows "good_step (sv_registry sv) (sv_registry sv')"
  by (rule consistent.first_section [OF assms(1,2) _ _ assms(4) [unfolded claim_bootstrap_device_def]])
    (use assms(3) in \<open>auto simp: split_beta new_device_id_free_def good_step_new_device intro!: keeps_intros\<close>)

lemma good_step_accept_pairing:
  assumes "consistent.env_ok w" "registry_inv (sv_registry sv)" "new_device_id_free w sv n"
    and "accept_pairing_offer_handler cd sha areq w (sv, n) = (res, sv', n')"
  shows "good_step (sv_registry sv) (sv_registry sv')"
  by (rule consistent.first_section [OF assms(1,2) _ _ assms(4) [unfolded accept_pairing_offer_handler_def write_registry_def]])
    (use assms(3) in \<open>auto simp: split_beta new_device_id_free_def good_step_new_device intro!: keeps_intros\<close>)

lemma good_step_serve:
  assumes "consistent.env_ok w" "registry_inv (sv_registry sv)" "adds_device rq \<longrightarrow> new_device_id_free w sv n"
    and run: "serve pf who rq w (sv, n) = (res, sv', n')"
  shows "good_step (sv_registry sv) (sv_registry sv')"
proof (cases "adds_device rq")
  case True
  with assms show ?thesis
    by (cases rq) (auto dest!: ignore_result_service intro: good_step_claim_bootstrap good_step_accept_pairing)
next
  case False
  then show ?thesis using consistent.tripleD(1) [OF keeps_serve assms(1,2) _ run] by simp
qed

text \<open>
  C1. Consistency survives concurrency. Serve any request of any caller, while other requests change the
  registry between its lock sections in any way that keeps it consistent and removes nothing: afterwards
  the registry is consistent again, every approval is still there and belongs to the same session, and
  every session is still there with its identifier, tenant, workspace and time of creation, whether the
  request succeeded or failed halfway. The two requests that create a device are covered when the random
  identifier they draw for it is not in use.
\<close>

theorem requests_keep_consistency:
  assumes "consistent.env_ok w" and "registry_inv (sv_registry sv)"
    and "adds_device rq \<longrightarrow> new_device_id_free w sv n"
    and "serve pf who rq w (sv, n) = (res, sv', n')"
  shows "registry_inv (sv_registry sv') \<and> approvals_kept (sv_registry sv) (sv_registry sv')
         \<and> identities_kept (sv_registry sv) (sv_registry sv')"
  using good_step_serve [OF assms] assms(2) by (simp add: good_step_def)

definition quiet :: "world \<Rightarrow> bool" where
  "quiet w \<longleftrightarrow> w_env w = (\<lambda>_ sv. sv)"

definition wit_world :: world where
  "wit_world = \<lparr> w_now = (\<lambda>n i. int n), w_uuid = (\<lambda>n i. of_nat (n + i)), w_env = (\<lambda>_ sv. sv),
     w_http = (\<lambda>_. \<lparr> hc_create = (\<lambda>_ _ _. HttpSendError), hc_state = (\<lambda>_ _ _. HttpSendError),
       hc_approval = (\<lambda>_ _ _. HttpSendError), hc_decision = (\<lambda>_ _ _. HttpSendError),
       hc_command = (\<lambda>_ _ _. HttpSendError) \<rparr>), w_io = (\<lambda>_. True) \<rparr>"

definition wit_platform :: platform where
  "wit_platform = \<lparr> pf_codec = wit_codec wit_service, pf_sha = (\<lambda>x. x), pf_parse_url = (\<lambda>_. None),
     pf_base64 = (\<lambda>_. None), pf_debug = False, pf_allowed_hosts = None, pf_poll_rounds = 1 \<rparr>"

section \<open>Pending sessions are dispatched\<close>

text \<open>While sessions are dispatched, an assignment that was made stays made.\<close>

definition assigned :: "uuid \<Rightarrow> rstring \<Rightarrow> registry \<Rightarrow> bool" where
  "assigned sid rid r \<longleftrightarrow>
     is_some_and (\<lambda>s. ses_owner_runner_id s = Some rid \<and> ses_state s = Assigned) (bm_get (sessions r) sid)"

definition assignments_kept :: "registry \<Rightarrow> registry \<Rightarrow> bool" where
  "assignments_kept r r' \<longleftrightarrow> (\<forall>sid rid. assigned sid rid r \<longrightarrow> assigned sid rid r')"

interpretation assigning: rely_guarantee assignments_kept "\<lambda>_. True"
  by unfold_locales (auto simp: assignments_kept_def)

lemma assignments_kept_commit:
  "assignments_kept r (snd (commit_pending_session_dispatch sid rid d r))"
  by (auto simp: assignments_kept_def assigned_def commit_pending_session_dispatch_def is_some_and_iff Let_def
      split: option.splits if_splits)

lemma assignments_kept_enqueue_and_commit: "assignments_kept r (snd (enqueue_and_commit now ids p r))"
proof -
  let ?commit = "commit_pending_session_dispatch (pd_session_id p) (runner_of (pd_runner p))
      \<lparr> rsr_session_id = pd_session_id p, rsr_runner_id = runner_of (pd_runner p),
        rsr_workspace_id = pd_workspace_id p, rsr_state = RsPending,
        rsr_metadata = pd_metadata p, rsr_created_at = now 1, rsr_updated_at = now 2 \<rparr>"
  obtain res r1 where e: "enqueue_runner_command (now 0) (ids 0) (runner_of (pd_runner p))
      (CmdCreateSession (dispatch_request p)) r = (res, r1)" by (meson surj_pair)
  then have "sessions r1 = sessions r"
    using session_keeping_ops(4) [of "now 0" "ids 0" "runner_of (pd_runner p)" "CmdCreateSession (dispatch_request p)" r]
    by simp
  then have r1: "assignments_kept r r1" by (simp add: assignments_kept_def assigned_def)
  obtain res2 r2 where c: "?commit r1 = (res2, r2)" by (meson surj_pair)
  have "assignments_kept r r2"
    using assigning.G_trans [OF r1, of r2] assignments_kept_commit [of r1 "pd_session_id p"] c by (metis snd_conv)
  with r1 e c show ?thesis by (cases res; cases res2) (simp_all add: enqueue_and_commit_def)
qed

lemma assigning_dispatch_loop: "assigning.keeps (dispatch_loop cd rid k skipped)"
  by (induction k arbitrary: skipped)
    (auto simp: publish_dispatched_def assignments_kept_enqueue_and_commit assignments_kept_commit
      intro!: keeps_intros)

lemma dispatch_loop_returns: "fst (dispatch_loop cd rid k skipped w s) = Inr ()"
proof (induction k arbitrary: skipped s)
  case (Suc k)
  then show ?case
    by (auto simp: and_then_def attempt_def read_service_def section_on_def write_registry_def
        persist_state_logged_def publish_dispatched_def publish_event_def remote_call_def done_with_def
        enqueue_and_commit_def split: prod.splits option.splits sum.splits)
qed (simp add: done_with_def)

text \<open>The sessions a runner would be given: pending, without an owner, and this runner is the best choice.\<close>

definition waiting_for :: "instant \<Rightarrow> u64 \<Rightarrow> rstring \<Rightarrow> registry \<Rightarrow> session_record \<Rightarrow> bool" where
  "waiting_for now lease rid r s \<longleftrightarrow>
     bm_get (sessions r) (ses_session_id s) = Some s \<and> ses_state s = Pending \<and> ses_owner_runner_id s = None
     \<and> select_runner now (ses_workspace_id s) None lease (ses_owner_user_id s) r = Inr (Some rid)"

definition dispatch_of :: "runner_snapshot \<Rightarrow> session_record \<Rightarrow> pending_session_dispatch" where
  "dispatch_of runner s =
     \<lparr> pd_session_id = ses_session_id s, pd_workspace_id = ses_workspace_id s,
       pd_metadata = ses_metadata s, pd_runner = runner \<rparr>"

lemma plan_next_pending_oldest:
  assumes "session_inv r" "bm_get (runners r) rid = Some runner" "waiting_for now lease rid r s"
  shows "\<exists>s0. waiting_for now lease rid r s0
            \<and> (ses_created_at s0, ses_session_id s0) \<le> (ses_created_at s, ses_session_id s)
            \<and> plan_next_pending_session_for_runner now rid lease {} r = Inr (Some (dispatch_of runner s0))"
proof -
  let ?key = "\<lambda>d. map_option (\<lambda>s. (ses_created_at s, ses_session_id s)) (bm_get (sessions r) (pd_session_id d))"
  let ?xs = "filter_map (\<lambda>s.
                case select_runner now (ses_workspace_id s) None lease (ses_owner_user_id s) r of
                  Inl _ \<Rightarrow> None
                | Inr selected \<Rightarrow> if selected = Some rid then Some (dispatch_of runner s) else None)
               (filter (\<lambda>s. ses_session_id s \<notin> {})
                 (filter (\<lambda>s. ses_owner_runner_id s = None)
                   (filter (\<lambda>s. ses_state s = Pending) (bm_values (sessions r)))))"
  have plan: "plan_next_pending_session_for_runner now rid lease {} r = Inr (min_by_key ?key ?xs)"
    unfolding dispatch_of_def plan_next_pending_session_for_runner_def get_runner_snapshot_def
    using assms(2) by simp
  have chosen: "(case sel of Inl _ \<Rightarrow> None | Inr y \<Rightarrow> if y = Some rid then Some d' else None) = Some d
      \<longleftrightarrow> sel = Inr (Some rid) \<and> d = d'" for sel :: "rstring option api" and d d' :: pending_session_dispatch
    by (cases sel) auto
  have mem: "d \<in> set ?xs \<longleftrightarrow> (\<exists>s. waiting_for now lease rid r s \<and> d = dispatch_of runner s)" for d
    by (auto simp: set_filter_map chosen waiting_for_def session_values_iff [OF assms(1)])
  then have "?xs \<noteq> []" using assms(3) by (metis empty_iff list.set(1))
  then obtain d0 where d0: "min_by_key ?key ?xs = Some d0" using min_by_key_ex by blast
  then obtain s0 where s0: "waiting_for now lease rid r s0" "d0 = dispatch_of runner s0"
    using min_by_key_least [OF d0] mem by blast
  have "?key d0 \<le> ?key (dispatch_of runner s)"
    using min_by_key_least [OF d0] mem assms(3) by blast
  then have "(ses_created_at s0, ses_session_id s0) \<le> (ses_created_at s, ses_session_id s)"
    using s0 assms(3) by (simp add: waiting_for_def dispatch_of_def)
  with plan d0 s0 show ?thesis by auto
qed

lemma enqueue_and_commit_assigns:
  assumes "bm_get (runners r) (runner_of (pd_runner p)) \<noteq> None" "bm_get (sessions r) (pd_session_id p) = Some s"
    "ses_state s = Pending" "ses_owner_runner_id s = None"
  shows "\<exists>x r'. enqueue_and_commit now ids p r = (Inr (Some x), r')
           \<and> assigned (pd_session_id p) (runner_of (pd_runner p)) r'"
proof -
  obtain c r1 where e: "enqueue_runner_command (now 0) (ids 0) (runner_of (pd_runner p))
      (CmdCreateSession (dispatch_request p)) r = (Inr c, r1)" and r1: "sessions r1 = sessions r"
    using assms(1) session_keeping_ops(4) [of "now 0" "ids 0" "runner_of (pd_runner p)"
        "CmdCreateSession (dispatch_request p)" r]
    by (auto simp: enqueue_runner_command_def bm_contains_def Let_def)
  show ?thesis
    using e r1 assms(2-4) by (simp add: enqueue_and_commit_def commit_pending_session_dispatch_def Let_def assigned_def)
qed

lemma quiet_read: "quiet w \<Longrightarrow> read_service f w (sv, n) = (f (w_now w n) (w_uuid w n) sv, sv, Suc n)"
  by (simp add: quiet_def read_service_def section_on_def)

lemma quiet_write:
  "quiet w \<Longrightarrow> write_registry f w (sv, n)
     = (fst (f (w_now w n) (w_uuid w n) (sv_registry sv)),
        sv\<lparr>sv_registry := snd (f (w_now w n) (w_uuid w n) (sv_registry sv))\<rparr>, Suc n)"
  by (simp add: quiet_def write_registry_def section_on_def split_beta)

lemma quiet_persist: "quiet w \<Longrightarrow> persist_state_logged cd w (sv, n) = (Inr (), persist_state cd sv, Suc (Suc n))"
  by (simp add: quiet_def persist_state_logged_def and_then_def read_service_def section_on_def persist_state_def)

lemma publish_registry:
  "quiet w \<Longrightarrow> \<exists>e sv' n'. publish_event cd draft w (sv, n) = (Inr e, sv', n') \<and> sv_registry sv' = sv_registry sv"
  by (simp add: quiet_def publish_event_def and_then_def section_on_def done_with_def split_beta)

text \<open>
  C9. Pending work is handed out. If a pulling runner contacts the control plane while a session waits
  for which it is the best choice, then, nobody interfering, the dispatch loop ends without an error and
  the oldest such session (by time of creation, then identifier) is assigned to the runner.
\<close>

theorem waiting_session_dispatched:
  assumes "quiet w" "registry_inv (sv_registry sv)"
    and "bm_get (runners (sv_registry sv)) rid = Some runner" "runner_uses_pull_commands runner"
    and "waiting_for (w_now w n 0) (sv_lease sv) rid (sv_registry sv) s"
  shows "\<exists>s0 sv' n'. waiting_for (w_now w n 0) (sv_lease sv) rid (sv_registry sv) s0
           \<and> (ses_created_at s0, ses_session_id s0) \<le> (ses_created_at s, ses_session_id s)
           \<and> dispatch_pending_sessions_for_runner cd rid w (sv, n) = (Inr (), sv', n')
           \<and> map_option (\<lambda>x. (ses_owner_runner_id x, ses_state x))
               (bm_get (sessions (sv_registry sv')) (ses_session_id s0)) = Some (Some rid, Assigned)"
proof -
  have inv: "session_inv (sv_registry sv)" using assms(2) by (simp add: registry_inv_def)
  obtain s0 where s0: "waiting_for (w_now w n 0) (sv_lease sv) rid (sv_registry sv) s0"
    "(ses_created_at s0, ses_session_id s0) \<le> (ses_created_at s, ses_session_id s)"
    "plan_next_pending_session_for_runner (w_now w n 0) rid (sv_lease sv) {} (sv_registry sv)
       = Inr (Some (dispatch_of runner s0))"
    using plan_next_pending_oldest [OF inv assms(3,5)] by blast
  let ?p = "dispatch_of runner s0"
  have p: "runner_of (pd_runner ?p) = rid" "pd_session_id ?p = ses_session_id s0" "pd_runner ?p = runner"
    using session_inv_runnerD [OF inv assms(3)] by (simp_all add: dispatch_of_def runner_of_def)
  obtain x r' where ec: "enqueue_and_commit (w_now w (Suc n)) (w_uuid w (Suc n)) ?p (sv_registry sv) = (Inr (Some x), r')"
    and as: "assigned (ses_session_id s0) rid r'"
    using enqueue_and_commit_assigns [of "sv_registry sv" ?p s0 "w_now w (Suc n)" "w_uuid w (Suc n)"]
      s0(1) assms(3) p by (auto simp: waiting_for_def)
  let ?sv1 = "persist_state cd (sv\<lparr>sv_registry := r'\<rparr>)"
  obtain e sv2 n2 where pub: "publish_dispatched cd x w (?sv1, Suc (Suc (Suc (Suc n)))) = (Inr e, sv2, n2)"
    "sv_registry sv2 = sv_registry ?sv1"
    using publish_registry [OF assms(1)] unfolding publish_dispatched_def by blast
  have step: "dispatch_pending_sessions_for_runner cd rid w (sv, n) = dispatch_loop cd rid 63 {} w (sv2, n2)"
    using s0(3) ec pub assms(1,4) p(3) dispatch_loop.simps(2) [of cd rid 63 "{}"]
    by (simp add: dispatch_pending_sessions_for_runner_def max_dispatch_iterations_def and_then_def
        quiet_read quiet_write quiet_persist)
  obtain res sv' n' where run: "dispatch_loop cd rid 63 {} w (sv2, n2) = (res, sv', n')"
    by (cases "dispatch_loop cd rid 63 {} w (sv2, n2)")
  have "assigning.env_ok w" using assms(1) by (simp add: assigning.env_ok_def quiet_def)
  from assigning.tripleD(1) [OF assigning_dispatch_loop this _ _ run]
  have "assigned (ses_session_id s0) rid (sv_registry sv')"
    using as pub(2) by (simp add: assignments_kept_def persist_state_def store_snapshot_def)
  moreover have "res = Inr ()" using dispatch_loop_returns [of cd rid 63 "{}" w "(sv2, n2)"] run by simp
  ultimately show ?thesis using s0(1,2) step run by (auto simp: assigned_def is_some_and_iff)
qed

definition wit_runner :: "rstring option \<Rightarrow> runner_snapshot" where
  "wit_runner base = \<lparr> rs_registration = \<lparr> rr_runner_id = [1], rr_control_plane_url = None, rr_public_base_url = base,
       rr_workspaces = [\<lparr> ws_workspace_id = [2], ws_root_dir = [], ws_writable = True \<rparr>],
       rr_labels = bm_empty, rr_auth_token = None,
       rr_capabilities = \<lparr> rc_interactive_approvals = True, rc_background_sessions = True,
                           rc_artifact_uploads = True, rc_max_parallel_sessions = 4 \<rparr>,
       rr_platform = \<lparr> rp_os = [], rp_arch = [], rp_family = [] \<rparr> \<rparr>,
     rs_state = Idle, rs_active_sessions = 0, rs_queued_sessions = 0, rs_registered_at = 0, rs_last_seen_at = 0 \<rparr>"

definition wit_waiting :: service where
  "wit_waiting = wit_service\<lparr>sv_registry := registry_default\<lparr>runners := bm_insert [1] (wit_runner None) bm_empty,
     runner_owners := bm_insert [1] [7] bm_empty, sessions := bm_insert 3 (wit_session Pending) bm_empty\<rparr>\<rparr>"

lemma wit_waiting_inv: "registry_inv (sv_registry wit_waiting)"
proof -
  have "device_inv (sv_registry wit_waiting)" using device_inv_default by (simp add: wit_waiting_def device_inv_def)
  moreover have "session_inv (sv_registry wit_waiting)"
    by (auto simp: wit_waiting_def session_inv_defs registry_default_def wit_session_def wit_runner_def)
  moreover have "work_inv (sv_registry wit_waiting)"
    using work_inv_default
    by (simp add: wit_waiting_def work_inv_def approval_inv_def artifact_inv_def queue_inv_def registry_default_def)
  ultimately show ?thesis by (simp add: registry_inv_def)
qed

theorem waiting_session_dispatched_witness:
  "\<exists>sid sv' n'. dispatch_pending_sessions_for_runner (wit_codec wit_service) [1] wit_world (wit_waiting, 0) = (Inr (), sv', n')
     \<and> map_option ses_owner_runner_id (bm_get (sessions (sv_registry sv')) sid) = Some (Some [1])"
proof -
  have q: "quiet wit_world" by (simp add: quiet_def wit_world_def)
  have r: "bm_get (runners (sv_registry wit_waiting)) [1] = Some (wit_runner None)" by (simp add: wit_waiting_def)
  have p: "runner_uses_pull_commands (wit_runner None)" by (simp add: runner_uses_pull_commands_def wit_runner_def)
  have "select_runner 0 [2] None 30 (Some [7]) (sv_registry wit_waiting) = Inr (Some [1])"
    by (simp add: select_runner_def wit_waiting_def bm_values_def wit_runner_def runner_can_host_def
        runner_is_available_def runner_has_capacity_def seconds_def lease_secs_def registry_default_def)
  then have "waiting_for (w_now wit_world 0 0) (sv_lease wit_waiting) [1] (sv_registry wit_waiting) (wit_session Pending)"
    by (simp add: waiting_for_def wit_world_def sv_lease_def wit_session_def wit_waiting_def wit_service_def)
  from waiting_session_dispatched [OF q wit_waiting_inv r p this, of "wit_codec wit_service"]
  show ?thesis by fastforce
qed

text \<open>
  A heartbeat of a runner with a session waiting for it, while another request keeps queueing commands.
\<close>

lemma wit_env_ok: "consistent.env_ok wit_world"
  by (simp add: consistent.env_ok_def wit_world_def)

definition wit_state_command :: runner_queued_command_body where
  "wit_state_command = CmdUpdateSessionState 3 \<lparr> rsu_state = RsRunning, rsu_metadata = bm_empty \<rparr>"

definition wit_busy_world :: world where
  "wit_busy_world = wit_world\<lparr>w_env := (\<lambda>n sv. sv\<lparr>sv_registry :=
     snd (enqueue_runner_command (int n) (of_nat n) [1] wit_state_command (sv_registry sv))\<rparr>)\<rparr>"

lemma wit_busy_env_ok: "consistent.env_ok wit_busy_world"
  by (simp add: consistent.env_ok_def wit_busy_world_def)

lemma wit_busy_interferes: "command_queue (sv_registry (w_env wit_busy_world n wit_waiting)) [1] \<noteq> []"
  by (simp add: wit_busy_world_def enqueue_runner_command_def wit_waiting_def bm_contains_def command_queue_def
      Let_def push_bounded_eq registry_default_def max_commands_per_runner_def)

definition wit_heartbeat :: runner_heartbeat where
  "wit_heartbeat = \<lparr> hb_runner_id = [1], hb_state = Idle, hb_active_sessions = 0, hb_queued_sessions = 0, hb_timestamp = 0 \<rparr>"

theorem requests_keep_consistency_witness:
  "let sv' = fst (snd (serve wit_platform SharedToken (ReqHeartbeat [1] wit_heartbeat) wit_busy_world (wit_waiting, 0)))
   in command_queue (sv_registry (w_env wit_busy_world 0 wit_waiting)) [1] \<noteq> []
      \<and> registry_inv (sv_registry sv')
      \<and> map_option session_identity (bm_get (sessions (sv_registry sv')) 3) = Some (session_identity (wit_session Pending))"
proof -
  let ?run = "serve wit_platform SharedToken (ReqHeartbeat [1] wit_heartbeat) wit_busy_world (wit_waiting, 0)"
  obtain res sv' n' where run: "?run = (res, sv', n')" by (rule prod_cases3)
  have "bm_get (sessions (sv_registry wit_waiting)) 3 = Some (wit_session Pending)" by (simp add: wit_waiting_def)
  with requests_keep_consistency [OF wit_busy_env_ok wit_waiting_inv _ run] run wit_busy_interferes
  show ?thesis by (simp add: Let_def identities_kept_def)
qed

section \<open>Relays that fail\<close>

text \<open>
  A task never answers 502, or it is clean: when it does, nobody interfering, the service is unchanged.
\<close>

definition no_502 :: "'a task \<Rightarrow> bool" where
  "no_502 t \<longleftrightarrow> (\<forall>w s e. fst (t w s) = Inl e \<longrightarrow> error_status e \<noteq> 502)"

definition clean :: "'a task \<Rightarrow> bool" where
  "clean t \<longleftrightarrow> (\<forall>w sv n e sv' n'. quiet w \<longrightarrow> t w (sv, n) = (Inl e, sv', n') \<longrightarrow> error_status e = 502 \<longrightarrow> sv' = sv)"

lemma cleanD:
  assumes "clean t" "quiet w" "t w (sv, n) = (Inl e, sv', n')" "error_status e = 502"
  shows "sv' = sv"
  using assms(1) [unfolded clean_def, rule_format, OF assms(2-4)] .

named_theorems relay_intros \<open>rules for tasks that never answer 502 or are clean\<close>

lemma no_502_done [relay_intros]: "no_502 (done_with x)"
  by (simp add: no_502_def done_with_def)

lemma no_502_fail [relay_intros]: "error_status e \<noteq> 502 \<Longrightarrow> no_502 (fail_with e)"
  by (simp add: no_502_def fail_with_def)

lemma no_502_and_then [relay_intros]:
  assumes "no_502 t" "\<And>x. no_502 (k x)"
  shows "no_502 (and_then t k)"
  unfolding no_502_def
proof (intro allI impI)
  fix w s e assume run: "fst (and_then t k w s) = Inl e"
  obtain res s' where t: "t w s = (res, s')" by (cases "t w s")
  show "error_status e \<noteq> 502"
  proof (cases res)
    case (Inl e')
    with run t have "fst (t w s) = Inl e" by (simp add: and_then_def)
    with assms(1) show ?thesis unfolding no_502_def by blast
  next
    case (Inr x)
    with run t have "fst (k x w s') = Inl e" by (simp add: and_then_def)
    with assms(2) show ?thesis unfolding no_502_def by blast
  qed
qed

lemma no_502_section [relay_intros]:
  "(\<And>now ids sv e. fst (f now ids sv) = Inl e \<Longrightarrow> error_status e \<noteq> 502) \<Longrightarrow> no_502 (section_on f)"
  by (fastforce simp: no_502_def section_on_def split_beta)

lemma no_502_write [relay_intros]:
  "(\<And>now ids r e. fst (f now ids r) = Inl e \<Longrightarrow> error_status e \<noteq> 502) \<Longrightarrow> no_502 (write_registry f)"
  unfolding write_registry_def by (rule no_502_section) (auto simp: split_beta)

lemma no_502_read [relay_intros]:
  "(\<And>now ids sv e. f now ids sv = Inl e \<Longrightarrow> error_status e \<noteq> 502) \<Longrightarrow> no_502 (read_service f)"
  "(\<And>now ids r e. g now ids r = Inl e \<Longrightarrow> error_status e \<noteq> 502) \<Longrightarrow> no_502 (read_registry g)"
  unfolding read_registry_def read_service_def by (rule no_502_section; auto)+

lemma no_502_publish [relay_intros]: "no_502 (publish_event cd draft)" "no_502 (persist_state_logged cd)"
  unfolding publish_event_def persist_state_logged_def
  by (intro relay_intros; simp add: split_beta)+

lemma no_502_cases [relay_intros]:
  "(b \<Longrightarrow> no_502 t) \<Longrightarrow> (\<not> b \<Longrightarrow> no_502 u) \<Longrightarrow> no_502 (if b then t else u)"
  "no_502 t \<Longrightarrow> (\<And>x. no_502 (k x)) \<Longrightarrow> no_502 (case opt of None \<Rightarrow> t | Some x \<Rightarrow> k x)"
  "(\<And>a b. no_502 (j a b)) \<Longrightarrow> no_502 (case pr of (a, b) \<Rightarrow> j a b)"
  by (simp_all split: option.split prod.split)

lemma clean_no_502: "no_502 t \<Longrightarrow> clean t"
  unfolding no_502_def clean_def by (metis fst_conv)

lemma clean_write [relay_intros]:
  "(\<And>now ids r e. fst (f now ids r) = Inl e \<Longrightarrow> error_status e \<noteq> 502) \<Longrightarrow> clean (write_registry f)"
  "clean (done_with x)"
  by (rule clean_no_502, erule no_502_write) (rule clean_no_502, rule no_502_done)

lemma clean_cases [relay_intros]:
  "(b \<Longrightarrow> clean t) \<Longrightarrow> (\<not> b \<Longrightarrow> clean u) \<Longrightarrow> clean (if b then t else u)"
  "clean t \<Longrightarrow> (\<And>x. clean (k x)) \<Longrightarrow> clean (case opt of None \<Rightarrow> t | Some x \<Rightarrow> k x)"
  by (simp_all split: option.split)

lemma clean_remote [relay_intros]: "clean (remote_call f)"
  by (simp add: clean_def remote_call_def)

lemma clean_then [relay_intros]:
  assumes "clean t" "\<And>x. no_502 (k x)"
  shows "clean (and_then t k)"
  unfolding clean_def
proof (intro allI impI)
  fix w sv n e sv' n'
  assume q: "quiet w" and run: "and_then t k w (sv, n) = (Inl e, sv', n')" and e: "error_status e = 502"
  obtain res s' where t: "t w (sv, n) = (res, s')" by (cases "t w (sv, n)")
  show "sv' = sv"
  proof (cases res)
    case (Inl e')
    with run t have "t w (sv, n) = (Inl e, sv', n')" by (simp add: and_then_def)
    then show ?thesis using assms(1) q e unfolding clean_def by blast
  next
    case (Inr x)
    with run t have "fst (k x w s') = Inl e" by (simp add: and_then_def)
    then show ?thesis using assms(2) e unfolding no_502_def by blast
  qed
qed

lemma clean_read_then:
  assumes "\<And>x. clean (k x)"
  shows "clean (and_then (read_service f) k)" "clean (and_then (read_registry g) k)"
proof -
  show c: "clean (and_then (read_service f) k)" for f
    unfolding clean_def
  proof (intro allI impI)
    fix w sv n e sv' n'
    assume q: "quiet w" and run: "and_then (read_service f) k w (sv, n) = (Inl e, sv', n')" and e: "error_status e = 502"
    show "sv' = sv"
    proof (cases "f (w_now w n) (w_uuid w n) sv")
      case (Inl e')
      with run q show ?thesis by (simp add: and_then_def quiet_read)
    next
      case (Inr x)
      with run q have "k x w (sv, Suc n) = (Inl e, sv', n')" by (simp add: and_then_def quiet_read)
      then show ?thesis using assms q e unfolding clean_def by blast
    qed
  qed
  show "clean (and_then (read_registry g) k)" unfolding read_registry_def by (rule c)
qed

lemma registry_calls_no_502:
  "fst (enqueue_runner_command now fresh rid body r) = Inl e \<Longrightarrow> error_status e \<noteq> 502"
  "fst (commit_session ses r) = Inl e \<Longrightarrow> error_status e \<noteq> 502"
  "fst (apply_session_state_update sid st meta t r) = Inl e \<Longrightarrow> error_status e \<noteq> 502"
  "fst (commit_planned_approval pl r) = Inl e \<Longrightarrow> error_status e \<noteq> 502"
  "fst (commit_planned_approval_decision pn r) = Inl e \<Longrightarrow> error_status e \<noteq> 502"
  by (auto simp: registry_simps split: if_splits option.splits)

lemma no_502_transition [relay_intros]: "no_502 (publish_transition cd t)"
  unfolding publish_transition_def by (intro relay_intros)

lemma pure_502_remote:
  assumes "\<And>x. k x = done_with () \<or> (\<exists>e. k x = fail_with e)"
  shows "clean (and_then (remote_call f) k)"
  unfolding clean_def
proof (intro allI impI)
  fix w sv n e sv' n'
  assume run: "and_then (remote_call f) k w (sv, n) = (Inl e, sv', n')"
  show "sv' = sv"
  proof (cases "f (w_http w n)")
    case (Inl e')
    with run show ?thesis by (simp add: and_then_def remote_call_def)
  next
    case (Inr x)
    with run assms [of x] show ?thesis
      by (auto simp: and_then_def remote_call_def done_with_def fail_with_def)
  qed
qed

lemma clean_relay: "clean (relay_new_approval sid planned)" "clean (relay_decision planned')"
  unfolding relay_new_approval_def relay_decision_def
  by (intro clean_cases clean_write(2) pure_502_remote clean_no_502 [OF no_502_fail]; auto)+

lemma clean_create_session: "clean (create_session cd who req)"
  unfolding create_session_def Let_def
  by (rule clean_read_then, intro relay_intros) (auto dest: registry_calls_no_502)

lemma clean_update_session_state: "clean (update_session_state cd who sid req)"
  unfolding update_session_state_def
  by (rule clean_read_then, intro relay_intros) (auto dest: registry_calls_no_502)

lemma clean_create_approval: "clean (create_approval cd who sid req)"
  unfolding create_approval_def
  by (rule clean_read_then, rule clean_then [OF clean_relay(1)], intro relay_intros)
    (auto dest: registry_calls_no_502)

lemma clean_apply_approval_decision: "clean (apply_approval_decision cd who aid req)"
  unfolding apply_approval_decision_def
  by (rule clean_read_then, rule clean_then [OF clean_relay(2)], intro relay_intros)
    (auto dest: registry_calls_no_502)

text \<open>
  C8. A failed relay changes nothing. If a runner that is reached over HTTP cannot be contacted, rejects
  the call, answers nonsense or acknowledges something else, then the caller gets a 502 and, nobody
  interfering, the whole service is as it was: no session or approval was created, changed or answered,
  no event published, no command queued, nothing written.
\<close>

theorem failed_relay_changes_nothing:
  assumes "quiet w" "error_status e = 502"
    and "create_session cd who creq w (sv, n) = (Inl e, sv1, n1)
         \<or> update_session_state cd who sid ureq w (sv, n) = (Inl e, sv1, n1)
         \<or> create_approval cd who sid areq w (sv, n) = (Inl e, sv1, n1)
         \<or> apply_approval_decision cd who aid dreq w (sv, n) = (Inl e, sv1, n1)"
  shows "sv1 = sv"
  using assms(3)
  by (elim disjE)
    (erule cleanD [OF _ assms(1) _ assms(2), rotated],
      rule clean_create_session clean_update_session_state clean_create_approval clean_apply_approval_decision)+

definition wit_request :: create_session_request where
  "wit_request = \<lparr> cs_session_id = Some 9, cs_workspace_id = [2], cs_preferred_runner_id = None, cs_metadata = bm_empty \<rparr>"

definition wit_reachable_runner :: service where
  "wit_reachable_runner = wit_service\<lparr>sv_registry := registry_default\<lparr>runners :=
     bm_insert [1] (wit_runner (Some [104])) bm_empty\<rparr>\<rparr>"

lemma create_session_relay_error:
  assumes "quiet w" "ps_owner_runner planned = Some runner" "\<not> runner_uses_pull_commands runner"
    and "plan_session (w_now w n 0) (w_uuid w n 0) req (sv_lease sv) (user_id_from_principal who) (sv_registry sv)
         = Inr planned"
    and "\<And>q. dispatch_session_to_runner (hc_create (w_http w (Suc n))) runner q = Inl e"
  shows "\<exists>sv' n'. create_session cd who req w (sv, n) = (Inl e, sv', n')"
  using assms by (simp add: create_session_def and_then_def quiet_read remote_call_def Let_def)

theorem failed_relay_changes_nothing_witness:
  "\<exists>e n'. create_session (wit_codec wit_service) SharedToken wit_request wit_world (wit_reachable_runner, 0)
            = (Inl e, wit_reachable_runner, n') \<and> error_status e = 502"
proof -
  let ?runner = "wit_runner (Some [104])"
  let ?e = "BadGateway ''failed to dispatch session to runner {runner_id}''"
  have q: "quiet wit_world" by (simp add: quiet_def wit_world_def)
  have url: "runner_public_base_url ?runner = Inr [104]"
    by (simp add: runner_public_base_url_def wit_runner_def trim_def trim_start_by_def trim_end_by_def is_whitespace_def)
  then have pull: "\<not> runner_uses_pull_commands ?runner" by (simp add: runner_uses_pull_iff)
  have http: "dispatch_session_to_runner (hc_create (w_http wit_world (Suc 0))) ?runner rq = Inl ?e" for rq
    by (simp add: dispatch_session_to_runner_def url wit_world_def)
  have sel: "select_runner 0 [2] None 30 None (sv_registry wit_reachable_runner) = Inr (Some [1])"
    by (simp add: select_runner_def wit_reachable_runner_def bm_values_def wit_runner_def runner_can_host_def
        runner_is_available_def runner_has_capacity_def seconds_def lease_secs_def registry_default_def)
  have "sessions (sv_registry wit_reachable_runner) = bm_empty"
    "bm_get (runners (sv_registry wit_reachable_runner)) [1] = Some ?runner"
    by (simp_all add: wit_reachable_runner_def registry_default_def)
  moreover have "w_now wit_world 0 0 = 0" "sv_lease wit_reachable_runner = 30" "user_id_from_principal SharedToken = None"
    by (simp_all add: wit_world_def sv_lease_def wit_reachable_runner_def wit_service_def user_id_from_principal_def)
  ultimately obtain planned where plan: "plan_session (w_now wit_world 0 0) (w_uuid wit_world 0 0) wit_request
      (sv_lease wit_reachable_runner) (user_id_from_principal SharedToken) (sv_registry wit_reachable_runner) = Inr planned"
    and owner: "ps_owner_runner planned = Some ?runner"
    using sel by (simp add: plan_session_def wit_request_def bm_contains_def max_total_sessions_def Let_def)
  obtain sv1 n1 where run: "create_session (wit_codec wit_service) SharedToken wit_request wit_world
      (wit_reachable_runner, 0) = (Inl ?e, sv1, n1)"
    using create_session_relay_error [OF q owner pull plan http] by blast
  moreover have "sv1 = wit_reachable_runner"
    using failed_relay_changes_nothing [OF q _ disjI1 [OF run]] by simp
  ultimately show ?thesis by auto
qed

text \<open>
  A rejected state update of a session on a pulling runner is queued for that runner all the same: the
  command goes into the queue before the transition is checked, and the refusal does not take it out.
\<close>

lemma last_push_bounded: "0 < limit \<Longrightarrow> last (push_bounded limit x q) = x"
  by (simp add: push_bounded_eq)

lemma rejected_update_still_queued:
  assumes "quiet w" "get_session_for_user (sv_registry sv) sid (user_id_from_principal who) = Inr s"
    and "ses_owner_runner_id s = Some rid" "bm_get (runners (sv_registry sv)) rid = Some runner"
    and "runner_of runner = rid" "runner_uses_pull_commands runner"
    and "\<not> is_valid_session_transition (ses_state s) (su_state req)"
  shows "\<exists>e sv' n'. update_session_state cd who sid req w (sv, n) = (Inl e, sv', n') \<and> error_status e = 409
           \<and> qc_body (last (command_queue (sv_registry sv') rid)) = CmdUpdateSessionState sid (state_update_request req)"
proof -
  have "bm_get (sessions (sv_registry sv)) sid = Some s"
    using assms(2) by (simp add: get_session_for_user_Inr_iff)
  then show ?thesis
    using assms
    by (simp add: update_session_state_def and_then_def read_registry_def quiet_read quiet_write quiet_persist
        done_with_def enqueue_runner_command_def apply_session_state_update_def persist_state_def store_snapshot_def
        bm_contains_def command_queue_def Let_def last_push_bounded max_commands_per_runner_def)
qed

text \<open>
  Commands can be lost on the socket: a drain takes them off the queue before the frame is sent, and
  neither a failing send puts them back nor is the snapshot written, which still holds them.
\<close>

lemma unsent_commands_lost:
  assumes "quiet w" "bm_contains (runners (sv_registry sv)) rid" "command_queue (sv_registry sv) rid \<noteq> []"
  shows "\<exists>sv' n'. serve_runner_command_stream rid [DrainDue False] w (sv, n) = (Inr [], sv', n')
           \<and> command_queue (sv_registry sv') rid = drop 16 (command_queue (sv_registry sv) rid)
           \<and> sv_db sv' = sv_db sv"
proof -
  obtain taken rest where p: "pop_up_to 16 (command_queue (sv_registry sv) rid) = (taken, rest)"
    by (cases "pop_up_to 16 (command_queue (sv_registry sv) rid)")
  with assms(3) have "taken \<noteq> []" "rest = drop 16 (command_queue (sv_registry sv) rid)"
    by (auto simp: pop_up_to_eq)
  with p assms(1,2) show ?thesis
    by (simp add: and_then_def attempt_def quiet_write done_with_def pull_runner_commands_def unwrap_or_def
        command_queue_def Let_def split: option.splits)
qed

text \<open>
  Two requests that persist at the same time can store their snapshots in the wrong order: what a request
  stores is the state it encoded, whatever newer snapshot others have stored since.
\<close>

lemma late_snapshot_overwrites_newer:
  "\<exists>sv'. persist_state_logged cd w (sv, n) = (Inr (), sv', Suc (Suc n))
       \<and> db_snapshot (sv_db sv') = Some (snapshot_payload cd (w_env w n sv))
       \<and> sv_registry sv' = sv_registry (w_env w (Suc n) (w_env w n sv))"
  by (simp add: persist_state_logged_def and_then_def read_service_def section_on_def store_snapshot_def
      persist_control_plane_state_from_payload_def)

section \<open>Long polling ends\<close>

lemma section_tick: "section_on f w (sv, n) = (res, sv', n') \<Longrightarrow> n' = Suc n"
  by (auto simp: section_on_def split: prod.splits)

lemma pull_loop_round:
  "\<exists>sv' n'. n < n' \<and> (fst (pull_loop cd rid limit deadline (Suc k) w (sv, n)) \<noteq> Inr None
        \<or> (\<not> deadline \<le> w_now w n' 0
           \<and> pull_loop cd rid limit deadline (Suc k) w (sv, n) = pull_loop cd rid limit deadline k w (sv', Suc n')))"
proof -
  obtain b sv1 where r: "read_registry (\<lambda>now ids r.
         Inr (is_some_and (\<lambda>q. q \<noteq> []) (bm_get (queued_runner_commands r) rid))) w (sv, n) = (Inr b, sv1, Suc n)"
    by (simp add: read_registry_def read_service_def section_on_def)
  obtain res sv2 n2 where p: "(if b then write_registry (\<lambda>now ids. pull_runner_commands rid limit) else done_with [])
      w (sv1, Suc n) = (res, sv2, n2)" by (rule prod_cases3)
  then have n2: "n < n2"
    by (cases b) (auto simp: write_registry_def done_with_def dest: section_tick)
  let ?env = "w_env w n2 sv2"
  have clock: "read_service (\<lambda>now ids sv. Inr (deadline \<le> now 0)) w (sv2, n2)
      = (Inr (deadline \<le> w_now w n2 0), ?env, Suc n2)"
    by (simp add: read_service_def section_on_def)
  have run: "pull_loop cd rid limit deadline (Suc k) w (sv, n) = (case res of
        Inl e \<Rightarrow> (Inl e, sv2, n2)
      | Inr cs \<Rightarrow> if cs \<noteq> [] then and_then (persist_state_logged cd) (\<lambda>_. done_with (Some cs)) w (sv2, n2)
          else if deadline \<le> w_now w n2 0 then (Inr (Some []), ?env, Suc n2)
          else pull_loop cd rid limit deadline k w (?env, Suc n2))"
    using p by (cases b; cases res) (simp_all add: and_then_def r clock done_with_def)
  have persist: "fst (and_then (persist_state_logged cd) (\<lambda>_. done_with (Some cs)) w (sv2, n2)) \<noteq> Inr None" for cs
    by (simp add: and_then_def persist_state_logged_def read_service_def section_on_def done_with_def)
  show ?thesis
  proof (rule exI [of _ ?env], rule exI [of _ n2], rule conjI [OF n2])
    show "fst (pull_loop cd rid limit deadline (Suc k) w (sv, n)) \<noteq> Inr None
        \<or> (\<not> deadline \<le> w_now w n2 0
           \<and> pull_loop cd rid limit deadline (Suc k) w (sv, n) = pull_loop cd rid limit deadline k w (?env, Suc n2))"
      unfolding run by (simp add: persist split: sum.split)
  qed
qed

lemma pull_loop_returns:
  assumes "\<And>i. m \<le> i \<Longrightarrow> deadline \<le> w_now w i 0" "m \<le> n + rounds"
  shows "fst (pull_loop cd rid limit deadline (Suc rounds) w (sv, n)) \<noteq> Inr None"
  using assms(2)
proof (induction rounds arbitrary: sv n)
  case 0
  obtain n' where "n < n'" "fst (pull_loop cd rid limit deadline (Suc 0) w (sv, n)) \<noteq> Inr None
      \<or> \<not> deadline \<le> w_now w n' 0"
    using pull_loop_round [of n cd rid limit deadline 0 w sv] by blast
  with 0 assms(1) show ?case by simp
next
  case (Suc rounds)
  obtain sv' n' where n': "n < n'" "fst (pull_loop cd rid limit deadline (Suc (Suc rounds)) w (sv, n)) \<noteq> Inr None
      \<or> pull_loop cd rid limit deadline (Suc (Suc rounds)) w (sv, n)
        = pull_loop cd rid limit deadline (Suc rounds) w (sv', Suc n')"
    using pull_loop_round [of n cd rid limit deadline "Suc rounds" w sv] by blast
  moreover have "fst (pull_loop cd rid limit deadline (Suc rounds) w (sv', Suc n')) \<noteq> Inr None"
    using n'(1) Suc.prems by (intro Suc.IH) simp
  ultimately show ?case by metis
qed

lemma pull_loop_error:
  "fst (pull_loop cd rid limit deadline rounds w s) = Inl e \<Longrightarrow> error_status e = 404"
proof (induction rounds arbitrary: s)
  case 0
  then show ?case by (simp add: done_with_def)
next
  case (Suc k)
  then show ?case
    by (auto simp: and_then_def read_registry_def read_service_def write_registry_def section_on_def done_with_def
        persist_state_logged_def pull_runner_commands_def split: prod.splits sum.splits if_splits)
qed

lemma pull_round_takes:
  assumes "\<And>i. n < i \<Longrightarrow> w_env w i = (\<lambda>sv. sv)" "w_env w n sv = sv1"
    and "bm_contains (runners (sv_registry sv1)) rid" "command_queue (sv_registry sv1) rid \<noteq> []"
    and "0 < limit"
  shows "\<exists>sv' n'. pull_loop cd rid limit deadline (Suc k) w (sv, n)
             = (Inr (Some (take limit (command_queue (sv_registry sv1) rid))), sv', n')
           \<and> command_queue (sv_registry sv') rid = drop limit (command_queue (sv_registry sv1) rid)"
proof -
  obtain q where q: "bm_get (queued_runner_commands (sv_registry sv1)) rid = Some q" "q \<noteq> []"
    using assms(4) by (auto simp: command_queue_def unwrap_or_def split: option.splits)
  moreover have "max limit 1 = limit" using assms(5) by simp
  ultimately show ?thesis using assms
    by (simp add: and_then_def read_registry_def read_service_def write_registry_def section_on_def done_with_def
        persist_state_logged_def store_snapshot_def pull_runner_commands_def command_queue_def pop_up_to_eq unwrap_or_def)
qed

lemma pull_round_waits:
  assumes "w_env w n sv = sv" "w_env w (Suc n) sv = sv1" "command_queue (sv_registry sv) rid = []"
  shows "pull_loop cd rid limit deadline (Suc k) w (sv, n)
       = (if deadline \<le> w_now w (Suc n) 0 then (Inr (Some []), sv1, Suc (Suc n))
          else pull_loop cd rid limit deadline k w (sv1, Suc (Suc n)))"
proof -
  have "\<not> is_some_and (\<lambda>q. q \<noteq> []) (bm_get (queued_runner_commands (sv_registry sv)) rid)"
    using assms(3) by (auto simp: command_queue_def unwrap_or_def is_some_and_iff)
  then show ?thesis using assms(1,2)
    by (simp add: and_then_def read_registry_def read_service_def section_on_def done_with_def)
qed


lemma pull_loop_waits:
  assumes "quiet w" "\<And>i. m \<le> i \<Longrightarrow> deadline \<le> w_now w i 0" "command_queue (sv_registry sv) rid = []"
    and "m \<le> n + rounds"
  shows "\<exists>t. pull_loop cd rid limit deadline (Suc rounds) w (sv, n) = (Inr (Some []), sv, Suc t)
           \<and> deadline \<le> w_now w t 0"
  using assms(4)
proof (induction rounds arbitrary: n)
  case 0
  with assms(2) have "deadline \<le> w_now w (Suc n) 0" by simp
  with pull_round_waits [of w n sv sv] assms(1,3) show ?case by (auto simp: quiet_def simp del: pull_loop.simps)
next
  case (Suc rounds)
  show ?case
  proof (cases "deadline \<le> w_now w (Suc n) 0")
    case True
    with pull_round_waits [of w n sv sv] assms(1,3) show ?thesis by (auto simp: quiet_def simp del: pull_loop.simps)
  next
    case False
    with pull_round_waits [of w n sv sv] assms(1,3) Suc.IH [of "Suc (Suc n)"] Suc.prems show ?thesis
      by (auto simp: quiet_def simp del: pull_loop.simps)
  qed
qed

text \<open>Another request that puts commands into the queue at tick \<open>k\<close>, the only one that interferes.\<close>

lemma pull_loop_delivers:
  assumes env: "w_env w = (\<lambda>i sv. if i = k then sv\<lparr>sv_registry := r\<rparr> else sv)"
    and r: "bm_contains (runners r) rid" "command_queue r rid \<noteq> []" "0 < limit"
    and early: "\<And>i. i \<le> Suc k \<Longrightarrow> w_now w i 0 < deadline"
    and "command_queue (sv_registry sv) rid = []" "n \<le> k" "k \<le> n + rounds"
  shows "\<exists>sv' t. pull_loop cd rid limit deadline (Suc rounds) w (sv, n) = (Inr (Some (take limit (command_queue r rid))), sv', t)
           \<and> command_queue (sv_registry sv') rid = drop limit (command_queue r rid)"
  using assms(7,8)
proof (induction rounds arbitrary: n)
  case 0
  then have "n = k" by simp
  with pull_round_takes [of n w sv "sv\<lparr>sv_registry := r\<rparr>" rid limit] env r show ?case
    by (simp del: pull_loop.simps)
next
  case (Suc rounds)
  have late: "\<not> deadline \<le> w_now w (Suc n) 0" if "n \<le> k" using early [of "Suc n"] that by simp
  consider "k = n" | "k = Suc n" | "Suc (Suc n) \<le> k" using Suc.prems(1) by linarith
  then show ?case
  proof cases
    case 1
    with pull_round_takes [of n w sv "sv\<lparr>sv_registry := r\<rparr>" rid limit] env r show ?thesis
      by (simp del: pull_loop.simps)
  next
    case 2
    with pull_round_waits [of w n sv "sv\<lparr>sv_registry := r\<rparr>"] env assms(6) late
      pull_round_takes [of "Suc (Suc n)" w "sv\<lparr>sv_registry := r\<rparr>" "sv\<lparr>sv_registry := r\<rparr>" rid limit] r
    show ?thesis by (simp del: pull_loop.simps)
  next
    case 3
    with pull_round_waits [of w n sv sv] env assms(6) late Suc.IH [of "Suc (Suc n)"] Suc.prems
    show ?thesis by (simp del: pull_loop.simps)
  qed
qed

lemma long_poll_start:
  "pull_runner_commands_handler cd rounds who rid limit timeout w (sv, 0) =
     (if runner_visible_to (sv_registry (w_env w 0 sv)) rid (user_id_from_principal who)
      then pull_loop cd rid (max 1 (min 64 (unwrap_or 16 limit)))
             (w_now w 1 0 + seconds (int (min (unwrap_or 0 timeout) 30))) rounds
             w (w_env w 1 (w_env w 0 sv), 2)
      else (Inl (NotFound ''runner {runner_id} was not found''), w_env w 0 sv, 1))"
  by (simp add: pull_runner_commands_handler_def and_then_def read_registry_def read_service_def section_on_def
      clamp_nat_def eval_nat_numeral)

text \<open>
  C17. A long poll answers, with what is queued. Suppose the clock is 30 seconds past its start from tick
  \<open>m\<close> on; then \<open>m + 1\<close> rounds are enough and, whatever other requests do meanwhile, the call answers with
  a list of commands or with a 404. With nobody interfering, a registered runner that the caller may see
  gets the oldest commands of its queue at once, as many as it asked for (between 1 and 64, 16 if it does
  not say), and they leave the queue; if the queue is empty it gets the empty list, no earlier than its
  deadline, and the service is unchanged. If another request fills the empty queue while the poll waits,
  with the deadline still ahead, then those commands are the answer.
\<close>

theorem long_poll_returns:
  assumes "\<And>i. m \<le> i \<Longrightarrow> w_now w 1 0 + seconds 30 \<le> w_now w i 0"
  shows "let run = pull_runner_commands_handler cd (Suc m) who rid limit timeout w (sv, 0);
             found = runner_visible_to (sv_registry sv) rid (user_id_from_principal who)
                     \<and> bm_contains (runners (sv_registry sv)) rid;
             queue = command_queue (sv_registry sv) rid;
             l = max 1 (min 64 (unwrap_or 16 limit));
             deadline = w_now w 1 0 + seconds (int (min (unwrap_or 0 timeout) 30))
         in ((\<exists>cs. fst run = Inr (Some cs)) \<or> (\<exists>e. fst run = Inl e \<and> error_status e = 404))
            \<and> (quiet w \<and> found \<and> queue \<noteq> [] \<longrightarrow>
                 (\<exists>sv' t. run = (Inr (Some (take l queue)), sv', t)
                        \<and> command_queue (sv_registry sv') rid = drop l queue))
            \<and> (quiet w \<and> found \<and> queue = [] \<longrightarrow>
                 (\<exists>t. run = (Inr (Some []), sv, Suc t) \<and> deadline \<le> w_now w t 0))
            \<and> (\<forall>k r. w_env w = (\<lambda>i sv. if i = k then sv\<lparr>sv_registry := r\<rparr> else sv) \<and> 2 \<le> k
                 \<and> found \<and> queue = [] \<and> bm_contains (runners r) rid \<and> command_queue r rid \<noteq> []
                 \<and> (\<forall>i \<le> Suc k. w_now w i 0 < deadline) \<longrightarrow>
                 (\<exists>sv' t. run = (Inr (Some (take l (command_queue r rid))), sv', t)
                        \<and> command_queue (sv_registry sv') rid = drop l (command_queue r rid)))"
proof -
  define deadline where "deadline = w_now w 1 0 + seconds (int (min (unwrap_or 0 timeout) 30))"
  define l where "l = max 1 (min 64 (unwrap_or 16 limit))"
  let ?run = "pull_runner_commands_handler cd (Suc m) who rid limit timeout w (sv, 0)"
  note start = long_poll_start [of cd "Suc m" who rid limit timeout w sv, folded deadline_def l_def]
  have "deadline \<le> w_now w 1 0 + seconds 30" by (simp add: deadline_def seconds_def)
  then have over: "\<And>i. m \<le> i \<Longrightarrow> deadline \<le> w_now w i 0" using assms order_trans by blast
  have l: "0 < l" by (simp add: l_def)
  have "fst (pull_loop cd rid l deadline (Suc m) w (sv1, 2)) \<noteq> Inr None" for sv1
    using pull_loop_returns [of m deadline w 2 m] over by simp
  moreover have "fst (pull_loop cd rid l deadline (Suc m) w (sv1, 2)) = Inl e \<Longrightarrow> error_status e = 404" for sv1 e
    by (rule pull_loop_error)
  ultimately have "(\<exists>cs. fst ?run = Inr (Some cs)) \<or> (\<exists>e. fst ?run = Inl e \<and> error_status e = 404)"
    unfolding start by (auto simp del: pull_loop.simps) (metis not_None_eq sumE)
  moreover have "\<exists>sv' t. ?run = (Inr (Some (take l (command_queue (sv_registry sv) rid))), sv', t)
      \<and> command_queue (sv_registry sv') rid = drop l (command_queue (sv_registry sv) rid)"
    if "quiet w" "runner_visible_to (sv_registry sv) rid (user_id_from_principal who)"
      "bm_contains (runners (sv_registry sv)) rid" "command_queue (sv_registry sv) rid \<noteq> []"
    using that pull_round_takes [of 2 w sv sv rid l cd deadline m] l unfolding start
    by (simp add: quiet_def del: pull_loop.simps)
  moreover have "\<exists>t. ?run = (Inr (Some []), sv, Suc t) \<and> deadline \<le> w_now w t 0"
    if "quiet w" "runner_visible_to (sv_registry sv) rid (user_id_from_principal who)"
      "command_queue (sv_registry sv) rid = []"
    using that pull_loop_waits [OF that(1) over that(3), of m 2] unfolding start
    by (simp add: quiet_def del: pull_loop.simps)
  moreover have "\<exists>sv' t. ?run = (Inr (Some (take l (command_queue r rid))), sv', t)
      \<and> command_queue (sv_registry sv') rid = drop l (command_queue r rid)"
    if "w_env w = (\<lambda>i sv. if i = k then sv\<lparr>sv_registry := r\<rparr> else sv)" "2 \<le> k"
      "runner_visible_to (sv_registry sv) rid (user_id_from_principal who)"
      "command_queue (sv_registry sv) rid = []" "bm_contains (runners r) rid" "command_queue r rid \<noteq> []"
      "\<forall>i \<le> Suc k. w_now w i 0 < deadline" for k r
  proof -
    have "k \<le> 2 + m" using that(7) over [of "Suc k"] by (cases "m \<le> Suc k") auto
    with that pull_loop_delivers [OF that(1,5,6) l _ that(4,2), of deadline m cd] show ?thesis
      unfolding start by (simp del: pull_loop.simps)
  qed
  ultimately show ?thesis unfolding Let_def deadline_def l_def by blast
qed

definition wit_slow_world :: "registry \<Rightarrow> world" where
  "wit_slow_world r = wit_world\<lparr>w_now := (\<lambda>n i. seconds (4 * int n)),
     w_env := (\<lambda>i sv. if i = 2 then sv\<lparr>sv_registry := r\<rparr> else sv)\<rparr>"

text \<open>A poll of ten seconds on an empty queue; a command comes in during the first round.\<close>

theorem long_poll_returns_witness:
  "let r = snd (enqueue_runner_command 5 9 [1] wit_state_command (sv_registry wit_waiting))
   in \<exists>c sv' t. pull_runner_commands_handler (wit_codec wit_service) (Suc 9) SharedToken [1] None (Some 10)
        (wit_slow_world r) (wit_waiting, 0) = (Inr (Some [c]), sv', t)
        \<and> qc_body c = wit_state_command \<and> command_queue (sv_registry sv') [1] = []"
proof -
  define r where "r = snd (enqueue_runner_command 5 9 [1] wit_state_command (sv_registry wit_waiting))"
  let ?w = "wit_slow_world r"
  let ?c = "\<lparr> qc_command_id = 9, qc_runner_id = [1], qc_created_at = 5, qc_body = wit_state_command \<rparr>"
  have q: "command_queue r [1] = [?c]" and run: "bm_contains (runners r) [1]"
    by (simp_all add: r_def enqueue_runner_command_def wit_waiting_def bm_contains_def command_queue_def Let_def
        push_bounded_eq registry_default_def max_commands_per_runner_def)
  have sv: "bm_contains (runners (sv_registry wit_waiting)) [1]" "command_queue (sv_registry wit_waiting) [1] = []"
    "runner_visible_to (sv_registry wit_waiting) [1] (user_id_from_principal SharedToken)"
    by (simp_all add: wit_waiting_def command_queue_def registry_default_def runner_visible_to_def user_id_from_principal_def)
  have now: "w_now ?w i 0 = seconds (4 * int i)" "w_env ?w = (\<lambda>i sv. if i = 2 then sv\<lparr>sv_registry := r\<rparr> else sv)" for i
    by (simp_all add: wit_slow_world_def)
  have clock: "w_now ?w 1 0 + seconds 30 \<le> w_now ?w i 0" if "9 \<le> i" for i
    using that unfolding now by (simp add: seconds_def)
  have early: "w_now ?w i 0 < w_now ?w 1 0 + seconds (int (min (unwrap_or 0 (Some 10)) 30))" if "i \<le> Suc 2" for i
    using that unfolding now by (simp add: seconds_def)
  note all = long_poll_returns [of 9 ?w "wit_codec wit_service" SharedToken "[1]" None "Some 10" wit_waiting,
      OF clock, unfolded Let_def, THEN conjunct2, THEN conjunct2, THEN conjunct2, THEN spec, THEN spec, THEN mp]
  obtain sv' t where "pull_runner_commands_handler (wit_codec wit_service) (Suc 9) SharedToken [1] None (Some 10) ?w (wit_waiting, 0)
      = (Inr (Some (take (max 1 (min 64 (unwrap_or 16 None))) (command_queue r [1]))), sv', t)"
    "command_queue (sv_registry sv') [1] = drop (max 1 (min 64 (unwrap_or 16 None))) (command_queue r [1])"
    using all [of 2 r] now(2) sv q run early by auto
  with q show ?thesis unfolding Let_def r_def [symmetric] by (auto simp: unwrap_or_def)
qed

end
