(* ===== verification/Cp_Views.thy ===== *)
theory Cp_Views
  imports Cp_Handlers
begin

text \<open>
  The request handlers that only read (\<^verbatim>\<open>rc-control-plane/src/handlers.rs\<close>): health, listings, single
  records, event queries and the event streams, with the filter that confines a tenant to its own events.
\<close>

section \<open>Tenant filter\<close>

record tenant_filter =
  tf_runner_ids :: "rstring list"
  tf_session_ids :: "uuid list"

definition tenant_filter_from_registry :: "registry \<Rightarrow> rstring option \<Rightarrow> tenant_filter option" where
  "tenant_filter_from_registry r user =
     (case user of
        None \<Rightarrow> None
      | Some uid \<Rightarrow>
          Some \<lparr> tf_runner_ids = map fst (filter (\<lambda>e. snd e = uid) (entries (runner_owners r))),
                 tf_session_ids = map fst (filter (\<lambda>e. ses_owner_user_id (snd e) = Some uid) (entries (sessions r))) \<rparr>)"

definition event_visible :: "tenant_filter \<Rightarrow> timeline_event \<Rightarrow> bool" where
  "event_visible f e =
     (case ev_runner_id e of
        Some rid \<Rightarrow> rid \<in> set (tf_runner_ids f)
      | None \<Rightarrow> (case ev_session_id e of Some sid \<Rightarrow> sid \<in> set (tf_session_ids f) | None \<Rightarrow> False))"

definition filter_events_by_tenant :: "timeline_event list \<Rightarrow> tenant_filter option \<Rightarrow> timeline_event list" where
  "filter_events_by_tenant es f = (case f of None \<Rightarrow> es | Some g \<Rightarrow> filter (event_visible g) es)"

section \<open>Health\<close>

record control_plane_health =
  ch_ok :: bool
  ch_service :: rstring
  ch_runner_count :: nat
  ch_available_runner_count :: nat
  ch_session_count :: nat
  ch_artifact_count :: nat
  ch_queued_runner_command_count :: nat
  ch_auth_required :: bool
  ch_bootstrap_secret_configured :: bool
  ch_owner_claimed :: bool
  ch_device_count :: nat

text \<open>Two sections: whether authentication is required is read before the counts.\<close>

definition get_health :: "control_plane_health task" where
  "get_health =
     and_then (read_service (\<lambda>now ids sv. Inr (auth_required (sv_auth sv) (sv_registry sv))))
       (\<lambda>auth. read_service (\<lambda>now ids sv.
          let r = sv_registry sv
          in Inr \<lparr> ch_ok = True, ch_service = cc_service_name (sv_config sv),
                   ch_runner_count = bm_len (runners r),
                   ch_available_runner_count =
                     length (filter (\<lambda>s. runner_is_available (now 0) s (sv_lease sv)) (bm_values (runners r))),
                   ch_session_count = bm_len (sessions r), ch_artifact_count = bm_len (artifacts r),
                   ch_queued_runner_command_count = queued_runner_command_count r,
                   ch_auth_required = auth,
                   ch_bootstrap_secret_configured = (cfg_bootstrap_secret_hash (sv_auth sv) \<noteq> None),
                   ch_owner_claimed = owner_claimed r, ch_device_count = trusted_device_count r \<rparr>))"

section \<open>Event queries\<close>

definition event_query ::
  "u64 option \<Rightarrow> nat option \<Rightarrow> timeline_event_kind option \<Rightarrow> uuid option \<Rightarrow> rstring option \<Rightarrow> bool \<Rightarrow> persisted_event_query" where
  "event_query after limit kind sid rid approvals_only =
     \<lparr> pq_after = after, pq_limit = limit, pq_kind = kind, pq_session_id = sid, pq_runner_id = rid,
       pq_approvals_only = approvals_only \<rparr>"

definition query_latest :: "string \<Rightarrow> persisted_event_query \<Rightarrow> u64 option task" where
  "query_latest msg q =
     read_service (\<lambda>now ids sv.
       case latest_persisted_event_sequence q sv of None \<Rightarrow> Inl (Internal msg) | Some x \<Rightarrow> Inr x)"

definition query_events :: "codec \<Rightarrow> string \<Rightarrow> persisted_event_query \<Rightarrow> timeline_event list task" where
  "query_events cd msg q =
     read_service (\<lambda>now ids sv.
       case list_persisted_events cd q sv of None \<Rightarrow> Inl (Internal msg) | Some x \<Rightarrow> Inr x)"

text \<open>\<^verbatim>\<open>RecentEventsQuery\<close>: the newest number that matches the kind, and one page of events.\<close>

definition query_page ::
  "codec \<Rightarrow> string \<Rightarrow> u64 option \<Rightarrow> nat option \<Rightarrow> timeline_event_kind option \<Rightarrow> uuid option \<Rightarrow> rstring option
   \<Rightarrow> (timeline_event list \<times> u64 option) task" where
  "query_page cd msg after limit kind sid rid =
     and_then (query_latest msg (event_query None None kind sid rid False))
       (\<lambda>latest. and_then (query_events cd msg
            (event_query after (Some (unwrap_or default_event_list_limit limit)) kind sid rid False))
       (\<lambda>items. done_with (items, latest)))"

definition read_tenant_filter :: "auth_principal \<Rightarrow> tenant_filter option task" where
  "read_tenant_filter who =
     read_registry (\<lambda>now ids r. Inr (tenant_filter_from_registry r (user_id_from_principal who)))"

definition require_session :: "auth_principal \<Rightarrow> uuid \<Rightarrow> session_record task" where
  "require_session who sid =
     read_registry (\<lambda>now ids r. get_session_for_user r sid (user_id_from_principal who))"

definition check_runner_visible :: "auth_principal \<Rightarrow> rstring \<Rightarrow> registry \<Rightarrow> unit api" where
  "check_runner_visible who rid r =
     (if runner_visible_to r rid (user_id_from_principal who) then Inr ()
      else Inl (NotFound ''runner {runner_id} was not found''))"

definition require_runner :: "auth_principal \<Rightarrow> rstring \<Rightarrow> unit task" where
  "require_runner who rid = read_registry (\<lambda>now ids r. check_runner_visible who rid r)"

definition list_recent_events ::
  "codec \<Rightarrow> auth_principal \<Rightarrow> u64 option \<Rightarrow> nat option \<Rightarrow> timeline_event_kind option
   \<Rightarrow> (timeline_event list \<times> u64 option) task" where
  "list_recent_events cd who after limit kind =
     and_then (read_tenant_filter who)
       (\<lambda>f. and_then (query_page cd ''failed to read persisted events'' after limit kind None None)
       (\<lambda>(items, latest). done_with (filter_events_by_tenant items f, latest)))"

definition list_session_events ::
  "codec \<Rightarrow> auth_principal \<Rightarrow> uuid \<Rightarrow> u64 option \<Rightarrow> nat option \<Rightarrow> timeline_event_kind option
   \<Rightarrow> (timeline_event list \<times> u64 option) task" where
  "list_session_events cd who sid after limit kind =
     and_then (require_session who sid)
       (\<lambda>_. query_page cd ''failed to read session events'' after limit kind (Some sid) None)"

definition list_runner_events ::
  "codec \<Rightarrow> auth_principal \<Rightarrow> rstring \<Rightarrow> u64 option \<Rightarrow> nat option \<Rightarrow> timeline_event_kind option
   \<Rightarrow> (timeline_event list \<times> u64 option) task" where
  "list_runner_events cd who rid after limit kind =
     and_then (require_runner who rid)
       (\<lambda>_. query_page cd ''failed to read runner events'' after limit kind None (Some rid))"

section \<open>Event streams\<close>

text \<open>
  A subscription starts before the backlog is read; the backlog is empty unless the client asks for the
  events after some number. \<open>feed\<close> is what the subscription delivers from then on and \<open>sends\<close> how many
  messages the peer takes; the result is what is sent.
\<close>

definition read_backlog :: "codec \<Rightarrow> string \<Rightarrow> persisted_event_query \<Rightarrow> timeline_event list task" where
  "read_backlog cd msg q = (if pq_after q \<noteq> None then query_events cd msg q else done_with [])"

definition tenant_allows :: "tenant_filter option \<Rightarrow> timeline_event \<Rightarrow> bool" where
  "tenant_allows f e = (case f of None \<Rightarrow> True | Some g \<Rightarrow> event_visible g e)"

definition subscribe_events ::
  "codec \<Rightarrow> auth_principal \<Rightarrow> u64 option \<Rightarrow> timeline_event_kind option \<Rightarrow> nat \<Rightarrow> feed_item list \<Rightarrow> timeline_event list task" where
  "subscribe_events cd who after kind sends feed =
     and_then (read_tenant_filter who)
       (\<lambda>f. and_then (read_backlog cd ''failed to replay persisted events'' (event_query after None kind None None False))
       (\<lambda>backlog. done_with (serve_filtered_event_stream sends feed (filter_events_by_tenant backlog f)
            (\<lambda>e. if \<not> event_matches_kind e kind then False else tenant_allows f e))))"

definition subscribe_session_events ::
  "codec \<Rightarrow> auth_principal \<Rightarrow> uuid \<Rightarrow> u64 option \<Rightarrow> timeline_event_kind option \<Rightarrow> nat \<Rightarrow> feed_item list
   \<Rightarrow> timeline_event list task" where
  "subscribe_session_events cd who sid after kind sends feed =
     and_then (require_session who sid)
       (\<lambda>_. and_then (read_backlog cd ''failed to replay persisted session events''
              (event_query after None kind (Some sid) None False))
       (\<lambda>backlog. done_with (serve_session_event_stream sends feed backlog sid kind)))"

definition subscribe_runner_events ::
  "codec \<Rightarrow> auth_principal \<Rightarrow> rstring \<Rightarrow> u64 option \<Rightarrow> timeline_event_kind option \<Rightarrow> nat \<Rightarrow> feed_item list
   \<Rightarrow> timeline_event list task" where
  "subscribe_runner_events cd who rid after kind sends feed =
     and_then (require_runner who rid)
       (\<lambda>_. and_then (read_backlog cd ''failed to replay persisted runner events''
              (event_query after None kind None (Some rid) False))
       (\<lambda>backlog. done_with (serve_runner_event_stream sends feed backlog rid kind)))"

definition subscribe_approvals ::
  "codec \<Rightarrow> auth_principal \<Rightarrow> u64 option \<Rightarrow> timeline_event_kind option \<Rightarrow> nat \<Rightarrow> feed_item list \<Rightarrow> timeline_event list task" where
  "subscribe_approvals cd who after kind sends feed =
     and_then (read_tenant_filter who)
       (\<lambda>f. and_then (read_backlog cd ''failed to replay persisted approval events''
              (event_query after None kind None None True))
       (\<lambda>backlog. done_with (serve_filtered_event_stream sends feed (filter_events_by_tenant backlog f)
            (\<lambda>e. if \<not> approval_event_matches e kind then False else tenant_allows f e))))"

definition subscribe_runner_approvals ::
  "codec \<Rightarrow> auth_principal \<Rightarrow> rstring \<Rightarrow> u64 option \<Rightarrow> timeline_event_kind option \<Rightarrow> nat \<Rightarrow> feed_item list
   \<Rightarrow> timeline_event list task" where
  "subscribe_runner_approvals cd who rid after kind sends feed =
     and_then (require_runner who rid)
       (\<lambda>_. and_then (read_backlog cd ''failed to replay persisted runner approvals''
              (event_query after None kind None (Some rid) True))
       (\<lambda>backlog. done_with (serve_runner_approval_stream sends feed backlog rid kind)))"

definition subscribe_session_approvals ::
  "codec \<Rightarrow> auth_principal \<Rightarrow> uuid \<Rightarrow> u64 option \<Rightarrow> timeline_event_kind option \<Rightarrow> nat \<Rightarrow> feed_item list
   \<Rightarrow> timeline_event list task" where
  "subscribe_session_approvals cd who sid after kind sends feed =
     and_then (require_session who sid)
       (\<lambda>_. and_then (read_backlog cd ''failed to replay persisted session approvals''
              (event_query after None kind (Some sid) None True))
       (\<lambda>backlog. done_with (serve_session_approval_stream sends feed backlog sid kind)))"

section \<open>Listings and single records\<close>

definition list_runners :: "auth_principal \<Rightarrow> runner_snapshot list task" where
  "list_runners who = read_registry (\<lambda>now ids r. Inr (list_runners_for_user r (user_id_from_principal who)))"

definition get_runner :: "auth_principal \<Rightarrow> rstring \<Rightarrow> runner_snapshot task" where
  "get_runner who rid =
     read_registry (\<lambda>now ids r. bind_result (check_runner_visible who rid r) (\<lambda>_. get_runner_snapshot r rid))"

definition list_runner_approvals_handler ::
  "auth_principal \<Rightarrow> rstring \<Rightarrow> (approval_request_record list \<times> u64 option) task" where
  "list_runner_approvals_handler who rid =
     and_then (read_registry (\<lambda>now ids r.
         bind_result (check_runner_visible who rid r) (\<lambda>_. list_runner_approvals r rid)))
       (\<lambda>items. and_then (query_latest ''failed to read runner approvals''
            (event_query None None None None (Some rid) True))
       (\<lambda>latest. done_with (items, latest)))"

definition list_sessions :: "auth_principal \<Rightarrow> list_sessions_query \<Rightarrow> session_view list task" where
  "list_sessions who q =
     read_service (\<lambda>now ids sv.
       Inr (build_session_views (now 0) (sv_lease sv) (sv_registry sv)
             (list_sessions_filtered (sv_registry sv) q (user_id_from_principal who))))"

definition get_session_handler :: "auth_principal \<Rightarrow> uuid \<Rightarrow> session_view task" where
  "get_session_handler who sid =
     read_service (\<lambda>now ids sv.
       bind_result (get_session_for_user (sv_registry sv) sid (user_id_from_principal who)) (\<lambda>s.
         Inr (build_session_view (now 0) (sv_lease sv) (sv_registry sv) s)))"

definition list_runner_sessions :: "auth_principal \<Rightarrow> rstring \<Rightarrow> list_sessions_query \<Rightarrow> session_view list task" where
  "list_runner_sessions who rid q =
     read_service (\<lambda>now ids sv.
       bind_result (check_runner_visible who rid (sv_registry sv)) (\<lambda>_.
         Inr (build_session_views (now 0) (sv_lease sv) (sv_registry sv)
               (list_sessions_filtered (sv_registry sv) (q\<lparr>lq_runner_id := Some rid\<rparr>)
                 (user_id_from_principal who)))))"

definition list_runner_artifacts_handler :: "auth_principal \<Rightarrow> rstring \<Rightarrow> artifact_record list task" where
  "list_runner_artifacts_handler who rid =
     read_registry (\<lambda>now ids r.
       bind_result (check_runner_visible who rid r) (\<lambda>_. list_runner_artifacts r rid))"

definition list_session_approvals_handler ::
  "auth_principal \<Rightarrow> uuid \<Rightarrow> (approval_request_record list \<times> u64 option) task" where
  "list_session_approvals_handler who sid =
     and_then (read_registry (\<lambda>now ids r.
         bind_result (get_session_for_user r sid (user_id_from_principal who)) (\<lambda>_. list_session_approvals r sid)))
       (\<lambda>items. and_then (query_latest ''failed to read session approvals''
            (event_query None None None (Some sid) None True))
       (\<lambda>latest. done_with (items, latest)))"

definition list_session_artifacts_handler :: "auth_principal \<Rightarrow> uuid \<Rightarrow> artifact_record list task" where
  "list_session_artifacts_handler who sid =
     read_registry (\<lambda>now ids r.
       bind_result (get_session_for_user r sid (user_id_from_principal who)) (\<lambda>_. list_session_artifacts r sid))"

definition list_artifacts_handler :: "auth_principal \<Rightarrow> artifact_record list task" where
  "list_artifacts_handler who = read_registry (\<lambda>now ids r. Inr (list_artifacts_for_user r (user_id_from_principal who)))"

definition get_artifact_handler :: "auth_principal \<Rightarrow> uuid \<Rightarrow> artifact_record task" where
  "get_artifact_handler who aid =
     read_registry (\<lambda>now ids r.
       bind_result (get_artifact r aid) (\<lambda>a.
       bind_result (get_session_for_user r (ar_session_id a) (user_id_from_principal who)) (\<lambda>_. Inr a)))"

text \<open>Here a failing query is swallowed: \<^verbatim>\<open>.ok().flatten()\<close>.\<close>

definition list_approvals_handler :: "auth_principal \<Rightarrow> (approval_request_record list \<times> u64 option) task" where
  "list_approvals_handler who =
     and_then (read_registry (\<lambda>now ids r. Inr (list_approvals_for_user r (user_id_from_principal who))))
       (\<lambda>items. and_then (attempt (query_latest '''' (event_query None None None None None True)))
       (\<lambda>latest. done_with (items, Option.bind latest (\<lambda>x. x))))"

definition get_approval_handler :: "auth_principal \<Rightarrow> uuid \<Rightarrow> approval_request_record task" where
  "get_approval_handler who aid =
     read_registry (\<lambda>now ids r.
       bind_result (get_approval r aid) (\<lambda>a.
       bind_result (get_session_for_user r (ap_session_id a) (user_id_from_principal who)) (\<lambda>_. Inr a)))"

section \<open>Tenants see their own\<close>

text \<open>Who an event belongs to: the owner of its runner, or of its session if it names no runner.\<close>

definition event_owner :: "registry \<Rightarrow> timeline_event \<Rightarrow> rstring option" where
  "event_owner r e =
     (case ev_runner_id e of
        Some rid \<Rightarrow> bm_get (runner_owners r) rid
      | None \<Rightarrow> Option.bind (ev_session_id e) (session_owner r))"

lemma keys_where: "k \<in> set (map fst (filter P (entries m))) \<longleftrightarrow> (\<exists>v. bm_get m k = Some v \<and> P (k, v))"
  by (auto simp: in_entries_iff image_iff)

lemma event_visible_iff:
  "tenant_filter_from_registry r (Some uid) = Some f \<Longrightarrow> event_visible f e \<longleftrightarrow> event_owner r e = Some uid"
  by (auto simp: tenant_filter_from_registry_def event_visible_def event_owner_def keys_where session_owner_def
      bind_eq_Some_conv simp del: set_map split: option.splits)

lemma tenant_filter_eq:
  "filter_events_by_tenant es (tenant_filter_from_registry r (Some uid)) = filter (\<lambda>e. event_owner r e = Some uid) es"
  "tenant_allows (tenant_filter_from_registry r (Some uid)) e \<longleftrightarrow> event_owner r e = Some uid"
proof -
  obtain f where f: "tenant_filter_from_registry r (Some uid) = Some f"
    by (simp add: tenant_filter_from_registry_def)
  show "filter_events_by_tenant es (tenant_filter_from_registry r (Some uid)) = filter (\<lambda>e. event_owner r e = Some uid) es"
    using f event_visible_iff [OF f] by (auto simp: filter_events_by_tenant_def intro: filter_cong)
  show "tenant_allows (tenant_filter_from_registry r (Some uid)) e \<longleftrightarrow> event_owner r e = Some uid"
    using f by (simp add: tenant_allows_def event_visible_iff [OF f])
qed

lemma stream_all:
  assumes "list_all P backlog" "\<And>e. f e \<Longrightarrow> P e"
  shows "list_all P (serve_filtered_event_stream sends feed backlog f)"
proof (cases "length backlog \<le> sends")
  case False
  with assms(1) show ?thesis
    by (auto simp: serve_filtered_event_stream_def replay_backlog_eq list_all_iff dest: in_set_takeD)
next
  case True
  with assms follow_feed_sound [of f feed "sends - length backlog" "if backlog = [] then 0 else ev_sequence (last backlog)"]
  show ?thesis
    by (auto simp: serve_filtered_event_stream_def replay_backlog_eq list_all_iff)
qed

text \<open>The answer of a task, if it is not an error.\<close>

definition answer :: "'a task \<Rightarrow> world \<Rightarrow> service \<times> nat \<Rightarrow> 'a option" where
  "answer t w s = (case fst (t w s) of Inl _ \<Rightarrow> None | Inr x \<Rightarrow> Some x)"

lemma answer_read_registry:
  "answer (read_registry f) w (sv, n) =
     (case f (w_now w n) (w_uuid w n) (sv_registry (w_env w n sv)) of Inl _ \<Rightarrow> None | Inr x \<Rightarrow> Some x)"
  by (simp add: answer_def read_registry_def read_service_def section_on_def)

lemma answer_read_service:
  "answer (read_service f) w (sv, n) =
     (case f (w_now w n) (w_uuid w n) (w_env w n sv) of Inl _ \<Rightarrow> None | Inr x \<Rightarrow> Some x)"
  by (simp add: answer_def read_service_def section_on_def)

lemma answer_and_then:
  "answer (and_then t k) w s = (case t w s of (Inl _, _) \<Rightarrow> None | (Inr x, s') \<Rightarrow> answer (k x) w s')"
  by (simp add: answer_def and_then_def split: prod.split sum.split)

lemma answer_done [simp]: "answer (done_with x) w s = Some x"
  by (simp add: answer_def done_with_def)

lemma answer_then_done:
  assumes "\<And>x. P (f x)"
  shows "is_none_or P (answer (and_then t (\<lambda>x. done_with (f x))) w s)"
  using assms by (simp add: answer_and_then split: prod.split sum.split)

lemma read_tenant_filter_run:
  "read_tenant_filter (User uid) w (sv, n) =
     (Inr (tenant_filter_from_registry (sv_registry (w_env w n sv)) (Some uid)), w_env w n sv, Suc n)"
  by (simp add: read_tenant_filter_def read_registry_def read_service_def section_on_def user_id_from_principal_def)

lemma get_session_for_tenant:
  "get_session_for_user r sid (Some uid) = Inr s \<Longrightarrow> session_owner r sid = Some uid"
  by (auto simp: get_session_for_user_Inr_iff session_visible_to_def session_owner_def)

lemma bind_result_answer:
  "(\<And>x. a = Inr x \<Longrightarrow> is_none_or P (case f x of Inl _ \<Rightarrow> None | Inr y \<Rightarrow> Some y))
   \<Longrightarrow> is_none_or P (case bind_result a f of Inl _ \<Rightarrow> None | Inr y \<Rightarrow> Some y)"
  by (cases a) simp_all

lemmas tenant_listings = session_view.tenant_sees_own runner_view.tenant_sees_own
  approval_view.tenant_sees_own artifact_view.tenant_sees_own

lemma tenant_lists:
  "is_none_or (list_all (\<lambda>v. ses_owner_user_id (sv_session v) = Some uid)) (answer (list_sessions (User uid) q) w (sv, n))"
  "is_none_or (list_all (\<lambda>s. bm_get (runner_owners (sv_registry (w_env w n sv))) (runner_of s) = Some uid))
     (answer (list_runners (User uid)) w (sv, n))"
  "is_none_or (list_all (\<lambda>a. session_owner (sv_registry (w_env w n sv)) (ar_session_id a) = Some uid))
     (answer (list_artifacts_handler (User uid)) w (sv, n))"
  "is_none_or (\<lambda>p. list_all (\<lambda>a. session_owner (sv_registry (w_env w n sv)) (ap_session_id a) = Some uid) (fst p))
     (answer (list_approvals_handler (User uid)) w (sv, n))"
proof -
  show "is_none_or (list_all (\<lambda>v. ses_owner_user_id (sv_session v) = Some uid)) (answer (list_sessions (User uid) q) w (sv, n))"
    by (simp add: list_sessions_def answer_read_service user_id_from_principal_def build_session_views_def
        build_session_view_def list_all_iff tenant_listings Let_def split: option.split prod.split)
  show "is_none_or (list_all (\<lambda>s. bm_get (runner_owners (sv_registry (w_env w n sv))) (runner_of s) = Some uid))
     (answer (list_runners (User uid)) w (sv, n))"
    by (simp add: list_runners_def answer_read_registry user_id_from_principal_def list_all_iff tenant_listings runner_of_def)
  show "is_none_or (list_all (\<lambda>a. session_owner (sv_registry (w_env w n sv)) (ar_session_id a) = Some uid))
     (answer (list_artifacts_handler (User uid)) w (sv, n))"
    by (simp add: list_artifacts_handler_def answer_read_registry user_id_from_principal_def list_all_iff tenant_listings)
  show "is_none_or (\<lambda>p. list_all (\<lambda>a. session_owner (sv_registry (w_env w n sv)) (ap_session_id a) = Some uid) (fst p))
     (answer (list_approvals_handler (User uid)) w (sv, n))"
    unfolding list_approvals_handler_def
    by (simp add: answer_and_then read_registry_def read_service_def section_on_def user_id_from_principal_def
        list_all_iff tenant_listings split: prod.split sum.split)
qed

lemma tenant_records:
  "is_none_or (\<lambda>_. session_owner (sv_registry (w_env w n sv)) sid = Some uid)
     (answer (get_session_handler (User uid) sid) w (sv, n))"
  "is_none_or (\<lambda>a. session_owner (sv_registry (w_env w n sv)) (ar_session_id a) = Some uid)
     (answer (get_artifact_handler (User uid) aid) w (sv, n))"
  "is_none_or (\<lambda>a. session_owner (sv_registry (w_env w n sv)) (ap_session_id a) = Some uid)
     (answer (get_approval_handler (User uid) aid) w (sv, n))"
  unfolding get_session_handler_def get_artifact_handler_def get_approval_handler_def answer_read_service
    answer_read_registry user_id_from_principal_def principal_user_id.simps
  by (intro bind_result_answer; simp add: get_session_for_tenant)+

lemma tenant_events:
  "is_none_or (\<lambda>p. list_all (\<lambda>e. event_owner (sv_registry (w_env w n sv)) e = Some uid) (fst p))
     (answer (list_recent_events cd (User uid) after limit kind) w (sv, n))"
  unfolding list_recent_events_def
  by (simp add: answer_and_then read_tenant_filter_run tenant_filter_eq list_all_iff split: prod.split sum.split)

lemma tenant_streams:
  "is_none_or (list_all (\<lambda>e. event_owner (sv_registry (w_env w n sv)) e = Some uid))
     (answer (subscribe_events cd (User uid) after kind sends feed) w (sv, n))"
  "is_none_or (list_all (\<lambda>e. event_owner (sv_registry (w_env w n sv)) e = Some uid))
     (answer (subscribe_approvals cd (User uid) after kind sends feed) w (sv, n))"
proof -
  show "is_none_or (list_all (\<lambda>e. event_owner (sv_registry (w_env w n sv)) e = Some uid))
     (answer (subscribe_events cd (User uid) after kind sends feed) w (sv, n))"
    unfolding subscribe_events_def answer_and_then [of "read_tenant_filter _"] read_tenant_filter_run prod.case sum.case
    by (intro answer_then_done stream_all) (auto simp: tenant_filter_eq list_all_iff split: if_splits)
  show "is_none_or (list_all (\<lambda>e. event_owner (sv_registry (w_env w n sv)) e = Some uid))
     (answer (subscribe_approvals cd (User uid) after kind sends feed) w (sv, n))"
    unfolding subscribe_approvals_def answer_and_then [of "read_tenant_filter _"] read_tenant_filter_run prod.case sum.case
    by (intro answer_then_done stream_all) (auto simp: tenant_filter_eq list_all_iff split: if_splits)
qed

text \<open>Reads below one session or one runner start with a check that it is the caller's.\<close>

lemma answer_after_session:
  assumes "\<And>x s. session_owner (sv_registry (w_env w n sv)) sid = Some uid \<Longrightarrow> is_none_or P (answer (k x) w s)"
  shows "is_none_or P (answer (and_then (require_session (User uid) sid) k) w (sv, n))"
proof (cases "get_session_for_user (sv_registry (w_env w n sv)) sid (Some uid)")
  case (Inl e)
  then show ?thesis
    by (simp add: answer_and_then require_session_def read_registry_def read_service_def section_on_def user_id_from_principal_def)
next
  case (Inr x)
  with assms [OF get_session_for_tenant [OF Inr], of x] show ?thesis
    by (simp add: answer_and_then require_session_def read_registry_def read_service_def section_on_def user_id_from_principal_def)
qed

lemma check_runner_visible_tenant:
  "check_runner_visible (User uid) rid r = Inr x \<longleftrightarrow> bm_get (runner_owners r) rid = Some uid"
  by (auto simp: check_runner_visible_def runner_visible_to_def user_id_from_principal_def is_some_and_iff)

lemma answer_after_runner:
  assumes "\<And>s. bm_get (runner_owners (sv_registry (w_env w n sv))) rid = Some uid \<Longrightarrow> is_none_or P (answer (k ()) w s)"
  shows "is_none_or P (answer (and_then (require_runner (User uid) rid) k) w (sv, n))"
proof (cases "check_runner_visible (User uid) rid (sv_registry (w_env w n sv))")
  case (Inl e)
  then show ?thesis
    by (simp add: answer_and_then require_runner_def read_registry_def read_service_def section_on_def)
next
  case (Inr x)
  then have "bm_get (runner_owners (sv_registry (w_env w n sv))) rid = Some uid" by (simp only: check_runner_visible_tenant)
  with assms Inr show ?thesis
    by (simp add: answer_and_then require_runner_def read_registry_def read_service_def section_on_def)
qed

lemma is_none_or_const: "P \<Longrightarrow> is_none_or (\<lambda>_. P) x"
  by (cases x) simp_all

lemma answer_live_stream:
  assumes "C" "\<And>e. f e \<Longrightarrow> P e"
  shows "is_none_or (\<lambda>es. C \<and> list_all P es)
     (answer (and_then (read_backlog cd msg (event_query None None kind sid rid b))
        (\<lambda>backlog. done_with (serve_filtered_event_stream sends feed backlog f))) w s)"
proof (cases s)
  case (Pair sv n)
  have "list_all P (serve_filtered_event_stream sends feed [] f)" by (rule stream_all) (simp_all add: assms(2))
  with Pair assms(1) show ?thesis
    by (simp add: answer_and_then read_backlog_def event_query_def) (simp add: done_with_def)
qed

lemma tenant_session_reads:
  "is_none_or (\<lambda>_. session_owner (sv_registry (w_env w n sv)) sid = Some uid)
     (answer (list_session_events cd (User uid) sid after limit kind) w (sv, n))"
  "is_none_or (\<lambda>_. session_owner (sv_registry (w_env w n sv)) sid = Some uid)
     (answer (subscribe_session_events cd (User uid) sid after kind sends feed) w (sv, n))"
  "is_none_or (\<lambda>_. session_owner (sv_registry (w_env w n sv)) sid = Some uid)
     (answer (subscribe_session_approvals cd (User uid) sid after kind sends feed) w (sv, n))"
  "is_none_or (\<lambda>es. session_owner (sv_registry (w_env w n sv)) sid = Some uid \<and> list_all (\<lambda>e. ev_session_id e = Some sid) es)
     (answer (subscribe_session_events cd (User uid) sid None kind sends feed) w (sv, n))"
  "is_none_or (\<lambda>es. session_owner (sv_registry (w_env w n sv)) sid = Some uid \<and> list_all (\<lambda>e. ev_session_id e = Some sid) es)
     (answer (subscribe_session_approvals cd (User uid) sid None kind sends feed) w (sv, n))"
  unfolding list_session_events_def subscribe_session_events_def subscribe_session_approvals_def
    serve_session_event_stream_def serve_session_approval_stream_def
  by (rule answer_after_session, (rule is_none_or_const answer_live_stream; simp))+

lemma tenant_runner_reads:
  "is_none_or (\<lambda>_. bm_get (runner_owners (sv_registry (w_env w n sv))) rid = Some uid)
     (answer (list_runner_events cd (User uid) rid after limit kind) w (sv, n))"
  "is_none_or (\<lambda>_. bm_get (runner_owners (sv_registry (w_env w n sv))) rid = Some uid)
     (answer (subscribe_runner_events cd (User uid) rid after kind sends feed) w (sv, n))"
  "is_none_or (\<lambda>_. bm_get (runner_owners (sv_registry (w_env w n sv))) rid = Some uid)
     (answer (subscribe_runner_approvals cd (User uid) rid after kind sends feed) w (sv, n))"
  "is_none_or (\<lambda>es. bm_get (runner_owners (sv_registry (w_env w n sv))) rid = Some uid \<and> list_all (\<lambda>e. ev_runner_id e = Some rid) es)
     (answer (subscribe_runner_events cd (User uid) rid None kind sends feed) w (sv, n))"
  "is_none_or (\<lambda>es. bm_get (runner_owners (sv_registry (w_env w n sv))) rid = Some uid \<and> list_all (\<lambda>e. ev_runner_id e = Some rid) es)
     (answer (subscribe_runner_approvals cd (User uid) rid None kind sends feed) w (sv, n))"
  unfolding list_runner_events_def subscribe_runner_events_def subscribe_runner_approvals_def
    serve_runner_event_stream_def serve_runner_approval_stream_def
  by (rule answer_after_runner, (rule is_none_or_const answer_live_stream; simp))+

lemma tenant_scoped_lists:
  "is_none_or (\<lambda>p. session_owner (sv_registry (w_env w n sv)) sid = Some uid \<and> list_all (\<lambda>a. ap_session_id a = sid) (fst p))
     (answer (list_session_approvals_handler (User uid) sid) w (sv, n))"
  "is_none_or (\<lambda>xs. session_owner (sv_registry (w_env w n sv)) sid = Some uid \<and> list_all (\<lambda>a. ar_session_id a = sid) xs)
     (answer (list_session_artifacts_handler (User uid) sid) w (sv, n))"
  "is_none_or (\<lambda>_. bm_get (runner_owners (sv_registry (w_env w n sv))) rid = Some uid)
     (answer (get_runner (User uid) rid) w (sv, n))"
  "is_none_or (\<lambda>xs. bm_get (runner_owners (sv_registry (w_env w n sv))) rid = Some uid
        \<and> list_all (\<lambda>v. ses_owner_user_id (sv_session v) = Some uid) xs)
     (answer (list_runner_sessions (User uid) rid q) w (sv, n))"
  "is_none_or (\<lambda>_. bm_get (runner_owners (sv_registry (w_env w n sv))) rid = Some uid)
     (answer (list_runner_approvals_handler (User uid) rid) w (sv, n))"
  "is_none_or (\<lambda>_. bm_get (runner_owners (sv_registry (w_env w n sv))) rid = Some uid)
     (answer (list_runner_artifacts_handler (User uid) rid) w (sv, n))"
proof -
  let ?r = "sv_registry (w_env w n sv)"
  have visible: "bm_get (runner_owners ?r) rid = Some uid" if "check_runner_visible (User uid) rid ?r = Inr x" for x
    using that by (simp add: check_runner_visible_tenant)
  show "is_none_or (\<lambda>p. session_owner ?r sid = Some uid \<and> list_all (\<lambda>a. ap_session_id a = sid) (fst p))
     (answer (list_session_approvals_handler (User uid) sid) w (sv, n))"
    unfolding list_session_approvals_handler_def
    by (auto simp: answer_and_then read_registry_def read_service_def section_on_def user_id_from_principal_def
        list_all_iff list_session_approvals_def bind_result_def get_session_for_tenant
        split: prod.split sum.splits if_splits)
  show "is_none_or (\<lambda>xs. session_owner ?r sid = Some uid \<and> list_all (\<lambda>a. ar_session_id a = sid) xs)
     (answer (list_session_artifacts_handler (User uid) sid) w (sv, n))"
    unfolding list_session_artifacts_handler_def answer_read_registry user_id_from_principal_def principal_user_id.simps
    by (rule bind_result_answer) (auto simp: get_session_for_tenant list_session_artifacts_def list_all_iff)
  show "is_none_or (\<lambda>_. bm_get (runner_owners ?r) rid = Some uid) (answer (get_runner (User uid) rid) w (sv, n))"
    unfolding get_runner_def answer_read_registry
    by (rule bind_result_answer) (rule is_none_or_const, rule visible)
  show "is_none_or (\<lambda>xs. bm_get (runner_owners ?r) rid = Some uid \<and> list_all (\<lambda>v. ses_owner_user_id (sv_session v) = Some uid) xs)
     (answer (list_runner_sessions (User uid) rid q) w (sv, n))"
    unfolding list_runner_sessions_def answer_read_service
    by (rule bind_result_answer)
      (simp add: visible user_id_from_principal_def build_session_views_def
        build_session_view_def list_all_iff tenant_listings Let_def split: option.split prod.split)
  show "is_none_or (\<lambda>_. bm_get (runner_owners ?r) rid = Some uid) (answer (list_runner_approvals_handler (User uid) rid) w (sv, n))"
    unfolding list_runner_approvals_handler_def
    by (auto simp: answer_and_then read_registry_def read_service_def section_on_def bind_result_def
        dest: visible split: prod.split sum.splits)
  show "is_none_or (\<lambda>_. bm_get (runner_owners ?r) rid = Some uid) (answer (list_runner_artifacts_handler (User uid) rid) w (sv, n))"
    unfolding list_runner_artifacts_handler_def answer_read_registry
    by (rule bind_result_answer) (rule is_none_or_const, rule visible)
qed

lemma tenant_download:
  "is_none_or (\<lambda>_. \<exists>a. bm_get (artifacts (sv_registry (w_env w n sv))) aid = Some a
        \<and> session_owner (sv_registry (w_env w n sv)) (ar_session_id a) = Some uid)
     (answer (download_artifact (User uid) aid) w (sv, n))"
proof -
  let ?r = "sv_registry (w_env w n sv)"
  have "\<exists>a. bm_get (artifacts ?r) aid = Some a \<and> session_owner ?r (ar_session_id a) = Some uid"
    if "bind_result (get_artifact ?r aid) (\<lambda>a. bind_result (get_session_for_user ?r (ar_session_id a) (Some uid)) (\<lambda>_. Inr a))
        = Inr x" for x
    using that get_session_for_tenant by (auto simp: bind_result_def get_artifact_def split: sum.splits option.splits)
  then show ?thesis
    unfolding download_artifact_def answer_and_then
    by (simp add: read_registry_def read_service_def section_on_def user_id_from_principal_def is_none_or_const
        split: prod.split sum.split)
qed

lemma event_owner_iff:
  "event_owner r e = Some uid \<longleftrightarrow>
     (\<exists>rid. ev_runner_id e = Some rid \<and> bm_get (runner_owners r) rid = Some uid)
     \<or> (\<exists>sid. ev_runner_id e = None \<and> ev_session_id e = Some sid \<and> session_owner r sid = Some uid)"
  by (auto simp: event_owner_def bind_eq_Some_conv split: option.split)


end
