(* ===== verification/Runner_Api.thy ===== *)
theory Runner_Api
  imports Cp_State "HOL-Library.Sublist"
begin

text \<open>
  The runner's own service (\<^verbatim>\<open>rc-runner/src/lib.rs\<close>): the sessions and approvals a runner keeps, the calls
  its host makes directly, the HTTP handlers that the control plane relays to, and the channel through
  which both tell the host what to do. Sessions and approvals sit behind two separate locks, so an
  operation that needs both is a sequence of sections; the sections are definitions of their own and the
  operation composes them. Errors of the direct calls (\<^verbatim>\<open>anyhow\<close>) are strings, those of the handlers
  \<open>api_error\<close>.
\<close>

section \<open>State\<close>

type_synonym 'a anyhow = "string + 'a"

datatype runner_api_event =
    SessionCreated runner_session_record
  | ApprovalResolved approval_request_record
  | SessionCommand uuid runner_session_command_request

definition runner_event_channel_capacity :: nat where "runner_event_channel_capacity = 1024"

text \<open>The bounded channel to the host: absent, with its receiver dropped, or open with what is queued.\<close>

datatype event_channel = NoChannel | ChannelClosed | ChannelOpen "runner_api_event list"

record latency_tracker =
  lt_commands_processed :: u64
  lt_total_latency_ms :: u64
  lt_max_latency_ms :: u64

definition latency_new :: latency_tracker where
  "latency_new = \<lparr> lt_commands_processed = 0, lt_total_latency_ms = 0, lt_max_latency_ms = 0 \<rparr>"

text \<open>\<^verbatim>\<open>fetch_add\<close> wraps; \<^verbatim>\<open>as_millis() as u64\<close> keeps the low 64 bits.\<close>

definition latency_record :: "nat \<Rightarrow> latency_tracker \<Rightarrow> latency_tracker" where
  "latency_record millis lt =
     (let ms = of_nat millis
      in \<lparr> lt_commands_processed = lt_commands_processed lt + 1,
           lt_total_latency_ms = lt_total_latency_ms lt + ms,
           lt_max_latency_ms = max (lt_max_latency_ms lt) ms \<rparr>)"

record command_latency_metrics =
  clm_commands_processed :: u64
  clm_avg_latency_ms :: u64
  clm_max_latency_ms :: u64

text \<open>The quotient of two counters as \<^verbatim>\<open>f64\<close> is a parameter; it is carried as its bit pattern (0.0 is 0).\<close>

definition latency_metrics :: "(u64 \<Rightarrow> u64 \<Rightarrow> u64) \<Rightarrow> latency_tracker \<Rightarrow> command_latency_metrics" where
  "latency_metrics f64_div lt =
     \<lparr> clm_commands_processed = lt_commands_processed lt,
       clm_avg_latency_ms =
         (if 0 < lt_commands_processed lt
          then f64_div (lt_total_latency_ms lt) (lt_commands_processed lt) else 0),
       clm_max_latency_ms = lt_max_latency_ms lt \<rparr>"

record runner_api =
  ra_registration :: runner_registration_request
  ra_sessions :: "(uuid, runner_session_record) btree"
  ra_approvals :: "(uuid, approval_request_record) btree"
  ra_event_tx :: event_channel
  ra_latency :: latency_tracker

definition runner_api_new :: "runner_registration_request \<Rightarrow> runner_api" where
  "runner_api_new reg =
     \<lparr> ra_registration = reg, ra_sessions = bm_empty, ra_approvals = bm_empty,
       ra_event_tx = NoChannel, ra_latency = latency_new \<rparr>"

definition with_event_channel :: "runner_api \<Rightarrow> runner_api" where
  "with_event_channel api = api\<lparr>ra_event_tx := ChannelOpen []\<rparr>"

definition record_command_latency :: "nat \<Rightarrow> runner_api \<Rightarrow> runner_api" where
  "record_command_latency millis api = api\<lparr>ra_latency := latency_record millis (ra_latency api)\<rparr>"

text \<open>\<^verbatim>\<open>try_send\<close>: a full or closed channel drops the event.\<close>

definition emit_event :: "runner_api_event \<Rightarrow> runner_api \<Rightarrow> runner_api" where
  "emit_event e api =
     (case ra_event_tx api of
        ChannelOpen q \<Rightarrow>
          if length q < runner_event_channel_capacity
          then api\<lparr>ra_event_tx := ChannelOpen (q @ [e])\<rparr> else api
      | _ \<Rightarrow> api)"

text \<open>What the host does at the other end of the channel: it takes the oldest event, or drops the receiver.\<close>

fun take_event :: "runner_api \<Rightarrow> runner_api_event option \<times> runner_api" where
  "take_event api =
     (case ra_event_tx api of
        ChannelOpen (e # q) \<Rightarrow> (Some e, api\<lparr>ra_event_tx := ChannelOpen q\<rparr>)
      | _ \<Rightarrow> (None, api))"

section \<open>Counting sessions\<close>

definition session_is_active :: "runner_session_record \<Rightarrow> bool" where
  "session_is_active s \<longleftrightarrow> rsr_state s \<in> {RsStarting, RsRunning, RsWaitingApproval}"

definition session_counts :: "(uuid, runner_session_record) btree \<Rightarrow> nat \<times> nat" where
  "session_counts m =
     (length (filter session_is_active (bm_values m)),
      length (filter (\<lambda>s. rsr_state s = RsPending) (bm_values m)))"

definition max_sessions :: "runner_api \<Rightarrow> nat" where
  "max_sessions api = unat (rc_max_parallel_sessions (rr_capabilities (ra_registration api)))"

definition at_capacity :: "runner_api \<Rightarrow> bool" where
  "at_capacity api =
     (case session_counts (ra_sessions api) of (active, queued) \<Rightarrow> max_sessions api \<le> active + queued)"

definition owned_workspace :: "runner_api \<Rightarrow> rstring \<Rightarrow> runner_workspace option" where
  "owned_workspace api wid = find (\<lambda>w. ws_workspace_id w = wid) (rr_workspaces (ra_registration api))"

fun runner_session_state_after_approval :: "approval_decision \<Rightarrow> bool \<Rightarrow> runner_session_state" where
  "runner_session_state_after_approval d True = RsWaitingApproval"
| "runner_session_state_after_approval Approved False = RsRunning"
| "runner_session_state_after_approval Denied False = RsFailed"
| "runner_session_state_after_approval DecisionCancelled False = RsCancelled"

section \<open>Direct calls: sessions\<close>

definition new_runner_session ::
  "instant \<Rightarrow> uuid \<Rightarrow> runner_session_create_request \<Rightarrow> runner_workspace \<Rightarrow> runner_api \<Rightarrow> runner_session_record" where
  "new_runner_session now sid req w api =
     \<lparr> rsr_session_id = sid, rsr_runner_id = rr_runner_id (ra_registration api),
       rsr_workspace_id = ws_workspace_id w, rsr_state = RsPending, rsr_metadata = rcr_metadata req,
       rsr_created_at = now, rsr_updated_at = now \<rparr>"

definition add_session :: "runner_session_record \<Rightarrow> runner_api \<Rightarrow> runner_api" where
  "add_session rec api =
     emit_event (SessionCreated rec)
       (api\<lparr>ra_sessions := bm_insert (rsr_session_id rec) rec (ra_sessions api)\<rparr>)"

definition create_session_direct ::
  "instant \<Rightarrow> uuid \<Rightarrow> runner_session_create_request \<Rightarrow> runner_api
   \<Rightarrow> runner_session_record anyhow \<times> runner_api" where
  "create_session_direct now fresh req api =
     (case owned_workspace api (rcr_workspace_id req) of
        None \<Rightarrow> (Inl ''workspace {} is not owned by this runner'', api)
      | Some w \<Rightarrow>
          (let sid = unwrap_or fresh (rcr_session_id req)
           in case bm_get (ra_sessions api) sid of
                Some existing \<Rightarrow> (Inr existing, api)
              | None \<Rightarrow>
                  if at_capacity api then (Inl ''runner {} is at session capacity ({})'', api)
                  else (let rec = new_runner_session now sid req w api
                        in (Inr rec, add_session rec api))))"

definition updated_runner_session ::
  "instant \<Rightarrow> runner_session_state_update_request \<Rightarrow> runner_session_record \<Rightarrow> runner_session_record" where
  "updated_runner_session now req s =
     s\<lparr>rsr_state := rsu_state req, rsr_metadata := bm_extend (rsr_metadata s) (rsu_metadata req),
       rsr_updated_at := now\<rparr>"

definition apply_session_state_update_direct ::
  "instant \<Rightarrow> uuid \<Rightarrow> runner_session_state_update_request \<Rightarrow> runner_api
   \<Rightarrow> runner_session_record anyhow \<times> runner_api" where
  "apply_session_state_update_direct now sid req api =
     (case bm_get (ra_sessions api) sid of
        None \<Rightarrow> (Inl ''session {} was not found'', api)
      | Some s \<Rightarrow>
          (let s' = updated_runner_session now req s
           in (Inr s', api\<lparr>ra_sessions := bm_insert sid s' (ra_sessions api)\<rparr>)))"

fun runner_command_message :: "runner_session_command_request \<Rightarrow> string" where
  "runner_command_message (SendPrompt _) = ''prompt forwarded''"
| "runner_command_message Interrupt = ''interrupt forwarded''"

definition command_response ::
  "uuid \<Rightarrow> runner_session_command_request \<Rightarrow> runner_session_command_response" where
  "command_response sid c = \<lparr> rcs_session_id = sid, rcs_accepted = True, rcs_message = runner_command_message c \<rparr>"

definition post_session_command_direct ::
  "uuid \<Rightarrow> runner_session_command_request \<Rightarrow> runner_api
   \<Rightarrow> runner_session_command_response anyhow \<times> runner_api" where
  "post_session_command_direct sid c api =
     (if \<not> bm_contains (ra_sessions api) sid then (Inl ''session {} was not found'', api)
      else (Inr (command_response sid c), emit_event (SessionCommand sid c) api))"

section \<open>Direct calls: approvals\<close>

text \<open>
  Creating an approval takes the approvals for reading, then the sessions, then the approvals for
  writing. The second section marks the session and builds the record; the third stores it.
\<close>

definition approval_existing :: "approval_create_request \<Rightarrow> runner_api \<Rightarrow> approval_request_record option" where
  "approval_existing req api = Option.bind (acr_approval_id req) (bm_get (ra_approvals api))"

definition new_approval ::
  "instant \<Rightarrow> uuid \<Rightarrow> uuid \<Rightarrow> approval_create_request \<Rightarrow> runner_api \<Rightarrow> approval_request_record" where
  "new_approval now fresh sid req api =
     \<lparr> ap_approval_id = unwrap_or fresh (acr_approval_id req), ap_session_id = sid,
       ap_runner_id = rr_runner_id (ra_registration api), ap_state = ApPending,
       ap_title = acr_title req, ap_description = acr_description req, ap_metadata = acr_metadata req,
       ap_created_at = now, ap_updated_at = now, ap_responded_at = None, ap_responder = None,
       ap_note = None \<rparr>"

definition mark_waiting ::
  "instant \<Rightarrow> uuid \<Rightarrow> uuid \<Rightarrow> approval_create_request \<Rightarrow> runner_api
   \<Rightarrow> (approval_request_record \<times> runner_api) option" where
  "mark_waiting now fresh sid req api =
     (case bm_get (ra_sessions api) sid of
        None \<Rightarrow> None
      | Some s \<Rightarrow>
          Some (new_approval now fresh sid req api,
                api\<lparr>ra_sessions := bm_insert sid
                       (s\<lparr>rsr_state := RsWaitingApproval, rsr_updated_at := now\<rparr>) (ra_sessions api)\<rparr>))"

definition store_approval :: "approval_request_record \<Rightarrow> runner_api \<Rightarrow> runner_api" where
  "store_approval a api = api\<lparr>ra_approvals := bm_insert (ap_approval_id a) a (ra_approvals api)\<rparr>"

definition create_approval_direct ::
  "instant \<Rightarrow> uuid \<Rightarrow> uuid \<Rightarrow> approval_create_request \<Rightarrow> runner_api
   \<Rightarrow> approval_request_record anyhow \<times> runner_api" where
  "create_approval_direct now fresh sid req api =
     (case approval_existing req api of
        Some existing \<Rightarrow> (Inr existing, api)
      | None \<Rightarrow>
          (case mark_waiting now fresh sid req api of
             None \<Rightarrow> (Inl ''session {} was not found'', api)
           | Some (a, api1) \<Rightarrow> (Inr a, store_approval a api1)))"

text \<open>
  A decision takes the approvals, decides there whether another approval of the session is pending, and
  then takes the sessions.
\<close>

datatype decision_section =
    DecisionUnknown
  | DecisionAlready approval_request_record
  | DecisionMade approval_request_record bool

definition decided_approval ::
  "instant \<Rightarrow> approval_decision_request \<Rightarrow> approval_request_record \<Rightarrow> approval_request_record" where
  "decided_approval now req a =
     a\<lparr>ap_state := approval_state_of (adr_decision req), ap_updated_at := now, ap_responded_at := Some now,
       ap_responder := adr_responder req, ap_note := adr_note req\<rparr>"

definition other_pending :: "approval_request_record \<Rightarrow> (uuid, approval_request_record) btree \<Rightarrow> bool" where
  "other_pending a m \<longleftrightarrow>
     list_ex (\<lambda>c. ap_session_id c = ap_session_id a \<and> ap_approval_id c \<noteq> ap_approval_id a
                  \<and> ap_state c = ApPending) (bm_values m)"

definition decide_approval ::
  "instant \<Rightarrow> uuid \<Rightarrow> approval_decision_request \<Rightarrow> runner_api \<Rightarrow> decision_section \<times> runner_api" where
  "decide_approval now aid req api =
     (case bm_get (ra_approvals api) aid of
        None \<Rightarrow> (DecisionUnknown, api)
      | Some a \<Rightarrow>
          if ap_state a \<noteq> ApPending then (DecisionAlready a, api)
          else (let a' = decided_approval now req a;
                    m = bm_insert aid a' (ra_approvals api)
                in (DecisionMade a' (other_pending a' m), api\<lparr>ra_approvals := m\<rparr>)))"

definition settle_decision ::
  "instant \<Rightarrow> approval_decision \<Rightarrow> approval_request_record \<Rightarrow> bool \<Rightarrow> runner_api \<Rightarrow> runner_api" where
  "settle_decision now d a pending api =
     emit_event (ApprovalResolved a)
       (api\<lparr>ra_sessions := bm_update (ap_session_id a)
              (\<lambda>s. s\<lparr>rsr_state := runner_session_state_after_approval d pending, rsr_updated_at := now\<rparr>)
              (ra_sessions api)\<rparr>)"

definition apply_approval_decision_direct ::
  "instant \<Rightarrow> uuid \<Rightarrow> approval_decision_request \<Rightarrow> runner_api
   \<Rightarrow> approval_request_record anyhow \<times> runner_api" where
  "apply_approval_decision_direct now aid req api =
     (case decide_approval now aid req api of
        (DecisionUnknown, api1) \<Rightarrow> (Inl ''approval {} was not found'', api1)
      | (DecisionAlready a, api1) \<Rightarrow> (Inr a, api1)
      | (DecisionMade a pending, api1) \<Rightarrow> (Inr a, settle_decision now (adr_decision req) a pending api1))"

section \<open>Reading\<close>

definition runner_state_of :: "nat \<Rightarrow> runner_state" where
  "runner_state_of active = (if 0 < active then Busy else Idle)"

definition heartbeat :: "instant \<Rightarrow> runner_api \<Rightarrow> runner_heartbeat" where
  "heartbeat now api =
     (case session_counts (ra_sessions api) of (active, queued) \<Rightarrow>
        \<lparr> hb_runner_id = rr_runner_id (ra_registration api), hb_state = runner_state_of active,
          hb_active_sessions = active, hb_queued_sessions = queued, hb_timestamp = now \<rparr>)"

record runner_health =
  rh_ok :: bool
  rh_runner_id :: rstring
  rh_state :: runner_state
  rh_active_sessions :: nat
  rh_queued_sessions :: nat
  rh_workspace_count :: nat
  rh_auth_required :: bool
  rh_command_latency_ms :: "command_latency_metrics option"

definition runner_get_health :: "(u64 \<Rightarrow> u64 \<Rightarrow> u64) \<Rightarrow> runner_api \<Rightarrow> runner_health" where
  "runner_get_health f64_div api =
     (case session_counts (ra_sessions api) of (active, queued) \<Rightarrow>
        \<lparr> rh_ok = True, rh_runner_id = rr_runner_id (ra_registration api), rh_state = runner_state_of active,
          rh_active_sessions = active, rh_queued_sessions = queued,
          rh_workspace_count = length (rr_workspaces (ra_registration api)),
          rh_auth_required = (rr_auth_token (ra_registration api) \<noteq> None),
          rh_command_latency_ms = Some (latency_metrics f64_div (ra_latency api)) \<rparr>)"

definition runner_list_sessions :: "runner_api \<Rightarrow> runner_session_record list" where
  "runner_list_sessions api = bm_values (ra_sessions api)"

definition runner_list_approvals :: "runner_api \<Rightarrow> approval_request_record list" where
  "runner_list_approvals api = bm_values (ra_approvals api)"

definition runner_get_session :: "uuid \<Rightarrow> runner_api \<Rightarrow> runner_session_record api" where
  "runner_get_session sid api =
     (case bm_get (ra_sessions api) sid of
        None \<Rightarrow> Inl (NotFound ''session {} was not found'') | Some s \<Rightarrow> Inr s)"

definition runner_get_approval :: "uuid \<Rightarrow> runner_api \<Rightarrow> approval_request_record api" where
  "runner_get_approval aid api =
     (case bm_get (ra_approvals api) aid of
        None \<Rightarrow> Inl (NotFound ''approval {} was not found'') | Some a \<Rightarrow> Inr a)"

definition runner_list_session_approvals :: "uuid \<Rightarrow> runner_api \<Rightarrow> approval_request_record list api" where
  "runner_list_session_approvals sid api =
     (if \<not> bm_contains (ra_sessions api) sid then Inl (NotFound ''session {} was not found'')
      else Inr (filter (\<lambda>a. ap_session_id a = sid) (bm_values (ra_approvals api))))"

section \<open>Handlers that change state\<close>

definition runner_create_session ::
  "instant \<Rightarrow> uuid \<Rightarrow> runner_session_create_request \<Rightarrow> runner_api
   \<Rightarrow> runner_session_record api \<times> runner_api" where
  "runner_create_session now fresh req api =
     (case owned_workspace api (rcr_workspace_id req) of
        None \<Rightarrow> (Inl (NotFound ''workspace {} is not owned by this runner''), api)
      | Some w \<Rightarrow>
          if at_capacity api then (Inl (Conflict ''runner {} is at session capacity ({})''), api)
          else (let rec = new_runner_session now (unwrap_or fresh (rcr_session_id req)) req w api
                in (Inr rec, add_session rec api)))"

definition runner_update_session_state ::
  "instant \<Rightarrow> uuid \<Rightarrow> runner_session_state_update_request \<Rightarrow> runner_api
   \<Rightarrow> runner_session_record api \<times> runner_api" where
  "runner_update_session_state now sid req api =
     (case bm_get (ra_sessions api) sid of
        None \<Rightarrow> (Inl (NotFound ''session {} was not found''), api)
      | Some s \<Rightarrow>
          (let s' = updated_runner_session now req s
           in (Inr s', api\<lparr>ra_sessions := bm_insert sid s' (ra_sessions api)\<rparr>)))"

definition runner_post_session_command ::
  "uuid \<Rightarrow> runner_session_command_request \<Rightarrow> runner_api
   \<Rightarrow> runner_session_command_response api \<times> runner_api" where
  "runner_post_session_command sid c api =
     (if \<not> bm_contains (ra_sessions api) sid then (Inl (NotFound ''session {} was not found''), api)
      else (Inr (command_response sid c), emit_event (SessionCommand sid c) api))"

definition runner_create_approval ::
  "instant \<Rightarrow> uuid \<Rightarrow> uuid \<Rightarrow> approval_create_request \<Rightarrow> runner_api
   \<Rightarrow> approval_request_record api \<times> runner_api" where
  "runner_create_approval now fresh sid req api =
     (case mark_waiting now fresh sid req api of
        None \<Rightarrow> (Inl (NotFound ''session {} was not found''), api)
      | Some (a, api1) \<Rightarrow> (Inr a, store_approval a api1))"

definition runner_apply_approval_decision ::
  "instant \<Rightarrow> uuid \<Rightarrow> approval_decision_request \<Rightarrow> runner_api
   \<Rightarrow> approval_request_record api \<times> runner_api" where
  "runner_apply_approval_decision now aid req api =
     (case decide_approval now aid req api of
        (DecisionUnknown, api1) \<Rightarrow> (Inl (NotFound ''approval {} was not found''), api1)
      | (DecisionAlready a, api1) \<Rightarrow> (Inl (Conflict ''approval {} is already resolved''), api1)
      | (DecisionMade a pending, api1) \<Rightarrow> (Inr a, settle_decision now (adr_decision req) a pending api1))"

section \<open>Frames\<close>

named_theorems runner_simps \<open>definitions unfolded when a runner operation is analysed\<close>

lemma emit_event_frame [simp]:
  "ra_registration (emit_event e api) = ra_registration api"
  "ra_sessions (emit_event e api) = ra_sessions api"
  "ra_approvals (emit_event e api) = ra_approvals api"
  "ra_latency (emit_event e api) = ra_latency api"
  by (simp_all add: emit_event_def split: event_channel.splits)

lemma take_event_frame [simp]:
  "ra_registration (snd (take_event api)) = ra_registration api"
  "ra_sessions (snd (take_event api)) = ra_sessions api"
  "ra_approvals (snd (take_event api)) = ra_approvals api"
  by (simp_all split: event_channel.splits list.splits)

lemma settle_decision_frame [simp]:
  "ra_registration (settle_decision now d a p api) = ra_registration api"
  "ra_approvals (settle_decision now d a p api) = ra_approvals api"
  by (simp_all add: settle_decision_def)

lemma add_session_frame [simp]:
  "ra_registration (add_session rec api) = ra_registration api"
  "ra_approvals (add_session rec api) = ra_approvals api"
  "ra_sessions (add_session rec api) = bm_insert (rsr_session_id rec) rec (ra_sessions api)"
  by (simp_all add: add_session_def)

lemma store_approval_frame [simp]:
  "ra_registration (store_approval a api) = ra_registration api"
  "ra_sessions (store_approval a api) = ra_sessions api"
  "ra_event_tx (store_approval a api) = ra_event_tx api"
  "ra_approvals (store_approval a api) = bm_insert (ap_approval_id a) a (ra_approvals api)"
  by (simp_all add: store_approval_def)

declare
  create_session_direct_def [runner_simps] apply_session_state_update_direct_def [runner_simps]
  post_session_command_direct_def [runner_simps] create_approval_direct_def [runner_simps]
  apply_approval_decision_direct_def [runner_simps] runner_create_session_def [runner_simps]
  runner_update_session_state_def [runner_simps] runner_post_session_command_def [runner_simps]
  runner_create_approval_def [runner_simps] runner_apply_approval_decision_def [runner_simps]
  decide_approval_def [runner_simps] mark_waiting_def [runner_simps] Let_def [runner_simps]

text \<open>The two forms of an operation differ in how they report, and where one of them checks more.\<close>

lemma update_forms_agree:
  "snd (runner_update_session_state now sid req api) = snd (apply_session_state_update_direct now sid req api)"
  by (simp add: runner_simps split: option.splits)

lemma decision_forms_agree:
  "snd (runner_apply_approval_decision now aid req api) = snd (apply_approval_decision_direct now aid req api)"
  by (simp add: runner_simps split: option.splits)

lemma create_approval_forms_agree:
  "approval_existing req api = None \<Longrightarrow>
   snd (runner_create_approval now fresh sid req api) = snd (create_approval_direct now fresh sid req api)"
  by (simp add: runner_simps split: option.splits)

section \<open>The channel to the host\<close>

definition channel_events :: "runner_api \<Rightarrow> runner_api_event list" where
  "channel_events api = (case ra_event_tx api of ChannelOpen q \<Rightarrow> q | _ \<Rightarrow> [])"

definition channel_ok :: "runner_api \<Rightarrow> bool" where
  "channel_ok api \<longleftrightarrow> length (channel_events api) \<le> runner_event_channel_capacity"

lemma emit_event_channel:
  "channel_events (emit_event e api) =
     (case ra_event_tx api of
        ChannelOpen q \<Rightarrow> if length q < runner_event_channel_capacity then q @ [e] else q
      | _ \<Rightarrow> [])"
  by (simp add: emit_event_def channel_events_def split: event_channel.splits)

lemma emit_event_ok: "channel_ok api \<Longrightarrow> channel_ok (emit_event e api)"
  by (auto simp: channel_ok_def emit_event_def channel_events_def split: event_channel.splits)

lemma take_event_ok: "channel_ok api \<Longrightarrow> channel_ok (snd (take_event api))"
  by (auto simp: channel_ok_def channel_events_def split: event_channel.splits list.splits)

text \<open>
  What the host has taken, followed by what is queued, is a sequence to which emitting only appends and
  from which taking removes nothing: events reach the host in the order in which they were accepted.
\<close>

datatype channel_act = Emit runner_api_event | Take

fun channel_run :: "channel_act list \<Rightarrow> runner_api_event list \<times> runner_api \<Rightarrow> runner_api_event list \<times> runner_api" where
  "channel_run [] st = st"
| "channel_run (Emit e # acts) (got, api) = channel_run acts (got, emit_event e api)"
| "channel_run (Take # acts) (got, api) =
     channel_run acts (case take_event api of (None, api') \<Rightarrow> (got, api') | (Some e, api') \<Rightarrow> (got @ [e], api'))"

fun emitted :: "channel_act list \<Rightarrow> runner_api_event list" where
  "emitted [] = []"
| "emitted (Emit e # acts) = e # emitted acts"
| "emitted (Take # acts) = emitted acts"

definition is_open :: "runner_api \<Rightarrow> bool" where
  "is_open api \<longleftrightarrow> (\<exists>q. ra_event_tx api = ChannelOpen q)"

lemma is_open_emit [simp]: "is_open (emit_event e api) = is_open api"
  by (auto simp: is_open_def emit_event_def split: event_channel.splits)

lemma take_event_open:
  assumes "is_open api"
  obtains "channel_events api = []" "take_event api = (None, api)"
    | e q where "channel_events api = e # q" "take_event api = (Some e, api\<lparr>ra_event_tx := ChannelOpen q\<rparr>)"
  using assms by (cases "channel_events api") (auto simp: is_open_def channel_events_def)

lemma channel_run_subseq:
  "is_open api \<Longrightarrow> channel_run acts (got, api) = (got', api') \<Longrightarrow>
   \<exists>es. subseq es (emitted acts) \<and> got' @ channel_events api' = got @ channel_events api @ es"
proof (induction acts arbitrary: got api)
  case Nil
  then show ?case by auto
next
  case (Cons a acts)
  show ?case
  proof (cases a)
    case (Emit e)
    from Cons.prems Emit obtain es where es: "subseq es (emitted acts)"
      "got' @ channel_events api' = got @ channel_events (emit_event e api) @ es"
      using Cons.IH [of "emit_event e api" got] by auto
    from Cons.prems(1) have "channel_events (emit_event e api) = channel_events api @ [e]
        \<or> channel_events (emit_event e api) = channel_events api"
      by (auto simp: is_open_def emit_event_def channel_events_def split: if_splits)
    with es Emit show ?thesis
      by (metis append.assoc append_Cons append_Nil emitted.simps(2) subseq_Cons' subseq_Cons2 list_emb_Cons)
  next
    case Take
    from Cons.prems(1) show ?thesis
    proof (cases rule: take_event_open)
      case 1
      with Take Cons.prems Cons.IH [of api got] show ?thesis by simp
    next
      case (2 e q)
      with Take Cons.prems Cons.IH [of "api\<lparr>ra_event_tx := ChannelOpen q\<rparr>" "got @ [e]"]
      show ?thesis by (simp add: is_open_def channel_events_def)
    qed
  qed
qed

lemma channel_run_room:
  "is_open api \<Longrightarrow> channel_run acts (got, api) = (got', api') \<Longrightarrow>
   length (channel_events api) + length (emitted acts) \<le> runner_event_channel_capacity \<Longrightarrow>
   got' @ channel_events api' = got @ channel_events api @ emitted acts"
proof (induction acts arbitrary: got api)
  case (Cons a acts)
  show ?case
  proof (cases a)
    case (Emit e)
    from Cons.prems Emit have "channel_events (emit_event e api) = channel_events api @ [e]"
      by (auto simp: is_open_def emit_event_def channel_events_def)
    with Cons.prems Emit Cons.IH [of "emit_event e api" got] show ?thesis by simp
  next
    case Take
    from Cons.prems(1) show ?thesis
    proof (cases rule: take_event_open)
      case 1
      with Take Cons.prems Cons.IH [of api got] show ?thesis by simp
    next
      case (2 e q)
      with Take Cons.prems Cons.IH [of "api\<lparr>ra_event_tx := ChannelOpen q\<rparr>" "got @ [e]"]
      show ?thesis by (simp add: is_open_def channel_events_def)
    qed
  qed
qed simp

text \<open>A prompt is answered as accepted even when the channel is full and drops it.\<close>

lemma saturated_prompt_accepted:
  assumes "ra_event_tx api = ChannelOpen q" "length q = runner_event_channel_capacity"
    "bm_get (ra_sessions api) sid = Some s"
  shows "fst (post_session_command_direct sid c api) = Inr (command_response sid c)
    \<and> rcs_accepted (command_response sid c) \<and> snd (post_session_command_direct sid c api) = api"
  using assms by (simp add: post_session_command_direct_def command_response_def emit_event_def)

section \<open>An approval is decided once\<close>

text \<open>
  Both forms of the decision share this contract: a decision on a pending approval settles it, and a
  settled approval is never changed by another decision, whatever is decided about it or about others.
\<close>

locale decide_once =
  fixes lookup :: "'s \<Rightarrow> uuid \<Rightarrow> approval_request_record option"
    and decide :: "instant \<Rightarrow> uuid \<Rightarrow> approval_decision_request \<Rightarrow> 's \<Rightarrow> 's"
  assumes decide_pending:
      "lookup s aid = Some a \<Longrightarrow> ap_state a = ApPending \<Longrightarrow>
       lookup (decide now aid req s) aid = Some (decided_approval now req a)"
    and decide_settled:
      "lookup s aid = Some a \<Longrightarrow> ap_state a \<noteq> ApPending \<Longrightarrow> lookup (decide now aid req s) aid = Some a"
    and decide_other: "aid' \<noteq> aid \<Longrightarrow> lookup (decide now aid req s) aid' = lookup s aid'"
begin

lemma decide_all_settled:
  "lookup s aid = Some a \<Longrightarrow> ap_state a \<noteq> ApPending \<Longrightarrow> lookup (fold (\<lambda>(now, aid, req). decide now aid req) ds s) aid = Some a"
proof (induction ds arbitrary: s)
  case (Cons d ds)
  obtain now b req where d: "d = (now, b, req)" by (cases d)
  have "lookup (decide now b req s) aid = Some a"
    using Cons.prems decide_other [of aid b] decide_settled by (cases "b = aid") auto
  with Cons d show ?case by simp
qed simp

lemma first_decision_wins:
  assumes "lookup s aid = Some a" "ap_state a = ApPending"
  shows "lookup (fold (\<lambda>(now, aid, req). decide now aid req) ds (decide now aid req s)) aid = Some (decided_approval now req a)"
  by (rule decide_all_settled [OF decide_pending [OF assms]]) (simp add: decided_approval_def)

end

lemma decision_approvals:
  "bm_get (ra_approvals (snd (apply_approval_decision_direct now aid req api))) k =
     (case bm_get (ra_approvals api) k of
        None \<Rightarrow> None
      | Some a \<Rightarrow> Some (if k = aid \<and> ap_state a = ApPending then decided_approval now req a else a))"
  by (auto simp: runner_simps split: option.splits)

interpretation direct: decide_once
  "\<lambda>api. bm_get (ra_approvals api)" "\<lambda>now aid req api. snd (apply_approval_decision_direct now aid req api)"
  by unfold_locales (auto simp: decision_approvals split: option.splits)

interpretation relayed: decide_once
  "\<lambda>api. bm_get (ra_approvals api)" "\<lambda>now aid req api. snd (runner_apply_approval_decision now aid req api)"
  unfolding decision_forms_agree by (rule direct.decide_once_axioms)

end
