(* ===== verification/Runner_System.thy ===== *)
theory Runner_System
  imports Runner_Api
begin

text \<open>
  The runner's service under concurrency. A state is the service together with the operations that are
  between two of their lock sections; any of them may take its next section, may be overtaken by others,
  or may be dropped, as happens to a handler whose client goes away. The invariant of all reachable
  states, what survives every interleaving, and the interleavings that break a decision's effect.
\<close>

section \<open>Steps\<close>

datatype runner_task =
    TaskEmit runner_api_event
  | TaskMark uuid approval_create_request
  | TaskStore approval_request_record
  | TaskSettle instant approval_decision approval_request_record bool

type_synonym runner_system = "runner_api \<times> runner_task list"

inductive runner_step :: "runner_system \<Rightarrow> runner_system \<Rightarrow> bool" where
  step_create_direct: "runner_step (api, ts) (snd (create_session_direct now fresh req api), ts)"
| step_create_relayed: "runner_step (api, ts) (snd (runner_create_session now fresh req api), ts)"
| step_update: "runner_step (api, ts) (snd (apply_session_state_update_direct now sid upd api), ts)"
| step_command: "bm_contains (ra_sessions api) sid \<Longrightarrow>
    runner_step (api, ts) (api, TaskEmit (SessionCommand sid c) # ts)"
| step_emit: "TaskEmit e \<in> set ts \<Longrightarrow> runner_step (api, ts) (emit_event e api, remove1 (TaskEmit e) ts)"
| step_approval_check: "approval_existing areq api = None \<Longrightarrow>
    runner_step (api, ts) (api, TaskMark sid areq # ts)"
| step_mark: "TaskMark sid areq \<in> set ts \<Longrightarrow> mark_waiting now fresh sid areq api = Some (a, api1) \<Longrightarrow>
    runner_step (api, ts) (api1, TaskStore a # remove1 (TaskMark sid areq) ts)"
| step_mark_relayed: "mark_waiting now fresh sid areq api = Some (a, api1) \<Longrightarrow>
    runner_step (api, ts) (api1, TaskStore a # ts)"
| step_store: "TaskStore a \<in> set ts \<Longrightarrow> runner_step (api, ts) (store_approval a api, remove1 (TaskStore a) ts)"
| step_decide: "decide_approval now aid dreq api = (DecisionMade a p, api1) \<Longrightarrow>
    runner_step (api, ts) (api1, TaskSettle now (adr_decision dreq) a p # ts)"
| step_settle: "TaskSettle now d a p \<in> set ts \<Longrightarrow>
    runner_step (api, ts) (settle_decision now d a p api, remove1 (TaskSettle now d a p) ts)"
| step_dropped: "runner_step (api, ts) (api, remove1 t ts)"
| step_host_takes: "runner_step (api, ts) (snd (take_event api), ts)"
| step_host_gone: "runner_step (api, ts) (api\<lparr>ra_event_tx := ChannelClosed\<rparr>, ts)"
| step_latency: "runner_step (api, ts) (record_command_latency ms api, ts)"

definition runner_start :: "runner_registration_request \<Rightarrow> runner_system \<Rightarrow> bool" where
  "runner_start reg st \<longleftrightarrow>
     st = (runner_api_new reg, []) \<or> st = (with_event_channel (runner_api_new reg), [])"

section \<open>The invariant\<close>

definition session_wf :: "runner_api \<Rightarrow> uuid \<Rightarrow> runner_session_record \<Rightarrow> bool" where
  "session_wf api k s \<longleftrightarrow>
     rsr_session_id s = k \<and> rsr_runner_id s = rr_runner_id (ra_registration api)
     \<and> owned_workspace api (rsr_workspace_id s) \<noteq> None"

definition approval_wf :: "runner_api \<Rightarrow> uuid \<Rightarrow> approval_request_record \<Rightarrow> bool" where
  "approval_wf api k a \<longleftrightarrow>
     ap_approval_id a = k \<and> ap_runner_id a = rr_runner_id (ra_registration api)
     \<and> bm_contains (ra_sessions api) (ap_session_id a)
     \<and> (ap_responded_at a = None \<longleftrightarrow> ap_state a = ApPending)"

definition event_wf :: "runner_api \<Rightarrow> runner_api_event \<Rightarrow> bool" where
  "event_wf api e \<longleftrightarrow>
     bm_contains (ra_sessions api)
       (case e of SessionCreated s \<Rightarrow> rsr_session_id s | ApprovalResolved a \<Rightarrow> ap_session_id a
        | SessionCommand sid _ \<Rightarrow> sid)
     \<and> (\<forall>a. e = ApprovalResolved a \<longrightarrow> ap_state a \<noteq> ApPending)"

fun task_wf :: "runner_api \<Rightarrow> runner_task \<Rightarrow> bool" where
  "task_wf api (TaskEmit e) \<longleftrightarrow> event_wf api e"
| "task_wf api (TaskMark sid req) \<longleftrightarrow> True"
| "task_wf api (TaskStore a) \<longleftrightarrow> approval_wf api (ap_approval_id a) a \<and> ap_state a = ApPending"
| "task_wf api (TaskSettle now d a p) \<longleftrightarrow>
     approval_wf api (ap_approval_id a) a \<and> ap_state a = approval_state_of d"

definition api_wf :: "runner_api \<Rightarrow> bool" where
  "api_wf api \<longleftrightarrow>
     (\<forall>k s. bm_get (ra_sessions api) k = Some s \<longrightarrow> session_wf api k s)
     \<and> (\<forall>k a. bm_get (ra_approvals api) k = Some a \<longrightarrow> approval_wf api k a)
     \<and> list_all (event_wf api) (channel_events api) \<and> channel_ok api"

definition runner_inv :: "runner_system \<Rightarrow> bool" where
  "runner_inv st \<longleftrightarrow> api_wf (fst st) \<and> list_all (task_wf (fst st)) (snd st)"

text \<open>
  What every section keeps: the registration, the sessions with their identity, and the approvals. The
  conditions on approvals, events and tasks only depend on these, so they are stable.
\<close>

definition extends :: "runner_api \<Rightarrow> runner_api \<Rightarrow> bool" where
  "extends api api' \<longleftrightarrow>
     ra_registration api' = ra_registration api
     \<and> (\<forall>k. bm_contains (ra_sessions api) k \<longrightarrow> bm_contains (ra_sessions api') k)
     \<and> (\<forall>k. bm_contains (ra_approvals api) k \<longrightarrow> bm_contains (ra_approvals api') k)"

lemma extends_refl [simp]: "extends api api"
  by (simp add: extends_def)

lemma extends_trans: "extends a b \<Longrightarrow> extends b c \<Longrightarrow> extends a c"
  by (auto simp: extends_def)

lemma extends_stable:
  assumes "extends api api'"
  shows "approval_wf api k a \<Longrightarrow> approval_wf api' k a"
    and "event_wf api e \<Longrightarrow> event_wf api' e"
    and "task_wf api t \<Longrightarrow> task_wf api' t"
proof -
  show ap: "approval_wf api k a \<Longrightarrow> approval_wf api' k a" for k a
    using assms by (auto simp: approval_wf_def extends_def)
  show ev: "event_wf api e \<Longrightarrow> event_wf api' e" for e
    using assms by (auto simp: event_wf_def extends_def split: runner_api_event.splits)
  show "task_wf api t \<Longrightarrow> task_wf api' t"
    by (cases t) (auto intro: ap ev)
qed

lemma extends_owned: "extends api api' \<Longrightarrow> owned_workspace api' w = owned_workspace api w"
  by (simp add: extends_def owned_workspace_def)

lemma extends_session_wf: "extends api api' \<Longrightarrow> session_wf api' k s = session_wf api k s"
  by (simp add: session_wf_def extends_owned) (simp add: extends_def)

lemma extendsI:
  assumes "ra_registration api' = ra_registration api"
    "\<And>k v. bm_get (ra_sessions api) k = Some v \<Longrightarrow> bm_get (ra_sessions api') k \<noteq> None"
    "\<And>k v. bm_get (ra_approvals api) k = Some v \<Longrightarrow> bm_get (ra_approvals api') k \<noteq> None"
  shows "extends api api'"
  using assms by (fastforce simp: extends_def)

text \<open>The changes a section makes, as rules for the service's well-formedness.\<close>

lemma api_wf_extend:
  assumes "api_wf api" "extends api api'"
    and "\<And>k s. bm_get (ra_sessions api') k = Some s \<Longrightarrow> session_wf api k s"
    and "\<And>k a. bm_get (ra_approvals api') k = Some a \<Longrightarrow> approval_wf api' k a"
    and "list_all (event_wf api') (channel_events api')" "channel_ok api'"
  shows "api_wf api'"
  using assms extends_session_wf [OF assms(2)] by (simp add: api_wf_def)

lemma api_wf_sessions:
  assumes "api_wf api" "ra_registration api' = ra_registration api"
    "ra_approvals api' = ra_approvals api" "ra_event_tx api' = ra_event_tx api"
    "\<And>k s. bm_get (ra_sessions api') k = Some s \<Longrightarrow> session_wf api k s"
    "\<And>k s. bm_get (ra_sessions api) k = Some s \<Longrightarrow> bm_get (ra_sessions api') k \<noteq> None"
  shows "api_wf api' \<and> extends api api'"
proof -
  have ext: "extends api api'" using assms by (intro extendsI) auto
  have ch: "channel_events api' = channel_events api" using assms(4) by (simp add: channel_events_def)
  have "api_wf api'"
    using assms ext ch extends_stable [OF ext]
    by (intro api_wf_extend [OF assms(1) ext]) (auto simp: api_wf_def channel_ok_def list_all_iff)
  with ext show ?thesis by simp
qed

lemma emit_event_wf:
  assumes "api_wf api" "event_wf api e"
  shows "api_wf (emit_event e api) \<and> extends api (emit_event e api)"
proof -
  have ext: "extends api (emit_event e api)" by (rule extendsI) auto
  have "list_all (event_wf api) (channel_events (emit_event e api))"
    using assms by (auto simp: emit_event_def channel_events_def api_wf_def split: event_channel.splits if_splits)
  then have ev: "list_all (event_wf (emit_event e api)) (channel_events (emit_event e api))"
    using extends_stable(2) [OF ext] by (auto simp: list_all_iff)
  have "api_wf (emit_event e api)"
    using assms(1) ev extends_stable(1) [OF ext] emit_event_ok
    by (intro api_wf_extend [OF assms(1) ext]) (auto simp: api_wf_def)
  with ext show ?thesis by simp
qed

section \<open>Every section keeps the invariant\<close>

definition keeps :: "runner_api \<Rightarrow> runner_api \<Rightarrow> bool" where
  "keeps api api' \<longleftrightarrow> api_wf api' \<and> extends api api'"

lemma keeps_trans: "keeps a b \<Longrightarrow> keeps b c \<Longrightarrow> keeps a c"
  by (auto simp: keeps_def intro: extends_trans)

lemma keeps_refl: "api_wf api \<Longrightarrow> keeps api api"
  by (simp add: keeps_def)

lemma owned_workspace_self: "owned_workspace api w = Some ws \<Longrightarrow> ws_workspace_id ws = w"
  by (auto simp: owned_workspace_def dest: find_Some_D)

lemma add_session_keeps:
  assumes "api_wf api" "owned_workspace api (rcr_workspace_id req) = Some w"
  shows "keeps api (add_session (new_runner_session now sid req w api) api)"
proof -
  let ?rec = "new_runner_session now sid req w api"
  let ?api1 = "api\<lparr>ra_sessions := bm_insert sid ?rec (ra_sessions api)\<rparr>"
  have wf: "session_wf api sid ?rec"
    using assms(2) owned_workspace_self [OF assms(2)] by (simp add: session_wf_def new_runner_session_def)
  have k1: "keeps api ?api1"
    unfolding keeps_def using assms(1) wf by (intro api_wf_sessions) (auto simp: api_wf_def split: if_splits)
  have "event_wf ?api1 (SessionCreated ?rec)" by (simp add: event_wf_def new_runner_session_def)
  then have "keeps ?api1 (emit_event (SessionCreated ?rec) ?api1)"
    using emit_event_wf k1 by (simp add: keeps_def)
  moreover have "add_session ?rec api = emit_event (SessionCreated ?rec) ?api1"
    by (simp add: add_session_def new_runner_session_def)
  ultimately show ?thesis using keeps_trans [OF k1] by simp
qed

lemma create_session_direct_keeps:
  "api_wf api \<Longrightarrow> keeps api (snd (create_session_direct now fresh req api))"
  by (auto simp: create_session_direct_def Let_def keeps_refl add_session_keeps split: option.splits)

lemma runner_create_session_keeps:
  "api_wf api \<Longrightarrow> keeps api (snd (runner_create_session now fresh req api))"
  by (auto simp: runner_create_session_def Let_def keeps_refl add_session_keeps split: option.splits)

lemma update_sessions_keeps:
  assumes "api_wf api" "\<And>s. session_wf api sid s \<Longrightarrow> session_wf api sid (f s)"
  shows "keeps api (api\<lparr>ra_sessions := bm_update sid f (ra_sessions api)\<rparr>)"
  unfolding keeps_def using assms
  by (intro api_wf_sessions) (auto simp: api_wf_def split: if_splits)

lemma bm_insert_update: "bm_get m k = Some v \<Longrightarrow> bm_insert k (f v) m = bm_update k f m"
  by (simp add: bm_update_def)

lemma update_keeps:
  assumes "api_wf api" shows "keeps api (snd (apply_session_state_update_direct now sid upd api))"
proof (cases "bm_get (ra_sessions api) sid")
  case (Some s)
  then have "snd (apply_session_state_update_direct now sid upd api)
      = api\<lparr>ra_sessions := bm_update sid (updated_runner_session now upd) (ra_sessions api)\<rparr>"
    by (simp add: apply_session_state_update_direct_def Let_def bm_update_def)
  then show ?thesis
    using update_sessions_keeps [OF assms, of sid "updated_runner_session now upd"]
    by (simp add: session_wf_def updated_runner_session_def)
qed (simp add: apply_session_state_update_direct_def keeps_refl assms)

lemma mark_waiting_keeps:
  assumes "api_wf api" "mark_waiting now fresh sid req api = Some (a, api1)"
  shows "keeps api api1 \<and> task_wf api1 (TaskStore a)"
proof -
  obtain s where s: "bm_get (ra_sessions api) sid = Some s"
    using assms(2) by (auto simp: mark_waiting_def split: option.splits)
  let ?f = "\<lambda>s. s\<lparr>rsr_state := RsWaitingApproval, rsr_updated_at := now\<rparr>"
  have eq: "api1 = api\<lparr>ra_sessions := bm_update sid ?f (ra_sessions api)\<rparr>" "a = new_approval now fresh sid req api"
    using assms(2) s by (auto simp: mark_waiting_def bm_update_def)
  have "keeps api api1" unfolding eq
    by (rule update_sessions_keeps [OF assms(1)]) (simp add: session_wf_def)
  moreover have "task_wf api1 (TaskStore a)"
    using s by (simp add: eq approval_wf_def new_approval_def)
  ultimately show ?thesis ..
qed

lemma store_approval_keeps:
  assumes "api_wf api" "approval_wf api (ap_approval_id a) a"
  shows "keeps api (store_approval a api)"
proof -
  have ext: "extends api (store_approval a api)" by (rule extendsI) (auto simp: store_approval_def)
  have "channel_events (store_approval a api) = channel_events api" by (simp add: channel_events_def)
  then have "api_wf (store_approval a api)"
    using assms extends_stable [OF ext]
    by (intro api_wf_extend [OF assms(1) ext]) (auto simp: api_wf_def channel_ok_def list_all_iff split: if_splits)
  with ext show ?thesis by (simp add: keeps_def)
qed

lemma decide_approval_keeps:
  assumes "api_wf api" "decide_approval now aid req api = (DecisionMade a p, api1)"
  shows "keeps api api1 \<and> task_wf api1 (TaskSettle now (adr_decision req) a p)"
proof -
  obtain a0 where a0: "bm_get (ra_approvals api) aid = Some a0" "ap_state a0 = ApPending"
    "a = decided_approval now req a0"
    using assms(2) by (auto simp: decide_approval_def Let_def split: option.splits if_splits)
  have "approval_wf api aid a0" using assms(1) a0(1) by (simp add: api_wf_def)
  then have wf: "approval_wf api (ap_approval_id a) a" "ap_approval_id a = aid"
    "ap_state a = approval_state_of (adr_decision req)"
    using a0 by (simp_all add: approval_wf_def decided_approval_def)
  have "api1 = store_approval a api"
    using assms(2) a0 wf(2) by (auto simp: decide_approval_def store_approval_def Let_def)
  with store_approval_keeps [OF assms(1) wf(1)] wf show ?thesis
    by (auto simp: keeps_def dest: extends_stable(1))
qed

lemma settle_decision_keeps:
  assumes "api_wf api" "task_wf api (TaskSettle now d a p)"
  shows "keeps api (settle_decision now d a p api)"
proof -
  let ?f = "\<lambda>s. s\<lparr>rsr_state := runner_session_state_after_approval d p, rsr_updated_at := now\<rparr>"
  let ?api1 = "api\<lparr>ra_sessions := bm_update (ap_session_id a) ?f (ra_sessions api)\<rparr>"
  have k1: "keeps api ?api1"
    by (rule update_sessions_keeps [OF assms(1)]) (simp add: session_wf_def)
  have "event_wf api (ApprovalResolved a)"
    using assms(2) by (auto simp: event_wf_def approval_wf_def)
  then have "event_wf ?api1 (ApprovalResolved a)" using k1 extends_stable(2) unfolding keeps_def by blast
  then have "keeps ?api1 (emit_event (ApprovalResolved a) ?api1)"
    using emit_event_wf k1 by (simp add: keeps_def)
  with keeps_trans [OF k1] show ?thesis by (simp add: settle_decision_def)
qed

lemma channel_shrinks_keeps:
  assumes "api_wf api" "api' = api\<lparr>ra_event_tx := ch\<rparr>"
    "set (channel_events api') \<subseteq> set (channel_events api)" "channel_ok api'"
  shows "keeps api api'"
proof -
  have ext: "extends api api'" using assms(2) by (intro extendsI) auto
  then have "api_wf api'"
    using assms extends_stable [OF ext]
    by (intro api_wf_extend [OF assms(1) ext]) (auto simp: api_wf_def list_all_iff)
  with ext show ?thesis by (simp add: keeps_def)
qed

lemma take_event_keeps: "api_wf api \<Longrightarrow> keeps api (snd (take_event api))"
proof (cases "\<exists>e q. ra_event_tx api = ChannelOpen (e # q)")
  case True
  then obtain e q where q: "ra_event_tx api = ChannelOpen (e # q)" by blast
  assume "api_wf api"
  moreover from this q have "length q \<le> runner_event_channel_capacity"
    by (simp add: api_wf_def channel_ok_def channel_events_def)
  ultimately show ?thesis
    using q by (auto intro!: channel_shrinks_keeps [where ch = "ChannelOpen q"] simp: channel_ok_def channel_events_def)
qed (auto simp: keeps_refl split: event_channel.splits list.splits)

lemma record_command_latency_keeps: "api_wf api \<Longrightarrow> keeps api (record_command_latency ms api)"
  unfolding keeps_def by (rule api_wf_sessions) (auto simp: record_command_latency_def api_wf_def)

lemmas section_keeps =
  create_session_direct_keeps runner_create_session_keeps update_keeps mark_waiting_keeps
  store_approval_keeps decide_approval_keeps settle_decision_keeps take_event_keeps
  record_command_latency_keeps keeps_refl

lemma runner_inv_keeps:
  assumes "runner_inv (api, ts)" "keeps api api'"
    "\<And>t. t \<in> set ts' \<Longrightarrow> t \<in> set ts \<or> task_wf api' t"
  shows "runner_inv (api', ts')"
  using assms(1,2) assms(3) extends_stable(3) [of api api']
  by (fastforce simp: runner_inv_def keeps_def list_all_iff)

lemma event_wf_command [simp]: "event_wf api (SessionCommand sid c) = bm_contains (ra_sessions api) sid"
  by (simp add: event_wf_def)

lemma emit_event_keeps: "api_wf api \<Longrightarrow> event_wf api e \<Longrightarrow> keeps api (emit_event e api)"
  by (simp add: keeps_def emit_event_wf)

lemma host_gone_keeps: "api_wf api \<Longrightarrow> keeps api (api\<lparr>ra_event_tx := ChannelClosed\<rparr>)"
  by (rule channel_shrinks_keeps) (auto simp: channel_ok_def channel_events_def)

lemma task_wf_of: "t \<in> set ts \<Longrightarrow> runner_inv (api, ts) \<Longrightarrow> task_wf api t"
  by (simp add: runner_inv_def list_all_iff)

lemma runner_step_section:
  assumes "runner_step st st'" "runner_inv st"
  shows "keeps (fst st) (fst st') \<and> (\<forall>t \<in> set (snd st'). t \<in> set (snd st) \<or> task_wf (fst st') t)"
proof -
  have wf: "api_wf (fst st)" using assms(2) by (simp add: runner_inv_def)
  show ?thesis
    using assms(1)
  proof (cases rule: runner_step.cases)
    case (step_emit e ts api)
    with wf task_wf_of [of "TaskEmit e" ts api] assms(2) show ?thesis
      by (auto simp: emit_event_keeps dest: subsetD [OF set_remove1_subset])
  next
    case (step_mark sid areq ts now fresh api a api1)
    with wf mark_waiting_keeps show ?thesis by (fastforce dest: subsetD [OF set_remove1_subset])
  next
    case (step_mark_relayed now fresh sid areq api a api1 ts)
    with wf mark_waiting_keeps show ?thesis by fastforce
  next
    case (step_decide now aid dreq api a p api1 ts)
    with wf decide_approval_keeps show ?thesis by fastforce
  next
    case (step_store a ts api)
    with wf task_wf_of [of "TaskStore a" ts api] assms(2) show ?thesis
      by (auto simp: store_approval_keeps dest: subsetD [OF set_remove1_subset])
  next
    case (step_settle now d a p ts api)
    with wf task_wf_of [of "TaskSettle now d a p" ts api] assms(2) show ?thesis
      by (auto simp: settle_decision_keeps simp del: task_wf.simps dest: subsetD [OF set_remove1_subset])
  qed (use wf in \<open>auto simp: section_keeps host_gone_keeps simp del: take_event.simps dest: subsetD [OF set_remove1_subset]\<close>)
qed

lemma runner_step_inv: "runner_step st st' \<Longrightarrow> runner_inv st \<Longrightarrow> runner_inv st'"
  using runner_step_section [of st st'] runner_inv_keeps [of "fst st" "snd st" "fst st'" "snd st'"] by auto

lemma runner_step_extends: "runner_step st st' \<Longrightarrow> runner_inv st \<Longrightarrow> extends (fst st) (fst st')"
  using runner_step_section [of st st'] by (simp add: keeps_def)

lemma runner_start_inv: "runner_start reg st \<Longrightarrow> runner_inv st"
  by (auto simp: runner_start_def runner_inv_def api_wf_def runner_api_new_def with_event_channel_def
      channel_events_def channel_ok_def)

interpretation runner: locked_system "runner_start reg" runner_step runner_inv
  by unfold_locales (auto intro: runner_start_inv runner_step_inv)

lemma runner_steps_extend: "runner_step\<^sup>*\<^sup>* st st' \<Longrightarrow> runner_inv st \<Longrightarrow> extends (fst st) (fst st')"
proof (induction rule: rtranclp.induct)
  case (rtrancl_into_rtrancl st st1 st2)
  then show ?case
    using runner.inv_steps runner_step_extends extends_trans by blast
qed simp

definition demo_registration :: runner_registration_request where
  "demo_registration =
     \<lparr> rr_runner_id = str ''runner'', rr_control_plane_url = None, rr_public_base_url = None,
       rr_workspaces = [\<lparr> ws_workspace_id = str ''default'', ws_root_dir = str ''/work'', ws_writable = True \<rparr>],
       rr_labels = bm_empty, rr_auth_token = None,
       rr_capabilities = \<lparr> rc_interactive_approvals = True, rc_background_sessions = True,
         rc_artifact_uploads = True, rc_max_parallel_sessions = 4 \<rparr>,
       rr_platform = \<lparr> rp_os = [], rp_arch = [], rp_family = [] \<rparr> \<rparr>"

definition demo_request :: runner_session_create_request where
  "demo_request = \<lparr> rcr_session_id = Some 7, rcr_workspace_id = str ''default'', rcr_metadata = bm_empty \<rparr>"

text \<open>
  C22. The runner stays consistent under every interleaving of its lock sections, including operations
  dropped half-way. In every reachable state each session is filed under its own identifier, belongs to
  this runner and to one of its workspaces; each approval is filed under its own identifier, belongs to a
  session the runner knows, and has a response time exactly if it is decided; the channel to the host
  holds at most 1024 events, all about known sessions; and whatever happens later, no session and no
  approval disappears.
\<close>

theorem runner_interleaving_consistent:
  assumes "reachable (runner_start reg) runner_step st" "runner_step\<^sup>*\<^sup>* st st'"
  shows "let api = fst st; api' = fst st' in
    (\<forall>k s. bm_get (ra_sessions api') k = Some s \<longrightarrow>
       rsr_session_id s = k \<and> rsr_runner_id s = rr_runner_id (ra_registration api')
       \<and> owned_workspace api' (rsr_workspace_id s) \<noteq> None)
    \<and> (\<forall>k a. bm_get (ra_approvals api') k = Some a \<longrightarrow>
       ap_approval_id a = k \<and> bm_contains (ra_sessions api') (ap_session_id a)
       \<and> (ap_responded_at a = None \<longleftrightarrow> ap_state a = ApPending))
    \<and> length (channel_events api') \<le> 1024 \<and> list_all (event_wf api') (channel_events api')
    \<and> (\<forall>k. bm_contains (ra_sessions api) k \<longrightarrow> bm_contains (ra_sessions api') k)
    \<and> (\<forall>k. bm_contains (ra_approvals api) k \<longrightarrow> bm_contains (ra_approvals api') k)"
proof -
  have inv: "runner_inv st" using assms(1) by (rule runner.inv_reachable)
  then have "api_wf (fst st')" using runner.inv_steps [OF assms(2)] by (simp add: runner_inv_def)
  moreover have "extends (fst st) (fst st')" using runner_steps_extend [OF assms(2) inv] .
  ultimately show ?thesis
    by (simp add: api_wf_def extends_def session_wf_def approval_wf_def channel_ok_def
        runner_event_channel_capacity_def Let_def)
qed

theorem runner_interleaving_consistent_witness:
  "\<exists>s. bm_get (ra_sessions (snd (create_session_direct 0 9 demo_request
          (with_event_channel (runner_api_new demo_registration))))) 7 = Some s
     \<and> rsr_session_id s = 7 \<and> rsr_runner_id s = str ''runner''"
proof -
  let ?api = "with_event_channel (runner_api_new demo_registration)"
  let ?api1 = "snd (create_session_direct 0 9 demo_request ?api)"
  have start: "reachable (runner_start demo_registration) runner_step (?api, [])"
    by (rule reach_start) (simp add: runner_start_def)
  have step: "runner_step\<^sup>*\<^sup>* (?api, []) (?api1, [])" by (intro r_into_rtranclp step_create_direct)
  have "\<exists>s. bm_get (ra_sessions ?api1) 7 = Some s"
    by (simp add: create_session_direct_def demo_request_def demo_registration_def with_event_channel_def
        runner_api_new_def owned_workspace_def at_capacity_def session_counts_def max_sessions_def
        bm_values_def new_runner_session_def Let_def)
  moreover have "ra_registration ?api1 = demo_registration"
    by (simp add: create_session_direct_def with_event_channel_def runner_api_new_def Let_def split: option.splits)
  ultimately show ?thesis
    using runner_interleaving_consistent [OF start step] by (auto simp: Let_def demo_registration_def)
qed

section \<open>Admission\<close>

definition session_is_live :: "runner_session_record \<Rightarrow> bool" where
  "session_is_live s \<longleftrightarrow> session_is_active s \<or> rsr_state s = RsPending"

definition live_count :: "runner_api \<Rightarrow> nat" where
  "live_count api = length (filter session_is_live (bm_values (ra_sessions api)))"

lemma length_filter_disjoint:
  "(\<And>x. \<not> (P x \<and> Q x)) \<Longrightarrow> length (filter P xs) + length (filter Q xs) = length (filter (\<lambda>x. P x \<or> Q x) xs)"
  by (induction xs) auto

lemma session_counts_live: "fst (session_counts (ra_sessions api)) + snd (session_counts (ra_sessions api)) = live_count api"
  unfolding session_counts_def live_count_def session_is_live_def fst_conv snd_conv
  by (rule length_filter_disjoint) (auto simp: session_is_active_def)

lemma at_capacity_iff: "at_capacity api \<longleftrightarrow> max_sessions api \<le> live_count api"
  using session_counts_live [of api] by (simp add: at_capacity_def split_beta)

lemma live_count_insert_new:
  assumes "bm_get (ra_sessions api) k = None" "session_is_live s"
    "ra_sessions api' = bm_insert k s (ra_sessions api)"
  shows "live_count api' = Suc (live_count api)"
proof -
  let ?L = "{k. \<exists>v. bm_get (ra_sessions api) k = Some v \<and> session_is_live v}"
  have "{j. \<exists>v. bm_get (ra_sessions api') j = Some v \<and> session_is_live v} = insert k ?L"
    using assms by auto
  moreover have "k \<notin> ?L" using assms(1) by simp
  moreover have "finite ?L" by (rule finite_subset [OF _ finite_dom_bm_get [of "ra_sessions api"]]) auto
  ultimately show ?thesis by (simp add: live_count_def count_values)
qed

lemma max_sessions_emit [simp]: "max_sessions (add_session rec api) = max_sessions api"
  by (simp add: max_sessions_def)

text \<open>
  C26. Admission. A request for a session with an identifier that is not in use succeeds, through either
  entrance, exactly if the workspace is the runner's and fewer sessions are pending or active than the runner
  allows; then the session is pending, one more session counts, and the count is within the limit. Otherwise
  nothing changes. The heartbeat sent then reports this count, as active plus queued sessions. Other operations, such as
  a state update that revives a session, are not covered.
\<close>

theorem runner_admission:
  assumes "bm_get (ra_sessions api) (unwrap_or fresh (rcr_session_id req)) = None"
  shows "let room = (owned_workspace api (rcr_workspace_id req) \<noteq> None \<and> live_count api < max_sessions api);
             (direct, api1) = create_session_direct now fresh req api;
             (relayed, api2) = runner_create_session now fresh req api
         in (is_ok direct \<longleftrightarrow> room) \<and> (is_ok relayed \<longleftrightarrow> room) \<and> api2 = api1
            \<and> (if room then live_count api1 = Suc (live_count api) \<and> live_count api1 \<le> max_sessions api1
                 \<and> map_option rsr_state (bm_get (ra_sessions api1) (unwrap_or fresh (rcr_session_id req)))
                   = Some RsPending
               else api1 = api)
            \<and> hb_active_sessions (heartbeat now api1) + hb_queued_sessions (heartbeat now api1) = live_count api1"
proof -
  have hb: "hb_active_sessions (heartbeat now a) + hb_queued_sessions (heartbeat now a) = live_count a" for a
    using session_counts_live [of a] by (simp add: heartbeat_def split_beta)
  show ?thesis
  proof (cases "owned_workspace api (rcr_workspace_id req)")
    case None
    then show ?thesis by (simp add: create_session_direct_def runner_create_session_def hb)
  next
    case (Some w)
    let ?rec = "new_runner_session now (unwrap_or fresh (rcr_session_id req)) req w api"
    have "live_count (add_session ?rec api) = Suc (live_count api)"
      by (rule live_count_insert_new [OF assms])
        (simp_all add: session_is_live_def new_runner_session_def)
    with Some assms show ?thesis
      by (auto simp: create_session_direct_def runner_create_session_def hb at_capacity_iff Let_def
          new_runner_session_def)
  qed
qed

theorem runner_admission_witness:
  "live_count (snd (create_session_direct 0 9 demo_request (runner_api_new demo_registration))) = 1"
proof -
  let ?api = "runner_api_new demo_registration"
  have "bm_get (ra_sessions ?api) (unwrap_or 9 (rcr_session_id demo_request)) = None"
    by (simp add: runner_api_new_def)
  moreover have "owned_workspace ?api (rcr_workspace_id demo_request) \<noteq> None" "live_count ?api = 0"
    "max_sessions ?api = 4"
    by (simp_all add: owned_workspace_def demo_request_def demo_registration_def runner_api_new_def
        live_count_def bm_values_def max_sessions_def)
  ultimately show ?thesis
    using runner_admission [of ?api 9 demo_request 0] by (simp add: Let_def split_beta)
qed

section \<open>Repeated delivery\<close>

text \<open>
  The three requests that create or decide something can be delivered again through the direct calls: the
  second delivery answers with the stored record and changes nothing.
\<close>

lemma create_session_direct_again:
  assumes "rcr_session_id req = Some sid" "create_session_direct now fresh req api = (Inr rec, api1)"
  shows "create_session_direct now' fresh' req api1 = (Inr rec, api1)"
proof -
  obtain w where w: "owned_workspace api (rcr_workspace_id req) = Some w"
    using assms(2) by (auto simp: create_session_direct_def split: option.splits)
  have got: "bm_get (ra_sessions api1) sid = Some rec \<and> ra_registration api1 = ra_registration api"
    using assms w by (auto simp: create_session_direct_def new_runner_session_def Let_def
        split: option.splits if_splits)
  then have "owned_workspace api1 (rcr_workspace_id req) = Some w"
    using w by (simp add: owned_workspace_def)
  with got assms(1) show ?thesis by (simp add: create_session_direct_def)
qed

lemma create_approval_direct_again:
  assumes "acr_approval_id req = Some aid" "create_approval_direct now fresh sid req api = (Inr a, api1)"
  shows "create_approval_direct now' fresh' sid req api1 = (Inr a, api1)"
proof -
  have "approval_existing req api1 = Some a"
    using assms by (auto simp: create_approval_direct_def approval_existing_def mark_waiting_def
        new_approval_def split: option.splits)
  then show ?thesis by (simp add: create_approval_direct_def)
qed

lemma decision_direct_again:
  assumes "apply_approval_decision_direct now aid req api = (Inr a, api1)"
  shows "apply_approval_decision_direct now' aid req' api1 = (Inr a, api1)"
proof -
  have "bm_get (ra_approvals api1) aid = Some a \<and> ap_state a \<noteq> ApPending"
    using assms by (auto simp: apply_approval_decision_direct_def decide_approval_def decided_approval_def Let_def
        split: option.splits if_splits)
  then show ?thesis by (simp add: apply_approval_decision_direct_def decide_approval_def)
qed

text \<open>
  The relayed form of session creation does not look for an existing session: delivered again, it replaces
  the session by a new pending one and tells the host to start it a second time.
\<close>

lemma relayed_create_resets_session:
  assumes "rcr_session_id req = Some sid" "bm_get (ra_sessions api) sid = Some s" "rsr_state s = RsRunning"
    and "owned_workspace api (rcr_workspace_id req) = Some w" "live_count api < max_sessions api"
    and "ra_event_tx api = ChannelOpen q" "length q < runner_event_channel_capacity"
  shows "\<exists>rec. runner_create_session now fresh req api = (Inr rec, add_session rec api)
    \<and> rsr_state rec = RsPending \<and> bm_get (ra_sessions (add_session rec api)) sid = Some rec
    \<and> channel_events (add_session rec api) = q @ [SessionCreated rec]
    \<and> create_session_direct now fresh req api = (Inr s, api)"
  using assms
  by (simp add: runner_create_session_def create_session_direct_def at_capacity_iff not_le
      new_runner_session_def add_session_def emit_event_def channel_events_def Let_def)

section \<open>What a decision does to its session\<close>

lemma other_pending_iff:
  "other_pending a m \<longleftrightarrow>
     (\<exists>k c. bm_get m k = Some c \<and> ap_session_id c = ap_session_id a \<and> ap_approval_id c \<noteq> ap_approval_id a
            \<and> ap_state c = ApPending)"
  unfolding other_pending_def list_ex_iff Bex_def bm_values_iff by blast

text \<open>A session has an approval that waits for a decision.\<close>

definition has_pending :: "runner_api \<Rightarrow> uuid \<Rightarrow> bool" where
  "has_pending api sid \<longleftrightarrow>
     list_ex (\<lambda>a. ap_session_id a = sid \<and> ap_state a = ApPending) (bm_values (ra_approvals api))"

lemma decided_other_pending:
  assumes "api_wf api" "bm_get (ra_approvals api) aid = Some a" "ap_state a = ApPending"
    and m: "m = bm_insert aid (decided_approval now req a) (ra_approvals api)"
  shows "other_pending (decided_approval now req a) m \<longleftrightarrow>
    list_ex (\<lambda>c. ap_session_id c = ap_session_id a \<and> ap_state c = ApPending) (bm_values m)"
proof -
  have id: "ap_approval_id a = aid"
    using assms(1,2) by (simp add: api_wf_def approval_wf_def)
  have ids: "ap_approval_id c = k" if "bm_get m k = Some c" for k c
  proof (cases "k = aid")
    case True
    with that id show ?thesis by (auto simp: m decided_approval_def)
  next
    case False
    with that have "bm_get (ra_approvals api) k = Some c" by (simp add: m)
    with assms(1) show ?thesis unfolding api_wf_def approval_wf_def by blast
  qed
  have "ap_approval_id c \<noteq> ap_approval_id a" if "bm_get m k = Some c" "ap_state c = ApPending" for k c
  proof
    assume "ap_approval_id c = ap_approval_id a"
    with ids [OF that(1)] id that have "c = decided_approval now req a" by (simp add: m)
    with that(2) show False by (simp add: decided_approval_def)
  qed
  moreover have "ap_session_id (decided_approval now req a) = ap_session_id a"
    "ap_approval_id (decided_approval now req a) = ap_approval_id a"
    by (simp_all add: decided_approval_def)
  ultimately show ?thesis
    unfolding other_pending_iff list_ex_iff Bex_def bm_values_iff by metis
qed

text \<open>
  What a decision does when nothing comes between its two lock sections. The approval carries the
  decision, its responder, its note and its time. The session waits exactly if another of its approvals is
  still pending; otherwise it runs, has failed or is cancelled, as decided, and the control plane computes
  the same state from its own copy. The host is told once. No later decision, through either entrance,
  changes the approval, and the relayed form answers a repeated decision with a conflict.
\<close>

theorem decision_settles_approval_and_session:
  assumes "api_wf api" "bm_get (ra_approvals api) aid = Some a" "ap_state a = ApPending"
    and "ra_event_tx api = ChannelOpen q" "length q < runner_event_channel_capacity"
  shows "let (res, api1) = apply_approval_decision_direct now aid req api;
             a1 = decided_approval now req a; sid = ap_session_id a
         in res = Inr a1
            \<and> runner_apply_approval_decision now aid req api = (Inr a1, api1)
            \<and> map_option (\<lambda>s. session_state_from_runner (rsr_state s)) (bm_get (ra_sessions api1) sid)
              = Some (session_state_after_approval (adr_decision req) (has_pending api1 sid))
            \<and> channel_events api1 = q @ [ApprovalResolved a1]
            \<and> bm_get (ra_approvals (fold (\<lambda>(t, i, r) st. snd (apply_approval_decision_direct t i r st)) ds api1)) aid = Some a1
            \<and> bm_get (ra_approvals (fold (\<lambda>(t, i, r) st. snd (runner_apply_approval_decision t i r st)) ds api1)) aid = Some a1
            \<and> fst (runner_apply_approval_decision now2 aid req2 api1) = Inl (Conflict ''approval {} is already resolved'')"
proof -
  let ?a1 = "decided_approval now req a"
  let ?m = "bm_insert aid ?a1 (ra_approvals api)"
  let ?p = "other_pending ?a1 ?m"
  let ?api1 = "settle_decision now (adr_decision req) ?a1 ?p (api\<lparr>ra_approvals := ?m\<rparr>)"
  have run: "apply_approval_decision_direct now aid req api = (Inr ?a1, ?api1)"
    "runner_apply_approval_decision now aid req api = (Inr ?a1, ?api1)"
    using assms(2,3) by (simp_all add: runner_simps)
  obtain s where s: "bm_get (ra_sessions api) (ap_session_id a) = Some s"
    using assms(1,2) unfolding api_wf_def approval_wf_def bm_contains_iff by blast
  have "has_pending ?api1 (ap_session_id a) = ?p"
    unfolding has_pending_def using decided_other_pending [OF assms(1,2,3) refl, of now req] by simp
  moreover have "session_state_from_runner (runner_session_state_after_approval d p) = session_state_after_approval d p"
    for d p by (cases d; cases p) simp_all
  moreover have sid: "ap_session_id ?a1 = ap_session_id a" by (simp add: decided_approval_def)
  moreover have settled: "bm_get (ra_approvals ?api1) aid = Some ?a1" "ap_state ?a1 \<noteq> ApPending"
    by (simp_all add: decided_approval_def)
  moreover have "channel_events ?api1 = q @ [ApprovalResolved ?a1]"
    using assms(4,5) by (simp add: settle_decision_def emit_event_def channel_events_def)
  moreover have "fst (runner_apply_approval_decision now2 aid req2 ?api1) = Inl (Conflict ''approval {} is already resolved'')"
    using settled by (simp add: runner_apply_approval_decision_def decide_approval_def)
  ultimately show ?thesis
    using s run direct.decide_all_settled [OF settled] relayed.decide_all_settled [OF settled]
    by (simp add: Let_def settle_decision_def)
qed

lemma create_approval_direct_keeps:
  assumes "api_wf api" shows "keeps api (snd (create_approval_direct now fresh sid req api))"
proof -
  have "keeps api (store_approval a api1)" if "mark_waiting now fresh sid req api = Some (a, api1)" for a api1
  proof -
    from mark_waiting_keeps [OF assms that]
    have "keeps api api1" "approval_wf api1 (ap_approval_id a) a" by simp_all
    then show ?thesis using store_approval_keeps [of api1 a] keeps_trans by (auto simp: keeps_def)
  qed
  then show ?thesis
    using assms by (auto simp: create_approval_direct_def keeps_refl split: option.splits)
qed

definition demo_approval :: approval_create_request where
  "demo_approval = \<lparr> acr_approval_id = Some 5, acr_title = [], acr_description = [], acr_metadata = bm_empty \<rparr>"

definition demo_sessions :: runner_api where
  "demo_sessions = snd (create_session_direct 0 9 demo_request (with_event_channel (runner_api_new demo_registration)))"

definition demo_waiting :: runner_api where
  "demo_waiting = snd (create_approval_direct 1 8 7 demo_approval demo_sessions)"

lemma demo_sessions_eval:
  "\<exists>s. ra_sessions demo_sessions = bm_insert 7 s bm_empty \<and> rsr_state s = RsPending
       \<and> ra_event_tx demo_sessions = ChannelOpen [SessionCreated s]"
  "ra_approvals demo_sessions = bm_empty" "ra_registration demo_sessions = demo_registration"
  by (simp_all add: demo_sessions_def create_session_direct_def demo_request_def demo_registration_def
      with_event_channel_def runner_api_new_def owned_workspace_def at_capacity_def session_counts_def
      max_sessions_def bm_values_def new_runner_session_def add_session_def emit_event_def
      runner_event_channel_capacity_def Let_def)

lemma demo_waiting_eval:
  "\<exists>s a. ra_sessions demo_waiting = bm_insert 7 s bm_empty \<and> ra_approvals demo_waiting = bm_insert 5 a bm_empty
     \<and> rsr_state s = RsWaitingApproval \<and> ap_state a = ApPending \<and> ap_session_id a = 7 \<and> ap_approval_id a = 5
     \<and> (\<exists>e. ra_event_tx demo_waiting = ChannelOpen [e])"
proof -
  obtain s where s: "ra_sessions demo_sessions = bm_insert 7 s bm_empty"
    "ra_event_tx demo_sessions = ChannelOpen [SessionCreated s]"
    using demo_sessions_eval by blast
  let ?s = "s\<lparr>rsr_state := RsWaitingApproval, rsr_updated_at := 1\<rparr>"
  let ?a = "new_approval 1 8 7 demo_approval demo_sessions"
  have run: "demo_waiting = store_approval ?a (demo_sessions\<lparr>ra_sessions := bm_insert 7 ?s bm_empty\<rparr>)"
    using s demo_sessions_eval(2)
    by (simp add: demo_waiting_def create_approval_direct_def approval_existing_def mark_waiting_def
        demo_approval_def btree.insert_insert)
  show ?thesis
    by (rule exI [of _ ?s], rule exI [of _ ?a], unfold run)
      (use s demo_sessions_eval(2) in \<open>simp add: new_approval_def demo_approval_def\<close>)
qed

lemma demo_waiting_wf: "api_wf demo_waiting"
proof -
  have "api_wf (with_event_channel (runner_api_new demo_registration))"
    using runner_start_inv [of demo_registration "(with_event_channel (runner_api_new demo_registration), [])"]
    by (simp add: runner_start_def runner_inv_def)
  then have "api_wf demo_sessions"
    using create_session_direct_keeps by (simp add: demo_sessions_def keeps_def)
  then show ?thesis using create_approval_direct_keeps by (simp add: demo_waiting_def keeps_def)
qed

theorem decision_settles_approval_and_session_witness:
  "map_option (\<lambda>s. session_state_from_runner (rsr_state s))
     (bm_get (ra_sessions (snd (apply_approval_decision_direct 2 5
        \<lparr> adr_decision = Denied, adr_responder = None, adr_note = None \<rparr> demo_waiting))) 7) = Some Failed"
proof -
  let ?req = "\<lparr> adr_decision = Denied, adr_responder = None, adr_note = None \<rparr>"
  let ?api1 = "snd (apply_approval_decision_direct 2 5 ?req demo_waiting)"
  obtain s a e where ev: "ra_approvals demo_waiting = bm_insert 5 a bm_empty" "ap_state a = ApPending"
    "ap_session_id a = 7" "ra_event_tx demo_waiting = ChannelOpen [e]"
    using demo_waiting_eval by blast
  have a: "bm_get (ra_approvals demo_waiting) 5 = Some a" by (simp add: ev)
  have "ra_approvals ?api1 = bm_insert 5 (decided_approval 2 ?req a) bm_empty"
    using ev by (simp add: apply_approval_decision_direct_def decide_approval_def Let_def btree.insert_insert)
  then have "\<not> has_pending ?api1 7"
    by (auto simp: has_pending_def list_ex_iff bm_values_iff decided_approval_def split: if_splits)
  then show ?thesis
    using decision_settles_approval_and_session [OF demo_waiting_wf a ev(2,4), of 2 ?req "[]" 0 ?req] ev(3)
    by (simp add: runner_event_channel_capacity_def split_beta Let_def)
qed

text \<open>
  A new approval can be overtaken by the decision on an old one. While the decision is between its two
  lock sections, a second approval for the same session may be created completely; the decision then sets
  the session running although the new approval is pending. From every state with a session and one pending
  approval such an interleaving exists, so a session that waits for its user is reported as running.
\<close>

theorem decision_overtakes_new_approval:
  fixes new :: approval_create_request
  assumes "bm_get (ra_sessions api) sid = Some s"
    and "bm_get (ra_approvals api) aid = Some a" "ap_state a = ApPending" "ap_session_id a = sid"
    and "\<not> other_pending a (bm_insert aid (decided_approval now req a) (ra_approvals api))"
    and "adr_decision req = Approved" "acr_approval_id new = Some aid2" "bm_get (ra_approvals api) aid2 = None"
  shows "\<exists>api'. runner_step\<^sup>*\<^sup>* (api, []) (api', [])
      \<and> map_option rsr_state (bm_get (ra_sessions api') sid) = Some RsRunning
      \<and> map_option ap_state (bm_get (ra_approvals api') aid2) = Some ApPending
      \<and> map_option ap_session_id (bm_get (ra_approvals api') aid2) = Some sid"
proof -
  let ?a1 = "decided_approval now req a"
  let ?api1 = "api\<lparr>ra_approvals := bm_insert aid ?a1 (ra_approvals api)\<rparr>"
  let ?settle = "TaskSettle now Approved ?a1 False"
  have dec: "decide_approval now aid req api = (DecisionMade ?a1 False, ?api1)"
    using assms(2,3,5) by (simp add: decide_approval_def other_pending_def Let_def decided_approval_def)
  have s1: "runner_step (api, []) (?api1, [?settle])"
    using step_decide [OF dec, of "[]"] assms(6) by simp
  obtain b api2 where mk: "mark_waiting now2 fresh sid new ?api1 = Some (b, api2)"
    and b: "ap_approval_id b = aid2" "ap_state b = ApPending" "ap_session_id b = sid"
    and api2: "bm_get (ra_sessions api2) sid \<noteq> None" "ra_approvals api2 = ra_approvals ?api1"
    using assms(1,7) by (simp add: mark_waiting_def new_approval_def)
  have s2: "runner_step (?api1, [?settle]) (api2, [TaskStore b, ?settle])"
    by (rule step_mark_relayed [OF mk])
  have s3: "runner_step (api2, [TaskStore b, ?settle]) (store_approval b api2, [?settle])"
    using step_store [of b "[TaskStore b, ?settle]" api2] by simp
  let ?final = "settle_decision now Approved ?a1 False (store_approval b api2)"
  have s4: "runner_step (store_approval b api2, [?settle]) (?final, [])"
    using step_settle [of now Approved ?a1 False "[?settle]"] by simp
  have "runner_step\<^sup>*\<^sup>* (api, []) (?final, [])"
    using s1 s2 s3 s4 by (meson rtranclp.rtrancl_into_rtrancl rtranclp.rtrancl_refl)
  moreover have "ap_session_id ?a1 = sid" using assms(4) by (simp add: decided_approval_def)
  ultimately show ?thesis
    using api2 b by (intro exI [of _ ?final]) (auto simp: settle_decision_def)
qed

theorem decision_overtakes_new_approval_witness:
  "\<exists>api'. runner_step\<^sup>*\<^sup>* (demo_waiting, []) (api', [])
     \<and> map_option rsr_state (bm_get (ra_sessions api') 7) = Some RsRunning
     \<and> map_option ap_state (bm_get (ra_approvals api') 6) = Some ApPending"
proof -
  let ?req = "\<lparr> adr_decision = Approved, adr_responder = None, adr_note = None \<rparr>"
  obtain s a where ev: "ra_sessions demo_waiting = bm_insert 7 s bm_empty"
    "ra_approvals demo_waiting = bm_insert 5 a bm_empty" "ap_state a = ApPending" "ap_session_id a = 7"
    "ap_approval_id a = 5"
    using demo_waiting_eval by blast
  have "\<not> other_pending a (bm_insert 5 (decided_approval 2 ?req a) (ra_approvals demo_waiting))"
    unfolding other_pending_iff using ev by (auto simp: decided_approval_def split: if_splits)
  then show ?thesis
    using decision_overtakes_new_approval [of demo_waiting 7 s 5 a 2 ?req "demo_approval\<lparr>acr_approval_id := Some 6\<rparr>" 6] ev
    by auto
qed

end
