(* ===== verification/Runner_Http.thy ===== *)
theory Runner_Http
  imports Runner_System
begin

text \<open>
  The edge of the runner's service (\<^verbatim>\<open>rc-runner/src/lib.rs\<close>): the bearer check in front of its handlers, the
  stream of events to directly connected clients, the configuration with its parsers and checks, and the
  calls with which a runner registers and reports to the control plane. Environment variables are a
  function from names to values, URL parsing and the hash function are parameters.
\<close>

section \<open>Strings\<close>

text \<open>\<^verbatim>\<open>str::split\<close> on a set of characters, \<^verbatim>\<open>str::split_once\<close>, the text after the first occurrence.\<close>

fun split_by :: "(rchar \<Rightarrow> bool) \<Rightarrow> rstring \<Rightarrow> rstring list" where
  "split_by P [] = [[]]"
| "split_by P (c # s) =
     (if P c then [] # split_by P s else case split_by P s of [] \<Rightarrow> [[c]] | p # ps \<Rightarrow> (c # p) # ps)"

definition split_once :: "rchar \<Rightarrow> rstring \<Rightarrow> (rstring \<times> rstring) option" where
  "split_once d s =
     (if d \<in> set s then Some (takeWhile (\<lambda>c. c \<noteq> d) s, tl (dropWhile (\<lambda>c. c \<noteq> d) s)) else None)"

fun after_str :: "rstring \<Rightarrow> rstring \<Rightarrow> rstring option" where
  "after_str needle [] = (if needle = [] then Some [] else None)"
| "after_str needle (c # s) =
     (if starts_with (c # s) needle then Some (drop (length needle) (c # s)) else after_str needle s)"

definition is_ascii_digit :: "rchar \<Rightarrow> bool" where
  "is_ascii_digit c \<longleftrightarrow> 48 \<le> c \<and> c \<le> 57"

text \<open>Parsing of an unsigned integer below a limit: an optional plus sign, at least one digit, no overflow.\<close>

definition parse_unsigned :: "nat \<Rightarrow> rstring \<Rightarrow> nat option" where
  "parse_unsigned limit s =
     (let ds = (case s of [] \<Rightarrow> [] | c # t \<Rightarrow> if c = 43 then t else s);
          v = digits_value 10 (map (\<lambda>c. c - 48) ds)
      in if ds \<noteq> [] \<and> list_all is_ascii_digit ds \<and> v < limit then Some v else None)"

section \<open>Authentication\<close>

definition runner_query_access_tokens_enabled :: "(rstring \<Rightarrow> rstring option) \<Rightarrow> bool" where
  "runner_query_access_tokens_enabled env =
     is_some_and (\<lambda>v. v \<in> set (map str [''1'', ''true'', ''TRUE'', ''yes'', ''YES'']))
       (env (str ''REMOTE_CODE_RUNNER_ALLOW_QUERY_ACCESS_TOKEN''))"

definition extract_query_auth_token :: "rstring option \<Rightarrow> rstring option" where
  "extract_query_auth_token query =
     Option.bind query (\<lambda>q. find_query_value (\<lambda>k. k = str ''token'' \<or> k = str ''access_token'') (split_on 38 q))"

definition runner_strip_auth_from_request_uri :: "http_request \<Rightarrow> http_request" where
  "runner_strip_auth_from_request_uri rq =
     (case rq_query rq of
        None \<Rightarrow> rq
      | Some q \<Rightarrow>
          (let cleaned = join_with 38 (filter (\<lambda>pair. trim (fst (split_once_opt 61 pair))
                            \<notin> {str ''token'', str ''access_token''}) (split_on 38 q))
           in rq\<lparr>rq_query := (if cleaned = [] then None else Some cleaned)\<rparr>))"

definition runner_header_token :: "http_request \<Rightarrow> rstring option" where
  "runner_header_token rq =
     map_option trim (Option.bind (rq_authorization rq) (strip_prefix (str ''Bearer '')))"

definition require_runner_auth ::
  "hash \<Rightarrow> (rstring \<Rightarrow> rstring option) \<Rightarrow> runner_api \<Rightarrow> http_request \<Rightarrow> http_request api" where
  "require_runner_auth sha env api rq =
     (case rr_auth_token (ra_registration api) of
        None \<Rightarrow> Inr rq
      | Some expected \<Rightarrow>
          if is_some_and (\<lambda>t. constant_time_value_eq sha t expected) (runner_header_token rq) then Inr rq
          else if request_allows_query_auth rq \<and> runner_query_access_tokens_enabled env
                  \<and> is_some_and (\<lambda>t. constant_time_value_eq sha t expected) (extract_query_auth_token (rq_query rq))
               then Inr (runner_strip_auth_from_request_uri rq)
               else Inl (Unauthorized ''missing or invalid runner bearer token''))"

lemma runner_stripped_query_has_no_token:
  "extract_query_auth_token (rq_query (runner_strip_auth_from_request_uri rq)) = None"
proof (cases "rq_query rq")
  case (Some q)
  let ?ps = "filter (\<lambda>pair. trim (fst (split_once_opt 61 pair)) \<notin> {str ''token'', str ''access_token''}) (split_on 38 q)"
  show ?thesis
  proof (cases "join_with 38 ?ps = []")
    case False
    then have "?ps \<noteq> []" by auto
    then have "split_on 38 (join_with 38 ?ps) = ?ps"
      by (rule split_on_join) (auto dest: split_on_no_sep)
    with Some False show ?thesis
      by (auto simp: runner_strip_auth_from_request_uri_def extract_query_auth_token_def Let_def
          intro!: find_query_value_None)
  qed (simp add: runner_strip_auth_from_request_uri_def extract_query_auth_token_def Some)
qed (simp add: runner_strip_auth_from_request_uri_def extract_query_auth_token_def)

text \<open>
  The runner's bearer check, exactly. Without a configured token every request passes. With one, a
  request passes if and only if its header carries a token with the same digest, or the operator has
  switched query tokens on and the request opens a stream with such a token in its query; in the second
  case the handler sees a query that carries no token any more. Every other request is answered with 401.
\<close>

theorem runner_auth_exact:
  "let out = require_runner_auth sha env api rq;
       header_ok = (\<lambda>expected. is_some_and (\<lambda>t. sha t = sha expected) (runner_header_token rq));
       query_ok = (\<lambda>expected. ends_with (rq_path rq) (str ''/stream'') \<and> runner_query_access_tokens_enabled env
          \<and> is_some_and (\<lambda>t. sha t = sha expected) (extract_query_auth_token (rq_query rq))
          \<and> (rq_method rq = GET \<or> is_some_and (\<lambda>v. eq_ignore_ascii_case v (str ''websocket'')) (rq_upgrade rq)))
   in (is_ok out \<longleftrightarrow> is_none_or (\<lambda>expected. header_ok expected \<or> query_ok expected) (rr_auth_token (ra_registration api)))
      \<and> (case out of
           Inl e \<Rightarrow> error_status e = 401
         | Inr rq' \<Rightarrow> rq' = rq \<or> rq_path rq' = rq_path rq \<and> extract_query_auth_token (rq_query rq') = None)"
  using runner_stripped_query_has_no_token [of rq]
  by (auto simp: require_runner_auth_def constant_time_value_eq_def request_allows_query_auth_def
      runner_strip_auth_from_request_uri_def Let_def split: option.splits)

section \<open>Streaming to connected clients\<close>

definition extract_sequence_from_json :: "rstring \<Rightarrow> nat option" where
  "extract_sequence_from_json line =
     Option.bind (after_str (str ''\"sequence\":'') line) (\<lambda>rest.
       parse_unsigned (2 ^ 64) (takeWhile is_ascii_digit rest))"

text \<open>
  What a receiver of the broadcast channel gets, and whether the following send to the socket succeeds. In
  the replay loop each round also says whether the deadline of half a second has passed when the round
  ends; a round that skips a line goes on without looking at the clock.
\<close>

datatype stream_recv = RecvLine uuid rstring | RecvLagged | RecvClosed | RecvTimeout

record replay_round =
  rd_recv :: stream_recv
  rd_sent :: bool
  rd_past_deadline :: bool

definition replay_skips :: "nat \<Rightarrow> rstring \<Rightarrow> bool" where
  "replay_skips after_seq line = is_some_and (\<lambda>n. n \<le> after_seq) (extract_sequence_from_json line)"

text \<open>The lines sent and whether the client is gone.\<close>

fun replay_loop :: "uuid \<Rightarrow> nat \<Rightarrow> replay_round list \<Rightarrow> rstring list \<times> bool" where
  "replay_loop sid after_seq [] = ([], False)"
| "replay_loop sid after_seq (r # rs) =
     (case rd_recv r of
        RecvLine s line \<Rightarrow>
          if s \<noteq> sid \<or> replay_skips after_seq line then replay_loop sid after_seq rs
          else if \<not> rd_sent r then ([], True)
          else if rd_past_deadline r then ([line], False)
          else (case replay_loop sid after_seq rs of (out, gone) \<Rightarrow> (line # out, gone))
      | _ \<Rightarrow> ([], False))"

fun live_loop :: "uuid \<Rightarrow> (stream_recv \<times> bool) list \<Rightarrow> rstring list" where
  "live_loop sid [] = []"
| "live_loop sid ((r, sent) # rs) =
     (case r of
        RecvLine s line \<Rightarrow>
          if s \<noteq> sid then live_loop sid rs else if \<not> sent then [] else line # live_loop sid rs
      | _ \<Rightarrow> [])"

definition serve_runner_session_stream ::
  "uuid \<Rightarrow> nat \<Rightarrow> replay_round list \<Rightarrow> (stream_recv \<times> bool) list \<Rightarrow> rstring list" where
  "serve_runner_session_stream sid after_seq replay live =
     (if 0 < after_seq
      then (case replay_loop sid after_seq replay of (out, gone) \<Rightarrow> if gone then out else out @ live_loop sid live)
      else live_loop sid live)"

definition subscribe_after :: "(rstring \<Rightarrow> rstring option) \<Rightarrow> nat" where
  "subscribe_after params = unwrap_or 0 (Option.bind (params (str ''after'')) (parse_unsigned (2 ^ 64)))"

text \<open>
  A receiver gets the lines that are published after it was created. With \<open>feed\<close> everything that is ever
  published, a client whose replay receiver is created after \<open>i\<close> lines and reads \<open>n\<close>, and whose live
  receiver is created after \<open>j\<close> lines, is served like this when no send fails and no receiver lags.
\<close>

definition replay_rounds :: "(uuid \<times> rstring) list \<Rightarrow> replay_round list" where
  "replay_rounds ls = map (\<lambda>(s, l). \<lparr> rd_recv = RecvLine s l, rd_sent = True, rd_past_deadline = False \<rparr>) ls
     @ [\<lparr> rd_recv = RecvTimeout, rd_sent = True, rd_past_deadline = False \<rparr>]"

definition served :: "uuid \<Rightarrow> nat \<Rightarrow> (uuid \<times> rstring) list \<Rightarrow> nat \<Rightarrow> nat \<Rightarrow> nat \<Rightarrow> rstring list" where
  "served sid after_seq feed i n j =
     serve_runner_session_stream sid after_seq (replay_rounds (take n (drop i feed)))
       (map (\<lambda>(s, l). (RecvLine s l, True)) (drop j feed))"

definition lines_of :: "uuid \<Rightarrow> (uuid \<times> rstring) list \<Rightarrow> rstring list" where
  "lines_of sid ls = map snd (filter (\<lambda>e. fst e = sid) ls)"

lemma replay_loop_rounds:
  "replay_loop sid after_seq (replay_rounds ls) =
     (filter (\<lambda>l. \<not> replay_skips after_seq l) (lines_of sid ls), False)"
  by (induction ls) (auto simp: replay_rounds_def lines_of_def)

lemma live_loop_lines: "live_loop sid (map (\<lambda>(s, l). (RecvLine s l, True)) ls) = lines_of sid ls"
  by (induction ls) (auto simp: lines_of_def)

text \<open>
  What a directly connected client sees. The lines of its session that are published while its replay
  receiver listens, less those it says it has seen, followed by those published after its live receiver was
  created. Lines published before it connected are never sent, whatever cursor it gives, although the loop
  is meant to replay a backlog; lines published between the two receivers are lost; everything after is
  delivered completely and in order.
\<close>

theorem direct_stream_delivery:
  assumes "0 < after_seq" "i + n \<le> j" "j \<le> length feed"
  shows "served sid after_seq feed i n j =
           filter (\<lambda>l. \<not> replay_skips after_seq l) (lines_of sid (take n (drop i feed))) @ lines_of sid (drop j feed)
         \<and> served sid after_seq (lost @ feed) (length lost + i) n (length lost + j) = served sid after_seq feed i n j
         \<and> served sid after_seq (take (i + n) feed @ lost @ drop j feed) i n (i + n + length lost)
           = served sid after_seq feed i n j"
proof -
  have eq: "served sid after_seq f i' n j' =
      filter (\<lambda>l. \<not> replay_skips after_seq l) (lines_of sid (take n (drop i' f))) @ lines_of sid (drop j' f)" for f i' j'
    using assms(1) by (simp add: served_def serve_runner_session_stream_def replay_loop_rounds live_loop_lines)
  have "take n (drop i (take (i + n) feed @ lost @ drop j feed)) = take n (drop i feed)"
    using assms(2,3) by (simp add: drop_take)
  moreover have "drop (i + n + length lost) (take (i + n) feed @ lost @ drop j feed) = drop j feed"
    using assms(2,3) by simp
  ultimately show ?thesis unfolding eq by (simp add: add.commute)
qed

theorem direct_stream_delivery_witness:
  "served 7 3 [(7, str ''a''), (7, str ''b''), (7, str ''c'')] 1 0 2 = [str ''c'']"
  using direct_stream_delivery [of 3 1 0 2 "[(7, str ''a''), (7, str ''b''), (7, str ''c'')]" 7 "[]"]
  by (simp add: lines_of_def numeral_2_eq_2)

section \<open>Configuration\<close>

record socket_addr =
  sa_ip :: ip_addr
  sa_port :: nat

definition read_port :: "rstring \<Rightarrow> nat option" where
  "read_port s =
     Option.bind (read_given_char 58 s) (\<lambda>t.
       case read_number 10 (length t) True 65536 t of Some (p, []) \<Rightarrow> Some p | _ \<Rightarrow> None)"

definition read_scope :: "rstring \<Rightarrow> rstring" where
  "read_scope s =
     (case Option.bind (read_given_char 37 s) (\<lambda>t. read_number 10 (length t) True (2 ^ 32) t) of
        Some (_, rest) \<Rightarrow> rest | None \<Rightarrow> s)"

text \<open>\<^verbatim>\<open>SocketAddr::from_str\<close>: an IPv4 address with a port, or a bracketed IPv6 address with one.\<close>

definition parse_socket_addr :: "rstring \<Rightarrow> socket_addr anyhow" where
  "parse_socket_addr raw =
     (case (case read_ipv4_addr raw of
              Some ((a, b, c, d), rest) \<Rightarrow>
                map_option (\<lambda>p. \<lparr> sa_ip = V4 (of_nat a) (of_nat b) (of_nat c) (of_nat d), sa_port = p \<rparr>) (read_port rest)
            | None \<Rightarrow>
                Option.bind (read_given_char 91 raw) (\<lambda>s1.
                Option.bind (read_ipv6_addr s1) (\<lambda>(gs, s2).
                Option.bind (read_given_char 93 (read_scope s2)) (\<lambda>s3.
                map_option (\<lambda>p. \<lparr> sa_ip = V6 (map of_nat gs), sa_port = p \<rparr>) (read_port s3))))) of
        Some a \<Rightarrow> Inr a | None \<Rightarrow> Inl ''invalid socket address {}'')"

definition read_env :: "(rstring \<Rightarrow> rstring option) \<Rightarrow> string \<Rightarrow> rstring option" where
  "read_env env key = Option.bind (env (str key)) (\<lambda>v. if trim v = [] then None else Some (trim v))"

definition parse_env_number :: "(rstring \<Rightarrow> rstring option) \<Rightarrow> nat \<Rightarrow> string \<Rightarrow> nat option" where
  "parse_env_number env limit key = Option.bind (read_env env key) (parse_unsigned limit)"

fun parse_workspace_flags :: "rstring list \<Rightarrow> bool \<Rightarrow> bool" where
  "parse_workspace_flags [] writable = writable"
| "parse_workspace_flags (p # ps) writable =
     parse_workspace_flags ps
       (if eq_ignore_ascii_case p (str ''ro'') \<or> eq_ignore_ascii_case p (str ''read-only'') then False
        else if eq_ignore_ascii_case p (str ''rw'') \<or> eq_ignore_ascii_case p (str ''read-write'') then True
        else writable)"

definition parse_workspace_entry :: "rstring \<Rightarrow> runner_workspace anyhow" where
  "parse_workspace_entry entry =
     (case split_once 61 entry of
        None \<Rightarrow> Inl ''invalid workspace entry {}; expected id=path|rw''
      | Some (wid, remainder) \<Rightarrow>
          if trim wid = [] then Inl ''invalid workspace entry {}; workspace id is empty''
          else (case filter (\<lambda>p. p \<noteq> []) (map trim (split_on 124 remainder)) of
                  [] \<Rightarrow> Inl ''invalid workspace entry {}; path is missing''
                | root # flags \<Rightarrow>
                    Inr \<lparr> ws_workspace_id = trim wid, ws_root_dir = root,
                          ws_writable = parse_workspace_flags flags True \<rparr>))"

fun parse_workspace_entries :: "rstring list \<Rightarrow> runner_workspace list anyhow" where
  "parse_workspace_entries [] = Inr []"
| "parse_workspace_entries (e # es) =
     bind_result (parse_workspace_entry e) (\<lambda>w.
     bind_result (parse_workspace_entries es) (\<lambda>ws. Inr (w # ws)))"

definition parse_runner_workspaces :: "rstring \<Rightarrow> runner_workspace list anyhow" where
  "parse_runner_workspaces raw =
     bind_result
       (parse_workspace_entries
          (filter (\<lambda>e. e \<noteq> []) (map trim (split_by (\<lambda>c. c = 59 \<or> c = 10) raw))))
       (\<lambda>ws. if ws = [] then Inl ''at least one runner workspace must be configured'' else Inr ws)"

definition add_key_value :: "rstring \<Rightarrow> metadata \<Rightarrow> metadata" where
  "add_key_value entry m =
     (case split_once 61 entry of
        None \<Rightarrow> m
      | Some (k, v) \<Rightarrow> if trim k \<noteq> [] \<and> trim v \<noteq> [] then bm_insert (trim k) (trim v) m else m)"

definition parse_key_value_map :: "rstring \<Rightarrow> metadata" where
  "parse_key_value_map raw =
     fold add_key_value
       (filter (\<lambda>e. e \<noteq> []) (map trim (split_by (\<lambda>c. c = 44 \<or> c = 59 \<or> c = 10) raw))) bm_empty"

record runner_config =
  cf_runner_id :: rstring
  cf_control_plane_url :: "rstring option"
  cf_bind :: socket_addr
  cf_public_base_url :: "rstring option"
  cf_profile_dir :: rstring
  cf_workspaces :: "runner_workspace list"
  cf_heartbeat_interval_secs :: nat
  cf_max_parallel_sessions :: nat
  cf_labels :: metadata
  cf_auth_token :: "rstring option"
  cf_control_plane_auth_token :: "rstring option"
  cf_capabilities :: runner_capabilities

record runner_config_overrides =
  co_runner_id :: "rstring option"
  co_control_plane_url :: "rstring option"
  co_bind :: "socket_addr option"
  co_public_base_url :: "rstring option"
  co_heartbeat_interval_secs :: "nat option"
  co_max_parallel_sessions :: "nat option"
  co_workspaces :: "runner_workspace list option"
  co_labels :: "metadata option"
  co_auth_token :: "rstring option"
  co_control_plane_auth_token :: "rstring option"

text \<open>\<^verbatim>\<open>Option::or_else\<close>.\<close>

definition or_else :: "'a option \<Rightarrow> 'a option \<Rightarrow> 'a option" where
  "or_else x y = (case x of Some _ \<Rightarrow> x | None \<Rightarrow> y)"

definition load_runner_config ::
  "(rstring \<Rightarrow> rstring option) \<Rightarrow> rstring anyhow \<Rightarrow> rstring anyhow \<Rightarrow> runner_config_overrides \<Rightarrow> runner_config anyhow" where
  "load_runner_config env profile cwd ov =
     bind_result profile (\<lambda>dir.
     bind_result (case co_bind ov of
         Some b \<Rightarrow> Inr b
       | None \<Rightarrow> parse_socket_addr (unwrap_or (str ''127.0.0.1:8788'') (read_env env ''REMOTE_CODE_RUNNER_BIND''))) (\<lambda>bind.
     bind_result (case co_workspaces ov of
         Some ws \<Rightarrow> Inr ws
       | None \<Rightarrow> (case read_env env ''REMOTE_CODE_RUNNER_WORKSPACES'' of
             Some raw \<Rightarrow> parse_runner_workspaces raw
           | None \<Rightarrow> bind_result cwd (\<lambda>d.
               Inr [\<lparr> ws_workspace_id = str ''default'', ws_root_dir = d, ws_writable = True \<rparr>]))) (\<lambda>workspaces.
     let sessions = max 1 (unwrap_or 4 (or_else (co_max_parallel_sessions ov)
           (parse_env_number env 65536 ''REMOTE_CODE_RUNNER_MAX_PARALLEL_SESSIONS'')))
     in Inr
       \<lparr> cf_runner_id = unwrap_or (str ''local-runner'') (or_else (co_runner_id ov) (read_env env ''REMOTE_CODE_RUNNER_ID'')),
         cf_control_plane_url = or_else (co_control_plane_url ov) (read_env env ''REMOTE_CODE_CONTROL_PLANE_URL''),
         cf_bind = bind,
         cf_public_base_url = or_else (co_public_base_url ov) (read_env env ''REMOTE_CODE_RUNNER_PUBLIC_BASE_URL''),
         cf_profile_dir = dir,
         cf_workspaces = workspaces,
         cf_heartbeat_interval_secs = max 1 (unwrap_or 15 (or_else (co_heartbeat_interval_secs ov)
           (parse_env_number env (2 ^ 64) ''REMOTE_CODE_RUNNER_HEARTBEAT_SECS''))),
         cf_max_parallel_sessions = sessions,
         cf_labels = unwrap_or bm_empty (or_else (co_labels ov)
           (map_option parse_key_value_map (read_env env ''REMOTE_CODE_RUNNER_LABELS''))),
         cf_auth_token = or_else (co_auth_token ov) (read_env env ''REMOTE_CODE_RUNNER_AUTH_TOKEN''),
         cf_control_plane_auth_token = or_else (co_control_plane_auth_token ov)
           (read_env env ''REMOTE_CODE_CONTROL_PLANE_AUTH_TOKEN''),
         cf_capabilities = \<lparr> rc_interactive_approvals = True, rc_background_sessions = True,
           rc_artifact_uploads = True, rc_max_parallel_sessions = of_nat sessions \<rparr> \<rparr>)))"

definition registration_request :: "runner_platform \<Rightarrow> runner_config \<Rightarrow> runner_registration_request" where
  "registration_request platform c =
     \<lparr> rr_runner_id = cf_runner_id c, rr_control_plane_url = cf_control_plane_url c,
       rr_public_base_url = cf_public_base_url c, rr_workspaces = cf_workspaces c, rr_labels = cf_labels c,
       rr_auth_token = cf_auth_token c, rr_capabilities = cf_capabilities c, rr_platform = platform \<rparr>"

definition config_snapshot :: "instant \<Rightarrow> runner_platform \<Rightarrow> runner_config \<Rightarrow> runner_snapshot" where
  "config_snapshot now platform c =
     \<lparr> rs_registration = registration_request platform c, rs_state = Idle, rs_active_sessions = 0,
       rs_queued_sessions = 0, rs_registered_at = now, rs_last_seen_at = now \<rparr>"

definition is_local_runner_url :: "(rstring \<Rightarrow> url option) \<Rightarrow> rstring \<Rightarrow> bool" where
  "is_local_runner_url parse_url raw =
     (case parse_url raw of
        None \<Rightarrow> False
      | Some u \<Rightarrow> is_some_and (\<lambda>h. h = str ''localhost'' \<or> is_some_and is_loopback (parse_ip h)) (url_host u))"

definition remote_url :: "(rstring \<Rightarrow> url option) \<Rightarrow> rstring option \<Rightarrow> rstring option" where
  "remote_url parse_url u = Option.bind u (\<lambda>raw. if is_local_runner_url parse_url raw then None else Some raw)"

definition validate_runner_config :: "(rstring \<Rightarrow> url option) \<Rightarrow> runner_config \<Rightarrow> string list" where
  "validate_runner_config parse_url c =
     (let auth = (cf_auth_token c \<noteq> None);
          public = remote_url parse_url (cf_public_base_url c);
          plane = remote_url parse_url (cf_control_plane_url c)
      in (if \<not> is_loopback (sa_ip (cf_bind c)) \<and> \<not> auth
          then [''non-loopback runner binds require REMOTE_CODE_RUNNER_AUTH_TOKEN''] else [])
       @ (if public \<noteq> None \<and> \<not> auth
          then [''remote runner public_base_url requires REMOTE_CODE_RUNNER_AUTH_TOKEN''] else [])
       @ (if is_some_and (\<lambda>u. \<not> starts_with u (str ''https://'')) public
          then [''remote runner public_base_url must use https''] else [])
       @ (if plane \<noteq> None \<and> cf_control_plane_auth_token c = None
          then [''remote control-plane URL requires REMOTE_CODE_CONTROL_PLANE_AUTH_TOKEN or desktop credentials'']
          else []))"

definition status_issues :: "(rstring \<Rightarrow> url option) \<Rightarrow> runner_config \<Rightarrow> string list" where
  "status_issues parse_url c =
     validate_runner_config parse_url c
     @ (if cf_control_plane_url c = None then [''REMOTE_CODE_CONTROL_PLANE_URL is not configured.''] else [])
     @ (if cf_workspaces c = [] then [''No runner workspaces are configured.''] else [])"

section \<open>Calls to the control plane\<close>

definition control_plane_endpoint :: "rstring \<Rightarrow> rstring \<Rightarrow> rstring anyhow" where
  "control_plane_endpoint base path =
     (let b = trim_end_by (\<lambda>c. c = 47) (trim base)
      in if b = [] then Inl ''control plane URL is empty'' else Inr (b @ path))"

definition authorize_control_plane_request ::
  "(rstring \<Rightarrow> rstring option) \<Rightarrow> rstring option \<Rightarrow> rstring option" where
  "authorize_control_plane_request env explicit =
     or_else (Option.bind explicit (\<lambda>t. if trim t = [] then None else Some (trim t)))
       (read_env env ''REMOTE_CODE_CONTROL_PLANE_AUTH_TOKEN'')"

text \<open>\<^verbatim>\<open>encode_path_segment\<close> of \<^verbatim>\<open>rc-agent-protocol/src/util.rs\<close>: unreserved bytes and sub-delimiters stay,
  others become escapes.\<close>

definition encode_path_byte :: "nat \<Rightarrow> rstring" where
  "encode_path_byte b =
     (if is_ascii_alnum b \<or> b \<in> {45, 46, 95, 126} \<or> b \<in> {33, 36, 38, 39, 40, 41, 42, 43, 44, 59, 61} then [b]
      else [37, hex_digit_upper (b div 16), hex_digit_upper (b mod 16)])"

definition encode_path_segment :: "rstring \<Rightarrow> rstring" where
  "encode_path_segment v = concat (map encode_path_byte (utf8 v))"

definition control_plane_call ::
  "('q, 'a) http_client \<Rightarrow> (rstring \<Rightarrow> rstring option) \<Rightarrow> rstring \<Rightarrow> rstring \<Rightarrow> rstring option \<Rightarrow> string \<times> string \<times> string
   \<Rightarrow> 'q \<Rightarrow> 'a anyhow" where
  "control_plane_call http env base path token msgs q =
     bind_result (control_plane_endpoint base path) (\<lambda>url.
       case http url (authorize_control_plane_request env token) q of
         HttpSendError \<Rightarrow> Inl (fst msgs)
       | HttpRejected \<Rightarrow> Inl (fst (snd msgs))
       | HttpDecodeError \<Rightarrow> Inl (snd (snd msgs))
       | HttpOk a \<Rightarrow> Inr a)"

definition register_with_control_plane ::
  "(runner_registration_request, runner_registration_response) http_client \<Rightarrow> (rstring \<Rightarrow> rstring option)
   \<Rightarrow> rstring \<Rightarrow> runner_registration_request \<Rightarrow> rstring option \<Rightarrow> runner_registration_response anyhow" where
  "register_with_control_plane http env base reg token =
     control_plane_call http env base (str ''/v1/runners/register'') token
       (''runner registration request failed'', ''runner registration was rejected by the control plane'',
        ''failed to decode runner registration response'') reg"

definition send_heartbeat ::
  "(runner_heartbeat, runner_snapshot) http_client \<Rightarrow> (rstring \<Rightarrow> rstring option)
   \<Rightarrow> rstring \<Rightarrow> runner_heartbeat \<Rightarrow> rstring option \<Rightarrow> runner_snapshot anyhow" where
  "send_heartbeat http env base hb token =
     control_plane_call http env base
       (str ''/v1/runners/'' @ encode_path_segment (hb_runner_id hb) @ str ''/heartbeat'') token
       (''runner heartbeat request failed'', ''runner heartbeat was rejected by the control plane'',
        ''failed to decode runner heartbeat response'') hb"

section \<open>What the configuration guarantees\<close>

lemma or_else_simps [simp]: "or_else (Some x) y = Some x" "or_else None y = y"
  by (simp_all add: or_else_def)

text \<open>
  A runner whose configuration raises no issue is not exposed: it listens on a loopback address or has
  a token; if it publishes a URL of another machine, it has a token and the URL is an https URL; if it
  reports to a control plane on another machine, it authenticates there. And every issue is one of these.
\<close>

theorem runner_config_issues_exact:
  "validate_runner_config parse_url c = [] \<longleftrightarrow>
     (is_loopback (sa_ip (cf_bind c)) \<or> cf_auth_token c \<noteq> None)
     \<and> is_none_or (\<lambda>u. is_local_runner_url parse_url u
          \<or> cf_auth_token c \<noteq> None \<and> starts_with u (str ''https://'')) (cf_public_base_url c)
     \<and> is_none_or (\<lambda>u. is_local_runner_url parse_url u \<or> cf_control_plane_auth_token c \<noteq> None)
          (cf_control_plane_url c)"
  by (auto simp: validate_runner_config_def remote_url_def Let_def is_none_or_def is_some_and_iff
      split: option.splits bind_splits if_splits)

text \<open>A loaded configuration runs at least one session, beats at least every second it is told to, and is never
  without a workspace unless the caller says so.\<close>

lemma load_runner_config_bounds:
  assumes "load_runner_config env profile cwd ov = Inr c"
  shows "1 \<le> cf_max_parallel_sessions c \<and> 1 \<le> cf_heartbeat_interval_secs c
    \<and> (co_workspaces ov = None \<longrightarrow> cf_workspaces c \<noteq> [])"
proof -
  have ne: "parse_runner_workspaces raw = Inr ws \<Longrightarrow> ws \<noteq> []" for raw ws
    by (auto simp: parse_runner_workspaces_def bind_result_Inr_iff split: if_splits)
  show ?thesis
    using assms ne
    by (auto simp: load_runner_config_def bind_result_Inr_iff Let_def split: option.splits)
qed

subsection \<open>Workspace lists\<close>

text \<open>The notation that \<open>parse_runner_workspaces\<close> expects, printed from the workspaces.\<close>

definition render_workspace :: "runner_workspace \<Rightarrow> rstring" where
  "render_workspace w =
     ws_workspace_id w @ [61] @ ws_root_dir w @ [124] @ (if ws_writable w then str ''rw'' else str ''ro'')"

definition render_workspaces :: "runner_workspace list \<Rightarrow> rstring" where
  "render_workspaces ws = join_with 59 (map render_workspace ws)"

definition plain_field :: "rchar list \<Rightarrow> rstring \<Rightarrow> bool" where
  "plain_field seps s \<longleftrightarrow> s \<noteq> [] \<and> trim s = s \<and> list_all (\<lambda>c. c \<notin> set s) ([59, 10] @ seps)"

definition plain_workspace :: "runner_workspace \<Rightarrow> bool" where
  "plain_workspace w \<longleftrightarrow> plain_field [61] (ws_workspace_id w) \<and> plain_field [124] (ws_root_dir w)"

lemma split_by_append: "(\<forall>c \<in> set p. \<not> P c) \<Longrightarrow> P d \<Longrightarrow> split_by P (p @ d # s) = p # split_by P s"
  by (induction p) auto

lemma split_by_single: "(\<forall>c \<in> set p. \<not> P c) \<Longrightarrow> split_by P p = [p]"
  by (induction p) auto

lemma split_by_join:
  "P d \<Longrightarrow> (\<forall>p \<in> set ps. \<forall>c \<in> set p. \<not> P c) \<Longrightarrow> ps \<noteq> [] \<Longrightarrow> split_by P (join_with d ps) = ps"
  by (induction d ps rule: join_with.induct) (auto simp: split_by_append split_by_single)

lemma split_once_append: "d \<notin> set a \<Longrightarrow> split_once d (a @ d # b) = Some (a, b)"
  by (simp add: split_once_def takeWhile_tail dropWhile_append)

lemma trim_ends:
  assumes "s \<noteq> []" shows "trim s = s \<longleftrightarrow> \<not> is_whitespace (hd s) \<and> \<not> is_whitespace (last s)"
proof
  assume t: "trim s = s"
  have "\<not> is_whitespace (hd s)" using hd_trim [of s] t assms by simp
  moreover have "\<not> is_whitespace (last s)"
    using last_trim_end_by [of is_whitespace "trim_start_by is_whitespace s"] t assms unfolding trim_def by simp
  ultimately show "\<not> is_whitespace (hd s) \<and> \<not> is_whitespace (last s)" ..
next
  assume "\<not> is_whitespace (hd s) \<and> \<not> is_whitespace (last s)"
  with assms show "trim s = s"
    by (cases s) (simp_all add: trim_def trim_start_by_def trim_end_by_id)
qed

lemma parse_render_entry:
  assumes "plain_workspace w" shows "parse_workspace_entry (render_workspace w) = Inr w"
proof -
  let ?flag = "if ws_writable w then str ''rw'' else str ''ro''"
  have root: "ws_root_dir w \<noteq> []" "trim (ws_root_dir w) = ws_root_dir w" "124 \<notin> set (ws_root_dir w)"
    and wid: "ws_workspace_id w \<noteq> []" "trim (ws_workspace_id w) = ws_workspace_id w" "61 \<notin> set (ws_workspace_id w)"
    using assms by (simp_all add: plain_workspace_def plain_field_def)
  have flag: "trim ?flag = ?flag" "124 \<notin> set ?flag" "?flag \<noteq> []"
    by (simp_all add: str_def trim_def trim_start_by_def trim_end_by_def is_whitespace_def)
  have "split_on 124 (ws_root_dir w @ [124] @ ?flag) = [ws_root_dir w, ?flag]"
    using root(3) flag(2) by (simp add: split_on_append_sep split_on_single del: str_def)
  then have "filter (\<lambda>p. p \<noteq> []) (map trim (split_on 124 (ws_root_dir w @ [124] @ ?flag))) = [ws_root_dir w, ?flag]"
    using root flag by simp
  moreover have "parse_workspace_flags [?flag] True = ws_writable w"
    by (simp add: eq_ignore_ascii_case_def str_def ascii_lower_def)
  moreover have "split_once 61 (render_workspace w) = Some (ws_workspace_id w, ws_root_dir w @ [124] @ ?flag)"
    unfolding render_workspace_def using split_once_append [OF wid(3)] by simp
  ultimately show ?thesis
    using wid by (simp add: parse_workspace_entry_def)
qed

lemma render_workspace_plain:
  assumes "plain_workspace w"
  shows "render_workspace w \<noteq> []" "trim (render_workspace w) = render_workspace w"
    "\<forall>c \<in> set (render_workspace w). \<not> (c = 59 \<or> c = 10)"
proof -
  have wid: "ws_workspace_id w \<noteq> []" "\<not> is_whitespace (hd (ws_workspace_id w))"
    using assms trim_ends by (auto simp: plain_workspace_def plain_field_def)
  show ne: "render_workspace w \<noteq> []" by (simp add: render_workspace_def)
  have "\<not> is_whitespace (last (render_workspace w))"
    by (simp add: render_workspace_def str_def is_whitespace_def)
  moreover have "hd (render_workspace w) = hd (ws_workspace_id w)"
    using wid(1) by (simp add: render_workspace_def)
  ultimately show "trim (render_workspace w) = render_workspace w"
    using wid(2) trim_ends [OF ne] by simp
  show "\<forall>c \<in> set (render_workspace w). \<not> (c = 59 \<or> c = 10)"
    using assms by (auto simp: render_workspace_def plain_workspace_def plain_field_def str_def)
qed

lemma parse_entries_render:
  "list_all plain_workspace ws \<Longrightarrow> parse_workspace_entries (map render_workspace ws) = Inr ws"
  by (induction ws) (simp_all add: parse_render_entry)

text \<open>
  Workspace lists survive printing and parsing: a non-empty list of workspaces whose identifiers and
  paths are trimmed and free of the separators comes back unchanged from its textual form.
\<close>

theorem parse_render_workspaces:
  assumes "ws \<noteq> []" "list_all plain_workspace ws"
  shows "parse_runner_workspaces (render_workspaces ws) = Inr ws"
proof -
  let ?es = "map render_workspace ws"
  have p: "w \<in> set ws \<Longrightarrow> plain_workspace w" for w using assms(2) by (simp add: list_all_iff)
  have "split_by (\<lambda>c. c = 59 \<or> c = 10) (join_with 59 ?es) = ?es"
    using assms(1) render_workspace_plain(3) p by (intro split_by_join) auto
  moreover have "map (trim \<circ> render_workspace) ws = ?es" using render_workspace_plain(2) p by simp
  moreover have "filter (\<lambda>e. e \<noteq> []) ?es = ?es"
    using render_workspace_plain(1) p by (simp add: filter_id_conv)
  ultimately show ?thesis
    unfolding parse_runner_workspaces_def render_workspaces_def
    using assms by (simp only: map_map parse_entries_render) simp
qed

theorem parse_render_workspaces_witness:
  "parse_runner_workspaces (str ''a=/x|ro;b=/y|rw'') =
     Inr [\<lparr> ws_workspace_id = str ''a'', ws_root_dir = str ''/x'', ws_writable = False \<rparr>,
          \<lparr> ws_workspace_id = str ''b'', ws_root_dir = str ''/y'', ws_writable = True \<rparr>]"
  using parse_render_workspaces [of "[\<lparr> ws_workspace_id = str ''a'', ws_root_dir = str ''/x'', ws_writable = False \<rparr>,
          \<lparr> ws_workspace_id = str ''b'', ws_root_dir = str ''/y'', ws_writable = True \<rparr>]"]
  by (simp add: render_workspaces_def render_workspace_def plain_workspace_def plain_field_def str_def
      trim_def trim_start_by_def trim_end_by_def is_whitespace_def)

subsection \<open>Path segments\<close>

text \<open>What a server does with a segment: escapes become bytes again, everything else stands for itself.\<close>

fun decode_path_segment :: "rstring \<Rightarrow> nat list" where
  "decode_path_segment (c # h # l # s) =
     (if c = 37 then (case (hex_value h, hex_value l) of
          (Some a, Some b) \<Rightarrow> (16 * a + b) # decode_path_segment s
        | _ \<Rightarrow> c # decode_path_segment (h # l # s))
      else c # decode_path_segment (h # l # s))"
| "decode_path_segment (c # s) = c # decode_path_segment s"
| "decode_path_segment [] = []"

lemma decode_plain: "c \<noteq> 37 \<Longrightarrow> decode_path_segment (c # s) = c # decode_path_segment s"
  by (cases s rule: remdups_adj.cases) auto

lemma decode_path_byte:
  assumes "b < 256"
  shows "decode_path_segment (encode_path_byte b @ s) = b # decode_path_segment s"
proof -
  have "b \<noteq> 37" if "is_ascii_alnum b \<or> b \<in> {45, 46, 95, 126} \<or> b \<in> {33, 36, 38, 39, 40, 41, 42, 43, 44, 59, 61}"
    using that by (auto simp: is_ascii_alnum_def)
  then show ?thesis
    using assms by (auto simp: encode_path_byte_def decode_plain hex_value_upper)
qed

lemma utf8_scalar_bytes:
  assumes "list_all scalar v" "b \<in> set (utf8 v)" shows "b < 256"
proof -
  obtain c where c: "c \<in> set v" "b \<in> set (utf8_char c)" using assms(2) by (auto simp: utf8_def)
  then have "scalar c" using assms(1) by (simp add: list_all_iff)
  with c(2) show ?thesis
    by (auto simp: utf8_char_def scalar_def split: if_splits)
qed

lemma decode_path_bytes:
  "(\<And>b. b \<in> set bs \<Longrightarrow> b < 256) \<Longrightarrow> decode_path_segment (concat (map encode_path_byte bs)) = bs"
  by (induction bs) (simp_all add: decode_path_byte)

definition path_char :: "rchar \<Rightarrow> bool" where
  "path_char c \<longleftrightarrow> is_ascii_alnum c \<or> c \<in> {37, 45, 46, 95, 126} \<or> c \<in> {33, 36, 38, 39, 40, 41, 42, 43, 44, 59, 61}"

lemma hex_digit_upper_alnum: "n < 16 \<Longrightarrow> is_ascii_alnum (hex_digit_upper n)"
  by (simp add: hex_digit_upper_def is_ascii_alnum_def)

lemma encode_path_byte_chars:
  assumes "b < 256" "c \<in> set (encode_path_byte b)" shows "path_char c"
proof (cases "encode_path_byte b = [b]")
  case True
  then show ?thesis using assms(2) by (auto simp: encode_path_byte_def path_char_def split: if_splits)
next
  case False
  then have "c = 37 \<or> c = hex_digit_upper (b div 16) \<or> c = hex_digit_upper (b mod 16)"
    using assms(2) by (auto simp: encode_path_byte_def split: if_splits)
  moreover have "b div 16 < 16" "b mod 16 < 16" using assms(1) by auto
  ultimately show ?thesis using hex_digit_upper_alnum by (auto simp: path_char_def)
qed

lemma path_char_harmless: "path_char c \<Longrightarrow> \<not> (c \<in> {47, 63, 35, 92, 32} \<or> is_control c)"
  unfolding path_char_def is_ascii_alnum_def is_control_def by (elim disjE) auto

text \<open>
  A runner's name cannot leave its place in the path of a request. The encoded segment decodes to
  exactly the bytes of the name, so different names give different paths, and it contains no slash, question
  mark, hash, backslash, space or control character. (The names of one and two dots are left as they are.)
\<close>

theorem path_segment_roundtrip:
  assumes "list_all scalar v"
  shows "decode_path_segment (encode_path_segment v) = utf8 v
    \<and> filter (\<lambda>c. c \<in> {47, 63, 35, 92, 32} \<or> is_control c) (encode_path_segment v) = []"
proof
  show "decode_path_segment (encode_path_segment v) = utf8 v"
    unfolding encode_path_segment_def using utf8_scalar_bytes [OF assms] by (rule decode_path_bytes)
  show "filter (\<lambda>c. c \<in> {47, 63, 35, 92, 32} \<or> is_control c) (encode_path_segment v) = []"
    unfolding filter_empty_conv
  proof
    fix c assume "c \<in> set (encode_path_segment v)"
    then obtain b where "b \<in> set (utf8 v)" "c \<in> set (encode_path_byte b)"
      by (auto simp: encode_path_segment_def)
    then show "\<not> (c \<in> {47, 63, 35, 92, 32} \<or> is_control c)"
      using utf8_scalar_bytes [OF assms] encode_path_byte_chars path_char_harmless by blast
  qed
qed

theorem path_segment_roundtrip_witness:
  "decode_path_segment (encode_path_segment [97, 47, 8364]) = [97, 47, 226, 130, 172]"
  using path_segment_roundtrip [of "[97, 47, 8364]"]
  by (simp add: scalar_def utf8_def utf8_char_def)

end
