(* ===== verification/Runner_Uplink.thy ===== *)
theory Runner_Uplink
  imports Runner_Http "HOL-Library.Multiset"
begin

text \<open>
  What the runner's host sends up to the control plane (\<^verbatim>\<open>rc-runner-host/src/lib.rs\<close>): the rhythm of
  heartbeats and retries, the buffer of runtime events that could not be posted, and the commands it pulls
  and applies. Whether a post succeeds is decided by an answer function over the number of posts so far.
\<close>

section \<open>Intervals\<close>

text \<open>In seconds; \<^verbatim>\<open>u64\<close> values are natural numbers, since only division, minimum and maximum occur.\<close>

definition effective_heartbeat_interval :: "nat \<Rightarrow> nat \<Rightarrow> nat" where
  "effective_heartbeat_interval configured lease = min (max configured 1) (max (lease div 2) 1)"

text \<open>In milliseconds. The entropy is the sub-second part of the clock in nanoseconds.\<close>

definition next_retry_delay :: "nat \<Rightarrow> nat \<Rightarrow> nat" where
  "next_retry_delay entropy current =
     (let doubled = min (current * 2) 30000;
          jitter_range = doubled div 4;
          jitter = entropy mod max jitter_range 1
      in min (doubled - jitter_range div 2 + jitter) 30000)"

text \<open>The delay is twice the last one, give or take an eighth, and never above half a minute.\<close>

lemma jitter_bounds:
  fixes d j :: nat
  assumes "j < max (d div 4) 1"
  shows "d - d div 8 \<le> d - d div 4 div 2 + j" "d - d div 4 div 2 + j \<le> d + d div 8"
proof -
  have h: "d div 4 div 2 = d div 8" by (simp add: div_mult2_eq [symmetric])
  have "d div 4 < 2 * (d div 8) + 2" by linarith
  then have "j \<le> 2 * (d div 8)" using assms by (auto simp: max_def split: if_splits)
  then show "d - d div 8 \<le> d - d div 4 div 2 + j" "d - d div 4 div 2 + j \<le> d + d div 8"
    unfolding h by linarith+
qed

lemma next_retry_delay_bounds:
  fixes entropy current :: nat
  defines "d \<equiv> min (current * 2) 30000"
  shows "d - d div 8 \<le> next_retry_delay entropy current" "next_retry_delay entropy current \<le> min 30000 (d + d div 8)"
proof -
  have eq: "next_retry_delay entropy current = min (d - d div 4 div 2 + entropy mod max (d div 4) 1) 30000"
    by (simp only: next_retry_delay_def Let_def d_def)
  have d: "d \<le> 30000" unfolding d_def by (rule min.cobounded2)
  have j: "entropy mod max (d div 4) 1 < max (d div 4) 1" by (rule mod_less_divisor) simp
  show "d - d div 8 \<le> next_retry_delay entropy current"
    unfolding eq using jitter_bounds(1) [OF j] d diff_le_self [of d "d div 8"] by (intro min.boundedI) linarith+
  show "next_retry_delay entropy current \<le> min 30000 (d + d div 8)"
    unfolding eq using jitter_bounds(2) [OF j] by (intro min.boundedI) linarith+
qed

text \<open>
  Heartbeats outpace the lease. Whatever the runner is configured to, it beats at least once a second
  and, for a lease of two seconds or more, at least twice per lease; so while the last accepted heartbeat is
  no older than two intervals and the runner is in a working state, the control plane counts it available.
\<close>

theorem heartbeat_outpaces_lease:
  assumes "2 \<le> unat lease" "unat lease < 2 ^ 63" "rs_state r \<notin> {Draining, Offline, Unhealthy}"
    and "now \<le> rs_last_seen_at r + seconds (2 * int (effective_heartbeat_interval configured (unat lease)))"
  shows "1 \<le> effective_heartbeat_interval configured (unat lease)
    \<and> 2 * effective_heartbeat_interval configured (unat lease) \<le> unat lease
    \<and> runner_is_available now r lease"
proof -
  have one: "1 \<le> effective_heartbeat_interval configured (unat lease)"
    by (simp add: effective_heartbeat_interval_def)
  have two: "2 * effective_heartbeat_interval configured (unat lease) \<le> unat lease"
    using assms(1) by (auto simp: effective_heartbeat_interval_def)
  have "uint lease < 2 ^ 63" using assms(2) by (simp add: unsigned_def flip: of_nat_less_iff [where 'a = int])
  then have "lease_secs lease = int (unat lease)" by (simp add: lease_secs_def)
  then have "seconds (2 * int (effective_heartbeat_interval configured (unat lease))) \<le> seconds (lease_secs lease)"
    using two by (simp only: seconds_mono)
  with assms(3,4) have "runner_is_available now r lease" unfolding runner_is_available_def by linarith
  with one two show ?thesis by blast
qed

theorem heartbeat_outpaces_lease_witness:
  "runner_is_available (seconds 30)
     \<lparr> rs_registration = demo_registration, rs_state = Idle, rs_active_sessions = 0, rs_queued_sessions = 0,
       rs_registered_at = 0, rs_last_seen_at = 0 \<rparr> 45"
  using heartbeat_outpaces_lease [of 45
      "\<lparr> rs_registration = demo_registration, rs_state = Idle, rs_active_sessions = 0, rs_queued_sessions = 0,
       rs_registered_at = 0, rs_last_seen_at = 0 \<rparr>" "seconds 30" 15]
  by (simp add: effective_heartbeat_interval_def)

section \<open>Pulled commands\<close>

text \<open>The clock and the source of fresh identifiers give a value per command of a batch.\<close>

definition apply_pulled_command ::
  "instant \<Rightarrow> uuid \<Rightarrow> runner_queued_command_body \<Rightarrow> runner_api \<Rightarrow> bool \<times> runner_api" where
  "apply_pulled_command now fresh body api =
     (case body of
        CmdCreateSession req \<Rightarrow> (case create_session_direct now fresh req api of (r, api') \<Rightarrow> (is_ok r, api'))
      | CmdUpdateSessionState sid req \<Rightarrow>
          (case apply_session_state_update_direct now sid req api of (r, api') \<Rightarrow> (is_ok r, api'))
      | CmdSessionCommand sid req \<Rightarrow> (case post_session_command_direct sid req api of (r, api') \<Rightarrow> (is_ok r, api'))
      | CmdCreateApproval sid req \<Rightarrow> (case create_approval_direct now fresh sid req api of (r, api') \<Rightarrow> (is_ok r, api'))
      | CmdApplyApprovalDecision aid req \<Rightarrow>
          (case apply_approval_decision_direct now aid req api of (r, api') \<Rightarrow> (is_ok r, api')))"

text \<open>An error is logged and the batch goes on.\<close>

fun apply_pulled_runner_commands ::
  "(nat \<Rightarrow> instant) \<Rightarrow> (nat \<Rightarrow> uuid) \<Rightarrow> nat \<Rightarrow> runner_queued_command list \<Rightarrow> runner_api \<Rightarrow> runner_api" where
  "apply_pulled_runner_commands clock fresh i [] api = api"
| "apply_pulled_runner_commands clock fresh i (c # cs) api =
     apply_pulled_runner_commands clock fresh (Suc i) cs
       (snd (apply_pulled_command (clock i) (fresh i) (qc_body c) api))"

lemma decision_keeps:
  assumes "api_wf api" shows "keeps api (snd (apply_approval_decision_direct now aid req api))"
proof (cases "decide_approval now aid req api")
  case (Pair d api1)
  show ?thesis
  proof (cases d)
    case (DecisionMade a p)
    with Pair decide_approval_keeps [OF assms] have k: "keeps api api1" "task_wf api1 (TaskSettle now (adr_decision req) a p)"
      by auto
    then have "keeps api1 (settle_decision now (adr_decision req) a p api1)"
      by (intro settle_decision_keeps) (simp_all add: keeps_def)
    with k keeps_trans Pair DecisionMade show ?thesis
      by (simp add: apply_approval_decision_direct_def)
  qed (use Pair assms in \<open>auto simp: apply_approval_decision_direct_def decide_approval_def keeps_refl Let_def
      split: option.splits if_splits\<close>)
qed

lemma post_session_command_keeps:
  "api_wf api \<Longrightarrow> keeps api (snd (post_session_command_direct sid c api))"
  by (auto simp: post_session_command_direct_def keeps_refl intro: emit_event_keeps)

lemma apply_pulled_command_keeps: "api_wf api \<Longrightarrow> keeps api (snd (apply_pulled_command now fresh body api))"
  by (cases body)
    (auto simp: apply_pulled_command_def split_beta section_keeps decision_keeps post_session_command_keeps
      create_approval_direct_keeps)

lemma apply_pulled_keeps:
  "api_wf api \<Longrightarrow> keeps api (apply_pulled_runner_commands clock fresh i cs api)"
proof (induction cs arbitrary: i api)
  case (Cons c cs)
  then show ?case
    using apply_pulled_command_keeps [OF Cons.prems] keeps_trans by (auto simp: keeps_def) blast
qed (simp add: keeps_refl)

lemma apply_pulled_append:
  "apply_pulled_runner_commands clock fresh i (xs @ ys) api =
     apply_pulled_runner_commands clock fresh (i + length xs) ys (apply_pulled_runner_commands clock fresh i xs api)"
  by (induction xs arbitrary: i api) simp_all

text \<open>
  A command that names what it creates or decides; prompts and plain state updates are not repeatable.
\<close>

fun repeatable :: "runner_queued_command_body \<Rightarrow> bool" where
  "repeatable (CmdCreateSession req) = (rcr_session_id req \<noteq> None)"
| "repeatable (CmdCreateApproval sid req) = (acr_approval_id req \<noteq> None)"
| "repeatable (CmdApplyApprovalDecision aid req) = True"
| "repeatable _ = False"

lemma repeated_command:
  assumes "repeatable body" "apply_pulled_command now fresh body api = (True, api1)"
  shows "apply_pulled_command now' fresh' body api1 = (True, api1)"
proof (cases body)
  case (CmdCreateSession req)
  then obtain sid r where "rcr_session_id req = Some sid" "create_session_direct now fresh req api = (Inr r, api1)"
    using assms by (auto simp: apply_pulled_command_def split: prod.splits sum.splits) (metis is_ok_simps(1) sum.exhaust)
  from create_session_direct_again [OF this] show ?thesis by (simp add: apply_pulled_command_def CmdCreateSession)
next
  case (CmdCreateApproval sid req)
  then obtain aid r where "acr_approval_id req = Some aid" "create_approval_direct now fresh sid req api = (Inr r, api1)"
    using assms by (auto simp: apply_pulled_command_def split: prod.splits sum.splits) (metis is_ok_simps(1) sum.exhaust)
  from create_approval_direct_again [OF this] show ?thesis by (simp add: apply_pulled_command_def CmdCreateApproval)
next
  case (CmdApplyApprovalDecision aid req)
  then obtain r where "apply_approval_decision_direct now aid req api = (Inr r, api1)"
    using assms by (auto simp: apply_pulled_command_def split: prod.splits sum.splits) (metis is_ok_simps(1) sum.exhaust)
  from decision_direct_again [OF this] show ?thesis by (simp add: apply_pulled_command_def CmdApplyApprovalDecision)
qed (use assms in auto)

text \<open>
  Commands may be delivered twice. If a command that names the session or approval it concerns has been
  applied successfully, delivering it again, at any time and with any fresh identifier, succeeds and leaves
  the runner exactly as it was, so no second process is started and no second answer is sent; and whole
  batches, whatever fails in them, keep the runner consistent and lose no session and no approval.
\<close>

theorem redelivered_commands_change_nothing:
  assumes "api_wf api" "repeatable (qc_body c)"
    and "apply_pulled_command (clock i) (fresh i) (qc_body c) api = (True, api1)"
  shows "apply_pulled_runner_commands clock fresh i [c, c] api = apply_pulled_runner_commands clock fresh i [c] api
    \<and> api_wf (apply_pulled_runner_commands clock fresh i cs api)
    \<and> extends api (apply_pulled_runner_commands clock fresh i cs api)"
  using repeated_command [OF assms(2,3), of "clock (Suc i)" "fresh (Suc i)"] apply_pulled_keeps [OF assms(1), of clock fresh i cs]
    assms(3)
  by (simp add: keeps_def)

theorem redelivered_commands_change_nothing_witness:
  "let c = \<lparr> qc_command_id = 1, qc_runner_id = str ''runner'', qc_created_at = 0, qc_body = CmdCreateApproval 7
        (demo_approval\<lparr>acr_approval_id := Some 6\<rparr>) \<rparr>
   in apply_pulled_runner_commands (\<lambda>_. 3) (\<lambda>_. 9) 0 [c, c] demo_waiting
      = apply_pulled_runner_commands (\<lambda>_. 3) (\<lambda>_. 9) 0 [c] demo_waiting"
proof -
  let ?c = "\<lparr> qc_command_id = 1, qc_runner_id = str ''runner'', qc_created_at = 0, qc_body = CmdCreateApproval 7
        (demo_approval\<lparr>acr_approval_id := Some 6\<rparr>) \<rparr>"
  obtain s a where "ra_sessions demo_waiting = bm_insert 7 s bm_empty" "ra_approvals demo_waiting = bm_insert 5 a bm_empty"
    using demo_waiting_eval by blast
  then have "\<exists>api1. apply_pulled_command 3 9 (qc_body ?c) demo_waiting = (True, api1)"
    by (simp add: apply_pulled_command_def create_approval_direct_def approval_existing_def mark_waiting_def)
  then obtain api1 where ok: "apply_pulled_command 3 9 (qc_body ?c) demo_waiting = (True, api1)" by blast
  show ?thesis
    using redelivered_commands_change_nothing [where c = ?c and clock = "\<lambda>_. 3" and fresh = "\<lambda>_. 9" and i = 0,
        OF demo_waiting_wf _ ok]
    by (simp add: Let_def del: apply_pulled_runner_commands.simps)
qed

section \<open>Buffered runtime events\<close>

definition max_event_buffer_per_session :: nat where "max_event_buffer_per_session = 500"

text \<open>
  The buffers with their counters, what the control plane has accepted so far (per session, in the order of
  arrival) and how many posts were made.
\<close>

record uplink =
  up_event_buffer :: "(uuid, runtime_event_detail list) btree"
  up_consecutive_flush_failures :: u32
  up_dropped_events :: u32
  up_accepted :: "(uuid \<times> runtime_event_detail) list"
  up_posts :: nat

type_synonym answers = "nat \<Rightarrow> bool"

definition buffered :: "uplink \<Rightarrow> uuid \<Rightarrow> runtime_event_detail list" where
  "buffered u sid = unwrap_or [] (bm_get (up_event_buffer u) sid)"

definition post_detail :: "answers \<Rightarrow> uuid \<Rightarrow> runtime_event_detail \<Rightarrow> uplink \<Rightarrow> bool \<times> uplink" where
  "post_detail ans sid d u =
     (let ok = ans (up_posts u)
      in (ok, u\<lparr>up_posts := Suc (up_posts u),
                up_accepted := (if ok then up_accepted u @ [(sid, d)] else up_accepted u)\<rparr>))"

definition buffer_runtime_event :: "uuid \<Rightarrow> runtime_event_detail \<Rightarrow> uplink \<Rightarrow> uplink" where
  "buffer_runtime_event sid d u =
     (let buf = buffered u sid
      in if max_event_buffer_per_session \<le> length buf
         then u\<lparr>up_event_buffer := bm_insert sid (tl buf @ [d]) (up_event_buffer u),
                up_dropped_events := up_dropped_events u + 1\<rparr>
         else u\<lparr>up_event_buffer := bm_insert sid (buf @ [d]) (up_event_buffer u)\<rparr>)"

text \<open>
  Flushing takes the buffer out, posts event by event, and puts back what is left in front of whatever
  was buffered meanwhile, cut to the cap at the old end.
\<close>

definition take_event_buffer :: "uuid \<Rightarrow> uplink \<Rightarrow> runtime_event_detail list \<times> uplink" where
  "take_event_buffer sid u = (buffered u sid, u\<lparr>up_event_buffer := bm_remove sid (up_event_buffer u)\<rparr>)"

definition rebuffer :: "uuid \<Rightarrow> runtime_event_detail list \<Rightarrow> uplink \<Rightarrow> uplink" where
  "rebuffer sid events u =
     (let all = events @ buffered u sid;
          dropped = length all - max_event_buffer_per_session
      in u\<lparr>up_event_buffer := bm_insert sid (drop_front max_event_buffer_per_session all) (up_event_buffer u),
           up_dropped_events := up_dropped_events u + of_nat dropped\<rparr>)"

fun flush_loop :: "answers \<Rightarrow> uuid \<Rightarrow> runtime_event_detail list \<Rightarrow> uplink \<Rightarrow> uplink" where
  "flush_loop ans sid [] u = u"
| "flush_loop ans sid (d # ds) u =
     (case post_detail ans sid d u of (ok, u') \<Rightarrow>
        if ok then flush_loop ans sid ds (u'\<lparr>up_consecutive_flush_failures := 0\<rparr>)
        else rebuffer sid (d # ds)
               (u'\<lparr>up_consecutive_flush_failures := up_consecutive_flush_failures u' + 1\<rparr>))"

definition flush_event_buffer :: "answers \<Rightarrow> uuid \<Rightarrow> uplink \<Rightarrow> uplink" where
  "flush_event_buffer ans sid u = (case take_event_buffer sid u of (events, u') \<Rightarrow> flush_loop ans sid events u')"

definition flush_backs_off :: "uplink \<Rightarrow> bool" where
  "flush_backs_off u \<longleftrightarrow> 10 \<le> up_consecutive_flush_failures u"

definition post_runtime_event :: "answers \<Rightarrow> uuid \<Rightarrow> runtime_event_detail \<Rightarrow> uplink \<Rightarrow> uplink" where
  "post_runtime_event ans sid d u =
     (case post_detail ans sid d (flush_event_buffer ans sid u) of (ok, u') \<Rightarrow>
        if ok then u' else buffer_runtime_event sid d u')"

definition accepted_of :: "uplink \<Rightarrow> uuid \<Rightarrow> runtime_event_detail list" where
  "accepted_of u sid = map snd (filter (\<lambda>e. fst e = sid) (up_accepted u))"

text \<open>Everything the host still accounts for, oldest first if nothing has been overtaken.\<close>

definition account :: "uplink \<Rightarrow> uuid \<Rightarrow> runtime_event_detail list" where
  "account u sid = accepted_of u sid @ buffered u sid"

definition buffers_ok :: "uplink \<Rightarrow> bool" where
  "buffers_ok u \<longleftrightarrow> (\<forall>sid. length (buffered u sid) \<le> max_event_buffer_per_session)"

lemma buffered_simps [simp]:
  "buffered (u\<lparr>up_event_buffer := bm_insert sid ds m\<rparr>) k = (if k = sid then ds else unwrap_or [] (bm_get m k))"
  "buffered (u\<lparr>up_event_buffer := bm_remove sid m\<rparr>) k = (if k = sid then [] else unwrap_or [] (bm_get m k))"
  "buffered (u\<lparr>up_dropped_events := n\<rparr>) k = buffered u k"
  "buffered (u\<lparr>up_consecutive_flush_failures := n\<rparr>) k = buffered u k"
  "buffered (u\<lparr>up_posts := p, up_accepted := a\<rparr>) k = buffered u k"
  by (simp_all add: buffered_def)

lemma accepted_simps [simp]:
  "accepted_of (u\<lparr>up_event_buffer := m\<rparr>) k = accepted_of u k"
  "accepted_of (u\<lparr>up_dropped_events := n\<rparr>) k = accepted_of u k"
  "accepted_of (u\<lparr>up_consecutive_flush_failures := n\<rparr>) k = accepted_of u k"
  by (simp_all add: accepted_of_def)

lemma unwrap_buffered [simp]: "unwrap_or [] (bm_get (up_event_buffer u) k) = buffered u k"
  by (simp add: buffered_def)

lemma post_detail_frame [simp]: "buffered (snd (post_detail ans sid d u)) k = buffered u k"
  "up_posts (snd (post_detail ans sid d u)) = Suc (up_posts u)"
  "fst (post_detail ans sid d u) = ans (up_posts u)"
  by (simp_all add: post_detail_def Let_def)

lemma post_detail_accepted [simp]:
  "accepted_of (snd (post_detail ans sid d u)) k =
     (if ans (up_posts u) \<and> k = sid then accepted_of u k @ [d] else accepted_of u k)"
  by (auto simp: post_detail_def accepted_of_def Let_def)

lemma rebuffer_buffered:
  "buffered (rebuffer sid events u) k =
     (if k = sid then drop_front max_event_buffer_per_session (events @ buffered u sid) else buffered u k)"
  by (simp add: rebuffer_def Let_def)

lemma rebuffer_frame [simp]: "accepted_of (rebuffer sid events u) k = accepted_of u k"
  "up_posts (rebuffer sid events u) = up_posts u"
  by (simp_all add: rebuffer_def Let_def)

lemma buffer_runtime_event_buffered:
  "length (buffered u sid) \<le> max_event_buffer_per_session \<Longrightarrow>
   buffered (buffer_runtime_event sid d u) k =
     (if k = sid then push_bounded max_event_buffer_per_session d (buffered u sid) else buffered u k)"
  by (auto simp: buffer_runtime_event_def Let_def push_bounded_room push_bounded_full max_event_buffer_per_session_def)

lemma buffer_runtime_event_frame [simp]: "accepted_of (buffer_runtime_event sid d u) k = accepted_of u k"
  by (simp add: buffer_runtime_event_def Let_def)

interpretation event_buffer: bounded_log
  "\<lambda>u. buffered u sid" "buffer_runtime_event sid" "\<lambda>d. d" max_event_buffer_per_session
  "\<lambda>u. length (buffered u sid) \<le> max_event_buffer_per_session"
  by unfold_locales (simp_all add: buffer_runtime_event_buffered length_push_bounded)

lemma flush_loop_other: "k \<noteq> sid \<Longrightarrow>
  buffered (flush_loop ans sid ds u) k = buffered u k \<and> accepted_of (flush_loop ans sid ds u) k = accepted_of u k"
  by (induction ds arbitrary: u) (simp_all add: split_beta rebuffer_buffered)

text \<open>A flush hands over a prefix of the buffer and keeps the rest.\<close>

lemma flush_loop_prefix:
  "buffered u sid = [] \<Longrightarrow> length ds \<le> max_event_buffer_per_session \<Longrightarrow>
   \<exists>n. accepted_of (flush_loop ans sid ds u) sid = accepted_of u sid @ take n ds
       \<and> buffered (flush_loop ans sid ds u) sid = drop n ds"
proof (induction ds arbitrary: u)
  case (Cons d ds)
  let ?u1 = "snd (post_detail ans sid d u)"
  show ?case
  proof (cases "ans (up_posts u)")
    case True
    obtain n where "accepted_of (flush_loop ans sid ds (?u1\<lparr>up_consecutive_flush_failures := 0\<rparr>)) sid = accepted_of ?u1 sid @ take n ds"
      "buffered (flush_loop ans sid ds (?u1\<lparr>up_consecutive_flush_failures := 0\<rparr>)) sid = drop n ds"
      using Cons.IH [of "?u1\<lparr>up_consecutive_flush_failures := 0\<rparr>"] Cons.prems by auto
    with True show ?thesis by (intro exI [of _ "Suc n"]) (simp add: split_beta)
  next
    case False
    with Cons.prems show ?thesis
      by (intro exI [of _ 0]) (simp add: split_beta rebuffer_buffered drop_front_eq)
  qed
qed simp

lemma flush_event_buffer_account:
  assumes "buffers_ok u"
  shows "account (flush_event_buffer ans sid u) k = account u k"
    "length (buffered (flush_event_buffer ans sid u) k) \<le> length (buffered u k)"
proof -
  let ?u1 = "u\<lparr>up_event_buffer := bm_remove sid (up_event_buffer u)\<rparr>"
  have f: "flush_event_buffer ans sid u = flush_loop ans sid (buffered u sid) ?u1"
    by (simp add: flush_event_buffer_def take_event_buffer_def)
  have "length (buffered u sid) \<le> max_event_buffer_per_session" using assms by (simp add: buffers_ok_def)
  then obtain n where n: "accepted_of (flush_event_buffer ans sid u) sid = accepted_of u sid @ take n (buffered u sid)"
    "buffered (flush_event_buffer ans sid u) sid = drop n (buffered u sid)"
    using flush_loop_prefix [of ?u1 sid "buffered u sid" ans] by (auto simp: f)
  have other: "buffered (flush_event_buffer ans sid u) k = buffered u k"
    "accepted_of (flush_event_buffer ans sid u) k = accepted_of u k" if "k \<noteq> sid"
    using flush_loop_other [OF that, of ans "buffered u sid" ?u1] that by (simp_all add: f)
  show "account (flush_event_buffer ans sid u) k = account u k"
    "length (buffered (flush_event_buffer ans sid u) k) \<le> length (buffered u k)"
    using n other by (cases "k = sid"; simp add: account_def)+
qed

text \<open>
  C27. Runtime events and an unreliable control plane. Posting an event first hands over the buffer from its
  old end and stops at the first failure, then posts the event, and buffers it if that fails. No buffer ever
  exceeds 500 events and no other session is touched. While the session's buffer has room, nothing is lost
  and nothing is sent twice: what has been accepted and what is buffered together gain exactly the new event.
  And the order is kept, unless the new event is accepted while older ones are still buffered: then it
  overtakes them.
\<close>

theorem runtime_events_accounted:
  assumes "buffers_ok u" "length (buffered u sid) < max_event_buffer_per_session" "k \<noteq> sid"
  shows "let u' = post_runtime_event ans sid d u in
    buffers_ok u' \<and> account u' k = account u k
    \<and> mset (account u' sid) = mset (account u sid) + {#d#}
    \<and> account u' sid = (let f = flush_event_buffer ans sid u in
         if ans (up_posts f) then accepted_of f sid @ [d] @ buffered f sid else account u sid @ [d])
    \<and> (buffered (flush_event_buffer ans sid u) sid = [] \<longrightarrow> account u' sid = account u sid @ [d])"
proof -
  let ?f = "flush_event_buffer ans sid u"
  have acc: "account ?f j = account u j" and len: "length (buffered ?f j) \<le> length (buffered u j)" for j
    using flush_event_buffer_account [OF assms(1)] by blast+
  have room: "length (buffered ?f sid) < max_event_buffer_per_session" using len [of sid] assms(2) by simp
  have fok: "length (buffered ?f j) \<le> max_event_buffer_per_session" for j
    using len [of j] assms(1) by (auto simp: buffers_ok_def intro: le_trans)
  have msetf: "mset (accepted_of ?f sid) + mset (buffered ?f sid) = mset (account u sid)"
    using acc [of sid] by (simp add: account_def flip: mset_append)
  show ?thesis
  proof (cases "ans (up_posts ?f)")
    case True
    then have u': "post_runtime_event ans sid d u = snd (post_detail ans sid d ?f)"
      by (simp add: post_runtime_event_def split_beta)
    have "account (post_runtime_event ans sid d u) sid = accepted_of ?f sid @ [d] @ buffered ?f sid"
      using True by (simp add: u' account_def)
    with True acc [of k] acc [of sid] fok msetf assms(3) show ?thesis
      by (auto simp: u' account_def buffers_ok_def Let_def)
  next
    case False
    let ?p = "snd (post_detail ans sid d ?f)"
    have u': "post_runtime_event ans sid d u = buffer_runtime_event sid d ?p"
      using False by (simp add: post_runtime_event_def split_beta)
    have b: "buffered (post_runtime_event ans sid d u) j =
        (if j = sid then buffered ?f sid @ [d] else buffered ?f j)" for j
      using room fok [of sid] by (simp add: u' buffer_runtime_event_buffered push_bounded_room)
    have "account (post_runtime_event ans sid d u) sid = account u sid @ [d]"
      using False acc [of sid] b [of sid] by (simp add: u' account_def)
    moreover have "account (post_runtime_event ans sid d u) k = account u k"
      using False acc [of k] b [of k] assms(3) by (simp add: u' account_def)
    moreover have "buffers_ok (post_runtime_event ans sid d u)"
      using b room fok by (simp add: buffers_ok_def)
    ultimately show ?thesis using False by (simp add: Let_def)
  qed
qed

definition demo_uplink :: uplink where
  "demo_uplink = \<lparr> up_event_buffer = bm_insert 7 [RtRuntimeError (str ''old'')] bm_empty,
     up_consecutive_flush_failures = 0, up_dropped_events = 0, up_accepted = [], up_posts = 0 \<rparr>"

lemma demo_uplink_ok: "buffers_ok demo_uplink" "length (buffered demo_uplink 7) < max_event_buffer_per_session"
  by (auto simp: buffers_ok_def buffered_def demo_uplink_def max_event_buffer_per_session_def)

theorem runtime_events_accounted_witness:
  "mset (account (post_runtime_event (\<lambda>_. False) 7 (RtRuntimeError (str ''new'')) demo_uplink) 7)
   = {#RtRuntimeError (str ''old''), RtRuntimeError (str ''new'')#}"
proof -
  have "account demo_uplink 7 = [RtRuntimeError (str ''old'')]"
    by (simp add: account_def accepted_of_def buffered_def demo_uplink_def)
  then show ?thesis
    using runtime_events_accounted [OF demo_uplink_ok, of 8 "\<lambda>_. False" "RtRuntimeError (str ''new'')"]
    by (simp add: Let_def)
qed

text \<open>The overtaking happens: the buffered event is refused once, the new one is accepted right after.\<close>

lemma new_event_overtakes_buffered:
  "accepted_of (post_runtime_event (\<lambda>n. n \<noteq> 0) 7 d demo_uplink) 7 = [d]
   \<and> buffered (post_runtime_event (\<lambda>n. n \<noteq> 0) 7 d demo_uplink) 7 = [RtRuntimeError (str ''old'')]"
  by (simp add: post_runtime_event_def flush_event_buffer_def take_event_buffer_def demo_uplink_def buffered_def
      post_detail_def rebuffer_def accepted_of_def drop_front_eq max_event_buffer_per_session_def Let_def
      del: unwrap_buffered)

end
