(* ===== verification/Json_Value.thy ===== *)
theory Json_Value
  imports Rc_Prelude
begin

text \<open>
  JSON values as the program handles them (\<^verbatim>\<open>serde_json::Value\<close>): an object is a list of members, and the
  accessors follow the crate's documentation. A number is its lexeme. Parsing and printing text are not
  modelled here; where the program does either, they are parameters.
\<close>

datatype json =
    JNull
  | JBool bool
  | JNum rstring
  | JStr rstring
  | JArr "json list"
  | JObj "(rstring \<times> json) list"

text \<open>\<^verbatim>\<open>Value::get\<close> with a key: a member of an object, nothing for other values.\<close>

fun j_get :: "json \<Rightarrow> string \<Rightarrow> json option" where
  "j_get (JObj ms) k = map_of ms (str k)"
| "j_get _ k = None"

fun as_str :: "json \<Rightarrow> rstring option" where
  "as_str (JStr s) = Some s"
| "as_str _ = None"

fun as_bool :: "json \<Rightarrow> bool option" where
  "as_bool (JBool b) = Some b"
| "as_bool _ = None"

fun as_object :: "json \<Rightarrow> json option" where
  "as_object (JObj ms) = Some (JObj ms)"
| "as_object _ = None"

fun as_array :: "json \<Rightarrow> json list option" where
  "as_array (JArr vs) = Some vs"
| "as_array _ = None"

definition get_str :: "json \<Rightarrow> string \<Rightarrow> rstring option" where
  "get_str v k = Option.bind (j_get v k) as_str"

definition get_bool :: "json \<Rightarrow> string \<Rightarrow> bool option" where
  "get_bool v k = Option.bind (j_get v k) as_bool"

definition get_non_empty :: "json \<Rightarrow> string \<Rightarrow> rstring option" where
  "get_non_empty v k = Option.bind (get_str v k) (\<lambda>s. if s = [] then None else Some s)"

definition jstr :: "string \<Rightarrow> json" where
  "jstr s = JStr (str s)"

definition jobj :: "(string \<times> json) list \<Rightarrow> json" where
  "jobj ms = JObj (map (\<lambda>(k, v). (str k, v)) ms)"

lemma str_inj [simp]: "str a = str b \<longleftrightarrow> a = b"
proof -
  have "inj (of_char :: char \<Rightarrow> nat)" by (rule injI) (simp add: of_char_eq_iff)
  then show ?thesis unfolding str_def by (simp add: inj_map_eq_map)
qed

lemma j_get_jobj: "j_get (jobj ms) k = map_of ms k"
  by (induction ms) (auto simp: jobj_def)

lemmas json_simps [simp] = j_get_jobj jstr_def get_str_def get_bool_def get_non_empty_def

end
