(* ===== verification/Runner_Host.thy ===== *)
theory Runner_Host
  imports Runner_Uplink Json_Value
begin

text \<open>
  The host of sessions on a runner (\<^verbatim>\<open>rc-runner-host/src/lib.rs\<close>): it starts a process per session, reads the
  process's protocol lines, turns its permission requests into approvals at the control plane and the
  decisions back into answers, watches file-writing tools for artifacts to upload, and reports states and
  events. The process, the control plane's answers, the JSON parser and the file system are parameters.
  A handle is shared by the tasks of a session and outlives its entry among the active sessions, so the two
  are separate fields.
\<close>

section \<open>State\<close>

definition max_pending_tool_inputs :: nat where "max_pending_tool_inputs = 1000"
definition max_tool_input_bytes :: nat where "max_tool_input_bytes = 1024 * 1024"
definition max_artifact_upload_bytes :: nat where "max_artifact_upload_bytes = 10 * 1024 * 1024"

text \<open>The input queue holds what was sent to the process; a full channel makes the sender wait, so nothing is dropped.\<close>

record hosted_session =
  hs_input :: "json list"
  hs_input_closed :: bool
  hs_request_to_approval :: "(rstring, uuid) btree"
  hs_approval_to_request :: "(uuid, rstring) btree"
  hs_pending_tool_inputs :: "(rstring, rstring) btree"
  hs_workspace_dir :: rstring

record host =
  hm_api :: runner_api
  hm_handles :: "(uuid, hosted_session) btree"
  hm_active :: "(uuid, unit) btree"
  hm_uplink :: uplink
  hm_states_posted :: "(uuid \<times> session_state) list"
  hm_uploads :: "(uuid \<times> rstring \<times> rstring) list"
  hm_published :: "(uuid \<times> rstring) list"

text \<open>How the control plane answers: to events, state updates, new approvals and decisions.\<close>

record plane =
  pl_events :: answers
  pl_state :: "uuid \<Rightarrow> session_state \<Rightarrow> unit anyhow"
  pl_create :: "uuid \<Rightarrow> approval_create_request \<Rightarrow> approval_request_record anyhow"
  pl_resolve :: "uuid \<Rightarrow> approval_decision_request \<Rightarrow> unit anyhow"

definition with_handle :: "uuid \<Rightarrow> (hosted_session \<Rightarrow> hosted_session) \<Rightarrow> host \<Rightarrow> host" where
  "with_handle sid f h = h\<lparr>hm_handles := bm_update sid f (hm_handles h)\<rparr>"

definition host_post_event :: "plane \<Rightarrow> uuid \<Rightarrow> runtime_event_detail \<Rightarrow> host \<Rightarrow> host" where
  "host_post_event p sid d h = h\<lparr>hm_uplink := post_runtime_event (pl_events p) sid d (hm_uplink h)\<rparr>"

definition post_control_plane_session_state ::
  "plane \<Rightarrow> uuid \<Rightarrow> session_state \<Rightarrow> host \<Rightarrow> unit anyhow \<times> host" where
  "post_control_plane_session_state p sid st h =
     (let r = pl_state p sid st
      in (r, if is_ok r then h\<lparr>hm_states_posted := hm_states_posted h @ [(sid, st)]\<rparr> else h))"

definition send_json_line :: "uuid \<Rightarrow> json \<Rightarrow> host \<Rightarrow> unit anyhow \<times> host" where
  "send_json_line sid payload h =
     (case bm_get (hm_handles h) sid of
        Some hs \<Rightarrow>
          if \<not> bm_contains (hm_active h) sid then (Inl ''hosted session {} is not active'', h)
          else if hs_input_closed hs then (Inl ''hosted session {} input channel is closed'', h)
          else (Inr (), with_handle sid (\<lambda>s. s\<lparr>hs_input := hs_input s @ [payload]\<rparr>) h)
      | None \<Rightarrow> (Inl ''hosted session {} is not active'', h))"

section \<open>Tools that write files\<close>

definition is_file_write_tool :: "rstring \<Rightarrow> bool" where
  "is_file_write_tool name \<longleftrightarrow>
     map ascii_lower (filter is_ascii_alnum name) \<in>
       set (map str [''write'', ''edit'', ''replaceinfile'', ''writefile'', ''editfile'', ''createfile'', ''notebookedit''])"

text \<open>
  \<^verbatim>\<open>keys().next()\<close> on a hash map: some key. The number \<open>i\<close> picks it.
\<close>

definition any_key :: "nat \<Rightarrow> ('k::linorder, 'v) btree \<Rightarrow> 'k option" where
  "any_key i m = (if entries m = [] then None else Some (fst (entries m ! (i mod length (entries m)))))"

definition handle_tool_started :: "nat \<Rightarrow> json \<Rightarrow> hosted_session \<Rightarrow> hosted_session" where
  "handle_tool_started i v hs =
     (if \<not> is_file_write_tool (unwrap_or [] (get_str v ''tool_name'')) then hs
      else case get_str v ''tool_use_id'' of
        None \<Rightarrow> hs
      | Some tid \<Rightarrow>
          (let m = hs_pending_tool_inputs hs;
               m1 = (if max_pending_tool_inputs \<le> bm_len m
                     then (case any_key i m of None \<Rightarrow> m | Some k \<Rightarrow> bm_remove k m) else m)
           in hs\<lparr>hs_pending_tool_inputs := bm_insert tid [] m1\<rparr>))"

definition handle_tool_progress :: "json \<Rightarrow> hosted_session \<Rightarrow> hosted_session" where
  "handle_tool_progress v hs =
     (case (get_str v ''tool_use_id'', get_str v ''input_delta'') of
        (Some tid, Some delta) \<Rightarrow>
          hs\<lparr>hs_pending_tool_inputs :=
             bm_update tid (\<lambda>acc. if length (utf8 acc) + length (utf8 delta) \<le> max_tool_input_bytes
                                  then acc @ delta else acc) (hs_pending_tool_inputs hs)\<rparr>
      | _ \<Rightarrow> hs)"

definition extract_file_path_from_tool_input :: "(rstring \<Rightarrow> json option) \<Rightarrow> rstring \<Rightarrow> rstring option" where
  "extract_file_path_from_tool_input parse_json input =
     Option.bind (parse_json input) (\<lambda>v.
     Option.bind (or_else (j_get v ''file_path'') (or_else (j_get v ''notebook_path'') (j_get v ''path''))) as_str)"

text \<open>The path to upload, if any, and the session without the accumulated input.\<close>

definition handle_tool_finished ::
  "(rstring \<Rightarrow> json option) \<Rightarrow> json \<Rightarrow> hosted_session \<Rightarrow> rstring option \<times> hosted_session" where
  "handle_tool_finished parse_json v hs =
     (let drop_input = (\<lambda>tid. hs\<lparr>hs_pending_tool_inputs := bm_remove tid (hs_pending_tool_inputs hs)\<rparr>)
      in if unwrap_or True (get_bool v ''is_error'') \<or> \<not> is_file_write_tool (unwrap_or [] (get_str v ''tool_name''))
         then (None, case get_str v ''tool_use_id'' of None \<Rightarrow> hs | Some tid \<Rightarrow> drop_input tid)
         else case get_str v ''tool_use_id'' of
           None \<Rightarrow> (None, hs)
         | Some tid \<Rightarrow>
             (case bm_get (hs_pending_tool_inputs hs) tid of
                None \<Rightarrow> (None, hs)
              | Some input \<Rightarrow> (extract_file_path_from_tool_input parse_json input, drop_input tid)))"

section \<open>Approvals of the process\<close>

definition control_response_payload :: "rstring \<Rightarrow> string \<Rightarrow> rstring \<Rightarrow> json" where
  "control_response_payload rid behavior message =
     jobj [(''type'', jstr ''control_response''), (''request_id'', JStr rid),
           (''response'', jobj [(''subtype'', jstr ''success''), (''request_id'', JStr rid),
              (''response'', jobj [(''behavior'', jstr behavior), (''message'', JStr message)])])]"

definition add_some :: "string \<Rightarrow> rstring option \<Rightarrow> metadata \<Rightarrow> metadata" where
  "add_some k v m = (case v of None \<Rightarrow> m | Some x \<Rightarrow> bm_insert (str k) x m)"

definition control_request_approval :: "rstring \<Rightarrow> json \<Rightarrow> approval_create_request" where
  "control_request_approval rid req =
     \<lparr> acr_approval_id = None,
       acr_title = unwrap_or (str ''Approve tool use'') (get_non_empty req ''title''),
       acr_description = unwrap_or (str ''Runtime requested approval.'') (get_str req ''description''),
       acr_metadata = add_some ''blocked_path'' (get_non_empty req ''blocked_path'')
         (add_some ''tool_use_id'' (get_non_empty req ''tool_use_id'')
           (add_some ''tool_name'' (get_non_empty req ''tool_name'')
             (bm_insert (str ''request_id'') rid bm_empty))) \<rparr>"

text \<open>The two maps are filled after the control plane has answered.\<close>

definition register_request :: "uuid \<Rightarrow> rstring \<Rightarrow> uuid \<Rightarrow> host \<Rightarrow> host" where
  "register_request sid rid aid =
     with_handle sid (\<lambda>hs. hs\<lparr>hs_request_to_approval := bm_insert rid aid (hs_request_to_approval hs),
                              hs_approval_to_request := bm_insert aid rid (hs_approval_to_request hs)\<rparr>)"

definition handle_control_request :: "plane \<Rightarrow> uuid \<Rightarrow> json \<Rightarrow> host \<Rightarrow> unit anyhow \<times> host" where
  "handle_control_request p sid v h =
     (case get_str v ''request_id'' of
        None \<Rightarrow> (Inl ''control_request missing request_id'', h)
      | Some rid \<Rightarrow>
          (case Option.bind (j_get v ''request'') as_object of
             None \<Rightarrow> (Inl ''control_request missing request payload'', h)
           | Some req \<Rightarrow>
               if unwrap_or [] (get_str req ''subtype'') \<noteq> str ''can_use_tool'' then (Inr (), h)
               else (case pl_create p sid (control_request_approval rid req) of
                       Inr a \<Rightarrow> (Inr (), register_request sid rid (ap_approval_id a) h)
                     | Inl e \<Rightarrow>
                         send_json_line sid (control_response_payload rid ''deny''
                           (str ''Remote approval service is unavailable: {error}'')) h)))"

definition cancelled_by_runtime :: approval_decision_request where
  "cancelled_by_runtime =
     \<lparr> adr_decision = DecisionCancelled, adr_responder = Some (str ''runner''),
       adr_note = Some (str ''Runtime cancelled approval request {request_id} for session {session_id}.'') \<rparr>"

definition cancel_pending_approval :: "plane \<Rightarrow> uuid \<Rightarrow> rstring \<Rightarrow> host \<Rightarrow> unit anyhow \<times> host" where
  "cancel_pending_approval p sid rid h =
     (case Option.bind (bm_get (hm_handles h) sid) (\<lambda>hs. bm_get (hs_request_to_approval hs) rid) of
        None \<Rightarrow> (Inr (), h)
      | Some aid \<Rightarrow>
          (let h1 = with_handle sid (\<lambda>hs. hs\<lparr>hs_request_to_approval := bm_remove rid (hs_request_to_approval hs)\<rparr>) h
           in case pl_resolve p aid cancelled_by_runtime of
                Inr _ \<Rightarrow>
                  (Inr (), with_handle sid (\<lambda>hs. hs\<lparr>hs_approval_to_request := bm_remove aid (hs_approval_to_request hs)\<rparr>) h1)
              | Inl e \<Rightarrow>
                  (Inl e, with_handle sid (\<lambda>hs. hs\<lparr>hs_request_to_approval := bm_insert rid aid (hs_request_to_approval hs)\<rparr>) h1)))"

fun approval_behavior :: "approval_state \<Rightarrow> string option" where
  "approval_behavior ApApproved = Some ''allow''"
| "approval_behavior ApDenied = Some ''deny''"
| "approval_behavior ApCancelled = Some ''deny''"
| "approval_behavior ApPending = None"

fun default_note :: "approval_state \<Rightarrow> rstring" where
  "default_note ApApproved = str ''Approved remotely.''"
| "default_note ApDenied = str ''Denied remotely.''"
| "default_note ApCancelled = str ''Cancelled remotely.''"
| "default_note ApPending = []"

definition forward_approval_resolution :: "approval_request_record \<Rightarrow> host \<Rightarrow> unit anyhow \<times> host" where
  "forward_approval_resolution a h =
     (let sid = ap_session_id a
      in case (if bm_contains (hm_active h) sid
               then Option.bind (bm_get (hm_handles h) sid) (\<lambda>hs. bm_get (hs_approval_to_request hs) (ap_approval_id a))
               else None) of
           None \<Rightarrow> (Inr (), h)
         | Some rid \<Rightarrow>
             (let h1 = with_handle sid (\<lambda>hs. hs\<lparr>
                    hs_request_to_approval := bm_remove rid (hs_request_to_approval hs),
                    hs_approval_to_request := bm_remove (ap_approval_id a) (hs_approval_to_request hs)\<rparr>) h
              in case approval_behavior (ap_state a) of
                   None \<Rightarrow> (Inr (), h1)
                 | Some b \<Rightarrow>
                     send_json_line sid
                       (control_response_payload rid b (unwrap_or (default_note (ap_state a)) (ap_note a))) h1))"

fun session_command_payload :: "runner_session_command_request \<Rightarrow> json" where
  "session_command_payload (SendPrompt content) =
     jobj [(''type'', jstr ''user''), (''message'', jobj [(''role'', jstr ''user''), (''content'', JStr content)])]"
| "session_command_payload Interrupt =
     jobj [(''type'', jstr ''control_request''), (''request'', jobj [(''subtype'', jstr ''interrupt'')])]"

definition forward_session_command :: "uuid \<Rightarrow> runner_session_command_request \<Rightarrow> host \<Rightarrow> unit anyhow \<times> host" where
  "forward_session_command sid c h = send_json_line sid (session_command_payload c) h"

section \<open>Sessions\<close>

definition map_runtime_session_state :: "rstring \<Rightarrow> (runner_session_state \<times> session_state) option" where
  "map_runtime_session_state s =
     (if s \<in> set (map str [''running'', ''idle'']) then Some (RsRunning, Running)
      else if s \<in> set (map str [''completed'', ''end_turn'', ''stop'']) then Some (RsCompleted, Completed)
      else if s \<in> set (map str [''failed'', ''error'']) then Some (RsFailed, Failed)
      else None)"

definition host_update_session ::
  "instant \<Rightarrow> uuid \<Rightarrow> runner_session_state \<Rightarrow> host \<Rightarrow> runner_session_record anyhow \<times> host" where
  "host_update_session now sid st h =
     (case apply_session_state_update_direct now sid \<lparr> rsu_state = st, rsu_metadata = bm_empty \<rparr> (hm_api h) of
        (r, api) \<Rightarrow> (r, h\<lparr>hm_api := api\<rparr>))"

definition apply_runtime_session_state :: "plane \<Rightarrow> instant \<Rightarrow> uuid \<Rightarrow> rstring \<Rightarrow> host \<Rightarrow> unit anyhow \<times> host" where
  "apply_runtime_session_state p now sid st h =
     (case map_runtime_session_state st of
        None \<Rightarrow> (Inr (), h)
      | Some (rst, cst) \<Rightarrow>
          (case host_update_session now sid rst h of
             (Inl e, h1) \<Rightarrow> (Inl e, h1)
           | (Inr _, h1) \<Rightarrow> (Inr (), snd (post_control_plane_session_state p sid cst h1))))"

text \<open>The process's arguments, and the new handle.\<close>

definition hosted_process_args :: "rstring \<Rightarrow> runner_session_record \<Rightarrow> runner_workspace \<Rightarrow> rstring list" where
  "hosted_process_args profile s w =
     [str ''--cwd'', ws_root_dir w, str ''--profile-dir'', profile, str ''--session-id'', uuid_string (rsr_session_id s),
      str ''--input-format'', str ''stream-json'', str ''--output-format'', str ''stream-json'', str ''--print'']"

definition new_handle :: "runner_workspace \<Rightarrow> hosted_session" where
  "new_handle w =
     \<lparr> hs_input = [], hs_input_closed = False, hs_request_to_approval = bm_empty, hs_approval_to_request = bm_empty,
       hs_pending_tool_inputs = bm_empty, hs_workspace_dir = ws_root_dir w \<rparr>"

definition spawn_hosted_session :: "plane \<Rightarrow> (rstring list \<Rightarrow> bool) \<Rightarrow> rstring \<Rightarrow> runner_session_record \<Rightarrow> host \<Rightarrow> unit anyhow \<times> host" where
  "spawn_hosted_session p spawns profile s h =
     (let sid = rsr_session_id s
      in if bm_contains (hm_active h) sid then (Inr (), h)
         else case owned_workspace (hm_api h) (rsr_workspace_id s) of
           None \<Rightarrow> (Inl ''workspace {} was not found'', h)
         | Some w \<Rightarrow>
             if \<not> spawns (hosted_process_args profile s w)
             then (Inl ''failed to spawn hosted remote-code process using {}'', h)
             else (Inr (), host_post_event p sid (RtDaemonPresenceChanged DaemonOnline)
                     (h\<lparr>hm_handles := bm_insert sid (new_handle w) (hm_handles h),
                        hm_active := bm_insert sid () (hm_active h)\<rparr>)))"

datatype hosted_exit = ExitSuccess | ExitStatus rstring | WaitFailed rstring

fun exit_outcome :: "hosted_exit \<Rightarrow> runner_session_state \<times> session_state \<times> rstring option" where
  "exit_outcome ExitSuccess = (RsCompleted, Completed, None)"
| "exit_outcome (ExitStatus st) = (RsFailed, Failed, Some (str ''Hosted session exited with status `'' @ st @ str ''`.''))"
| "exit_outcome (WaitFailed e) = (RsFailed, Failed, Some (str ''Hosted session wait failed: '' @ e))"

definition handle_hosted_session_exit :: "plane \<Rightarrow> instant \<Rightarrow> uuid \<Rightarrow> hosted_exit \<Rightarrow> host \<Rightarrow> unit anyhow \<times> host" where
  "handle_hosted_session_exit p now sid exit h =
     (let h1 = host_post_event p sid (RtDaemonPresenceChanged DaemonOffline)
                 (h\<lparr>hm_active := bm_remove sid (hm_active h)\<rparr>)
      in case exit_outcome exit of (rst, cst, err) \<Rightarrow>
           (case host_update_session now sid rst h1 of
              (Inl e, h2) \<Rightarrow> (Inl e, h2)
            | (Inr _, h2) \<Rightarrow>
                (let h3 = (case err of None \<Rightarrow> h2 | Some m \<Rightarrow> host_post_event p sid (RtRuntimeError m) h2)
                 in (Inr (), snd (post_control_plane_session_state p sid cst h3)))))"

definition handle_runner_event ::
  "plane \<Rightarrow> (rstring list \<Rightarrow> bool) \<Rightarrow> rstring \<Rightarrow> runner_api_event \<Rightarrow> host \<Rightarrow> unit anyhow \<times> host" where
  "handle_runner_event p spawns profile e h =
     (case e of
        SessionCreated s \<Rightarrow> spawn_hosted_session p spawns profile s h
      | ApprovalResolved a \<Rightarrow> forward_approval_resolution a h
      | SessionCommand sid c \<Rightarrow> forward_session_command sid c h)"

section \<open>Protocol lines\<close>

record protocol =
  pr_parse :: "rstring \<Rightarrow> json option"
  pr_contract :: "json \<Rightarrow> shared_runtime_event_contract option"

definition post_contract_event :: "plane \<Rightarrow> protocol \<Rightarrow> uuid \<Rightarrow> json \<Rightarrow> host \<Rightarrow> host" where
  "post_contract_event p pr sid v h =
     (case pr_contract pr v of None \<Rightarrow> h | Some c \<Rightarrow> host_post_event p sid (runtime_of_shared c) h)"

definition finish_tool :: "protocol \<Rightarrow> uuid \<Rightarrow> json \<Rightarrow> host \<Rightarrow> host" where
  "finish_tool pr sid v h =
     (case bm_get (hm_handles h) sid of
        None \<Rightarrow> h
      | Some hs \<Rightarrow>
          (case handle_tool_finished (pr_parse pr) v hs of (path, hs') \<Rightarrow>
             (let h1 = with_handle sid (\<lambda>_. hs') h
              in case path of None \<Rightarrow> h1
                 | Some f \<Rightarrow> h1\<lparr>hm_uploads := hm_uploads h1 @ [(sid, f, hs_workspace_dir hs)]\<rparr>)))"

definition handle_protocol_line ::
  "plane \<Rightarrow> protocol \<Rightarrow> instant \<Rightarrow> nat \<Rightarrow> uuid \<Rightarrow> rstring \<Rightarrow> host \<Rightarrow> unit anyhow \<times> host" where
  "handle_protocol_line p pr now i sid line h0 =
     (let h = h0\<lparr>hm_published := hm_published h0 @ [(sid, line)]\<rparr>
      in case pr_parse pr line of
           None \<Rightarrow> (Inl ''invalid protocol line: {}'', h)
         | Some v \<Rightarrow>
             (let kind = unwrap_or [] (get_str v ''type'')
              in if kind = str ''system'' then
                   (case (unwrap_or [] (get_str v ''subtype'') = str ''session_state_changed'', get_str v ''state'') of
                      (True, Some st) \<Rightarrow> apply_runtime_session_state p now sid st h
                    | _ \<Rightarrow> (Inr (), h))
                 else if kind = str ''control_request'' then handle_control_request p sid v h
                 else if kind = str ''control_cancel_request'' then
                   (case get_str v ''request_id'' of
                      None \<Rightarrow> (Inr (), h) | Some rid \<Rightarrow> cancel_pending_approval p sid rid h)
                 else if kind = str ''tool_started'' then
                   (Inr (), post_contract_event p pr sid v (with_handle sid (handle_tool_started i v) h))
                 else if kind = str ''tool_progress'' then
                   (Inr (), post_contract_event p pr sid v (with_handle sid (handle_tool_progress v) h))
                 else if kind = str ''tool_finished'' then
                   (Inr (), finish_tool pr sid v (post_contract_event p pr sid v h))
                 else (Inr (), post_contract_event p pr sid v h)))"

section \<open>Artifacts\<close>

text \<open>Canonical paths are lists of components; \<^verbatim>\<open>Path::starts_with\<close> compares whole components.\<close>

record file_meta =
  fm_is_file :: bool
  fm_len :: nat

record file_system =
  fs_canonicalize :: "rstring list \<Rightarrow> rstring list option"
  fs_metadata :: "rstring list \<Rightarrow> file_meta option"

datatype requested_path = AbsolutePath "rstring list" | RelativePath "rstring list"

definition resolve_artifact_path :: "file_system \<Rightarrow> rstring list \<Rightarrow> requested_path \<Rightarrow> rstring list anyhow" where
  "resolve_artifact_path fs workspace_dir requested =
     (case fs_canonicalize fs workspace_dir of
        None \<Rightarrow> Inl ''failed to canonicalize workspace {}''
      | Some workspace \<Rightarrow>
          (let candidate = (case requested of AbsolutePath q \<Rightarrow> q | RelativePath q \<Rightarrow> workspace @ q)
           in case fs_canonicalize fs candidate of
                None \<Rightarrow> Inl ''failed to canonicalize artifact {}''
              | Some artifact \<Rightarrow>
                  if take (length workspace) artifact \<noteq> workspace
                  then Inl ''refusing to upload artifact outside workspace: {}''
                  else (case fs_metadata fs artifact of
                          None \<Rightarrow> Inl ''failed to stat artifact {}''
                        | Some m \<Rightarrow>
                            if \<not> fm_is_file m then Inl ''refusing to upload non-file artifact: {}''
                            else if max_artifact_upload_bytes < fm_len m
                                 then Inl ''refusing to upload artifact larger than {} bytes: {}''
                                 else Inr artifact)))"

definition path_extension :: "rstring \<Rightarrow> rstring option" where
  "path_extension name =
     (case rsplit_once 46 name of Some (stem, ext) \<Rightarrow> if stem = [] \<or> name = [46, 46] then None else Some ext | None \<Rightarrow> None)"

definition guess_media_type :: "rstring \<Rightarrow> string" where
  "guess_media_type name =
     unwrap_or ''application/octet-stream'' (Option.bind (path_extension name) (\<lambda>ext. map_of (map (\<lambda>(k, v). (str k, v))
       [(''rs'', ''text/rust''), (''ts'', ''text/typescript''), (''tsx'', ''text/typescript''),
        (''js'', ''text/javascript''), (''jsx'', ''text/javascript''), (''py'', ''text/x-python''),
        (''json'', ''application/json''), (''toml'', ''text/toml''), (''yaml'', ''text/yaml''), (''yml'', ''text/yaml''),
        (''md'', ''text/markdown''), (''html'', ''text/html''), (''css'', ''text/css''), (''png'', ''image/png''),
        (''jpg'', ''image/jpeg''), (''jpeg'', ''image/jpeg''), (''svg'', ''image/svg+xml''), (''pdf'', ''application/pdf'')]) ext))"

definition file_stem :: "rstring \<Rightarrow> rstring" where
  "file_stem name =
     (case rsplit_once 46 name of Some (stem, ext) \<Rightarrow> if stem = [] then name else stem | None \<Rightarrow> name)"

text \<open>The request that uploads an artifact; encoding the bytes is a parameter.\<close>

definition artifact_upload_request :: "(nat list \<Rightarrow> rstring) \<Rightarrow> rstring list \<Rightarrow> nat list \<Rightarrow> artifact_create_request" where
  "artifact_upload_request base64 artifact bytes =
     \<lparr> ac_name = (if artifact = [] then str ''artifact'' else file_stem (last artifact)),
       ac_file_name = Some (if artifact = [] then str ''file'' else last artifact),
       ac_media_type = Some (str (guess_media_type (if artifact = [] then [] else last artifact))),
       ac_content_base64 = base64 bytes,
       ac_metadata = bm_insert (str ''tool'') (str ''hosted-session'') (bm_insert (str ''source'') (str ''auto-upload'') bm_empty) \<rparr>"

text \<open>An artifact is a regular file below the canonical workspace and not larger than ten mebibytes.\<close>

lemma resolve_artifact_path_confined:
  assumes "resolve_artifact_path fs dir requested = Inr artifact"
  shows "\<exists>workspace m. fs_canonicalize fs dir = Some workspace \<and> take (length workspace) artifact = workspace
    \<and> fs_metadata fs artifact = Some m \<and> fm_is_file m \<and> fm_len m \<le> max_artifact_size_bytes"
  using assms
  by (auto simp: resolve_artifact_path_def Let_def max_artifact_upload_bytes_def max_artifact_size_bytes_def
      split: option.splits if_splits requested_path.splits)

section \<open>The host as one machine\<close>

text \<open>
  What reaches the host: an event of the runner's service, a line of a process, the end of a process, or a
  command that the sync task has pulled. Handlers that lock in between are taken as one step here; the
  interleaving that matters is treated below.
\<close>

datatype host_input =
    InEvent runner_api_event
  | InLine uuid rstring nat
  | InExit uuid hosted_exit
  | InCommand uuid runner_queued_command_body

definition host_step ::
  "protocol \<Rightarrow> rstring \<Rightarrow> plane \<Rightarrow> (rstring list \<Rightarrow> bool) \<Rightarrow> instant \<Rightarrow> host_input \<Rightarrow> host \<Rightarrow> host" where
  "host_step pr profile p spawns now inp h =
     (case inp of
        InEvent e \<Rightarrow> snd (handle_runner_event p spawns profile e h)
      | InLine sid line i \<Rightarrow> snd (handle_protocol_line p pr now i sid line h)
      | InExit sid exit \<Rightarrow> snd (handle_hosted_session_exit p now sid exit h)
      | InCommand fresh body \<Rightarrow> h\<lparr>hm_api := snd (apply_pulled_command now fresh body (hm_api h))\<rparr>)"

definition inputs_of :: "host \<Rightarrow> uuid \<Rightarrow> json list" where
  "inputs_of h sid = (case bm_get (hm_handles h) sid of None \<Rightarrow> [] | Some hs \<Rightarrow> hs_input hs)"

lemma inputs_of_frame [simp]:
  "inputs_of (h\<lparr>hm_api := a\<rparr>) k = inputs_of h k" "inputs_of (h\<lparr>hm_active := b\<rparr>) k = inputs_of h k"
  "inputs_of (h\<lparr>hm_uplink := c\<rparr>) k = inputs_of h k" "inputs_of (h\<lparr>hm_states_posted := d\<rparr>) k = inputs_of h k"
  "inputs_of (h\<lparr>hm_uploads := e\<rparr>) k = inputs_of h k" "inputs_of (h\<lparr>hm_published := f\<rparr>) k = inputs_of h k"
  by (simp_all add: inputs_of_def)

lemma inputs_of_with_handle:
  "(\<And>hs. hs_input (f hs) = hs_input hs) \<Longrightarrow> inputs_of (with_handle sid f h) k = inputs_of h k"
  by (simp add: inputs_of_def with_handle_def split: option.splits)

definition can_send :: "host \<Rightarrow> uuid \<Rightarrow> bool" where
  "can_send h sid \<longleftrightarrow>
     bm_contains (hm_active h) sid \<and> is_some_and (\<lambda>hs. \<not> hs_input_closed hs) (bm_get (hm_handles h) sid)"

lemma inputs_of_send:
  "inputs_of (snd (send_json_line sid payload h)) k =
     inputs_of h k @ (if k = sid \<and> can_send h sid then [payload] else [])"
  by (auto simp: send_json_line_def inputs_of_def with_handle_def can_send_def split: option.splits)

lemma inputs_of_host_post_event [simp]: "inputs_of (host_post_event p sid d h) k = inputs_of h k"
  by (simp add: host_post_event_def)

lemma inputs_of_post_state [simp]: "inputs_of (snd (post_control_plane_session_state p sid st h)) k = inputs_of h k"
  by (simp add: post_control_plane_session_state_def Let_def)

lemma inputs_of_update [simp]: "inputs_of (snd (host_update_session now sid st h)) k = inputs_of h k"
  by (simp add: host_update_session_def split_beta)

lemma inputs_of_contract [simp]: "inputs_of (post_contract_event p pr sid v h) k = inputs_of h k"
  by (simp add: post_contract_event_def split: option.splits)

lemma tool_handlers_frame [simp]:
  "hs_input (handle_tool_started i v hs) = hs_input hs" "hs_input (handle_tool_progress v hs) = hs_input hs"
  "hs_input (snd (handle_tool_finished parse v hs)) = hs_input hs"
  by (simp_all add: handle_tool_started_def handle_tool_progress_def handle_tool_finished_def Let_def
      split: option.splits)

lemma inputs_of_finish [simp]: "inputs_of (finish_tool pr sid v h) k = inputs_of h k"
  using tool_handlers_frame(3)
  by (auto simp: finish_tool_def inputs_of_def with_handle_def Let_def split_beta split: option.splits)

lemma inputs_of_apply_state [simp]: "inputs_of (snd (apply_runtime_session_state p now sid st h)) k = inputs_of h k"
proof -
  have "inputs_of h1 k = inputs_of h k" if "host_update_session now sid rst h = (r, h1)" for rst r h1
    using inputs_of_update [of now sid rst h k] that by simp
  then show ?thesis
    by (auto simp: apply_runtime_session_state_def split: option.splits prod.splits sum.splits)
qed

lemma inputs_of_cancel [simp]: "inputs_of (snd (cancel_pending_approval p sid rid h)) k = inputs_of h k"
  by (auto simp: cancel_pending_approval_def Let_def inputs_of_with_handle split: option.splits sum.splits)

lemma inputs_of_exit [simp]: "inputs_of (snd (handle_hosted_session_exit p now sid exit h)) k = inputs_of h k"
proof -
  let ?h1 = "host_post_event p sid (RtDaemonPresenceChanged DaemonOffline) (h\<lparr>hm_active := bm_remove sid (hm_active h)\<rparr>)"
  have "inputs_of h2 k = inputs_of h k" if "host_update_session now sid rst ?h1 = (r, h2)" for rst r h2
    using inputs_of_update [of now sid rst ?h1 k] that by simp
  then show ?thesis
    by (auto simp: handle_hosted_session_exit_def Let_def split: option.splits prod.splits sum.splits)
qed

lemma inputs_of_register [simp]: "inputs_of (register_request sid rid aid h) k = inputs_of h k"
  by (simp add: register_request_def inputs_of_with_handle)

text \<open>A payload that lets the process use the tool it asked about.\<close>

definition permits :: "json \<Rightarrow> bool" where
  "permits v \<longleftrightarrow>
     get_str v ''type'' = Some (str ''control_response'')
     \<and> Option.bind (j_get v ''response'') (\<lambda>r. Option.bind (j_get r ''response'') (\<lambda>b. get_str b ''behavior''))
       = Some (str ''allow'')"

lemma permits_payload [simp]:
  "permits (control_response_payload rid b m) \<longleftrightarrow> b = ''allow''"
  "\<not> permits (session_command_payload c)"
  by (simp_all add: permits_def control_response_payload_def) (cases c; simp add: permits_def)

definition new_permits :: "host \<Rightarrow> host \<Rightarrow> uuid \<Rightarrow> json list" where
  "new_permits h h' sid = filter permits (drop (length (inputs_of h sid)) (inputs_of h' sid))"

definition asked_by :: "host \<Rightarrow> approval_request_record \<Rightarrow> rstring option" where
  "asked_by h a = Option.bind (bm_get (hm_handles h) (ap_session_id a))
     (\<lambda>hs. bm_get (hs_approval_to_request hs) (ap_approval_id a))"

lemma new_permits_same: "inputs_of h' sid = inputs_of h sid \<Longrightarrow> new_permits h h' sid = []"
  by (simp add: new_permits_def)

lemma new_permits_control_request: "new_permits h (snd (handle_control_request p sid0 v h)) sid = []"
  by (auto simp: handle_control_request_def new_permits_def inputs_of_send split: option.splits sum.splits)

lemma new_permits_spawn: "new_permits h (snd (spawn_hosted_session p spawns profile s h)) sid = []"
proof -
  have "inputs_of (snd (spawn_hosted_session p spawns profile s h)) sid \<in> {[], inputs_of h sid}"
    by (auto simp: spawn_hosted_session_def Let_def inputs_of_def host_post_event_def new_handle_def split: option.splits)
  then show ?thesis by (auto simp: new_permits_def)
qed

lemma new_permits_command: "new_permits h (snd (forward_session_command s c h)) sid = []"
  by (simp add: new_permits_def forward_session_command_def inputs_of_send)

lemma new_permits_line: "new_permits h (snd (handle_protocol_line p pr now i sid0 line h)) sid = []"
proof -
  let ?h = "h\<lparr>hm_published := hm_published h @ [(sid0, line)]\<rparr>"
  have "new_permits h h' sid = new_permits ?h h' sid" for h'
    by (simp add: new_permits_def)
  then show ?thesis
    using new_permits_control_request [of ?h p sid0 _ sid]
    by (auto simp: handle_protocol_line_def Let_def new_permits_same inputs_of_with_handle split: option.splits bool.splits)
qed

lemma new_permits_forward:
  "new_permits h (snd (forward_approval_resolution a h)) sid =
     (case asked_by h a of
        None \<Rightarrow> []
      | Some rid \<Rightarrow>
          if ap_state a = ApApproved \<and> sid = ap_session_id a \<and> can_send h sid
          then [control_response_payload rid ''allow'' (unwrap_or (str ''Approved remotely.'') (ap_note a))] else [])"
proof -
  have cs: "can_send (with_handle s f h) k = can_send h k" if "\<And>hs. hs_input_closed (f hs) = hs_input_closed hs" for s f k
    using that by (auto simp: can_send_def with_handle_def is_some_and_iff)
  show ?thesis
  proof (cases "bm_contains (hm_active h) (ap_session_id a)")
    case True
    then show ?thesis
      by (cases "ap_state a")
        (auto simp: forward_approval_resolution_def asked_by_def Let_def new_permits_def inputs_of_send
          inputs_of_with_handle cs split: option.splits)
  next
    case False
    then have "\<not> can_send h (ap_session_id a)" by (simp add: can_send_def)
    with False show ?thesis
      by (auto simp: forward_approval_resolution_def Let_def new_permits_same split: option.splits)
  qed
qed

text \<open>
  C23. A tool runs only if a person allowed it. Whatever reaches the host (protocol lines, events of the
  service, process exits, pulled commands) and however the control plane answers, a process is sent a
  permission exactly if an approval of its own session that it asked for has been resolved as approved and
  the process can still be written to; then it is sent one, for the request it made. In particular, if the
  approval cannot be created the process is refused.
\<close>

theorem permission_only_after_approval:
  "new_permits h (host_step pr profile p spawns now inp h) sid =
     (case inp of
        InEvent (ApprovalResolved a) \<Rightarrow>
          (case asked_by h a of
             None \<Rightarrow> []
           | Some rid \<Rightarrow>
               if ap_state a = ApApproved \<and> sid = ap_session_id a \<and> can_send h sid
               then [control_response_payload rid ''allow'' (unwrap_or (str ''Approved remotely.'') (ap_note a))] else [])
      | _ \<Rightarrow> [])"
proof (cases inp)
  case (InEvent e)
  then show ?thesis
    by (cases e)
      (simp_all add: host_step_def handle_runner_event_def new_permits_spawn new_permits_forward
        new_permits_command)
qed (simp_all add: host_step_def new_permits_line new_permits_same)

section \<open>Bounds of the host\<close>

definition tool_inputs_ok :: "hosted_session \<Rightarrow> bool" where
  "tool_inputs_ok hs \<longleftrightarrow>
     bm_len (hs_pending_tool_inputs hs) \<le> max_pending_tool_inputs
     \<and> (\<forall>k acc. bm_get (hs_pending_tool_inputs hs) k = Some acc \<longrightarrow> length (utf8 acc) \<le> max_tool_input_bytes)"

definition host_ok :: "host \<Rightarrow> bool" where
  "host_ok h \<longleftrightarrow>
     (\<forall>sid hs. bm_get (hm_handles h) sid = Some hs \<longrightarrow> tool_inputs_ok hs)
     \<and> (\<forall>sid. bm_contains (hm_active h) sid \<longrightarrow> bm_contains (hm_handles h) sid)
     \<and> api_wf (hm_api h) \<and> buffers_ok (hm_uplink h)"

lemma any_key_len: "m \<noteq> bm_empty \<Longrightarrow> \<exists>k. any_key i m = Some k \<and> bm_len (bm_remove k m) = bm_len m - 1"
proof -
  assume "m \<noteq> bm_empty"
  then have ne: "entries m \<noteq> []" using bm_len_0_iff [of m] by (simp add: bm_len_def)
  then have "i mod length (entries m) < length (entries m)" by simp
  then have "(fst (entries m ! (i mod length (entries m))), snd (entries m ! (i mod length (entries m)))) \<in> set (entries m)"
    by simp
  then have "bm_get m (fst (entries m ! (i mod length (entries m)))) \<noteq> None"
    unfolding in_entries_iff by simp
  then show ?thesis using ne by (auto simp: any_key_def bm_len_remove)
qed

lemma handle_tool_started_ok: "tool_inputs_ok hs \<Longrightarrow> tool_inputs_ok (handle_tool_started i v hs)"
proof -
  assume ok: "tool_inputs_ok hs"
  let ?m = "hs_pending_tool_inputs hs"
  let ?m1 = "if max_pending_tool_inputs \<le> bm_len ?m then (case any_key i ?m of None \<Rightarrow> ?m | Some k \<Rightarrow> bm_remove k ?m) else ?m"
  have "?m \<noteq> bm_empty" if "max_pending_tool_inputs \<le> bm_len ?m"
    using that by (auto simp: max_pending_tool_inputs_def)
  then have len: "bm_len ?m1 < max_pending_tool_inputs"
    using ok any_key_len [of ?m i] by (auto simp: tool_inputs_ok_def max_pending_tool_inputs_def)
  then have "bm_len (bm_insert tid [] ?m1) \<le> max_pending_tool_inputs" for tid
    using bm_len_insert_le [of tid "[]" ?m1] by simp
  moreover have "length (utf8 acc) \<le> max_tool_input_bytes" if "bm_get (bm_insert tid [] ?m1) k = Some acc" for tid k acc
    using that ok by (auto simp: tool_inputs_ok_def utf8_def split: if_splits option.splits)
  ultimately show ?thesis
    using ok by (auto simp: handle_tool_started_def tool_inputs_ok_def Let_def split: option.splits)
qed

lemma bm_len_update [simp]: "bm_len (bm_update k f m) = bm_len m"
  by (simp add: bm_update_def bm_len_insert split: option.splits)

lemma handle_tool_progress_ok: "tool_inputs_ok hs \<Longrightarrow> tool_inputs_ok (handle_tool_progress v hs)"
  by (auto simp: handle_tool_progress_def tool_inputs_ok_def utf8_def split: option.splits if_splits)

lemma handle_tool_finished_ok: "tool_inputs_ok hs \<Longrightarrow> tool_inputs_ok (snd (handle_tool_finished parse v hs))"
  by (auto simp: handle_tool_finished_def tool_inputs_ok_def bm_len_remove Let_def split: option.splits if_splits)

lemma host_ok_with_handle:
  "host_ok h \<Longrightarrow> (\<And>hs. tool_inputs_ok hs \<Longrightarrow> tool_inputs_ok (f hs)) \<Longrightarrow> host_ok (with_handle sid f h)"
  by (auto simp: host_ok_def with_handle_def split: if_splits)

lemma host_ok_with_handle_same:
  "host_ok h \<Longrightarrow> (\<And>hs. hs_pending_tool_inputs (f hs) = hs_pending_tool_inputs hs) \<Longrightarrow> host_ok (with_handle sid f h)"
  by (rule host_ok_with_handle) (simp_all add: tool_inputs_ok_def)

lemma host_ok_frame [simp]:
  "host_ok (h\<lparr>hm_states_posted := d\<rparr>) = host_ok h" "host_ok (h\<lparr>hm_uploads := e\<rparr>) = host_ok h"
  "host_ok (h\<lparr>hm_published := f\<rparr>) = host_ok h"
  by (simp_all add: host_ok_def)

lemma post_runtime_event_ok:
  assumes "buffers_ok u" shows "buffers_ok (post_runtime_event ans sid d u)"
proof -
  let ?p = "snd (post_detail ans sid d (flush_event_buffer ans sid u))"
  have "length (buffered ?p k) \<le> max_event_buffer_per_session" for k
    using flush_event_buffer_account(2) [OF assms, of ans sid k] assms by (auto simp: buffers_ok_def intro: le_trans)
  then show ?thesis
    by (auto simp: post_runtime_event_def split_beta buffers_ok_def buffer_runtime_event_buffered length_push_bounded)
qed

lemma host_post_event_ok: "host_ok h \<Longrightarrow> host_ok (host_post_event p sid d h)"
  by (simp add: host_ok_def host_post_event_def post_runtime_event_ok)

lemma post_state_ok: "host_ok h \<Longrightarrow> host_ok (snd (post_control_plane_session_state p sid st h))"
  by (simp add: post_control_plane_session_state_def Let_def)

lemma send_json_line_ok: "host_ok h \<Longrightarrow> host_ok (snd (send_json_line sid v h))"
  by (auto simp: send_json_line_def intro!: host_ok_with_handle_same split: option.splits)

lemma host_update_session_ok: "host_ok h \<Longrightarrow> host_ok (snd (host_update_session now sid st h))"
  using update_keeps by (simp add: host_update_session_def host_ok_def split_beta keeps_def)

lemma apply_state_ok: "host_ok h \<Longrightarrow> host_ok (snd (apply_runtime_session_state p now sid st h))"
proof -
  assume ok: "host_ok h"
  have "host_ok h1" if "host_update_session now sid rst h = (r, h1)" for rst r h1
    using host_update_session_ok [OF ok, of now sid rst] that by simp
  then show ?thesis
    using ok by (auto simp: apply_runtime_session_state_def intro!: post_state_ok split: option.splits prod.splits sum.splits)
qed

lemma exit_ok: "host_ok h \<Longrightarrow> host_ok (snd (handle_hosted_session_exit p now sid exit h))"
proof -
  assume ok: "host_ok h"
  let ?h1 = "host_post_event p sid (RtDaemonPresenceChanged DaemonOffline) (h\<lparr>hm_active := bm_remove sid (hm_active h)\<rparr>)"
  have h1: "host_ok ?h1" using ok by (intro host_post_event_ok) (auto simp: host_ok_def)
  have "host_ok h2" if "host_update_session now sid rst ?h1 = (r, h2)" for rst r h2
    using host_update_session_ok [OF h1, of now sid rst] that by simp
  then show ?thesis
    by (auto simp: handle_hosted_session_exit_def Let_def intro!: post_state_ok host_post_event_ok
        split: option.splits prod.splits sum.splits)
qed

lemma control_request_ok: "host_ok h \<Longrightarrow> host_ok (snd (handle_control_request p sid v h))"
  by (auto simp: handle_control_request_def register_request_def intro!: host_ok_with_handle_same send_json_line_ok
      split: option.splits sum.splits)

lemma cancel_ok: "host_ok h \<Longrightarrow> host_ok (snd (cancel_pending_approval p sid rid h))"
  by (auto simp: cancel_pending_approval_def Let_def intro!: host_ok_with_handle_same split: option.splits sum.splits)

lemma forward_ok: "host_ok h \<Longrightarrow> host_ok (snd (forward_approval_resolution a h))"
  by (auto simp: forward_approval_resolution_def Let_def intro!: host_ok_with_handle_same send_json_line_ok
      split: option.splits)

lemma spawn_ok: "host_ok h \<Longrightarrow> host_ok (snd (spawn_hosted_session p spawns profile s h))"
proof -
  assume ok: "host_ok h"
  have "tool_inputs_ok (new_handle w)" for w by (simp add: new_handle_def tool_inputs_ok_def)
  then have "host_ok (h\<lparr>hm_handles := bm_insert sid (new_handle w) (hm_handles h), hm_active := bm_insert sid () (hm_active h)\<rparr>)"
    for sid w
    using ok by (auto simp: host_ok_def)
  then show ?thesis
    using ok by (auto simp: spawn_hosted_session_def Let_def intro!: host_post_event_ok split: option.splits)
qed

lemma contract_event_ok: "host_ok h \<Longrightarrow> host_ok (post_contract_event p pr sid v h)"
  by (auto simp: post_contract_event_def intro!: host_post_event_ok split: option.splits)

lemma finish_tool_ok: "host_ok h \<Longrightarrow> host_ok (finish_tool pr sid v h)"
proof -
  assume ok: "host_ok h"
  have "host_ok (with_handle sid (\<lambda>_. snd (handle_tool_finished (pr_parse pr) v hs)) h)"
    if "bm_get (hm_handles h) sid = Some hs" for hs
    using ok that handle_tool_finished_ok [of hs]
    by (intro host_ok_with_handle) (auto simp: host_ok_def)
  then show ?thesis
    using ok by (auto simp: finish_tool_def Let_def split_beta split: option.splits)
qed

lemma protocol_line_ok: "host_ok h \<Longrightarrow> host_ok (snd (handle_protocol_line p pr now i sid line h))"
  by (auto simp: handle_protocol_line_def Let_def
      intro!: contract_event_ok finish_tool_ok apply_state_ok control_request_ok cancel_ok
        host_ok_with_handle handle_tool_started_ok handle_tool_progress_ok
      split: option.splits bool.splits)

lemma host_ok_command: "host_ok h \<Longrightarrow> host_ok (h\<lparr>hm_api := snd (apply_pulled_command now fresh body (hm_api h))\<rparr>)"
  using apply_pulled_command_keeps [of "hm_api h" now fresh body] by (simp add: host_ok_def keeps_def)

lemma host_step_ok: "host_ok h \<Longrightarrow> host_ok (host_step pr profile p spawns now inp h)"
  by (auto simp: host_step_def handle_runner_event_def forward_session_command_def
      intro!: spawn_ok forward_ok send_json_line_ok protocol_line_ok exit_ok host_ok_command
      split: host_input.splits runner_api_event.splits)

definition host_start :: "runner_registration_request \<Rightarrow> host" where
  "host_start reg =
     \<lparr> hm_api = with_event_channel (runner_api_new reg), hm_handles = bm_empty, hm_active = bm_empty,
       hm_uplink = \<lparr> up_event_buffer = bm_empty, up_consecutive_flush_failures = 0, up_dropped_events = 0,
         up_accepted = [], up_posts = 0 \<rparr>,
       hm_states_posted = [], hm_uploads = [], hm_published = [] \<rparr>"

fun host_run ::
  "protocol \<Rightarrow> rstring \<Rightarrow> (plane \<times> (rstring list \<Rightarrow> bool) \<times> instant \<times> host_input) list \<Rightarrow> host \<Rightarrow> host" where
  "host_run pr profile [] h = h"
| "host_run pr profile ((p, spawns, now, inp) # rest) h =
     host_run pr profile rest (host_step pr profile p spawns now inp h)"

lemma host_run_ok: "host_ok h \<Longrightarrow> host_ok (host_run pr profile ins h)"
  by (induction pr profile ins h rule: host_run.induct) (simp_all add: host_step_ok)

lemma host_start_ok: "host_ok (host_start reg)"
  using runner_start_inv [of reg "(with_event_channel (runner_api_new reg), [])"]
  by (auto simp: host_start_def host_ok_def buffers_ok_def buffered_def runner_start_def runner_inv_def)

text \<open>
  C28. The host's memory is bounded and its service stays consistent, whatever the processes print and however
  the control plane answers: after any run from the start each session remembers at most 1000 tool calls of
  at most one mebibyte each, each event buffer holds at most 500 events, every active session has a handle,
  and the runner's sessions and approvals satisfy their invariant.
\<close>

theorem host_bounded:
  "let h = host_run pr profile ins (host_start reg) in
     list_all (\<lambda>hs. bm_len (hs_pending_tool_inputs hs) \<le> 1000
         \<and> list_all (\<lambda>acc. length (utf8 acc) \<le> 1048576) (bm_values (hs_pending_tool_inputs hs))) (bm_values (hm_handles h))
     \<and> list_all (\<lambda>ds. length ds \<le> 500) (bm_values (up_event_buffer (hm_uplink h)))
     \<and> list_all (\<lambda>e. bm_contains (hm_handles h) (fst e)) (entries (hm_active h))
     \<and> api_wf (hm_api h)"
proof -
  let ?h = "host_run pr profile ins (host_start reg)"
  have ok: "host_ok ?h" by (intro host_run_ok host_start_ok)
  have "length ds \<le> 500" if "bm_get (up_event_buffer (hm_uplink ?h)) sid = Some ds" for sid ds
  proof -
    have "length (buffered (hm_uplink ?h) sid) \<le> max_event_buffer_per_session"
      using ok by (simp add: host_ok_def buffers_ok_def)
    then show ?thesis using that by (simp add: buffered_def max_event_buffer_per_session_def)
  qed
  moreover have "bm_contains (hm_handles ?h) (fst e)" if "e \<in> set (entries (hm_active ?h))" for e
  proof -
    have "(fst e, snd e) \<in> set (entries (hm_active ?h))" using that unfolding prod.collapse .
    then have "bm_get (hm_active ?h) (fst e) = Some (snd e)" unfolding in_entries_iff .
    then show ?thesis using ok unfolding host_ok_def bm_contains_iff by blast
  qed
  ultimately show ?thesis
    using ok
    by (auto simp: host_ok_def list_all_iff bm_values_iff tool_inputs_ok_def max_pending_tool_inputs_def
        max_tool_input_bytes_def Let_def)
qed

section \<open>Answers reach the process once\<close>

text \<open>A second resolution of the same approval sends nothing.\<close>

lemma asked_by_send [simp]: "asked_by (snd (send_json_line s v g)) a = asked_by g a"
  by (auto simp: asked_by_def send_json_line_def with_handle_def split: option.splits)

lemma asked_by_forgotten:
  "(\<And>hs. bm_get (hs_approval_to_request (f hs)) (ap_approval_id a) = None) \<Longrightarrow>
   asked_by (with_handle (ap_session_id a) f h) a = None"
  by (cases "bm_get (hm_handles h) (ap_session_id a)") (simp_all add: asked_by_def with_handle_def)

lemma asked_by_resolved:
  "bm_contains (hm_active h) (ap_session_id a) \<Longrightarrow> asked_by (snd (forward_approval_resolution a h)) a = None"
  by (auto simp: forward_approval_resolution_def asked_by_forgotten Let_def split: option.splits)
    (simp add: asked_by_def)

lemma unasked_resolution_silent:
  "\<not> bm_contains (hm_active h) (ap_session_id a) \<or> asked_by h a = None \<Longrightarrow> forward_approval_resolution a h = (Inr (), h)"
  by (auto simp: forward_approval_resolution_def asked_by_def Let_def)

lemma second_resolution_silent:
  assumes "ap_session_id b = ap_session_id a" "ap_approval_id b = ap_approval_id a"
  shows "snd (forward_approval_resolution b (snd (forward_approval_resolution a h))) = snd (forward_approval_resolution a h)"
proof -
  have same: "asked_by g b = asked_by g a" for g using assms by (simp add: asked_by_def)
  show ?thesis
  proof (cases "bm_contains (hm_active h) (ap_session_id a)")
    case True
    then show ?thesis using asked_by_resolved [OF True] same assms(1) by (simp add: unasked_resolution_silent)
  next
    case False
    then show ?thesis using assms(1) by (simp add: unasked_resolution_silent)
  qed
qed

text \<open>
  The map from approvals to requests is filled after the control plane has answered. If the approval is
  resolved in between, the resolution finds no request and is dropped; the request is registered afterwards
  and its process keeps waiting.
\<close>

lemma early_resolution_lost:
  assumes "asked_by h a = None" "bm_contains (hm_active h) (ap_session_id a)"
    "bm_get (hm_handles h) (ap_session_id a) = Some hs"
  shows "snd (forward_approval_resolution a h) = h
    \<and> asked_by (register_request (ap_session_id a) rid (ap_approval_id a) h) a = Some rid
    \<and> inputs_of (register_request (ap_session_id a) rid (ap_approval_id a) h) (ap_session_id a) = inputs_of h (ap_session_id a)"
  using assms
  by (auto simp: forward_approval_resolution_def asked_by_def register_request_def with_handle_def inputs_of_def Let_def)

end
