(* ===== verification/Transport.thy ===== *)
theory Transport
  imports Runner_Http Json_Value "HOL-Library.Multiset"
begin

text \<open>
  The client side (\<^verbatim>\<open>rc-remote-transport\<close>): how a device reaches a session, directly at its runner, through
  the control plane, by polling, or by whichever of the first two works; the queue of commands given while
  offline, the ranking of endpoints, and the cursor of the polling loop. The network is a parameter: whether
  a request can be built, what the TLS configuration, a connection attempt, a post and a probe give.
\<close>

section \<open>Types\<close>

datatype transport_strategy =
    DirectWebSocket rstring
  | ServerRelay rstring
  | OutboundPolling rstring u32
  | Hybrid rstring rstring
  | Quic rstring "rstring option"

datatype connection_state =
    Disconnected
  | Probing
  | Connecting
  | Open string u32
  | Reconnecting u32 u32
  | Closed
  | ConnError string

record tls_config =
  tls_accept_self_signed :: bool
  tls_cert_fingerprints :: "rstring list"
  tls_enforce_https :: bool

definition tls_config_default :: tls_config where
  "tls_config_default = \<lparr> tls_accept_self_signed = False, tls_cert_fingerprints = [], tls_enforce_https = True \<rparr>"

record transport_config =
  tc_strategy :: transport_strategy
  tc_auth_token :: rstring
  tc_session_id :: rstring
  tc_after_sequence :: nat
  tc_tls :: tls_config

record transport_metrics =
  tm_latency_ms :: u32
  tm_events_received :: u64
  tm_events_dropped :: u64
  tm_reconnect_count :: u32
  tm_strategy_switches :: u32
  tm_bytes_sent :: u64
  tm_bytes_received :: u64
  tm_last_event_at :: "int option"

definition metrics_default :: transport_metrics where
  "metrics_default = \<lparr> tm_latency_ms = 0, tm_events_received = 0, tm_events_dropped = 0, tm_reconnect_count = 0,
     tm_strategy_switches = 0, tm_bytes_sent = 0, tm_bytes_received = 0, tm_last_event_at = None \<rparr>"

datatype transport_command =
    TcSendPrompt rstring
  | TcInterrupt
  | TcRespondToApproval rstring approval_decision "rstring option"

record command_ack =
  ck_accepted :: bool
  ck_message :: string

record endpoint_health =
  eh_url :: rstring
  eh_reachable :: bool
  eh_latency_ms :: "u32 option"
  eh_auth_valid :: bool
  eh_error :: "string option"

record health_status =
  hl_endpoints :: "endpoint_health list"
  hl_recommended_strategy :: "string option"

section \<open>Commands while offline\<close>

definition max_queue_size :: nat where "max_queue_size = 100"
definition max_retry_count :: nat where "max_retry_count = 10"

record offline_command =
  qd_id :: rstring
  qd_session_id :: rstring
  qd_command :: transport_command
  qd_queued_at :: int
  qd_retry_count :: nat

record offline_queue =
  oq_items :: "offline_command list"
  oq_stale_threshold_secs :: int

definition offline_queue_new :: offline_queue where
  "offline_queue_new = \<lparr> oq_items = [], oq_stale_threshold_secs = 300 \<rparr>"

definition with_stale_threshold :: "int \<Rightarrow> offline_queue" where
  "with_stale_threshold secs = \<lparr> oq_items = [], oq_stale_threshold_secs = max secs 60 \<rparr>"

definition enqueue_offline :: "uuid \<Rightarrow> int \<Rightarrow> rstring \<Rightarrow> transport_command \<Rightarrow> offline_queue \<Rightarrow> rstring \<times> offline_queue" where
  "enqueue_offline u now sid c q =
     (let item = \<lparr> qd_id = uuid_string u, qd_session_id = sid, qd_command = c, qd_queued_at = now, qd_retry_count = 0 \<rparr>;
          items = (if max_queue_size \<le> length (oq_items q) then tl (oq_items q) else oq_items q)
      in (uuid_string u, q\<lparr>oq_items := items @ [item]\<rparr>))"

definition deliverable :: "int \<Rightarrow> int \<Rightarrow> offline_command \<Rightarrow> bool" where
  "deliverable now threshold c \<longleftrightarrow> now - qd_queued_at c < threshold \<and> qd_retry_count c < max_retry_count"

definition drain_offline :: "int \<Rightarrow> offline_queue \<Rightarrow> offline_command list \<times> offline_queue" where
  "drain_offline now q =
     (map (\<lambda>c. c\<lparr>qd_retry_count := Suc (qd_retry_count c)\<rparr>)
        (filter (deliverable now (oq_stale_threshold_secs q)) (oq_items q)),
      q\<lparr>oq_items := []\<rparr>)"

definition should_retry :: "nat option \<Rightarrow> nat \<Rightarrow> bool" where
  "should_retry max_attempts attempt = is_none_or (\<lambda>m. attempt < m) max_attempts"

section \<open>Ranking endpoints\<close>

datatype probe_outcome = ProbeStatus nat nat | ProbeError string | ProbeTimeout

text \<open>The latency in milliseconds is cut to 32 bits.\<close>

definition probe_endpoint :: "rstring \<Rightarrow> nat \<Rightarrow> probe_outcome \<Rightarrow> endpoint_health" where
  "probe_endpoint url timeout_ms out =
     (case out of
        ProbeStatus status ms \<Rightarrow>
          \<lparr> eh_url = url, eh_reachable = (200 \<le> status \<and> status < 300 \<or> status = 401),
            eh_latency_ms = Some (of_nat ms), eh_auth_valid = (status \<noteq> 401),
            eh_error = (if 200 \<le> status \<and> status < 300 then None else Some ''HTTP {status}'') \<rparr>
      | ProbeError e \<Rightarrow>
          \<lparr> eh_url = url, eh_reachable = False, eh_latency_ms = None, eh_auth_valid = False, eh_error = Some e \<rparr>
      | ProbeTimeout \<Rightarrow>
          \<lparr> eh_url = url, eh_reachable = False, eh_latency_ms = Some (of_nat timeout_ms), eh_auth_valid = False,
            eh_error = Some ''timed out after {}ms'' \<rparr>)"

text \<open>\<^verbatim>\<open>saturating_sub\<close> on \<^verbatim>\<open>i32\<close>, and the reinterpretation of the unsigned latency as signed.\<close>

definition saturating_sub_i32 :: "int \<Rightarrow> int \<Rightarrow> int" where
  "saturating_sub_i32 a b = max (- (2 ^ 31)) (min (2 ^ 31 - 1) (a - b))"

definition endpoint_score :: "endpoint_health \<Rightarrow> int" where
  "endpoint_score h =
     (if eh_reachable h \<and> eh_auth_valid h
      then saturating_sub_i32 1000 (sint (unwrap_or 999 (eh_latency_ms h)))
      else if eh_reachable h then 500 else 0)"

text \<open>\<^verbatim>\<open>sort_by\<close> is stable; best score first.\<close>

definition rank_endpoints :: "endpoint_health list \<Rightarrow> endpoint_health list" where
  "rank_endpoints hs = sort_key (\<lambda>h. - endpoint_score h) hs"

section \<open>Requests\<close>

fun decision_name :: "approval_decision \<Rightarrow> string" where
  "decision_name Approved = ''approved''"
| "decision_name Denied = ''denied''"
| "decision_name DecisionCancelled = ''cancelled''"

fun command_to_request :: "transport_command \<Rightarrow> rstring \<Rightarrow> rstring \<times> json" where
  "command_to_request (TcSendPrompt content) sid =
     (str ''/v1/sessions/'' @ sid @ str ''/commands'', jobj [(''kind'', jstr ''send_prompt''), (''content'', JStr content)])"
| "command_to_request TcInterrupt sid =
     (str ''/v1/sessions/'' @ sid @ str ''/commands'', jobj [(''kind'', jstr ''interrupt'')])"
| "command_to_request (TcRespondToApproval aid d note) sid =
     (str ''/v1/approvals/'' @ aid @ str ''/decision'',
      jobj [(''decision'', jstr (decision_name d)), (''responder'', jstr ''rc-remote-transport''),
            (''note'', case note of None \<Rightarrow> JNull | Some n \<Rightarrow> JStr n)])"

function replace_all :: "rstring \<Rightarrow> rstring \<Rightarrow> rstring \<Rightarrow> rstring" where
  "replace_all p r [] = []"
| "replace_all p r (c # s) =
     (if p \<noteq> [] \<and> starts_with (c # s) p then r @ replace_all p r (drop (length p) (c # s))
      else c # replace_all p r s)"
  by pat_completeness auto
termination
  by (relation "measure (\<lambda>(p, r, s). length s)") auto

fun show_nat :: "nat \<Rightarrow> rstring" where
  "show_nat n = (if n < 10 then [48 + n] else show_nat (n div 10) @ [48 + n mod 10])"

declare show_nat.simps [simp del]

definition stream_path :: "rstring \<Rightarrow> nat \<Rightarrow> rstring" where
  "stream_path sid after_seq =
     str ''/v1/sessions/'' @ sid @ str ''/events/stream?after='' @ show_nat after_seq"

text \<open>\<^verbatim>\<open>build_runner_ws_url\<close> and \<^verbatim>\<open>build_cp_ws_url\<close>.\<close>

definition build_ws_url :: "rstring \<Rightarrow> rstring \<Rightarrow> nat \<Rightarrow> rstring" where
  "build_ws_url url sid after_seq =
     replace_all (str ''http://'') (str ''ws://'') (replace_all (str ''https://'') (str ''wss://'') url)
     @ stream_path sid after_seq"

section \<open>Connections\<close>

record network =
  nw_request :: "rstring \<Rightarrow> rstring \<Rightarrow> unit anyhow"
  nw_tls :: "tls_config \<Rightarrow> unit anyhow"
  nw_dial :: "rstring \<Rightarrow> nat anyhow"
  nw_post :: "rstring \<Rightarrow> rstring \<Rightarrow> json \<Rightarrow> (bool \<times> nat) anyhow"
  nw_probe :: "rstring \<Rightarrow> rstring \<Rightarrow> probe_outcome"
  nw_json_len :: "json \<Rightarrow> nat"

record ws_transport =
  wt_state :: connection_state
  wt_config :: "transport_config option"
  wt_metrics :: transport_metrics
  wt_events_open :: bool
  wt_token_sent_to :: "rstring list"

text \<open>The last field is a trace: the URLs to which the bearer token has been sent.\<close>

definition ws_transport_new :: ws_transport where
  "ws_transport_new = \<lparr> wt_state = Disconnected, wt_config = None, wt_metrics = metrics_default, wt_events_open = False,
     wt_token_sent_to = [] \<rparr>"

definition secure_url :: "string list \<Rightarrow> rstring \<Rightarrow> bool" where
  "secure_url schemes url \<longleftrightarrow> list_ex (\<lambda>p. starts_with (map ascii_lower url) (str p)) schemes"

definition opened :: "string \<Rightarrow> u32 \<Rightarrow> bool \<Rightarrow> int \<Rightarrow> ws_transport \<Rightarrow> ws_transport" where
  "opened strategy latency is_reconnect now t =
     t\<lparr>wt_events_open := True,
       wt_metrics := (wt_metrics t)\<lparr>tm_reconnect_count := tm_reconnect_count (wt_metrics t) + (if is_reconnect then 1 else 0),
         tm_latency_ms := latency, tm_last_event_at := Some now\<rparr>,
       wt_state := Open strategy latency\<rparr>"

text \<open>
  The two WebSocket transports share their steps; they differ in the strategy they expect, in their name,
  and in that only the direct one notes a TLS configuration error in its state.
\<close>

definition connect_ws ::
  "network \<Rightarrow> int \<Rightarrow> string \<Rightarrow> bool \<Rightarrow> transport_config \<Rightarrow> rstring option \<Rightarrow> ws_transport \<Rightarrow> unit anyhow \<times> ws_transport" where
  "connect_ws nw now name notes_tls cfg expected t =
     (case expected of
        None \<Rightarrow> (Inl ''transport requires another strategy'', t)
      | Some url \<Rightarrow>
          (let t1 = t\<lparr>wt_config := Some cfg, wt_state := Connecting\<rparr>
           in if tls_enforce_https (tc_tls cfg) \<and> \<not> secure_url [''https://'', ''wss://''] url
              then (Inl ''HTTPS is enforced but URL is not secure: {}'',
                    t1\<lparr>wt_state := ConnError ''HTTPS enforced but URL is not secure''\<rparr>)
              else let ws_url = build_ws_url url (tc_session_id cfg) (tc_after_sequence cfg)
                   in case nw_request nw ws_url (tc_auth_token cfg) of
                        Inl e \<Rightarrow> (Inl e, t1)
                      | Inr _ \<Rightarrow>
                          (case nw_tls nw (tc_tls cfg) of
                             Inl e \<Rightarrow> (Inl e, if notes_tls then t1\<lparr>wt_state := ConnError e\<rparr> else t1)
                           | Inr _ \<Rightarrow>
                               (let t2 = t1\<lparr>wt_token_sent_to := wt_token_sent_to t1 @ [ws_url]\<rparr>
                                in case nw_dial nw ws_url of
                                     Inl e \<Rightarrow> (Inl e, t2\<lparr>wt_state := ConnError e\<rparr>)
                                   | Inr ms \<Rightarrow> (Inr (), opened name (of_nat ms) (wt_config t \<noteq> None) now t2)))))"

definition direct_url :: "transport_config \<Rightarrow> rstring option" where
  "direct_url cfg = (case tc_strategy cfg of DirectWebSocket u \<Rightarrow> Some u | _ \<Rightarrow> None)"

definition relay_url_of :: "transport_config \<Rightarrow> rstring option" where
  "relay_url_of cfg = (case tc_strategy cfg of ServerRelay u \<Rightarrow> Some u | _ \<Rightarrow> None)"

definition direct_connect :: "network \<Rightarrow> int \<Rightarrow> transport_config \<Rightarrow> ws_transport \<Rightarrow> unit anyhow \<times> ws_transport" where
  "direct_connect nw now cfg t = connect_ws nw now ''direct_websocket'' True cfg (direct_url cfg) t"

definition relay_connect :: "network \<Rightarrow> int \<Rightarrow> transport_config \<Rightarrow> ws_transport \<Rightarrow> unit anyhow \<times> ws_transport" where
  "relay_connect nw now cfg t = connect_ws nw now ''server_relay'' False cfg (relay_url_of cfg) t"

definition post_command ::
  "network \<Rightarrow> (transport_config \<Rightarrow> rstring option) \<Rightarrow> transport_command \<Rightarrow> ws_transport \<Rightarrow> command_ack anyhow \<times> ws_transport" where
  "post_command nw url_of c t0 =
     (case wt_config t0 of
        None \<Rightarrow> (Inl ''not connected'', t0)
      | Some cfg \<Rightarrow>
          (case url_of cfg of
             None \<Rightarrow> (Inl ''internal error: strategy mismatch'', t0)
           | Some url \<Rightarrow>
               (case command_to_request c (tc_session_id cfg) of (path, body) \<Rightarrow>
                  (let t = t0\<lparr>wt_token_sent_to := wt_token_sent_to t0 @ [url @ path]\<rparr>
                   in case nw_post nw (url @ path) (tc_auth_token cfg) body of
                     Inl e \<Rightarrow> (Inl e, t)
                   | Inr (success, len) \<Rightarrow>
                       (let m = (wt_metrics t)\<lparr>tm_bytes_sent := tm_bytes_sent (wt_metrics t) + of_nat (nw_json_len nw body)\<rparr>
                        in if success
                           then (Inr \<lparr> ck_accepted = True, ck_message = ''ok'' \<rparr>,
                                 t\<lparr>wt_metrics := m\<lparr>tm_bytes_received := tm_bytes_received m + of_nat len\<rparr>\<rparr>)
                           else (Inr \<lparr> ck_accepted = False, ck_message = ''HTTP {status}: {text}'' \<rparr>,
                                 t\<lparr>wt_metrics := m\<rparr>))))))"

definition direct_send :: "network \<Rightarrow> transport_command \<Rightarrow> ws_transport \<Rightarrow> command_ack anyhow \<times> ws_transport" where
  "direct_send nw c t = post_command nw direct_url c t"

definition relay_send :: "network \<Rightarrow> transport_command \<Rightarrow> ws_transport \<Rightarrow> command_ack anyhow \<times> ws_transport" where
  "relay_send nw c t = post_command nw relay_url_of c t"

definition ws_disconnect :: "ws_transport \<Rightarrow> ws_transport" where
  "ws_disconnect t = t\<lparr>wt_events_open := False, wt_state := Closed\<rparr>"

definition ws_health_probe ::
  "network \<Rightarrow> (transport_config \<Rightarrow> rstring option) \<Rightarrow> nat \<Rightarrow> string \<Rightarrow> ws_transport \<Rightarrow> health_status" where
  "ws_health_probe nw url_of timeout_ms name t =
     (case Option.bind (wt_config t) (\<lambda>cfg. map_option (\<lambda>u. (u, tc_auth_token cfg)) (url_of cfg)) of
        None \<Rightarrow> \<lparr> hl_endpoints = [], hl_recommended_strategy = None \<rparr>
      | Some (url, token) \<Rightarrow>
          (let h = url @ str ''/healthz''
           in \<lparr> hl_endpoints = [probe_endpoint h timeout_ms (nw_probe nw h token)],
                hl_recommended_strategy = Some name \<rparr>))"

section \<open>Whichever works\<close>

datatype hybrid_mode = ModeDirect | ModeRelay

record hybrid =
  hy_mode :: hybrid_mode
  hy_direct :: ws_transport
  hy_relay :: ws_transport
  hy_runner_url :: "rstring option"
  hy_cp_url :: "rstring option"
  hy_metrics :: transport_metrics
  hy_token_probed :: "rstring list"

text \<open>The last field is a trace again: the URLs that were probed with the bearer token.\<close>

definition hybrid_new :: hybrid where
  "hybrid_new = \<lparr> hy_mode = ModeDirect, hy_direct = ws_transport_new, hy_relay = ws_transport_new,
     hy_runner_url = None, hy_cp_url = None, hy_metrics = metrics_default, hy_token_probed = [] \<rparr>"

definition count_switch :: "hybrid \<Rightarrow> hybrid" where
  "count_switch h = h\<lparr>hy_metrics := (hy_metrics h)\<lparr>tm_strategy_switches := tm_strategy_switches (hy_metrics h) + 1\<rparr>\<rparr>"

definition connect_relay_part ::
  "network \<Rightarrow> int \<Rightarrow> transport_config \<Rightarrow> rstring \<Rightarrow> hybrid \<Rightarrow> unit anyhow \<times> hybrid" where
  "connect_relay_part nw now cfg cp_url h =
     (case relay_connect nw now (cfg\<lparr>tc_strategy := ServerRelay cp_url\<rparr>) (hy_relay h) of
        (Inl e, r) \<Rightarrow> (Inl e, h\<lparr>hy_relay := r\<rparr>)
      | (Inr _, r) \<Rightarrow> (Inr (), count_switch (h\<lparr>hy_relay := r, hy_mode := ModeRelay\<rparr>)))"

definition hybrid_connect :: "network \<Rightarrow> int \<Rightarrow> transport_config \<Rightarrow> hybrid \<Rightarrow> unit anyhow \<times> hybrid" where
  "hybrid_connect nw now cfg h =
     (case tc_strategy cfg of
        Hybrid runner_url cp_url \<Rightarrow>
          (let health_url = runner_url @ str ''/healthz'';
               h1 = h\<lparr>hy_runner_url := Some runner_url, hy_cp_url := Some cp_url,
                       hy_token_probed := hy_token_probed h @ [health_url, cp_url @ str ''/healthz'']\<rparr>;
               health = probe_endpoint health_url 2000 (nw_probe nw health_url (tc_auth_token cfg))
           in if eh_reachable health \<and> eh_auth_valid health
              then (case direct_connect nw now (cfg\<lparr>tc_strategy := DirectWebSocket runner_url\<rparr>) (hy_direct h1) of
                      (Inr _, d) \<Rightarrow> (Inr (), h1\<lparr>hy_direct := d, hy_mode := ModeDirect\<rparr>)
                    | (Inl _, d) \<Rightarrow> connect_relay_part nw now cfg cp_url (h1\<lparr>hy_direct := d\<rparr>))
              else connect_relay_part nw now cfg cp_url h1)
      | _ \<Rightarrow> (Inl ''HybridTransport requires Hybrid strategy'', h))"

definition hybrid_send :: "network \<Rightarrow> transport_command \<Rightarrow> hybrid \<Rightarrow> command_ack anyhow \<times> hybrid" where
  "hybrid_send nw c h =
     (let relay = (\<lambda>g. case relay_send nw c (hy_relay g) of (r, t) \<Rightarrow> (r, g\<lparr>hy_relay := t\<rparr>))
      in case hy_mode h of
           ModeRelay \<Rightarrow> relay h
         | ModeDirect \<Rightarrow>
             (case direct_send nw c (hy_direct h) of (r, d) \<Rightarrow>
                (case r of
                   Inr ack \<Rightarrow> if ck_accepted ack then (Inr ack, h\<lparr>hy_direct := d\<rparr>)
                              else relay (count_switch (h\<lparr>hy_direct := d\<rparr>))
                 | Inl _ \<Rightarrow> relay (count_switch (h\<lparr>hy_direct := d\<rparr>)))))"

definition hybrid_health_probe :: "network \<Rightarrow> hybrid \<Rightarrow> health_status" where
  "hybrid_health_probe nw h =
     (case (hy_runner_url h, hy_cp_url h) of
        (Some runner_url, Some cp_url) \<Rightarrow>
          (let token = unwrap_or [] (map_option tc_auth_token (or_else (wt_config (hy_direct h)) (wt_config (hy_relay h))));
               probe = (\<lambda>u. probe_endpoint u 3000 (nw_probe nw u token));
               endpoints = rank_endpoints [probe (runner_url @ str ''/healthz''), probe (cp_url @ str ''/healthz'')]
           in \<lparr> hl_endpoints = endpoints,
                hl_recommended_strategy =
                  Some (if eh_reachable (hd endpoints) \<and> eh_auth_valid (hd endpoints)
                        then ''direct_websocket'' else ''server_relay'') \<rparr>)
      | _ \<Rightarrow> \<lparr> hl_endpoints = [], hl_recommended_strategy = None \<rparr>)"

definition hybrid_disconnect :: "hybrid \<Rightarrow> hybrid" where
  "hybrid_disconnect h = h\<lparr>hy_direct := ws_disconnect (hy_direct h), hy_relay := ws_disconnect (hy_relay h)\<rparr>"

definition hybrid_state :: "hybrid \<Rightarrow> connection_state" where
  "hybrid_state h = (case hy_mode h of ModeDirect \<Rightarrow> wt_state (hy_direct h) | ModeRelay \<Rightarrow> wt_state (hy_relay h))"

section \<open>Polling\<close>

record transport_event =
  te_sequence :: nat
  te_payload :: json

definition poll_connect :: "network \<Rightarrow> int \<Rightarrow> transport_config \<Rightarrow> ws_transport \<Rightarrow> rstring anyhow \<times> ws_transport" where
  "poll_connect nw now cfg t =
     (case tc_strategy cfg of
        OutboundPolling cp_url poll_ms \<Rightarrow>
          (let t1 = t\<lparr>wt_config := Some cfg, wt_state := Connecting\<rparr>
           in if tls_enforce_https (tc_tls cfg) \<and> \<not> secure_url [''https://''] cp_url
              then (Inl ''HTTPS is enforced but URL is not secure: {}'',
                    t1\<lparr>wt_state := ConnError ''HTTPS enforced but URL is not secure''\<rparr>)
              else (Inr (cp_url @ stream_path (tc_session_id cfg) (tc_after_sequence cfg)),
                    opened ''outbound_polling'' poll_ms (wt_config t \<noteq> None) now t1))
      | _ \<Rightarrow> (Inl ''OutboundPollTransport requires OutboundPolling strategy'', t))"

definition update_after_param :: "rstring \<Rightarrow> nat \<Rightarrow> rstring" where
  "update_after_param url new_after =
     (let (base, query) = unwrap_or (url, []) (split_once 63 url);
          after_eq = str ''after='' @ show_nat new_after
      in if contains_str query (str ''after='')
         then base @ [63] @ join_with 38 (map (\<lambda>pair. if starts_with pair (str ''after='') then after_eq else pair) (split_on 38 query))
         else if query = [] then base @ [63] @ after_eq
         else url @ [38] @ after_eq)"

text \<open>\<^verbatim>\<open>str::lines\<close>: the parts between line feeds, less a final empty one, less a final carriage return each.\<close>

definition body_lines :: "rstring \<Rightarrow> rstring list" where
  "body_lines body =
     (let ps = split_on 10 body; qs = (if last ps = [] then butlast ps else ps)
      in map (\<lambda>l. if l \<noteq> [] \<and> last l = 13 then butlast l else l) qs)"

definition parse_body :: "(rstring \<Rightarrow> transport_event option) \<Rightarrow> rstring \<Rightarrow> transport_event list" where
  "parse_body decode body =
     filter_map (\<lambda>l. decode (unwrap_or l (strip_prefix (str ''data: '') l))) (body_lines body)"

text \<open>One answered round of the polling loop: the events handed on and the URL of the next round.\<close>

definition poll_round :: "transport_event list \<Rightarrow> rstring \<Rightarrow> transport_event list \<times> rstring" where
  "poll_round events url =
     (let max_seq = fold (\<lambda>e m. max (te_sequence e) m) events 0
      in (events, if 0 < max_seq then update_after_param url max_seq else url))"

section \<open>The offline queue\<close>

text \<open>A command given while offline: when, by which identifier, for which session.\<close>

definition queue_push :: "uuid \<times> int \<times> rstring \<times> transport_command \<Rightarrow> offline_queue \<Rightarrow> offline_queue" where
  "queue_push e q = (case e of (u, now, sid, c) \<Rightarrow> snd (enqueue_offline u now sid c q))"

definition queue_entry :: "uuid \<times> int \<times> rstring \<times> transport_command \<Rightarrow> offline_command" where
  "queue_entry e = (case e of (u, now, sid, c) \<Rightarrow>
     \<lparr> qd_id = uuid_string u, qd_session_id = sid, qd_command = c, qd_queued_at = now, qd_retry_count = 0 \<rparr>)"

interpretation offline: bounded_log oq_items queue_push queue_entry max_queue_size
  "\<lambda>q. length (oq_items q) \<le> max_queue_size"
  by unfold_locales
    (auto simp: queue_push_def queue_entry_def enqueue_offline_def push_bounded_eq max_queue_size_def Let_def
      drop_Suc split: prod.splits)

lemma offline_threshold [simp]: "oq_stale_threshold_secs (fold queue_push es q) = oq_stale_threshold_secs q"
  by (induction es arbitrary: q) (auto simp: queue_push_def enqueue_offline_def Let_def split: prod.splits)

text \<open>
  Commands given while offline. Whatever is queued from the start, draining returns the last hundred
  commands that are younger than the threshold, in the order in which they were given, each marked as tried
  once, and leaves the queue empty.
\<close>

theorem offline_queue_delivers_recent:
  "let q = fold queue_push es offline_queue_new; (out, q') = drain_offline now q
   in length (oq_items q) \<le> 100
      \<and> out = map (\<lambda>c. c\<lparr>qd_retry_count := 1\<rparr>)
               (filter (\<lambda>c. now - qd_queued_at c < 300) (drop (length es - 100) (map queue_entry es)))
      \<and> oq_items q' = []"
proof -
  let ?q = "fold queue_push es offline_queue_new"
  have items: "oq_items ?q = drop (length es - 100) (map queue_entry es)"
    using offline.pushes_contents [of offline_queue_new es] by (simp add: offline_queue_new_def max_queue_size_def)
  have "length (oq_items ?q) \<le> 100"
    using offline.pushes_ok [of offline_queue_new es] by (simp add: offline_queue_new_def max_queue_size_def)
  moreover have "qd_retry_count c = 0" if "c \<in> set (oq_items ?q)" for c
    using that in_set_dropD by (fastforce simp: items queue_entry_def split: prod.splits)
  then have "filter (deliverable now 300) (oq_items ?q) = filter (\<lambda>c. now - qd_queued_at c < 300) (oq_items ?q)"
    "map (\<lambda>c. c\<lparr>qd_retry_count := Suc (qd_retry_count c)\<rparr>) (filter P (oq_items ?q))
     = map (\<lambda>c. c\<lparr>qd_retry_count := 1\<rparr>) (filter P (oq_items ?q))" for P
    by (auto simp: deliverable_def max_retry_count_def intro!: filter_cong)
  ultimately show ?thesis
    unfolding Let_def drain_offline_def
    by (simp add: items [symmetric] offline_queue_new_def [THEN arg_cong [where f = oq_stale_threshold_secs]])
qed

section \<open>HTTPS\<close>

lemma replace_all_head: "c \<noteq> hd p \<Longrightarrow> replace_all p r (c # s) = c # replace_all p r s"
  by (cases p) (auto simp: starts_with_def)

lemma replace_all_skip: "\<not> starts_with (c # s) p \<Longrightarrow> replace_all p r (c # s) = c # replace_all p r s"
  by simp

lemma starts_with_iff: "starts_with s p \<longleftrightarrow> (\<exists>t. s = p @ t)"
proof
  assume "starts_with s p"
  then have "s = p @ drop (length p) s" unfolding starts_with_def by (metis append_take_drop_id)
  then show "\<exists>t. s = p @ t" ..
qed (auto simp: starts_with_def)

lemma secure_url_append: "secure_url ps u \<Longrightarrow> secure_url ps (u @ v)"
  unfolding secure_url_def list_ex_iff starts_with_iff map_append by (metis append.assoc)

lemma ascii_lower_cases: "ascii_lower c = k \<Longrightarrow> c = k \<or> c + 32 = k"
  by (auto simp: ascii_lower_def split: if_splits)

lemma map_eq_Cons_append: "map f s = (a # p) @ t \<Longrightarrow> \<exists>c s'. s = c # s' \<and> f c = a \<and> map f s' = p @ t"
  by (cases s) auto

text \<open>Turning a secure URL into a WebSocket URL leaves it secure.\<close>

lemma secure_https_chars:
  assumes "map ascii_lower u = str ''https://'' @ t"
  obtains c0 c1 c2 c3 c4 v where "u = c0 # c1 # c2 # c3 # c4 # 58 # 47 # 47 # v"
    "ascii_lower c0 = 104" "c1 \<in> {84, 116}" "c2 \<in> {84, 116}" "c3 \<in> {80, 112}" "c4 \<in> {83, 115}"
proof -
  have "map ascii_lower u = [104, 116, 116, 112, 115, 58, 47, 47] @ t" using assms by (simp add: str_def)
  then obtain c0 c1 c2 c3 c4 c5 c6 c7 v where u: "u = c0 # c1 # c2 # c3 # c4 # c5 # c6 # c7 # v"
    and l: "ascii_lower c0 = 104" "ascii_lower c1 = 116" "ascii_lower c2 = 116" "ascii_lower c3 = 112"
      "ascii_lower c4 = 115" "ascii_lower c5 = 58" "ascii_lower c6 = 47" "ascii_lower c7 = 47"
    by (auto simp: map_eq_Cons_conv)
  have "c1 \<in> {84, 116}" "c2 \<in> {84, 116}" "c3 \<in> {80, 112}" "c4 \<in> {83, 115}" "c5 = 58" "c6 = 47" "c7 = 47"
    using l by (auto simp: ascii_lower_def split: if_splits)
  with u l that show ?thesis by blast
qed

lemma secure_wss_chars:
  assumes "map ascii_lower u = str ''wss://'' @ t"
  obtains c0 c1 c2 v where "u = c0 # c1 # c2 # 58 # 47 # 47 # v"
    "c0 \<in> {87, 119}" "c1 \<in> {83, 115}" "c2 \<in> {83, 115}"
proof -
  have "map ascii_lower u = [119, 115, 115, 58, 47, 47] @ t" using assms by (simp add: str_def)
  then obtain c0 c1 c2 c3 c4 c5 v where u: "u = c0 # c1 # c2 # c3 # c4 # c5 # v"
    and l: "ascii_lower c0 = 119" "ascii_lower c1 = 115" "ascii_lower c2 = 115" "ascii_lower c3 = 58"
      "ascii_lower c4 = 47" "ascii_lower c5 = 47"
    by (auto simp: map_eq_Cons_conv)
  have "c0 \<in> {87, 119}" "c1 \<in> {83, 115}" "c2 \<in> {83, 115}" "c3 = 58" "c4 = 47" "c5 = 47"
    using l by (auto simp: ascii_lower_def split: if_splits)
  with u that show ?thesis by blast
qed

definition ws_base :: "rstring \<Rightarrow> rstring" where
  "ws_base url = replace_all (str ''http://'') (str ''ws://'') (replace_all (str ''https://'') (str ''wss://'') url)"

lemma ws_base_wss:
  assumes "c0 \<in> {87, 119}" "c1 \<in> {83, 115}" "c2 \<in> {83, 115}"
  shows "ws_base (c0 # c1 # c2 # 58 # 47 # 47 # v) = c0 # c1 # c2 # 58 # 47 # 47 # ws_base v"
proof -
  have h: "hd (str ''https://'') = 104" "hd (str ''http://'') = 104" by (simp_all add: str_def)
  have ne: "c0 \<noteq> 104" "c1 \<noteq> 104" "c2 \<noteq> 104" using assms by auto
  show ?thesis unfolding ws_base_def by (simp add: replace_all_head h ne del: replace_all.simps)
qed

lemma ws_base_https:
  assumes "ascii_lower c0 = 104" "c1 \<in> {84, 116}" "c2 \<in> {84, 116}" "c3 \<in> {80, 112}" "c4 \<in> {83, 115}"
  shows "secure_url [''https://'', ''wss://''] (ws_base (c0 # c1 # c2 # c3 # c4 # 58 # 47 # 47 # v))"
proof -
  let ?u = "c0 # c1 # c2 # c3 # c4 # 58 # 47 # 47 # v"
  have h: "hd (str ''https://'') = 104" "hd (str ''http://'') = 104" by (simp_all add: str_def)
  have ne: "c1 \<noteq> 104" "c2 \<noteq> 104" "c3 \<noteq> 104" "c4 \<noteq> 104" "c4 \<noteq> 58" using assms by auto
  have l: "ascii_lower c1 = 116" "ascii_lower c2 = 116" "ascii_lower c3 = 112" "ascii_lower c4 = 115"
    using assms(2-5) by (auto simp: ascii_lower_def)
  show ?thesis
  proof (cases "starts_with ?u (str ''https://'')")
    case True
    then have "replace_all (str ''https://'') (str ''wss://'') ?u = str ''wss://'' @ replace_all (str ''https://'') (str ''wss://'') v"
      by (simp add: str_def)
    then have "\<exists>w. ws_base ?u = str ''wss://'' @ w"
      unfolding ws_base_def by (simp add: str_def) (simp add: replace_all_head starts_with_def)
    then show ?thesis by (auto simp: secure_url_def starts_with_iff str_def ascii_lower_def)
  next
    case False
    have r: "replace_all (str ''https://'') (str ''wss://'') ?u
        = c0 # c1 # c2 # c3 # c4 # 58 # 47 # 47 # replace_all (str ''https://'') (str ''wss://'') v"
      unfolding replace_all_skip [OF False] by (simp add: replace_all_head h ne del: replace_all.simps)
    have n: "\<not> starts_with (c0 # c1 # c2 # c3 # c4 # w) (str ''http://'')" for w
      using ne(5) by (simp add: starts_with_def str_def)
    have "ws_base ?u = c0 # c1 # c2 # c3 # c4 # 58 # 47 # 47 #
        replace_all (str ''http://'') (str ''ws://'') (replace_all (str ''https://'') (str ''wss://'') v)"
      unfolding ws_base_def r replace_all_skip [OF n] by (simp add: replace_all_head h ne del: replace_all.simps)
    then have "\<exists>w. map ascii_lower (ws_base ?u) = str ''https://'' @ w"
      using assms(1) l by (simp add: str_def ascii_lower_def [of 58] ascii_lower_def [of 47])
    then show ?thesis by (auto simp: secure_url_def starts_with_iff)
  qed
qed

lemma build_ws_url_secure:
  assumes "secure_url [''https://'', ''wss://''] url"
  shows "secure_url [''https://'', ''wss://''] (build_ws_url url sid n)"
proof -
  have "secure_url [''https://'', ''wss://''] (ws_base url)"
  proof -
    from assms consider t where "map ascii_lower url = str ''https://'' @ t" | t where "map ascii_lower url = str ''wss://'' @ t"
      by (auto simp: secure_url_def starts_with_iff)
    then show ?thesis
    proof cases
      case 1
      then show ?thesis by (rule secure_https_chars) (simp add: ws_base_https)
    next
      case 2
      then show ?thesis
        by (rule secure_wss_chars) (auto simp: ws_base_wss secure_url_def starts_with_iff str_def ascii_lower_def)
    qed
  qed
  then show ?thesis by (simp add: build_ws_url_def ws_base_def secure_url_append)
qed

text \<open>
  C29. Connecting a WebSocket with HTTPS enforced. This is the connect of the direct and of the relay transport, given the
  URL of a matching strategy; the hybrid transport, which probes endpoints first, is not covered. However the network
  behaves, a transport whose configuration
  enforces HTTPS offers its token, while it connects, only to URLs that start with https or wss in any case;
  if it reports success it is open and its URL was secure; and if the URL is not secure it contacts nobody,
  reports an error and is left in an error state.
\<close>

theorem connect_enforces_https:
  assumes "tls_enforce_https (tc_tls cfg)" "expected = Some url"
  shows "case connect_ws nw now name noted cfg expected t of (res, t') \<Rightarrow>
    list_all (secure_url [''https://'', ''wss://'']) (drop (length (wt_token_sent_to t)) (wt_token_sent_to t'))
    \<and> (is_ok res \<longleftrightarrow> (\<exists>ms. wt_state t' = Open name ms))
    \<and> \<not> (is_ok res \<and> \<not> secure_url [''https://'', ''wss://''] url)
    \<and> (secure_url [''https://'', ''wss://''] url
       \<or> wt_token_sent_to t' = wt_token_sent_to t \<and> wt_state t' = ConnError ''HTTPS enforced but URL is not secure'')"
  using assms build_ws_url_secure [of url "tc_session_id cfg" "tc_after_sequence cfg"]
  by (auto simp: connect_ws_def opened_def Let_def split: sum.splits)

definition demo_network :: network where
  "demo_network = \<lparr> nw_request = (\<lambda>_ _. Inr ()), nw_tls = (\<lambda>_. Inr ()), nw_dial = (\<lambda>_. Inr 20),
     nw_post = (\<lambda>_ _ _. Inl ''refused''), nw_probe = (\<lambda>_ _. ProbeStatus 200 10), nw_json_len = (\<lambda>_. 0) \<rparr>"

definition demo_config :: "rstring \<Rightarrow> transport_config" where
  "demo_config url = \<lparr> tc_strategy = DirectWebSocket url, tc_auth_token = str ''token'', tc_session_id = str ''s'',
     tc_after_sequence = 0, tc_tls = tls_config_default \<rparr>"

theorem connect_enforces_https_witness:
  "fst (direct_connect demo_network 0 (demo_config (str ''http://runner'')) ws_transport_new)
   = Inl ''HTTPS is enforced but URL is not secure: {}''"
proof -
  let ?cfg = "demo_config (str ''http://runner'')"
  have n: "\<not> secure_url [''https://'', ''wss://''] (str ''http://runner'')"
    by (simp add: secure_url_def starts_with_def str_def ascii_lower_def)
  have "\<not> is_ok (fst (connect_ws demo_network 0 ''direct_websocket'' True ?cfg (Some (str ''http://runner'')) ws_transport_new))"
    using connect_enforces_https [where cfg = ?cfg and expected = "Some (str ''http://runner'')"
        and url = "str ''http://runner''" and nw = demo_network and now = 0 and name = "''direct_websocket''"
        and noted = True and t = ws_transport_new] n
    by (auto simp: demo_config_def tls_config_default_def split: prod.splits)
  then show ?thesis
    using n by (simp add: direct_connect_def direct_url_def demo_config_def tls_config_default_def connect_ws_def Let_def)
qed

text \<open>
  The check guards connecting only. A transport whose connection was refused keeps its configuration, and
  its next command goes out with the token over the insecure URL; and the hybrid transport probes the
  runner with the token before any check.
\<close>

lemma command_after_refused_connect:
  assumes "tc_strategy cfg = DirectWebSocket url" "tls_enforce_https (tc_tls cfg)"
    and "\<not> secure_url [''https://'', ''wss://''] url"
  shows "\<not> is_ok (fst (direct_connect nw now cfg t))
    \<and> last (wt_token_sent_to (snd (direct_send nw (TcSendPrompt c) (snd (direct_connect nw now cfg t)))))
      = url @ str ''/v1/sessions/'' @ tc_session_id cfg @ str ''/commands''"
  using assms
  by (auto simp: direct_connect_def direct_url_def connect_ws_def direct_send_def post_command_def Let_def
      split: sum.splits prod.splits)

lemma hybrid_probes_insecure_runner:
  assumes "tc_strategy cfg = Hybrid url cp"
  shows "url @ str ''/healthz'' \<in> set (hy_token_probed (snd (hybrid_connect nw now cfg h)))"
proof -
  have "hy_token_probed (snd (connect_relay_part nw now c u g)) = hy_token_probed g" for c u g
    by (auto simp: connect_relay_part_def count_switch_def split: prod.splits sum.splits)
  with assms show ?thesis
    by (auto simp: hybrid_connect_def Let_def split: prod.splits sum.splits)
qed

section \<open>The hybrid transport\<close>

lemma connect_ws_config: "expected = Some url \<Longrightarrow> wt_config (snd (connect_ws nw now name noted cfg expected t)) = Some cfg"
  by (auto simp: connect_ws_def opened_def Let_def split: sum.splits)

text \<open>
  The fallback of a direct connection is not there. A new hybrid transport that has connected directly
  has never configured its relay, so when a direct command fails or is refused, the retry through the relay
  fails as not connected: the caller gets an error although the control plane may be reachable.
\<close>

theorem hybrid_fallback_not_connected:
  assumes "hybrid_connect nw now cfg hybrid_new = (Inr (), h)" "hy_mode h = ModeDirect"
    and "\<not> is_ok (fst (direct_send nw' c (hy_direct h)))"
  shows "fst (hybrid_send nw' c h) = Inl ''not connected''
    \<and> tm_strategy_switches (hy_metrics (snd (hybrid_send nw' c h))) = 1"
proof -
  have relay: "wt_config (hy_relay h) = None \<and> tm_strategy_switches (hy_metrics h) = 0"
    using assms(1,2)
    by (auto simp: hybrid_connect_def connect_relay_part_def count_switch_def hybrid_new_def ws_transport_new_def
        metrics_default_def Let_def split: transport_strategy.splits if_splits prod.splits sum.splits)
  obtain e d where d: "direct_send nw' c (hy_direct h) = (Inl e, d)"
    using assms(3) by (cases "direct_send nw' c (hy_direct h)") (metis is_ok_simps(2) fst_conv sum.exhaust)
  show ?thesis
    using assms(2) relay d
    by (simp add: hybrid_send_def relay_send_def post_command_def count_switch_def Let_def)
qed

theorem hybrid_fallback_not_connected_witness:
  "let cfg = (demo_config [])\<lparr>tc_strategy := Hybrid (str ''https://r'') (str ''https://c'')\<rparr>
   in fst (hybrid_send demo_network TcInterrupt (snd (hybrid_connect demo_network 0 cfg hybrid_new))) = Inl ''not connected''"
proof -
  let ?cfg = "(demo_config [])\<lparr>tc_strategy := Hybrid (str ''https://r'') (str ''https://c'')\<rparr>"
  let ?h = "snd (hybrid_connect demo_network 0 ?cfg hybrid_new)"
  have sec: "secure_url [''https://'', ''wss://''] (str ''https://r'')"
    by (simp add: secure_url_def starts_with_def str_def ascii_lower_def)
  have con: "hybrid_connect demo_network 0 ?cfg hybrid_new = (Inr (), ?h)" "hy_mode ?h = ModeDirect"
    and c: "wt_config (hy_direct ?h) = Some (?cfg\<lparr>tc_strategy := DirectWebSocket (str ''https://r'')\<rparr>)"
    using sec by (simp_all add: hybrid_connect_def demo_network_def probe_endpoint_def direct_connect_def direct_url_def
        connect_ws_def opened_def demo_config_def Let_def)
  have "\<not> is_ok (fst (direct_send demo_network TcInterrupt (hy_direct ?h)))"
    using c by (simp add: direct_send_def post_command_def direct_url_def demo_network_def Let_def)
  then show ?thesis
    using hybrid_fallback_not_connected [OF con, of demo_network TcInterrupt] by (simp add: Let_def)
qed

text \<open>
  The recommendation looks at the best endpoint and not at the runner: if only the control plane is
  reachable it is the best one, and the direct connection is recommended.
\<close>

lemma rank_two:
  "rank_endpoints [a, b] = (if endpoint_score b > endpoint_score a then [b, a] else [a, b])"
  by (simp add: rank_endpoints_def)

lemma recommendation_ignores_runner:
  assumes "hy_runner_url h = Some r" "hy_cp_url h = Some c"
    and "\<And>tok. nw_probe nw (r @ str ''/healthz'') tok = ProbeTimeout"
    and "\<And>tok. nw_probe nw (c @ str ''/healthz'') tok = ProbeStatus 200 10"
  shows "hl_recommended_strategy (hybrid_health_probe nw h) = Some ''direct_websocket''"
proof -
  have "endpoint_score (probe_endpoint u 3000 ProbeTimeout) = 0" "endpoint_score (probe_endpoint v 3000 (ProbeStatus 200 10)) = 990" for u v
    by (simp_all add: endpoint_score_def probe_endpoint_def saturating_sub_i32_def)
  then show ?thesis
    using assms by (simp add: hybrid_health_probe_def rank_two Let_def) (simp add: probe_endpoint_def)
qed

text \<open>
  Ranking: the endpoints are the same, ordered by score. An endpoint that works but is slow scores below one
  that rejects the token, or below one that cannot be reached at all.
\<close>

lemma rank_endpoints_sorted:
  "sorted (map (\<lambda>h. - endpoint_score h) (rank_endpoints hs))" "mset (rank_endpoints hs) = mset hs"
  by (simp_all add: rank_endpoints_def)

lemma slow_endpoint_scores_low:
  fixes ms :: u32
  assumes "500 < ms" "ms < 2 ^ 31"
  shows "endpoint_score \<lparr> eh_url = u, eh_reachable = True, eh_latency_ms = Some ms, eh_auth_valid = True, eh_error = None \<rparr>
    < endpoint_score \<lparr> eh_url = v, eh_reachable = True, eh_latency_ms = l, eh_auth_valid = False, eh_error = e \<rparr>"
proof -
  have "uint ms < 2 ^ 31" "500 < uint ms" using assms by (simp_all add: word_less_def)
  then have "sint ms = uint ms" by (simp add: sint_uint signed_take_bit_int_eq_self)
  with \<open>500 < uint ms\<close> show ?thesis by (simp add: endpoint_score_def saturating_sub_i32_def)
qed

section \<open>The polling cursor\<close>

lemma show_nat_digits: "set (show_nat n) \<subseteq> {48..57}"
proof (induction n rule: show_nat.induct)
  case (1 n)
  then show ?case by (subst show_nat.simps) (auto split: if_splits)
qed

lemma update_stream_path:
  assumes "63 \<notin> set base" "63 \<notin> set sid"
  shows "update_after_param (base @ stream_path sid a) m = base @ stream_path sid m"
proof -
  let ?b = "base @ str ''/v1/sessions/'' @ sid @ str ''/events/stream''"
  let ?q = "str ''after='' @ show_nat a"
  have url: "base @ stream_path sid k = ?b @ 63 # (str ''after='' @ show_nat k)" for k
    by (simp add: stream_path_def str_def)
  have nb: "63 \<notin> set ?b" using assms by (simp add: str_def)
  have nq: "38 \<notin> set ?q" using show_nat_digits [of a] by (auto simp: str_def)
  have sw: "starts_with ?q (str ''after='')" by (simp add: starts_with_iff)
  have ct: "contains_str ?q (str ''after='')" using sw by (cases ?q) (auto simp: str_def)
  have "update_after_param (?b @ 63 # ?q) m = ?b @ 63 # (str ''after='' @ show_nat m)"
    by (simp only: update_after_param_def split_once_append [OF nb] unwrap_or_simps Let_def case_prod_conv
        split_on_single [OF nq] ct sw if_True list.map join_with.simps append_Cons append_Nil)
  then show ?thesis by (simp only: url)
qed

definition newer_than :: "nat \<Rightarrow> transport_event list \<Rightarrow> transport_event list" where
  "newer_than c log = filter (\<lambda>e. c < te_sequence e) log"

definition highest :: "transport_event list \<Rightarrow> nat" where
  "highest events = fold (\<lambda>e m. max (te_sequence e) m) events 0"

lemma highest_snoc: "highest (es @ [e]) = max (te_sequence e) (highest es)"
  by (simp add: highest_def)

lemma highest_ge: "e \<in> set es \<Longrightarrow> te_sequence e \<le> highest es"
  by (induction es rule: rev_induct) (auto simp: highest_snoc)

lemma highest_in: "es \<noteq> [] \<Longrightarrow> \<exists>e \<in> set es. te_sequence e = highest es"
proof (induction es rule: rev_induct)
  case (snoc e es)
  then show ?case by (cases "es = []") (auto simp: highest_snoc highest_def max_def)
qed simp

text \<open>After the first \<open>n\<close> of the newer events have arrived, those still newer are the others.\<close>

lemma newer_than_take:
  assumes "sorted_wrt (\<lambda>a b. te_sequence a < te_sequence b) log" "take n (newer_than c log) \<noteq> []"
  shows "newer_than (highest (take n (newer_than c log))) log = drop n (newer_than c log)"
proof -
  let ?ys = "newer_than c log" and ?d = "take n (newer_than c log)"
  let ?m = "highest ?d"
  obtain e where e: "e \<in> set ?d" "te_sequence e = ?m" using highest_in [OF assms(2)] by blast
  then have cm: "c < ?m" by (auto simp: newer_than_def dest!: in_set_takeD)
  have srt: "sorted_wrt (\<lambda>a b. te_sequence a < te_sequence b) ?ys"
    using assms(1) by (simp add: newer_than_def sorted_wrt_filter)
  have "sorted_wrt (\<lambda>a b. te_sequence a < te_sequence b) (?d @ drop n ?ys)" using srt by simp
  then have above: "?m < te_sequence b" if "b \<in> set (drop n ?ys)" for b
    using that e unfolding sorted_wrt_append by metis
  have "newer_than ?m log = newer_than ?m ?ys"
    using cm by (auto simp: newer_than_def intro!: filter_cong)
  also have "\<dots> = newer_than ?m (?d @ drop n ?ys)" by simp
  also have "\<dots> = newer_than ?m ?d @ newer_than ?m (drop n ?ys)" by (simp only: newer_than_def filter_append)
  also have "newer_than ?m ?d = []"
    using highest_ge [of _ ?d] by (auto simp: newer_than_def [of ?m] filter_empty_conv not_less)
  also have "newer_than ?m (drop n ?ys) = drop n ?ys"
    using above by (auto simp: newer_than_def [of ?m] filter_id_conv)
  finally show ?thesis by simp
qed

fun poll_run ::
  "(rstring \<Rightarrow> nat \<Rightarrow> transport_event list) \<Rightarrow> nat list \<Rightarrow> rstring \<Rightarrow> transport_event list \<times> rstring" where
  "poll_run serve [] url = ([], url)"
| "poll_run serve (n # ns) url =
     (case poll_round (serve url n) url of (evs, url1) \<Rightarrow>
        (case poll_run serve ns url1 of (rest, url2) \<Rightarrow> (evs @ rest, url2)))"

text \<open>
  Polling loses nothing and repeats nothing. Against a server that keeps a log with increasing numbers
  and answers each poll with some of the next events after the cursor in the URL, however many each time,
  what the client has handed on after any number of rounds is exactly an initial part of the events that
  were new to it, and the cursor stands right behind them.
\<close>

theorem polling_exactly_once:
  assumes "63 \<notin> set base" "63 \<notin> set sid" "sorted_wrt (\<lambda>a b. te_sequence a < te_sequence b) log"
    and serve: "\<And>a n. serve (base @ stream_path sid a) n = take n (newer_than a log)"
  shows "\<exists>c'. snd (poll_run serve ns (base @ stream_path sid c)) = base @ stream_path sid c'
    \<and> fst (poll_run serve ns (base @ stream_path sid c)) @ newer_than c' log = newer_than c log"
proof (induction ns arbitrary: c)
  case Nil
  then show ?case by auto
next
  case (Cons n ns)
  let ?d = "take n (newer_than c log)"
  let ?c1 = "if ?d = [] then c else highest ?d"
  have "0 < highest ?d" if "?d \<noteq> []"
    using highest_in [OF that] by (auto simp: newer_than_def dest!: in_set_takeD)
  then have step: "poll_round (serve (base @ stream_path sid c) n) (base @ stream_path sid c)
      = (?d, base @ stream_path sid ?c1)"
    using update_stream_path [OF assms(1,2), of c "highest ?d"]
    by (auto simp: poll_round_def serve Let_def highest_def)
  have rest: "?d @ newer_than ?c1 log = newer_than c log"
    using newer_than_take [OF assms(3), of n c] by simp
  obtain c' where "snd (poll_run serve ns (base @ stream_path sid ?c1)) = base @ stream_path sid c'"
    "fst (poll_run serve ns (base @ stream_path sid ?c1)) @ newer_than c' log = newer_than ?c1 log"
    using Cons.IH [of ?c1] by blast
  with step rest show ?case by (intro exI [of _ c']) (simp add: split_beta)
qed

lemma show_nat_zero: "show_nat a = show_nat 0 \<longleftrightarrow> a = 0"
proof -
  have "length (show_nat a) = 1 \<Longrightarrow> a < 10"
    using show_nat.simps [of a] show_nat.simps [of "a div 10"] by (auto split: if_splits)
  then show ?thesis using show_nat.simps [of a] show_nat.simps [of 0] by (cases "a < 10") auto
qed

theorem polling_exactly_once_witness:
  "let e = \<lparr> te_sequence = 1, te_payload = JNull \<rparr>; url = (\<lambda>a. str ''https://c'' @ stream_path (str ''s'') a);
       serve = (\<lambda>u n. if u = url 0 then take n [e] else [])
   in \<exists>c'. snd (poll_run serve [1, 1] (url 0)) = url c' \<and> fst (poll_run serve [1, 1] (url 0)) @ newer_than c' [e] = [e]"
proof -
  let ?e = "\<lparr> te_sequence = 1, te_payload = JNull \<rparr>"
  let ?serve = "\<lambda>u n. if u = str ''https://c'' @ stream_path (str ''s'') 0 then take n [?e] else []"
  have h: "63 \<notin> set (str ''https://c'')" "63 \<notin> set (str ''s'')" "sorted_wrt (\<lambda>a b. te_sequence a < te_sequence b) [?e]"
    by (simp_all add: str_def)
  have n: "newer_than 0 [?e] = [?e]" by (simp add: newer_than_def)
  have serve: "?serve (str ''https://c'' @ stream_path (str ''s'') a) k = take k (newer_than a [?e])" for a k
    by (simp add: stream_path_def show_nat_zero newer_than_def)
  show ?thesis
    using polling_exactly_once [where base = "str ''https://c''" and sid = "str ''s''" and log = "[?e]" and serve = ?serve
        and ns = "[1, 1]" and c = 0, OF h serve]
    unfolding Let_def n .
qed

end
