(* ===== verification/Transport_Security.thy ===== *)
theory Transport_Security
  imports Transport
begin

text \<open>
  What protects the client's connections (\<^verbatim>\<open>rc-remote-transport\<close>): certificate pinning (\<^verbatim>\<open>tls.rs\<close>), the framing of
  end-to-end encrypted payloads (\<^verbatim>\<open>e2e.rs\<close>) and the manager of access tokens (\<^verbatim>\<open>token.rs\<close>). Hashing, the cipher
  and the key derivation are parameters. Bytes are 8-bit words.
\<close>

unbundle bit_operations_syntax

section \<open>Pinned certificates\<close>

type_synonym byte = "8 word"

definition constant_time_eq :: "byte list \<Rightarrow> byte list \<Rightarrow> bool" where
  "constant_time_eq a b \<longleftrightarrow>
     (if length a \<noteq> length b then False
      else fold (\<lambda>(x, y) result. result OR (x XOR y)) (zip a b) 0 = 0)"

text \<open>
  Decoding works on byte positions of the trimmed string: a slice that would cut a character in two panics.
  \<^verbatim>\<open>u8::from_str_radix\<close> takes a plus sign in front.
\<close>

datatype hex_outcome = HexOk "byte list" | HexErr | HexPanic

definition parse_hex_pair :: "rchar \<Rightarrow> rchar \<Rightarrow> byte option" where
  "parse_hex_pair c d =
     (case hex_value d of
        None \<Rightarrow> None
      | Some lo \<Rightarrow> if c = 43 then Some (of_nat lo) else map_option (\<lambda>hi. of_nat (16 * hi + lo)) (hex_value c))"

fun decode_pairs :: "rstring \<Rightarrow> hex_outcome" where
  "decode_pairs [] = HexOk []"
| "decode_pairs [c] = (if length (utf8_char c) = 2 then HexErr else if c < 128 then HexErr else HexPanic)"
| "decode_pairs (c # d # s) =
     (if length (utf8_char c) = 2 then HexErr
      else if 128 \<le> c \<or> 128 \<le> d then HexPanic
      else case parse_hex_pair c d of
        None \<Rightarrow> HexErr
      | Some b \<Rightarrow> (case decode_pairs s of HexOk bs \<Rightarrow> HexOk (b # bs) | out \<Rightarrow> out))"

definition decode_hex :: "rstring \<Rightarrow> hex_outcome" where
  "decode_hex raw =
     (let s = trim raw in if odd (length (utf8 s)) then HexErr else decode_pairs s)"

definition hex_encode :: "byte list \<Rightarrow> rstring" where
  "hex_encode bs = concat (map (\<lambda>b. hex_of_nat 2 (unat b)) bs)"

definition ascii_bytes :: "rstring \<Rightarrow> byte list" where
  "ascii_bytes s = map of_nat (utf8 s)"

datatype cert_outcome = CertOk | CertErr string | CertPanic

fun match_pins :: "byte list \<Rightarrow> rstring list \<Rightarrow> cert_outcome" where
  "match_pins digest [] = CertErr ''certificate fingerprint does not match any pinned value''"
| "match_pins digest (p # ps) =
     (case decode_hex p of
        HexPanic \<Rightarrow> CertPanic
      | HexOk pinned \<Rightarrow> if constant_time_eq digest pinned then CertOk else match_pins digest ps
      | HexErr \<Rightarrow> if constant_time_eq (ascii_bytes p) (ascii_bytes (hex_encode digest)) then CertOk
                 else match_pins digest ps)"

text \<open>The validity period is only looked at for a warning.\<close>

definition verify_server_cert :: "(byte list \<Rightarrow> byte list) \<Rightarrow> rstring list \<Rightarrow> byte list \<Rightarrow> cert_outcome" where
  "verify_server_cert sha256 fingerprints cert =
     (if fingerprints \<noteq> [] then match_pins (sha256 cert) fingerprints
      else CertErr ''self-signed TLS requires a pinned certificate fingerprint'')"

datatype tls_verifier = NativeRoots | Pinned "rstring list"

definition build_client_tls_config :: "unit anyhow \<Rightarrow> tls_config \<Rightarrow> tls_verifier anyhow" where
  "build_client_tls_config load_roots cfg =
     bind_result load_roots (\<lambda>_.
       if tls_accept_self_signed cfg
       then if tls_cert_fingerprints cfg = []
            then Inl ''self-signed TLS requires at least one pinned certificate fingerprint''
            else Inr (Pinned (tls_cert_fingerprints cfg))
       else Inr NativeRoots)"

lemma byte_or_eq_0: "(a OR b :: byte) = 0 \<longleftrightarrow> a = 0 \<and> b = 0"
  by (auto simp: bit_eq_iff bit_simps)

lemma byte_xor_eq_0: "(a XOR b :: byte) = 0 \<longleftrightarrow> a = b"
  by (auto simp: bit_eq_iff bit_simps)

lemma fold_or_zero: "fold (\<lambda>(x, y) r. r OR (x XOR y)) ps (r :: byte) = 0 \<longleftrightarrow> r = 0 \<and> (\<forall>(x, y) \<in> set ps. x = y)"
  by (induction ps arbitrary: r) (auto simp: byte_or_eq_0 byte_xor_eq_0)

lemma constant_time_eq_iff [simp]: "constant_time_eq a b \<longleftrightarrow> a = b"
proof -
  have "(\<forall>(x, y) \<in> set (zip a b). x = y) \<longleftrightarrow> a = b" if "length a = length b"
    using that by (induction a b rule: list_induct2) auto
  then show ?thesis by (auto simp: constant_time_eq_def fold_or_zero)
qed

subsection \<open>Hexadecimal digits there and back\<close>

lemma hex_digit_value: "n < 16 \<Longrightarrow> hex_value (hex_digit n) = Some n"
  by (auto simp: hex_value_def hex_digit_def)

lemma hex_of_nat_two: "hex_of_nat 2 n = [hex_digit (n div 16 mod 16), hex_digit (n mod 16)]"
  by (simp add: numeral_2_eq_2)

lemma hex_digit_plain: "n < 16 \<Longrightarrow> hex_digit n < 128 \<and> hex_digit n \<noteq> 43 \<and> \<not> is_whitespace (hex_digit n)"
  by (auto simp: hex_digit_def is_whitespace_def)

lemma parse_hex_pair_digits:
  assumes "h < 16" "l < 16" shows "parse_hex_pair (hex_digit h) (hex_digit l) = Some (of_nat (16 * h + l))"
  using assms hex_digit_plain [OF assms(1)] by (simp add: parse_hex_pair_def hex_digit_value)

lemma parse_hex_pair_byte: "parse_hex_pair (hex_digit (unat b div 16 mod 16)) (hex_digit (unat (b :: byte) mod 16)) = Some b"
proof -
  have "unat b < 256" using unsigned_less [of b, where 'a = nat] by simp
  then have "unat b div 16 < 16" by linarith
  then have "unat b div 16 mod 16 = unat b div 16" by (rule mod_less)
  then have eq: "16 * (unat b div 16 mod 16) + unat b mod 16 = unat b" by (simp only: mult_div_mod_eq)
  have "parse_hex_pair (hex_digit (unat b div 16 mod 16)) (hex_digit (unat b mod 16))
      = Some (of_nat (16 * (unat b div 16 mod 16) + unat b mod 16))"
    by (rule parse_hex_pair_digits) simp_all
  also have "\<dots> = Some b" unfolding eq by simp
  finally show ?thesis .
qed

lemma decode_pairs_encode: "decode_pairs (hex_encode bs) = HexOk bs"
proof (induction bs)
  case (Cons b bs)
  let ?h = "hex_digit (unat b div 16 mod 16)" and ?l = "hex_digit (unat b mod 16)"
  have "hex_encode (b # bs) = ?h # ?l # hex_encode bs" by (simp add: hex_encode_def hex_of_nat_two)
  moreover have "?h < 128" "?l < 128" using hex_digit_plain by simp_all
  ultimately show ?case using Cons.IH by (simp add: parse_hex_pair_byte utf8_char_def)
qed (simp add: hex_encode_def)

lemma hex_encode_chars: "c \<in> set (hex_encode bs) \<Longrightarrow> c < 128 \<and> \<not> is_whitespace c"
  using hex_digit_plain by (auto simp: hex_encode_def hex_of_nat_two)

lemma decode_hex_encode: "decode_hex (hex_encode bs) = HexOk bs"
proof -
  have "trim (hex_encode bs) = hex_encode bs" by (rule trim_id) (auto dest: hex_encode_chars)
  moreover have "utf8 (hex_encode bs) = hex_encode bs" by (rule utf8_ascii) (auto dest: hex_encode_chars)
  moreover have "even (length (hex_encode bs))"
    by (induction bs) (simp_all add: hex_encode_def)
  ultimately show ?thesis by (simp add: decode_hex_def decode_pairs_encode)
qed

text \<open>Comparing as text, the fallback for pins that are not hexadecimal, never succeeds.\<close>

definition ascii_pin :: "rstring \<Rightarrow> bool" where
  "ascii_pin p \<longleftrightarrow> list_all (\<lambda>c. c < 128) p"

lemma ascii_bytes_inj:
  assumes "ascii_pin p" "ascii_bytes p = ascii_bytes (hex_encode bs)" shows "p = hex_encode bs"
proof -
  have small: "\<forall>c \<in> set p. c < 128" "\<forall>c \<in> set (hex_encode bs). c < 128"
    using assms(1) hex_encode_chars by (auto simp: ascii_pin_def list_all_iff)
  have "inj_on (of_nat :: nat \<Rightarrow> byte) {c. c < 128}"
    by (rule inj_on_inverseI [where g = unat]) (simp add: unsigned_of_nat take_bit_nat_eq_self)
  moreover have "map of_nat p = (map of_nat (hex_encode bs) :: byte list)"
    using assms(2) small by (simp add: ascii_bytes_def utf8_ascii)
  ultimately show ?thesis
    using small by (auto elim!: map_inj_on intro: inj_on_subset)
qed

lemma decode_ascii_no_panic: "\<forall>c \<in> set s. c < 128 \<Longrightarrow> decode_pairs s \<noteq> HexPanic"
  by (induction s rule: decode_pairs.induct) (auto split: option.splits hex_outcome.splits)

lemma decode_hex_ascii: "ascii_pin p \<Longrightarrow> decode_hex p \<noteq> HexPanic"
  using decode_ascii_no_panic [of "trim p"] set_trim [of p]
  by (auto simp: decode_hex_def ascii_pin_def list_all_iff Let_def)

lemma match_pins_exact:
  assumes "list_all ascii_pin ps"
  shows "match_pins digest ps =
    (if list_ex (\<lambda>p. decode_hex p = HexOk digest) ps then CertOk
     else CertErr ''certificate fingerprint does not match any pinned value'')"
  using assms
proof (induction ps)
  case (Cons p ps)
  have "\<not> (decode_hex p = HexErr \<and> ascii_bytes p = ascii_bytes (hex_encode digest))"
    using Cons.prems ascii_bytes_inj [of p digest] decode_hex_encode [of digest] by auto
  with Cons decode_hex_ascii [of p] show ?case by (cases "decode_hex p") auto
qed simp

text \<open>
  C30. Pinning is exact. A self-signed connection can only be configured with at least one pin; then a
  certificate is accepted if and only if one of the pins decodes to its SHA-256 digest, and the digest printed
  in hexadecimal is such a pin. Without that option the pins are not looked at and the system's roots decide.
  The byte comparison that looks at every byte decides equality.
\<close>

theorem certificate_pinning_exact:
  assumes "list_all ascii_pin (tls_cert_fingerprints cfg)" "build_client_tls_config (Inr ()) cfg = Inr v"
  shows "(v = NativeRoots \<longleftrightarrow> \<not> tls_accept_self_signed cfg)
    \<and> (tls_accept_self_signed cfg \<longrightarrow> v = Pinned (tls_cert_fingerprints cfg) \<and> tls_cert_fingerprints cfg \<noteq> []
         \<and> (verify_server_cert sha256 (tls_cert_fingerprints cfg) cert = CertOk
            \<longleftrightarrow> list_ex (\<lambda>p. decode_hex p = HexOk (sha256 cert)) (tls_cert_fingerprints cfg)))
    \<and> decode_hex (hex_encode (sha256 cert)) = HexOk (sha256 cert)
    \<and> (constant_time_eq a b \<longleftrightarrow> a = b)"
  using assms
  by (auto simp: build_client_tls_config_def verify_server_cert_def match_pins_exact decode_hex_encode split: if_splits)

theorem certificate_pinning_exact_witness:
  "let cfg = \<lparr> tls_accept_self_signed = True, tls_cert_fingerprints = [str ''ff00''], tls_enforce_https = True \<rparr>
   in verify_server_cert (\<lambda>x. x) (tls_cert_fingerprints cfg) [255, 0] = CertOk
      \<and> verify_server_cert (\<lambda>x. x) (tls_cert_fingerprints cfg) [255, 1] \<noteq> CertOk"
proof -
  let ?cfg = "\<lparr> tls_accept_self_signed = True, tls_cert_fingerprints = [str ''ff00''], tls_enforce_https = True \<rparr>"
  have "decode_hex (str ''ff00'') = HexOk [255, 0]"
    using decode_hex_encode [of "[255, 0]"] by (simp add: hex_encode_def hex_of_nat_two hex_digit_def str_def)
  moreover have "list_all ascii_pin (tls_cert_fingerprints ?cfg)" by (simp add: ascii_pin_def str_def)
  ultimately show ?thesis
    using certificate_pinning_exact [of ?cfg "Pinned [str ''ff00'']" "\<lambda>x. x" "[255, 0]" "[]" "[]"]
      certificate_pinning_exact [of ?cfg "Pinned [str ''ff00'']" "\<lambda>x. x" "[255, 1]" "[]" "[]"]
    by (simp add: build_client_tls_config_def Let_def)
qed

text \<open>A pin that contains a character of three bytes makes the comparison panic.\<close>

lemma non_ascii_pin_panics: "match_pins digest [[8364, 97]] = CertPanic"
  by (simp add: decode_hex_def trim_def trim_start_by_def trim_end_by_def is_whitespace_def utf8_def utf8_char_def)

section \<open>Encrypted payloads\<close>

definition hkdf_info :: "byte list" where
  "hkdf_info = map of_nat (str ''remote-code-e2e-v1/aes-256-gcm'')"

definition session_info :: "rstring option \<Rightarrow> byte list" where
  "session_info sid =
     (case sid of
        Some s \<Rightarrow> hkdf_info @ map of_nat (str ''/session/'') @ map of_nat (utf8 s)
      | None \<Rightarrow> hkdf_info)"

text \<open>The key of a session: the shared secret expanded under the session's label.\<close>

definition session_key :: "(byte list \<Rightarrow> byte list \<Rightarrow> 'key) \<Rightarrow> byte list \<Rightarrow> rstring option \<Rightarrow> 'key" where
  "session_key hkdf shared sid = hkdf shared (session_info sid)"

definition e2e_encrypt :: "(byte list \<Rightarrow> byte list \<Rightarrow> byte list option) \<Rightarrow> byte list \<Rightarrow> byte list \<Rightarrow> byte list anyhow" where
  "e2e_encrypt seal nonce plaintext =
     (case seal nonce plaintext of None \<Rightarrow> Inl ''encryption failed: {}'' | Some ct \<Rightarrow> Inr (nonce @ ct))"

definition e2e_decrypt :: "(byte list \<Rightarrow> byte list \<Rightarrow> byte list option) \<Rightarrow> byte list \<Rightarrow> byte list anyhow" where
  "e2e_decrypt unseal payload =
     (if length payload < 12 then Inl ''payload too short for nonce''
      else case unseal (take 12 payload) (drop 12 payload) of
             None \<Rightarrow> Inl ''decryption failed: {}'' | Some pt \<Rightarrow> Inr pt)"

text \<open>Different sessions are labelled differently, and no session's label is the one without a session.\<close>

lemma of_nat_byte_inj:
  assumes "\<forall>x \<in> set xs. x < 256" "\<forall>x \<in> set ys. x < 256" "map (of_nat :: nat \<Rightarrow> byte) xs = map of_nat ys"
  shows "xs = ys"
proof -
  have "inj_on (of_nat :: nat \<Rightarrow> byte) {c. c < 256}"
    by (rule inj_on_inverseI [where g = unat]) (simp add: unsigned_of_nat take_bit_nat_eq_self)
  then show ?thesis using assms by (auto elim!: map_inj_on intro: inj_on_subset)
qed

lemma session_info_distinct:
  assumes "session_info (Some s) = session_info (Some t)" "list_all scalar s" "list_all scalar t"
  shows "utf8 s = utf8 t" and "session_info (Some s) \<noteq> session_info None"
proof -
  show "utf8 s = utf8 t"
    by (rule of_nat_byte_inj) (use assms utf8_scalar_bytes in \<open>auto simp: session_info_def\<close>)
  show "session_info (Some s) \<noteq> session_info None" by (simp add: session_info_def str_def)
qed

text \<open>
  Framing of encrypted payloads. For a cipher that opens what it has sealed under the same nonce, and a
  nonce of twelve bytes, decrypting what was encrypted gives the plaintext back, and whatever else is decrypted
  is opened under the nonce in its first twelve bytes; a payload shorter than a nonce is refused.
\<close>

theorem e2e_roundtrip:
  assumes "\<And>n pt ct. seal n pt = Some ct \<Longrightarrow> unseal n ct = Some pt"
    and "length nonce = 12" "e2e_encrypt seal nonce plaintext = Inr payload"
  shows "e2e_decrypt unseal payload = Inr plaintext \<and> take 12 payload = nonce
    \<and> (length short < 12 \<longrightarrow> e2e_decrypt unseal short = Inl ''payload too short for nonce'')"
proof -
  obtain ct where ct: "seal nonce plaintext = Some ct" "payload = nonce @ ct"
    using assms(3) by (auto simp: e2e_encrypt_def split: option.splits)
  have "e2e_decrypt unseal payload = Inr plaintext"
    using ct assms(1) [OF ct(1)] assms(2) by (simp add: e2e_decrypt_def)
  then show ?thesis using ct(2) assms(2) by (simp add: e2e_decrypt_def)
qed

theorem e2e_roundtrip_witness:
  "e2e_decrypt (\<lambda>n ct. Some (rev ct)) (replicate 12 0 @ [3, 2, 1]) = Inr [1, 2, 3]"
  using e2e_roundtrip [of "\<lambda>n pt. Some (rev pt)" "\<lambda>n ct. Some (rev ct)" "replicate 12 0" "[1, 2, 3]"
      "replicate 12 0 @ [3, 2, 1]" "[]"]
  by (simp add: e2e_encrypt_def)

section \<open>Access tokens\<close>

record token_pair =
  tp_access_token :: rstring
  tp_refresh_token :: "rstring option"
  tp_expires_at :: instant

datatype token_state = TokenNone | TokenValid token_pair | TokenExpired

record token_manager =
  mg_state :: token_state
  mg_control_plane_url :: "rstring option"

definition token_manager_new :: token_manager where
  "token_manager_new = \<lparr> mg_state = TokenNone, mg_control_plane_url = None \<rparr>"

definition set_token :: "token_pair \<Rightarrow> token_manager \<Rightarrow> token_manager" where
  "set_token p m = m\<lparr>mg_state := TokenValid p\<rparr>"

definition mark_expired :: "token_manager \<Rightarrow> token_manager" where
  "mark_expired m = m\<lparr>mg_state := TokenExpired\<rparr>"

definition clear_token :: "token_manager \<Rightarrow> token_manager" where
  "clear_token m = m\<lparr>mg_state := TokenNone\<rparr>"

definition refresh_due :: "instant \<Rightarrow> token_pair \<Rightarrow> bool" where
  "refresh_due now p \<longleftrightarrow> tp_expires_at p - seconds 120 \<le> now"

text \<open>
  Asking for a token takes the state, and if a refresh is due goes on with the refresh token it saw there; it
  waits for its turn, looks at the state once more, and then calls the control plane without holding the state.
\<close>

datatype token_request = TokenAnswer "rstring option" | TokenRefresh "rstring option" "rstring option"

definition request_token :: "instant \<Rightarrow> token_manager \<Rightarrow> token_request" where
  "request_token now m =
     (case mg_state m of
        TokenValid p \<Rightarrow>
          if refresh_due now p then TokenRefresh (tp_refresh_token p) (mg_control_plane_url m)
          else TokenAnswer (Some (tp_access_token p))
      | _ \<Rightarrow> TokenAnswer None)"

definition recheck_token :: "instant \<Rightarrow> token_manager \<Rightarrow> rstring option" where
  "recheck_token now m =
     (case mg_state m of
        TokenValid p \<Rightarrow> if refresh_due now p then None else Some (tp_access_token p)
      | _ \<Rightarrow> None)"

datatype refresh_outcome =
    RefreshOk rstring "rstring option" "instant option"
  | RefreshUndecodable
  | RefreshRejected
  | RefreshNetworkError

definition store_refresh :: "refresh_outcome \<Rightarrow> token_manager \<Rightarrow> rstring option \<times> token_manager" where
  "store_refresh out m =
     (case out of
        RefreshOk access refresh expires \<Rightarrow>
          (Some access,
           case mg_state m of
             TokenValid p \<Rightarrow>
               m\<lparr>mg_state := TokenValid (p\<lparr>tp_access_token := access,
                  tp_refresh_token := (case refresh of None \<Rightarrow> tp_refresh_token p | Some r \<Rightarrow> Some r),
                  tp_expires_at := unwrap_or (tp_expires_at p) expires\<rparr>)\<rparr>
           | _ \<Rightarrow> m)
      | RefreshNetworkError \<Rightarrow> (None, m)
      | _ \<Rightarrow> (None, mark_expired m))"

text \<open>A whole request when nothing comes in between; the call is a function of the refresh token.\<close>

definition access_token ::
  "instant \<Rightarrow> instant \<Rightarrow> (rstring \<Rightarrow> refresh_outcome) \<Rightarrow> token_manager \<Rightarrow> rstring option \<times> token_manager" where
  "access_token now now2 call m =
     (case request_token now m of
        TokenAnswer t \<Rightarrow> (t, m)
      | TokenRefresh captured url \<Rightarrow>
          (case recheck_token now2 m of
             Some t \<Rightarrow> (Some t, m)
           | None \<Rightarrow>
               (case (captured, url) of
                  (Some r, Some _) \<Rightarrow> store_refresh (call r) m
                | _ \<Rightarrow> (None, m))))"

text \<open>
  An answer without an expiry leaves the old expiry in place, so a refresh stays due: every later request
  calls the control plane again.
\<close>

lemma refresh_without_expiry_stays_due:
  assumes "mg_state m = TokenValid p" "refresh_due now p" "now \<le> now'"
    and "store_refresh (RefreshOk a r None) m = (t, m')"
  shows "\<exists>p'. mg_state m' = TokenValid p' \<and> refresh_due now' p' \<and> tp_expires_at p' = tp_expires_at p"
  using assms by (auto simp: store_refresh_def refresh_due_def)

text \<open>With an expiry in the answer, the next request is served from memory.\<close>

lemma refresh_with_expiry_settles:
  assumes "mg_state m = TokenValid p" "store_refresh (RefreshOk a r (Some e)) m = (t, m')" "now < e - seconds 120"
  shows "access_token now now2 call m' = (Some a, m')"
  using assms by (auto simp: store_refresh_def refresh_due_def access_token_def request_token_def)

end
