(* ===== verification/Agent_Protocol.thy ===== *)
theory Agent_Protocol
  imports Api_Types Json_Value Transport_Security
begin

text \<open>
  The agent protocol (\<^verbatim>\<open>rc-agent-protocol\<close>): the events all agents are translated to, their translation from
  engine events and into the timeline's runtime events, the router that keeps an adapter per session, health
  tracking and the restart budget. Floating-point numbers are their bit patterns and the operations on them
  parameters, as are the JSON printer, the digest and the adapters behind the \<^verbatim>\<open>AgentAdapter\<close> trait.
\<close>

section \<open>Events\<close>

datatype agent_type = RemoteClaude | RemoteRoo | RemoteCodex

datatype agent_status = AgStarting | AgReady | AgBusy | AgIdle | AgStopped | AgError

datatype agent_capability = CapStreaming | CapToolUse | CapMcpSupport | CapSubtasks | CapPermissions

record agent_info =
  ai_name :: rstring
  ai_version :: rstring
  ai_capabilities :: "agent_capability set"
  ai_status :: agent_status

datatype permission_decision = PermAllow | PermDeny | PermAllowAll

record tool_call_info =
  ti_id :: rstring
  ti_name :: rstring
  ti_input :: json
  ti_output :: json

record usage_info =
  ui_input_tokens :: u64
  ui_output_tokens :: u64
  ui_cache_read :: u64
  ui_cache_write :: u64

record agent_result =
  ag_response_text :: rstring
  ag_tool_calls :: "tool_call_info list"
  ag_usage :: usage_info
  ag_cost :: "u64 option"

datatype unified_agent_event =
    UaStarted agent_info
  | UaReady
  | UaMessageDelta rstring rstring
  | UaToolCallStarted rstring rstring json
  | UaToolCallProgress rstring rstring rstring
  | UaCodexAppServerNotification rstring rstring json
  | UaToolCallCompleted rstring rstring json
  | UaPermissionRequest rstring rstring rstring json
  | UaSubtaskStarted rstring rstring rstring
  | UaSubtaskProgress rstring rstring rstring
  | UaSubtaskCompleted rstring rstring json
  | UaContextUsage rstring u64 u64
  | UaContextOverflow rstring u64 u64
  | UaContextCompacted rstring u64 u64
  | UaError rstring rstring bool
  | UaCompleted rstring agent_result
  | UaStopped

text \<open>A panic's payload is a string literal, a string or anything else.\<close>

datatype panic_payload = PanicStr rstring | PanicString rstring | PanicOther

fun extract_panic_message :: "panic_payload \<Rightarrow> rstring" where
  "extract_panic_message (PanicStr s) = s"
| "extract_panic_message (PanicString s) = s"
| "extract_panic_message PanicOther = str ''unknown panic''"

definition panic_to_error_event :: "rstring \<Rightarrow> rstring \<Rightarrow> panic_payload \<Rightarrow> unified_agent_event" where
  "panic_to_error_event sid label p = UaError sid (label @ str '': '' @ extract_panic_message p) False"

definition standard_capabilities :: "agent_capability list \<Rightarrow> agent_capability set" where
  "standard_capabilities extra = fold insert extra {CapStreaming, CapToolUse, CapPermissions}"

section \<open>The bridge to the timeline\<close>

record bridge_env =
  be_ratio :: "u64 \<Rightarrow> u64 \<Rightarrow> u64"
  be_four_fifths :: "u64 \<Rightarrow> u64"
  be_zero :: u64
  be_one :: u64
  be_print :: "json \<Rightarrow> rstring"
  be_sha256 :: "nat list \<Rightarrow> byte list"

definition non_empty_arc :: "rstring \<Rightarrow> rstring option" where
  "non_empty_arc v = (if trim v = [] then None else Some (trim v))"

definition parse_progress_tool_call_id :: "rstring \<Rightarrow> rstring option \<times> rstring" where
  "parse_progress_tool_call_id progress =
     (case progress of
        [] \<Rightarrow> (None, progress)
      | c # rest \<Rightarrow>
          if c \<noteq> 91 \<or> 93 \<notin> set rest then (None, progress)
          else let tid = trim (takeWhile (\<lambda>x. x \<noteq> 93) rest)
               in if tid = [] then (None, progress)
                  else (Some tid, trim_start_by is_whitespace (tl (dropWhile (\<lambda>x. x \<noteq> 93) rest))))"

definition result_is_error :: "json \<Rightarrow> bool" where
  "result_is_error result =
     (case get_bool result ''is_error'' of
        Some b \<Rightarrow> b
      | None \<Rightarrow> is_some_and (\<lambda>success. \<not> success) (get_bool result ''success''))"

fun find_map :: "('a \<Rightarrow> 'b option) \<Rightarrow> 'a list \<Rightarrow> 'b option" where
  "find_map f [] = None"
| "find_map f (x # xs) = (case f x of Some y \<Rightarrow> Some y | None \<Rightarrow> find_map f xs)"

definition id_keys :: "string list" where
  "id_keys = [''tool_call_id'', ''tool_use_id'', ''tool_id'', ''item_id'', ''id'']"

definition own_tool_call_id :: "json \<Rightarrow> rstring option" where
  "own_tool_call_id v = find_map (\<lambda>k. Option.bind (get_str v k) non_empty_arc) id_keys"

text \<open>The search goes down at most \<open>max_depth\<close> levels; members come in the order of their keys.\<close>

function extract_tool_call_id_recursive :: "json \<Rightarrow> nat \<Rightarrow> nat \<Rightarrow> rstring option" where
  "extract_tool_call_id_recursive v depth max_depth =
     (if max_depth < depth then None
      else case v of
        JObj ms \<Rightarrow>
          (case own_tool_call_id v of
             Some tid \<Rightarrow> Some tid
           | None \<Rightarrow> find_map (\<lambda>w. extract_tool_call_id_recursive w (Suc depth) max_depth) (map snd ms))
      | JArr vs \<Rightarrow> find_map (\<lambda>w. extract_tool_call_id_recursive w (Suc depth) max_depth) vs
      | _ \<Rightarrow> None)"
  by pat_completeness auto
termination by (relation "measure (\<lambda>(v, depth, max_depth). Suc max_depth - depth)") auto

declare extract_tool_call_id_recursive.simps [simp del]

definition extract_tool_call_id :: "json \<Rightarrow> rstring option" where
  "extract_tool_call_id v = extract_tool_call_id_recursive v 0 16"

definition stable_tool_call_id :: "bridge_env \<Rightarrow> rstring \<Rightarrow> rstring \<Rightarrow> json \<Rightarrow> rstring" where
  "stable_tool_call_id env sid tool payload =
     (let digest = be_sha256 env (utf8 sid @ [0] @ utf8 tool @ [0] @ utf8 (be_print env payload));
          label = (if trim tool = [] then str ''tool'' else trim tool)
      in label @ str ''-'' @ hex_encode (take 8 digest))"

definition derive_tool_call_id :: "bridge_env \<Rightarrow> rstring \<Rightarrow> rstring \<Rightarrow> json \<Rightarrow> rstring" where
  "derive_tool_call_id env sid tool payload =
     unwrap_or (stable_tool_call_id env sid tool payload) (extract_tool_call_id payload)"

text \<open>
  \<^verbatim>\<open>&s[..n]\<close>: the characters of the first \<open>n\<close> bytes. Cutting through a character panics.
\<close>

fun byte_prefix :: "nat \<Rightarrow> rstring \<Rightarrow> rstring option" where
  "byte_prefix n [] = (if n = 0 then Some [] else None)"
| "byte_prefix n (c # s) =
     (if n = 0 then Some []
      else if length (utf8_char c) \<le> n then map_option (Cons c) (byte_prefix (n - length (utf8_char c)) s)
      else None)"

datatype bridge_outcome = BridgeDetail runtime_event_detail | BridgeNone | BridgePanic

fun unified_event_to_runtime_detail :: "bridge_env \<Rightarrow> unified_agent_event \<Rightarrow> bridge_outcome" where
  "unified_event_to_runtime_detail env (UaMessageDelta sid delta) =
     BridgeDetail (RtMessageDelta RoleAssistant delta None)"
| "unified_event_to_runtime_detail env (UaToolCallStarted sid tool tool_input) =
     BridgeDetail (RtToolStarted (derive_tool_call_id env sid tool tool_input) tool)"
| "unified_event_to_runtime_detail env (UaToolCallProgress sid tool progress) =
     (case parse_progress_tool_call_id progress of (tid, delta) \<Rightarrow>
        BridgeDetail (RtToolProgress (case tid of Some t \<Rightarrow> Some t | None \<Rightarrow> non_empty_arc tool)
          (non_empty_arc tool) (Some delta) None))"
| "unified_event_to_runtime_detail env (UaToolCallCompleted sid tool result) =
     BridgeDetail (RtToolFinished (derive_tool_call_id env sid tool result) tool (result_is_error result)
       (Some (be_print env result)))"
| "unified_event_to_runtime_detail env (UaPermissionRequest sid rid tool inp) =
     BridgeDetail (RtToolStarted (str ''approval-'' @ tool) (str ''approval:'' @ tool))"
| "unified_event_to_runtime_detail env (UaSubtaskStarted sid tid descr) =
     BridgeDetail (RtSubtaskStarted tid None descr 0)"
| "unified_event_to_runtime_detail env (UaSubtaskProgress sid tid progress) =
     BridgeDetail (RtSubtaskProgress tid (str ''running'') progress)"
| "unified_event_to_runtime_detail env (UaSubtaskCompleted sid tid result) =
     BridgeDetail (RtSubtaskCompleted tid (str ''completed'') (be_print env result) None)"
| "unified_event_to_runtime_detail env (UaContextUsage sid used whole) =
     BridgeDetail (RtContextUsage used whole (be_four_fifths env whole)
       (if 0 < whole then be_ratio env used whole else be_zero env))"
| "unified_event_to_runtime_detail env (UaContextOverflow sid used whole) =
     BridgeDetail (RtContextOverflow used whole (be_four_fifths env whole)
       (if 0 < whole then be_ratio env used whole else be_one env))"
| "unified_event_to_runtime_detail env (UaContextCompacted sid removed ratio) =
     BridgeDetail (RtContextCompacted (ucast removed) ratio)"
| "unified_event_to_runtime_detail env (UaError sid message recoverable) = BridgeDetail (RtRuntimeError message)"
| "unified_event_to_runtime_detail env (UaCompleted sid result) =
     (let txt = ag_response_text result
      in if txt = [] then BridgeDetail (RtRuntimeError (str ''session completed''))
         else case byte_prefix (min (length (utf8 txt)) 200) txt of
           None \<Rightarrow> BridgePanic
         | Some p \<Rightarrow> BridgeDetail (RtRuntimeError p))"
| "unified_event_to_runtime_detail env (UaStarted info) = BridgeNone"
| "unified_event_to_runtime_detail env UaReady = BridgeNone"
| "unified_event_to_runtime_detail env UaStopped = BridgeNone"
| "unified_event_to_runtime_detail env (UaCodexAppServerNotification sid meth params) = BridgeNone"

text \<open>
  \<^verbatim>\<open>RunnerApi::process_agent_event\<close>: whether the event has a timeline form, and the line broadcast for it. The
  serializer may fail; a panic of the bridge is a panic here.
\<close>

datatype agent_event_outcome = AgentEventDone bool "rstring option" | AgentEventPanic

definition process_agent_event ::
  "bridge_env \<Rightarrow> (runtime_event_detail \<Rightarrow> rstring option) \<Rightarrow> unified_agent_event \<Rightarrow> agent_event_outcome" where
  "process_agent_event env ser e =
     (case unified_event_to_runtime_detail env e of
        BridgePanic \<Rightarrow> AgentEventPanic
      | BridgeNone \<Rightarrow> AgentEventDone False None
      | BridgeDetail d \<Rightarrow> AgentEventDone True (ser d))"

section \<open>Engine events\<close>

datatype content_block_delta =
  InputJsonDelta rstring | TextDelta rstring | SignatureDelta rstring | ThinkingDelta rstring

datatype content_block_type = BlockToolUse | BlockServerToolUse | BlockText | BlockThinking

record engine_usage =
  us_input_tokens :: u64
  us_output_tokens :: u64
  us_cache_creation_input_tokens :: u64
  us_cache_read_input_tokens :: u64
  us_total_tokens :: u64
  us_web_search_requests :: u64
  us_web_fetch_requests :: u64
  us_cache_creation_ephemeral_5m_input_tokens :: u64
  us_cache_creation_ephemeral_1h_input_tokens :: u64

record tool_progress =
  pg_message :: "rstring option"
  pg_delta :: "rstring option"
  pg_percent :: "8 word option"
  pg_elapsed_time_seconds :: "u64 option"

record tool_result =
  tt_content :: rstring
  tt_is_error :: bool
  tt_mime_type :: "rstring option"

record compaction_result =
  cr_strategy :: rstring
  cr_before_messages :: u64
  cr_after_messages :: u64
  cr_summary :: "rstring option"

record engine_state_snapshot =
  es_turn :: u32
  es_message_count :: u64
  es_tool_call_count :: u64
  es_usage :: engine_usage

datatype engine_event =
    EnQueryStarted uuid
  | EnQueryCompleted uuid u64
  | EnQueryAborted uuid
  | EnStreamStarted rstring
  | EnStreamMessageStart rstring engine_usage
  | EnStreamContentBlockStart u64 content_block_type
  | EnStreamContentBlockDelta u64 content_block_delta
  | EnStreamContentBlockStop u64
  | EnStreamMessageDelta "rstring option" engine_usage
  | EnStreamMessageStop
  | EnStreamError rstring
  | EnToolUseStarted rstring rstring json
  | EnToolUseProgress rstring tool_progress
  | EnToolUseCompleted rstring tool_result
  | EnToolUseError rstring rstring bool
  | EnToolUseRejected rstring rstring
  | EnCompactStarted rstring
  | EnCompactProgress rstring
  | EnCompactCompleted compaction_result
  | EnAgentStarted rstring rstring
  | EnAgentCompleted rstring
  | EnAgentFailed rstring rstring
  | EnStateUpdated engine_state_snapshot
  | EnCostUpdated u64
  | EnUsageUpdated engine_usage

text \<open>An absent member goes to its place in the order of the keys.\<close>

definition member_insert :: "rstring \<Rightarrow> json \<Rightarrow> (rstring \<times> json) list \<Rightarrow> (rstring \<times> json) list" where
  "member_insert k v ms = takeWhile (\<lambda>m. fst m < k) ms @ (k, v) # dropWhile (\<lambda>m. fst m < k) ms"

fun insert_tool_call_id :: "json \<Rightarrow> rstring \<Rightarrow> json" where
  "insert_tool_call_id (JObj ms) tid =
     (if map_of ms (str ''tool_call_id'') = None then JObj (member_insert (str ''tool_call_id'') (JStr tid) ms)
      else JObj ms)"
| "insert_tool_call_id v tid = jobj [(''input'', v), (''tool_call_id'', JStr tid)]"

definition empty_result :: agent_result where
  "empty_result = \<lparr> ag_response_text = [], ag_tool_calls = [],
     ag_usage = \<lparr> ui_input_tokens = 0, ui_output_tokens = 0, ui_cache_read = 0, ui_cache_write = 0 \<rparr>, ag_cost = None \<rparr>"

definition saturating_sub_u64 :: "u64 \<Rightarrow> u64 \<Rightarrow> u64" where
  "saturating_sub_u64 a b = (if a < b then 0 else a - b)"

definition engine_event_to_unified :: "u64 \<Rightarrow> engine_event \<Rightarrow> rstring \<Rightarrow> unified_agent_event option" where
  "engine_event_to_unified fzero event sid =
     (case event of
        EnStreamContentBlockDelta i (TextDelta txt) \<Rightarrow> Some (UaMessageDelta sid txt)
      | EnToolUseStarted tid tool inp \<Rightarrow> Some (UaToolCallStarted sid tool (insert_tool_call_id inp tid))
      | EnToolUseProgress tid progress \<Rightarrow>
          Some (UaToolCallProgress sid [] (str ''['' @ tid @ str ''] '' @ unwrap_or [] (pg_message progress)))
      | EnToolUseCompleted tid result \<Rightarrow>
          Some (UaToolCallCompleted sid []
            (jobj [(''content'', JStr (tt_content result)), (''is_error'', JBool (tt_is_error result)),
                   (''tool_call_id'', JStr tid)]))
      | EnToolUseError tid message retryable \<Rightarrow>
          Some (UaError sid (str ''Tool '' @ tid @ str '' failed: '' @ message) retryable)
      | EnToolUseRejected tid reason \<Rightarrow>
          Some (UaError sid (str ''Tool '' @ tid @ str '' rejected by permission policy'') False)
      | EnCompactCompleted result \<Rightarrow>
          Some (UaContextCompacted sid (saturating_sub_u64 (cr_before_messages result) (cr_after_messages result)) fzero)
      | EnStreamMessageStop \<Rightarrow> Some (UaCompleted sid empty_result)
      | EnStreamError e \<Rightarrow> Some (UaError sid e True)
      | _ \<Rightarrow> None)"

section \<open>The router\<close>

text \<open>
  An adapter is a state with the operations of the trait. The router also records, for the statements below,
  the adapters it has told to stop.
\<close>

record 's agent_adapter =
  ad_send_message :: "rstring \<Rightarrow> rstring \<Rightarrow> 's \<Rightarrow> unit anyhow \<times> 's"
  ad_cancel :: "rstring \<Rightarrow> 's \<Rightarrow> unit anyhow \<times> 's"
  ad_resolve_permission :: "rstring \<Rightarrow> rstring \<Rightarrow> permission_decision \<Rightarrow> 's \<Rightarrow> unit anyhow \<times> 's"
  ad_stop :: "'s \<Rightarrow> unit anyhow"
  ad_is_alive :: "'s \<Rightarrow> bool"
  ad_agent_type :: "'s \<Rightarrow> agent_type"

record 's agent_router =
  ro_adapters :: "(rstring, 's) btree"
  ro_stopped :: "(rstring \<times> 's) list"

definition router_new :: "'s agent_router" where
  "router_new = \<lparr> ro_adapters = bm_empty, ro_stopped = [] \<rparr>"

definition router_register :: "rstring \<Rightarrow> 's \<Rightarrow> 's agent_router \<Rightarrow> 's agent_router" where
  "router_register sid a ro =
     ro\<lparr>ro_adapters := bm_insert sid a (bm_remove sid (ro_adapters ro)),
        ro_stopped := ro_stopped ro @ (case bm_get (ro_adapters ro) sid of None \<Rightarrow> [] | Some old \<Rightarrow> [(sid, old)])\<rparr>"

definition with_adapter ::
  "rstring \<Rightarrow> ('s \<Rightarrow> unit anyhow \<times> 's) \<Rightarrow> 's agent_router \<Rightarrow> unit anyhow \<times> 's agent_router" where
  "with_adapter sid f ro =
     (case bm_get (ro_adapters ro) sid of
        None \<Rightarrow> (Inl ''protocol error: no adapter found for session {session_id}'', ro)
      | Some a \<Rightarrow> (case f a of (r, a') \<Rightarrow> (r, ro\<lparr>ro_adapters := bm_insert sid a' (ro_adapters ro)\<rparr>)))"

definition router_send_message ::
  "'s agent_adapter \<Rightarrow> rstring \<Rightarrow> rstring \<Rightarrow> 's agent_router \<Rightarrow> unit anyhow \<times> 's agent_router" where
  "router_send_message ops sid msg ro = with_adapter sid (ad_send_message ops sid msg) ro"

definition router_cancel :: "'s agent_adapter \<Rightarrow> rstring \<Rightarrow> 's agent_router \<Rightarrow> unit anyhow \<times> 's agent_router" where
  "router_cancel ops sid ro = with_adapter sid (ad_cancel ops sid) ro"

definition router_resolve_permission ::
  "'s agent_adapter \<Rightarrow> rstring \<Rightarrow> rstring \<Rightarrow> permission_decision \<Rightarrow> 's agent_router \<Rightarrow> unit anyhow \<times> 's agent_router" where
  "router_resolve_permission ops sid rid d ro = with_adapter sid (ad_resolve_permission ops sid rid d) ro"

text \<open>The adapter is gone from the router even if it fails to stop.\<close>

definition router_close_session :: "'s agent_adapter \<Rightarrow> rstring \<Rightarrow> 's agent_router \<Rightarrow> unit anyhow \<times> 's agent_router" where
  "router_close_session ops sid ro =
     (case bm_get (ro_adapters ro) sid of
        None \<Rightarrow> (Inr (), ro)
      | Some a \<Rightarrow> (ad_stop ops a, ro\<lparr>ro_adapters := bm_remove sid (ro_adapters ro),
                                   ro_stopped := ro_stopped ro @ [(sid, a)]\<rparr>))"

definition has_session :: "'s agent_router \<Rightarrow> rstring \<Rightarrow> bool" where
  "has_session ro sid \<longleftrightarrow> bm_contains (ro_adapters ro) sid"

definition is_adapter_alive :: "'s agent_adapter \<Rightarrow> 's agent_router \<Rightarrow> rstring \<Rightarrow> bool" where
  "is_adapter_alive ops ro sid \<longleftrightarrow> is_some_and (ad_is_alive ops) (bm_get (ro_adapters ro) sid)"

definition session_ids_by_type :: "'s agent_adapter \<Rightarrow> 's agent_router \<Rightarrow> agent_type \<Rightarrow> rstring list" where
  "session_ids_by_type ops ro t = sort (map fst (filter (\<lambda>e. ad_agent_type ops (snd e) = t) (entries (ro_adapters ro))))"

section \<open>Health\<close>

record health_check_config =
  hk_interval :: nat
  hk_timeout :: nat
  hk_max_failures :: u32

definition health_check_config_default :: health_check_config where
  "health_check_config_default = \<lparr> hk_interval = 30000000000, hk_timeout = 10000000000, hk_max_failures = 3 \<rparr>"

datatype agent_health = Healthy | Degraded u32 | UnhealthySince instant

record health_checker =
  hx_config :: health_check_config
  hx_status :: agent_health
  hx_consecutive_failures :: u32
  hx_last_check :: "instant option"

definition health_checker_new :: "health_check_config \<Rightarrow> health_checker" where
  "health_checker_new c = \<lparr> hx_config = c, hx_status = Healthy, hx_consecutive_failures = 0, hx_last_check = None \<rparr>"

text \<open>The counter wraps in a release build; a debug build would panic instead.\<close>

definition health_check :: "instant \<Rightarrow> bool \<Rightarrow> health_checker \<Rightarrow> health_checker" where
  "health_check now alive h0 =
     (let h = h0\<lparr>hx_last_check := Some now\<rparr>
      in if alive then h\<lparr>hx_consecutive_failures := 0, hx_status := Healthy\<rparr>
         else let n = hx_consecutive_failures h + 1
              in h\<lparr>hx_consecutive_failures := n,
                   hx_status := (if hk_max_failures (hx_config h) \<le> n
                     then UnhealthySince (case hx_status h of UnhealthySince t \<Rightarrow> t | _ \<Rightarrow> now)
                     else Degraded n)\<rparr>)"

definition health_reset :: "health_checker \<Rightarrow> health_checker" where
  "health_reset h = h\<lparr>hx_consecutive_failures := 0, hx_status := Healthy, hx_last_check := None\<rparr>"

section \<open>Restarts\<close>

text \<open>
  Durations in nanoseconds. \<open>next_backoff\<close> stands for the floating-point computation of the following delay
  from the multiplier, the current delay and the cap, \<open>invalid\<close> for the test of the multiplier (not a number,
  or below one), \<open>two\<close> for the default multiplier.
\<close>

record restart_policy =
  rp_max_restarts :: u32
  rp_initial_backoff :: nat
  rp_max_backoff :: nat
  rp_backoff_multiplier :: u64

record restart_tracker =
  rt_policy :: restart_policy
  rt_restart_count :: u32
  rt_next_backoff :: nat

definition restart_tracker_new :: "(u64 \<Rightarrow> bool) \<Rightarrow> u64 \<Rightarrow> restart_policy \<Rightarrow> restart_tracker" where
  "restart_tracker_new invalid two p =
     (let p' = (if invalid (rp_backoff_multiplier p) then p\<lparr>rp_backoff_multiplier := two\<rparr> else p)
      in \<lparr> rt_policy = p', rt_restart_count = 0, rt_next_backoff = rp_initial_backoff p' \<rparr>)"

definition request_restart :: "(u64 \<Rightarrow> nat \<Rightarrow> nat \<Rightarrow> nat) \<Rightarrow> restart_tracker \<Rightarrow> nat option \<times> restart_tracker" where
  "request_restart next_backoff t =
     (if rp_max_restarts (rt_policy t) \<le> rt_restart_count t then (None, t)
      else (Some (rt_next_backoff t),
            t\<lparr>rt_restart_count := rt_restart_count t + 1,
              rt_next_backoff := next_backoff (rp_backoff_multiplier (rt_policy t)) (rt_next_backoff t)
                                   (rp_max_backoff (rt_policy t))\<rparr>))"

definition restart_reset :: "restart_tracker \<Rightarrow> restart_tracker" where
  "restart_reset t = t\<lparr>rt_restart_count := 0, rt_next_backoff := rp_initial_backoff (rt_policy t)\<rparr>"

definition can_restart :: "restart_tracker \<Rightarrow> bool" where
  "can_restart t \<longleftrightarrow> rt_restart_count t < rp_max_restarts (rt_policy t)"

section \<open>Where the bridge stops\<close>

text \<open>Cutting is possible exactly at the end of a character.\<close>

lemma utf8_char_pos: "0 < length (utf8_char c)" "length (utf8_char c) \<noteq> 0"
  by (simp_all add: utf8_char_def)

lemma byte_prefix_iff:
  "byte_prefix n s = Some p \<longleftrightarrow> (\<exists>k \<le> length s. p = take k s \<and> n = length (utf8 (take k s)))"
proof (induction n s arbitrary: p rule: byte_prefix.induct)
  case (1 n)
  then show ?case by (auto simp: utf8_def)
next
  case (2 n c s)
  show ?case
  proof
    assume L: "byte_prefix n (c # s) = Some p"
    show "\<exists>k \<le> length (c # s). p = take k (c # s) \<and> n = length (utf8 (take k (c # s)))"
    proof (cases "n = 0")
      case True
      with L show ?thesis by (intro exI [of _ 0]) (simp add: utf8_def)
    next
      case False
      with L obtain q where q: "length (utf8_char c) \<le> n" "byte_prefix (n - length (utf8_char c)) s = Some q" "p = c # q"
        by (auto split: if_splits)
      with 2 False obtain k where "k \<le> length s" "q = take k s" "n - length (utf8_char c) = length (utf8 (take k s))"
        by auto
      with q show ?thesis by (intro exI [of _ "Suc k"]) (simp add: utf8_def)
    qed
  next
    assume "\<exists>k \<le> length (c # s). p = take k (c # s) \<and> n = length (utf8 (take k (c # s)))"
    then obtain k where k: "k \<le> length (c # s)" "p = take k (c # s)" "n = length (utf8 (take k (c # s)))" by blast
    show "byte_prefix n (c # s) = Some p"
    proof (cases k)
      case 0
      with k show ?thesis by (simp add: utf8_def)
    next
      case (Suc j)
      with k have n: "n = length (utf8_char c) + length (utf8 (take j s))" "p = c # take j s" "j \<le> length s"
        by (simp_all add: utf8_def)
      then have "n \<noteq> 0" "length (utf8_char c) \<le> n" using utf8_char_pos [of c] by auto
      with 2 n show ?thesis by auto
    qed
  qed
qed

text \<open>
  The bridge to the timeline is total except for one slice. Lifecycle and Codex notifications have no
  timeline form; every other event has one, except that a completed session's response of more than two
  hundred bytes whose two hundredth byte is inside a character makes the bridge panic.
\<close>

theorem bridge_panics_exactly:
  "(unified_event_to_runtime_detail env e = BridgePanic) =
     (\<exists>sid result. e = UaCompleted sid result \<and> 200 < length (utf8 (ag_response_text result))
        \<and> (\<nexists>k. length (utf8 (take k (ag_response_text result))) = 200))
   \<and> (unified_event_to_runtime_detail env e = BridgeNone) =
     (\<exists>info sid meth params. e \<in> {UaStarted info, UaReady, UaStopped, UaCodexAppServerNotification sid meth params})"
proof (cases e)
  case (UaCompleted sid result)
  let ?t = "ag_response_text result"
  have whole: "byte_prefix (length (utf8 ?t)) ?t = Some ?t" by (simp add: byte_prefix_iff) (metis order_refl take_all)
  have cut: "byte_prefix 200 ?t = None \<longleftrightarrow> (\<nexists>k. length (utf8 (take k ?t)) = 200)"
    by (metis byte_prefix_iff le_cases not_None_eq take_all)
  show ?thesis
  proof (cases "200 < length (utf8 ?t)")
    case True
    then have "?t \<noteq> []" by (auto simp: utf8_def)
    with UaCompleted True cut show ?thesis by (auto simp: Let_def min_def split: option.splits)
  next
    case False
    with UaCompleted whole show ?thesis by (simp add: Let_def min_def split: option.splits)
  qed
qed (auto split: prod.splits)

section \<open>One identifier through a tool's life\<close>

lemma map_of_member_insert:
  assumes "map_of ms k = None" shows "map_of (member_insert k v ms) k = Some v"
proof -
  have "map_of (takeWhile (\<lambda>m. fst m < k) ms) k = None"
    using assms by (auto simp: map_of_eq_None_iff dest: set_takeWhileD)
  then show ?thesis by (simp add: member_insert_def map_add_def)
qed

lemma extract_own:
  assumes "own_tool_call_id v = Some tid" shows "extract_tool_call_id v = Some tid"
  using assms
  by (cases v) (auto simp: extract_tool_call_id_def extract_tool_call_id_recursive.simps own_tool_call_id_def id_keys_def)

lemma own_tool_call_id_first:
  "get_str v ''tool_call_id'' = Some tid \<Longrightarrow> trim tid \<noteq> [] \<Longrightarrow> own_tool_call_id v = Some (trim tid)"
  by (auto simp: own_tool_call_id_def id_keys_def non_empty_arc_def bind_eq_Some_conv)

lemma get_insert_tool_call_id:
  "j_get v ''tool_call_id'' = None \<Longrightarrow> get_str (insert_tool_call_id v tid) ''tool_call_id'' = Some tid"
  by (cases v) (simp_all add: map_of_member_insert)

lemma parse_progress_bracketed:
  assumes "93 \<notin> set tid" "trim tid \<noteq> []"
  shows "fst (parse_progress_tool_call_id (str ''['' @ tid @ str ''] '' @ m)) = Some (trim tid)"
proof -
  have "takeWhile (\<lambda>x. x \<noteq> 93) tid = tid" using assms(1) by (auto simp: takeWhile_eq_all_conv)
  with assms show ?thesis by (simp add: parse_progress_tool_call_id_def str_def takeWhile_append Let_def)
qed

text \<open>
  A tool call keeps its identifier on the way to the timeline. If the engine's identifier is free of
  surrounding blanks and brackets, and the input does not bring a \<^verbatim>\<open>tool_call_id\<close> of its own, then the start,
  every progress message and the end of the call all carry exactly that identifier in the timeline.
\<close>

theorem tool_lifecycle_linked:
  assumes "trim tid = tid" "tid \<noteq> []" "93 \<notin> set tid" "j_get inp ''tool_call_id'' = None"
  shows "map_option (unified_event_to_runtime_detail env) (engine_event_to_unified z (EnToolUseStarted tid tool inp) sid)
           = Some (BridgeDetail (RtToolStarted tid tool))
    \<and> (\<exists>delta. map_option (unified_event_to_runtime_detail env) (engine_event_to_unified z (EnToolUseProgress tid pg) sid)
           = Some (BridgeDetail (RtToolProgress (Some tid) None (Some delta) None)))
    \<and> (\<exists>summary. map_option (unified_event_to_runtime_detail env) (engine_event_to_unified z (EnToolUseCompleted tid result) sid)
           = Some (BridgeDetail (RtToolFinished tid [] (tt_is_error result) (Some summary))))"
proof -
  have "extract_tool_call_id (insert_tool_call_id inp tid) = Some tid"
    using extract_own own_tool_call_id_first [OF get_insert_tool_call_id [OF assms(4)]] assms(1,2) by simp
  moreover have "extract_tool_call_id (jobj [(''content'', JStr c), (''is_error'', JBool b), (''tool_call_id'', JStr tid)]) = Some tid" for c b
    using extract_own own_tool_call_id_first [of "jobj [(''content'', JStr c), (''is_error'', JBool b), (''tool_call_id'', JStr tid)]" tid]
      assms(1,2) by simp
  moreover have "fst (parse_progress_tool_call_id (str ''['' @ tid @ str ''] '' @ m)) = Some tid" for m
    using parse_progress_bracketed [OF assms(3), of m] assms(1,2) by simp
  ultimately show ?thesis
    by (simp add: engine_event_to_unified_def derive_tool_call_id_def result_is_error_def split_beta non_empty_arc_def trim_Nil_iff)
qed

theorem tool_lifecycle_linked_witness:
  "\<forall>env. map_option (unified_event_to_runtime_detail env)
     (engine_event_to_unified 0 (EnToolUseStarted (str ''toolu'') (str ''read_file'') (jobj [(''path'', jstr ''a'')])) [])
   = Some (BridgeDetail (RtToolStarted (str ''toolu'') (str ''read_file'')))"
  using tool_lifecycle_linked [of "str ''toolu''" "jobj [(''path'', jstr ''a'')]" _ 0 "str ''read_file''" "[]"]
  by (simp add: str_def trim_id is_whitespace_def)

section \<open>Health follows the last streak of failures\<close>

definition health_run :: "(instant \<times> bool) list \<Rightarrow> health_checker \<Rightarrow> health_checker" where
  "health_run probes h = fold (\<lambda>(now, alive). health_check now alive) probes h"

text \<open>The failures since the last success, oldest first.\<close>

definition failure_streak :: "(instant \<times> bool) list \<Rightarrow> (instant \<times> bool) list" where
  "failure_streak probes = rev (takeWhile (\<lambda>p. \<not> snd p) (rev probes))"

definition health_of_streak :: "nat \<Rightarrow> (instant \<times> bool) list \<Rightarrow> agent_health" where
  "health_of_streak limit streak =
     (if streak = [] then Healthy
      else if limit \<le> length streak then UnhealthySince (fst (streak ! (max 1 limit - 1)))
      else Degraded (of_nat (length streak)))"

lemma failure_streak_snoc:
  "failure_streak (ps @ [(now, alive)]) = (if alive then [] else failure_streak ps @ [(now, alive)])"
  by (simp add: failure_streak_def)

lemma length_failure_streak: "length (failure_streak ps) \<le> length ps"
  unfolding failure_streak_def using length_takeWhile_le [of "\<lambda>p. \<not> snd p" "rev ps"] by simp

lemma health_of_streak_snoc:
  assumes "health_of_streak limit streak = st"
  shows "health_of_streak limit (streak @ [(now, False)]) =
    (if limit \<le> Suc (length streak) then UnhealthySince (case st of UnhealthySince t \<Rightarrow> t | _ \<Rightarrow> now)
     else Degraded (of_nat (Suc (length streak))))"
proof (cases "streak = []")
  case True
  with assms show ?thesis by (auto simp: health_of_streak_def)
next
  case False
  then show ?thesis using assms by (auto simp: health_of_streak_def nth_append max_def)
qed

lemma word_le_of_nat: "n < 2 ^ 32 \<Longrightarrow> (m :: u32) \<le> of_nat n \<longleftrightarrow> unat m \<le> n"
  by (simp add: word_le_nat_alt unsigned_of_nat take_bit_nat_eq_self)

text \<open>
  The health of an agent is that of its last streak of failures. After any run of fewer than $2^{32}$
  probes, the checker counts exactly the failures since the last success; it is healthy without any, degraded
  below the limit, and from the limit on unhealthy since the very probe that reached it.
\<close>

theorem health_tracks_streak:
  assumes "length probes < 2 ^ 32"
  shows "hx_consecutive_failures (health_run probes (health_checker_new c)) = of_nat (length (failure_streak probes))
    \<and> hx_status (health_run probes (health_checker_new c))
        = health_of_streak (unat (hk_max_failures c)) (failure_streak probes)"
proof -
  have "hx_config (health_run ps (health_checker_new c)) = c \<and>
      hx_consecutive_failures (health_run ps (health_checker_new c)) = of_nat (length (failure_streak ps)) \<and>
      hx_status (health_run ps (health_checker_new c)) = health_of_streak (unat (hk_max_failures c)) (failure_streak ps)"
    if "length ps < 2 ^ 32" for ps
    using that
  proof (induction ps rule: rev_induct)
    case Nil
    then show ?case by (simp add: health_run_def health_checker_new_def failure_streak_def health_of_streak_def)
  next
    case (snoc p ps)
    obtain now alive where p: "p = (now, alive)" by fastforce
    let ?h = "health_run ps (health_checker_new c)"
    have run: "health_run (ps @ [(now, b)]) (health_checker_new c) = health_check now b ?h" for b
      by (simp add: health_run_def)
    have small: "Suc (length (failure_streak ps)) < 2 ^ 32" using snoc.prems length_failure_streak [of ps] by simp
    from snoc show ?case
    proof (cases alive)
      case True
      with snoc show ?thesis
        by (simp add: run p failure_streak_snoc health_check_def Let_def health_of_streak_def)
    next
      case False
      have le: "hk_max_failures c \<le> 1 + of_nat (length (failure_streak ps))
          \<longleftrightarrow> unat (hk_max_failures c) \<le> Suc (length (failure_streak ps))"
        using word_le_of_nat [OF small, of "hk_max_failures c"] by simp
      show ?thesis
        using snoc False health_of_streak_snoc [OF refl, of "unat (hk_max_failures c)" "failure_streak ps" now]
        by (simp add: run p failure_streak_snoc health_check_def Let_def le add.commute)
    qed
  qed
  then show ?thesis using assms by blast
qed

theorem health_tracks_streak_witness:
  "hx_status (health_run [(1, False), (2, True), (3, False), (4, False), (5, False), (6, False)]
     (health_checker_new health_check_config_default)) = UnhealthySince 5"
  using health_tracks_streak [of "[(1, False), (2, True), (3, False), (4, False), (5, False), (6, False)]"
      health_check_config_default]
  by (simp add: failure_streak_def health_of_streak_def health_check_config_default_def)

section \<open>The restart budget\<close>

fun restart_requests :: "(u64 \<Rightarrow> nat \<Rightarrow> nat \<Rightarrow> nat) \<Rightarrow> nat \<Rightarrow> restart_tracker \<Rightarrow> nat option list \<times> restart_tracker" where
  "restart_requests nb 0 t = ([], t)"
| "restart_requests nb (Suc n) t =
     (case request_restart nb t of (a, t1) \<Rightarrow> (case restart_requests nb n t1 of (as, t2) \<Rightarrow> (a # as, t2)))"

lemma restart_exhausted:
  "rp_max_restarts (rt_policy t) \<le> rt_restart_count t \<Longrightarrow> restart_requests nb n t = (replicate n None, t)"
  by (induction n) (simp_all add: request_restart_def)

lemma restart_requests_spec:
  assumes "rt_restart_count t \<le> rp_max_restarts (rt_policy t)" "rt_next_backoff t \<le> cap"
    and "\<And>m d x. nb m d x \<le> cap"
  shows "rt_policy (snd (restart_requests nb n t)) = rt_policy t
    \<and> (\<exists>ds. list_all (\<lambda>d. d \<le> cap) ds \<and> length ds = min n (unat (rp_max_restarts (rt_policy t)) - unat (rt_restart_count t))
         \<and> unat (rt_restart_count (snd (restart_requests nb n t))) = unat (rt_restart_count t) + length ds
         \<and> fst (restart_requests nb n t) = map Some ds @ replicate (n - length ds) None)"
  using assms(1,2)
proof (induction n arbitrary: t)
  case (Suc n)
  show ?case
  proof (cases "rp_max_restarts (rt_policy t) \<le> rt_restart_count t")
    case True
    with restart_exhausted [OF True, of nb "Suc n"] show ?thesis
      by (auto simp: word_le_nat_alt simp del: restart_requests.simps intro: exI [of _ "[]"])
  next
    case False
    obtain t' where step: "request_restart nb t = (Some (rt_next_backoff t), t')"
      and t': "t' = snd (request_restart nb t)"
      using False by (simp add: request_restart_def)
    have lt: "unat (rt_restart_count t) < unat (rp_max_restarts (rt_policy t))"
      using False by (simp add: word_le_nat_alt)
    then have inc: "unat (rt_restart_count t + 1) = Suc (unat (rt_restart_count t))"
      using unsigned_less [of "rp_max_restarts (rt_policy t)", where 'a = nat] by (simp add: unat_word_ariths)
    have t1: "rt_policy t' = rt_policy t" "rt_restart_count t' = rt_restart_count t + 1" "rt_next_backoff t' \<le> cap"
      using False assms(3) by (simp_all add: t' request_restart_def)
    have "rt_restart_count t' \<le> rp_max_restarts (rt_policy t')" using lt inc t1 by (simp add: word_le_nat_alt)
    from Suc.IH [OF this t1(3)] obtain ds where ds: "rt_policy (snd (restart_requests nb n t')) = rt_policy t"
      "list_all (\<lambda>d. d \<le> cap) ds"
      "length ds = min n (unat (rp_max_restarts (rt_policy t)) - Suc (unat (rt_restart_count t)))"
      "unat (rt_restart_count (snd (restart_requests nb n t'))) = Suc (unat (rt_restart_count t)) + length ds"
      "fst (restart_requests nb n t') = map Some ds @ replicate (n - length ds) None"
      using t1(1,2) inc by auto
    then have "unat (rt_restart_count (snd (restart_requests nb (Suc n) t))) = unat (rt_restart_count t) + length (rt_next_backoff t # ds)"
      "rt_policy (snd (restart_requests nb (Suc n) t)) = rt_policy t"
      "fst (restart_requests nb (Suc n) t) = map Some (rt_next_backoff t # ds) @ replicate (Suc n - length (rt_next_backoff t # ds)) None"
      by (simp_all add: step split_beta)
    moreover have "length (rt_next_backoff t # ds)
        = min (Suc n) (unat (rp_max_restarts (rt_policy t)) - unat (rt_restart_count t))"
      using ds(3) lt by simp
    ultimately show ?thesis using ds(2) Suc.prems(2)
      by (intro conjI exI [of _ "rt_next_backoff t # ds"]) simp_all
  qed
qed auto

text \<open>
  Restarts are budgeted. However often a restart is asked for after a reset, exactly the first
  \<^verbatim>\<open>max_restarts\<close> requests are granted and all further ones refused, and no delay exceeds the larger of the
  initial delay and the cap that the computation of the next delay observes.
\<close>

theorem restart_budget:
  assumes "\<And>m d x. nb m d x \<le> cap"
  shows "\<exists>ds. length ds = min n (unat (rp_max_restarts (rt_policy t)))
    \<and> list_all (\<lambda>d. d \<le> max cap (rp_initial_backoff (rt_policy t))) ds
    \<and> fst (restart_requests nb n (restart_reset t)) = map Some ds @ replicate (n - length ds) None
    \<and> can_restart (snd (restart_requests nb n (restart_reset t))) = (n < unat (rp_max_restarts (rt_policy t)))"
proof -
  let ?t = "restart_reset t"
  have t: "rt_policy ?t = rt_policy t" "rt_restart_count ?t = 0" "rt_next_backoff ?t = rp_initial_backoff (rt_policy t)"
    by (simp_all add: restart_reset_def)
  obtain ds where ds: "rt_policy (snd (restart_requests nb n ?t)) = rt_policy t"
    "list_all (\<lambda>d. d \<le> max cap (rp_initial_backoff (rt_policy t))) ds"
    "length ds = min n (unat (rp_max_restarts (rt_policy t)))"
    "unat (rt_restart_count (snd (restart_requests nb n ?t))) = length ds"
    "fst (restart_requests nb n ?t) = map Some ds @ replicate (n - length ds) None"
    using restart_requests_spec [of ?t "max cap (rp_initial_backoff (rt_policy t))" nb n] assms t
    by (auto simp: le_max_iff_disj)
  then show ?thesis by (intro exI [of _ ds]) (auto simp: can_restart_def word_less_nat_alt)
qed

theorem restart_budget_witness:
  "let p = \<lparr> rp_max_restarts = 2, rp_initial_backoff = 1, rp_max_backoff = 60, rp_backoff_multiplier = 7 \<rparr>;
       t = restart_tracker_new (\<lambda>m. False) 7 p; nb = (\<lambda>m d x. min (2 * d) 3600)
   in \<not> can_restart (snd (restart_requests nb 5 (restart_reset t)))"
  using restart_budget [of "\<lambda>m d x. min (2 * d) 3600" 3600 5 "restart_tracker_new (\<lambda>m. False) 7
      \<lparr> rp_max_restarts = 2, rp_initial_backoff = 1, rp_max_backoff = 60, rp_backoff_multiplier = 7 \<rparr>"]
  by (auto simp: Let_def restart_tracker_new_def simp del: restart_requests.simps)

section \<open>The router keeps sessions apart\<close>

text \<open>An operation on one session leaves the adapters of all others as they were.\<close>

lemma with_adapter_frame: "k \<noteq> sid \<Longrightarrow> bm_get (ro_adapters (snd (with_adapter sid f ro))) k = bm_get (ro_adapters ro) k"
  by (simp add: with_adapter_def split: option.splits prod.splits)

lemma router_isolation:
  assumes "k \<noteq> sid"
  shows "bm_get (ro_adapters (router_register sid a ro)) k = bm_get (ro_adapters ro) k"
    "bm_get (ro_adapters (snd (router_send_message ops sid msg ro))) k = bm_get (ro_adapters ro) k"
    "bm_get (ro_adapters (snd (router_cancel ops sid ro))) k = bm_get (ro_adapters ro) k"
    "bm_get (ro_adapters (snd (router_resolve_permission ops sid rid d ro))) k = bm_get (ro_adapters ro) k"
    "bm_get (ro_adapters (snd (router_close_session ops sid ro))) k = bm_get (ro_adapters ro) k"
  using assms
  by (simp_all add: router_register_def router_send_message_def router_cancel_def router_resolve_permission_def
      router_close_session_def with_adapter_frame split: option.splits)

text \<open>No adapter leaves the router without having been told to stop.\<close>

lemma router_stops_what_it_drops:
  assumes "bm_get (ro_adapters ro) sid = Some old"
  shows "(sid, old) \<in> set (ro_stopped (router_register sid a ro))" "has_session (router_register sid a ro) sid"
    "(sid, old) \<in> set (ro_stopped (snd (router_close_session ops sid ro)))"
    "\<not> has_session (snd (router_close_session ops sid ro)) sid"
  using assms by (simp_all add: router_register_def router_close_session_def has_session_def)

end
