(* ===== verification/End_To_End.thy ===== *)
theory End_To_End
  imports Cp_Serve Runner_Host Agent_Protocol
begin

text \<open>
  Where the programs meet: a client's token manager against the control plane's token rotation, and a decision
  taken at the control plane on its way through the command queue and the runner's service to the hosted
  process that asked, and the events of an agent against what the control plane accepts. Both sides of each wire are the definitions of the other theories.
\<close>

section \<open>Token refresh across the wire\<close>

text \<open>
  The answer of \<^verbatim>\<open>POST /v1/auth/refresh\<close> as the client reads it: \<^verbatim>\<open>TokenRefreshResponse\<close> carries no expiry.
\<close>

definition refresh_answer :: "(trusted_device_record \<times> rstring \<times> rstring) api \<Rightarrow> refresh_outcome" where
  "refresh_answer res =
     (case res of Inr (_, access, refresh) \<Rightarrow> RefreshOk access (Some refresh) None | Inl _ \<Rightarrow> RefreshRejected)"

text \<open>
  What a caller of \<^verbatim>\<open>access_token\<close> does once it holds \<^verbatim>\<open>refresh_in_flight\<close>, with the refresh token and the URL it
  had read before it waited; \<open>r\<close> is the control plane's registry.
\<close>

definition refresh_turn ::
  "hash \<Rightarrow> instant \<Rightarrow> uuid \<times> uuid \<Rightarrow> uuid \<times> uuid \<Rightarrow> rstring option \<Rightarrow> rstring option \<Rightarrow> token_manager \<times> registry
   \<Rightarrow> rstring option \<times> token_manager \<times> registry" where
  "refresh_turn sha now ua ur captured url s =
     (case s of (m, r) \<Rightarrow>
        (case recheck_token now m of
           Some t \<Rightarrow> (Some t, m, r)
         | None \<Rightarrow>
             (case (captured, url) of
                (Some token, Some _) \<Rightarrow>
                  (case refresh_access_token sha now ua ur token r of (res, r') \<Rightarrow>
                   (case store_refresh (refresh_answer res) m of (ans, m') \<Rightarrow> (ans, m', r')))
              | _ \<Rightarrow> (None, m, r))))"

lemma refresh_turn_access_token:
  "access_token now now2 (\<lambda>token. refresh_answer (fst (refresh_access_token sha now2 ua ur token r))) m
     = (case request_token now m of
          TokenAnswer t \<Rightarrow> (t, m)
        | TokenRefresh captured url \<Rightarrow>
            (case refresh_turn sha now2 ua ur captured url (m, r) of (ans, m', r') \<Rightarrow> (ans, m')))"
  by (simp add: access_token_def refresh_turn_def split_beta split: token_request.splits option.splits)

text \<open>
  Two callers that ask for a token while a refresh is due lose the device. Both read the same refresh
  token; the first one's turn rotates it, and because the answer has no expiry the second one's look at the
  state still finds a refresh due. It presents the token that was just rotated, which the control plane takes
  for theft: the device is revoked, and the manager forgets its tokens.
\<close>

theorem concurrent_refresh_revokes_device:
  assumes "device_inv r" "mg_state m = TokenValid p" "tp_refresh_token p = Some token"
    and "mg_control_plane_url m = Some url" "refresh_due now p" "now \<le> now1" "now1 \<le> now2"
    and "refresh_access_token sha now1 ua ur token r = (Inr (rec, access, refresh), r1)"
  shows "request_token now m = TokenRefresh (Some token) (Some url)
    \<and> (\<exists>m1. refresh_turn sha now1 ua ur (Some token) (Some url) (m, r) = (Some access, m1, r1)
         \<and> (\<exists>m2 r2. refresh_turn sha now2 ua2 ur2 (Some token) (Some url) (m1, r1) = (None, m2, r2)
              \<and> mg_state m2 = TokenExpired
              \<and> trusted_devices r2 = bm_remove (td_device_id rec) (trusted_devices r)))"
proof -
  obtain m1 where m1: "store_refresh (RefreshOk access (Some refresh) None) m = (Some access, m1)"
    by (simp add: store_refresh_def)
  have due: "recheck_token t m = None" if "now \<le> t" for t
    using assms(2,5) that by (simp add: recheck_token_def refresh_due_def)
  obtain p' where p': "mg_state m1 = TokenValid p'" "refresh_due now2 p'"
    using refresh_without_expiry_stays_due [OF assms(2,5) _ m1, of now2] assms(6,7) by auto
  obtain r2 where r2: "refresh_access_token sha now2 ua2 ur2 token r1
      = (Inl (Unauthorized ''refresh token reuse detected: device revoked''), r2)"
      "trusted_devices r2 = bm_remove (td_device_id rec) (trusted_devices r)"
    using refresh_reused [OF assms(1,8), of now2 ua2 ur2] by (metis prod.collapse)
  have "refresh_turn sha now1 ua ur (Some token) (Some url) (m, r) = (Some access, m1, r1)"
    using due [OF assms(6)] assms(8) m1 by (simp add: refresh_turn_def refresh_answer_def)
  moreover have "refresh_turn sha now2 ua2 ur2 (Some token) (Some url) (m1, r1)
      = (None, m1\<lparr>mg_state := TokenExpired\<rparr>, r2)"
    using p' r2(1) by (simp add: refresh_turn_def refresh_answer_def recheck_token_def store_refresh_def mark_expired_def)
  ultimately show ?thesis
    using assms(2-5) r2(2) by (simp add: request_token_def)
qed

theorem concurrent_refresh_revokes_device_witness:
  "let r = add_device (new_device (\<lambda>x. x) 0 7 [65] KindCli False None [1] [2]) registry_default;
       m = (set_token \<lparr> tp_access_token = [1], tp_refresh_token = Some [2], tp_expires_at = 0 \<rparr> token_manager_new)
             \<lparr>mg_control_plane_url := Some [9]\<rparr>
   in \<exists>a m1 r1 m2 r2. refresh_turn (\<lambda>x. x) 5 (1, 2) (3, 4) (Some [2]) (Some [9]) (m, r) = (Some a, m1, r1)
        \<and> refresh_turn (\<lambda>x. x) 9 (5, 6) (7, 8) (Some [2]) (Some [9]) (m1, r1) = (None, m2, r2)
        \<and> mg_state m2 = TokenExpired"
proof -
  let ?r = "add_device (new_device (\<lambda>x. x) 0 7 [65] KindCli False None [1] [2]) registry_default"
  let ?p = "\<lparr> tp_access_token = [1], tp_refresh_token = Some [2], tp_expires_at = 0 \<rparr>"
  let ?m = "(set_token ?p token_manager_new)\<lparr>mg_control_plane_url := Some [9]\<rparr>"
  have inv: "device_inv ?r"
    by (intro device_inv_add_plain device_inv_default) (simp_all add: registry_default_def)
  obtain rec access refresh r' where
    "refresh_access_token (\<lambda>x. x) 5 (1, 2) (3, 4) [2] ?r = (Inr (rec, access, refresh), r')"
    by (simp add: refresh_access_token_def add_device_def registry_default_def bm_values_def
        previous_matches_def lookup_refresh_device_def Let_def)
  from concurrent_refresh_revokes_device [OF inv, of ?m ?p "[2]" "[9]" 0 5 9 "\<lambda>x. x" "(1, 2)" "(3, 4)" rec access
      refresh r' "(5, 6)" "(7, 8)"] this
  show ?thesis by (auto simp: Let_def set_token_def refresh_due_def seconds_def)
qed

section \<open>A queued decision\<close>

text \<open>The host's event loop for as long as events are waiting in the channel.\<close>

fun serve_events :: "plane \<Rightarrow> (rstring list \<Rightarrow> bool) \<Rightarrow> rstring \<Rightarrow> nat \<Rightarrow> host \<Rightarrow> host" where
  "serve_events p spawns profile 0 h = h"
| "serve_events p spawns profile (Suc n) h =
     (case take_event (hm_api h) of
        (None, api) \<Rightarrow> h
      | (Some e, api) \<Rightarrow> serve_events p spawns profile n (snd (handle_runner_event p spawns profile e (h\<lparr>hm_api := api\<rparr>))))"

text \<open>What the control plane queues for a pulling runner in the life of an approval.\<close>

definition approval_commands :: "approval_request_record \<Rightarrow> runner_queued_command_body list" where
  "approval_commands a =
     CmdCreateApproval (ap_session_id a) (approval_relay_request a)
     # (case decision_relay_request a of
          None \<Rightarrow> [] | Some req \<Rightarrow> [CmdApplyApprovalDecision (ap_approval_id a) req])"

lemma approval_commands_decided:
  assumes "decision_of (ap_state a) = Some d"
  shows "approval_commands a = [CmdCreateApproval (ap_session_id a) (approval_relay_request a),
    CmdApplyApprovalDecision (ap_approval_id a) \<lparr> adr_decision = d, adr_responder = ap_responder a, adr_note = ap_note a \<rparr>]"
  using assms by (simp add: approval_commands_def decision_relay_request_def)

lemma decision_of_round: "decision_of st = Some d \<Longrightarrow> approval_state_of d = st"
  by (cases st) auto

text \<open>A short run of commands for a runner without a backlog comes out of one pull as it went in.\<close>

lemma queue_then_pull:
  assumes "bm_contains (runners r) rid" "command_queue r rid = []" "length cmds \<le> 256" "length cmds \<le> limit"
  shows "\<exists>r2. pull_runner_commands rid limit
           (fold (\<lambda>(now, fresh, body) r. snd (enqueue_runner_command now fresh rid body r)) cmds r)
         = (Inr (map (queued_command rid) cmds), r2) \<and> command_queue r2 rid = []"
proof -
  let ?push = "\<lambda>e r. snd (enqueue_runner_command (fst e) (fst (snd e)) rid (snd (snd e)) r)"
  have eq: "(\<lambda>(now, fresh, body) r. snd (enqueue_runner_command now fresh rid body r)) = ?push"
    by (auto simp: fun_eq_iff)
  have "bm_contains (runners (fold ?push cmds r)) rid" by (rule command_log.pushes_ok [OF assms(1)])
  moreover have "command_queue (fold ?push cmds r) rid = map (queued_command rid) cmds"
    using command_log.pushes_contents [OF assms(1), of cmds] assms(2,3)
    by (simp add: max_commands_per_runner_def)
  ultimately show ?thesis
    unfolding eq using assms(4) by (simp add: pull_runner_commands_def pop_up_to_eq command_queue_def)
qed

text \<open>Applied by the runner, the two commands leave one event, which carries the decision.\<close>

lemma approval_commands_applied:
  assumes d: "decision_of (ap_state a) = Some d" and bodies: "map qc_body cs = approval_commands a"
    and s: "bm_get (ra_sessions api) (ap_session_id a) = Some s"
    and fresh_approval: "bm_get (ra_approvals api) (ap_approval_id a) = None"
    and room: "ra_event_tx api = ChannelOpen q" "length q < runner_event_channel_capacity"
  shows "\<exists>a'. ra_event_tx (apply_pulled_runner_commands clock fresh i cs api) = ChannelOpen (q @ [ApprovalResolved a'])
     \<and> ap_approval_id a' = ap_approval_id a \<and> ap_session_id a' = ap_session_id a
     \<and> ap_state a' = ap_state a \<and> ap_note a' = ap_note a"
proof -
  obtain c1 c2 where cs: "cs = [c1, c2]" using bodies approval_commands_decided [OF d]
    by (auto simp: map_eq_Cons_conv)
  note body = bodies [unfolded cs approval_commands_decided [OF d], simplified]
  show ?thesis
    using s fresh_approval room decision_of_round [OF d]
    by (simp add: cs body apply_pulled_command_def create_approval_direct_def approval_existing_def
        approval_relay_request_def mark_waiting_def store_approval_def new_approval_def split_beta Let_def
        apply_approval_decision_direct_def decide_approval_def decided_approval_def settle_decision_def emit_event_def)
qed

text \<open>The host passes the decision on to the process that asked.\<close>

lemma resolution_forwarded:
  assumes "can_send h (ap_session_id a)" "bm_get (hm_handles h) (ap_session_id a) = Some hs"
    and "bm_get (hs_approval_to_request hs) (ap_approval_id a) = Some request"
    and "approval_behavior (ap_state a) = Some b"
  shows "inputs_of (snd (forward_approval_resolution a h)) (ap_session_id a) = inputs_of h (ap_session_id a)
    @ [control_response_payload request b (unwrap_or (default_note (ap_state a)) (ap_note a))]"
  using assms
  by (auto simp: forward_approval_resolution_def Let_def can_send_def send_json_line_def with_handle_def inputs_of_def)

text \<open>A host that runs session 7, whose process waits for approval 5, asked for under the request named by \<open>[1]\<close>.\<close>

definition demo_host :: host where
  "demo_host = (host_start demo_registration)\<lparr>
     hm_api := demo_sessions\<lparr>ra_event_tx := ChannelOpen []\<rparr>,
     hm_active := bm_insert 7 () bm_empty,
     hm_handles := bm_insert 7 ((new_handle \<lparr> ws_workspace_id = str ''default'', ws_root_dir = str ''/work'', ws_writable = True \<rparr>)
       \<lparr>hs_approval_to_request := bm_insert 5 [1] bm_empty\<rparr>) bm_empty\<rparr>"

definition demo_approved :: approval_request_record where
  "demo_approved =
     \<lparr> ap_approval_id = 5, ap_session_id = 7, ap_runner_id = str ''runner'', ap_state = ApApproved, ap_title = [],
       ap_description = [], ap_metadata = bm_empty, ap_created_at = 0, ap_updated_at = 1, ap_responded_at = Some 1,
       ap_responder = None, ap_note = None \<rparr>"

text \<open>
  C24. A decision reaches the process that asked for it, when nothing else is in the way. Let a registered runner have an
  empty queue, and let the control plane queue an approval and its decision for it; let the runner know the
  session and not yet the approval, with nothing waiting in its event channel; and let the host have a writable process for
  the session and remember the request behind the approval. Then one pull of at least two commands hands both out
  and leaves the queue empty, the runner applies them, and the host writes exactly one answer to the process: allow
  if and only if the approval was approved, with the approver's note or the standard one.
\<close>

theorem queued_decision_reaches_process:
  assumes "bm_contains (runners r) rid" "command_queue r rid = []" "2 \<le> limit"
    and "map (\<lambda>e. snd (snd e)) queue = approval_commands a" "decision_of (ap_state a) \<noteq> None"
    and "bm_get (ra_sessions (hm_api h)) (ap_session_id a) = Some s"
    and "bm_get (ra_approvals (hm_api h)) (ap_approval_id a) = None" "ra_event_tx (hm_api h) = ChannelOpen []"
    and "can_send h (ap_session_id a)" "bm_get (hm_handles h) (ap_session_id a) = Some hs"
    and "bm_get (hs_approval_to_request hs) (ap_approval_id a) = Some request"
  shows "\<exists>cs r2 b. pull_runner_commands rid limit
             (fold (\<lambda>(now, fresh, body) r. snd (enqueue_runner_command now fresh rid body r)) queue r) = (Inr cs, r2)
       \<and> command_queue r2 rid = []
       \<and> (b = ''allow'') = (ap_state a = ApApproved) \<and> b \<in> {''allow'', ''deny''}
       \<and> inputs_of (serve_events p spawns profile 1
             (h\<lparr>hm_api := apply_pulled_runner_commands clock fresh 0 cs (hm_api h)\<rparr>)) (ap_session_id a)
         = inputs_of h (ap_session_id a)
           @ [control_response_payload request b (unwrap_or (default_note (ap_state a)) (ap_note a))]"
proof -
  obtain d where d: "decision_of (ap_state a) = Some d" using assms(5) by auto
  have len: "length queue = 2"
    using arg_cong [OF assms(4), of length] by (simp add: approval_commands_decided [OF d])
  obtain r2 where pull: "pull_runner_commands rid limit
      (fold (\<lambda>(now, fresh, body) r. snd (enqueue_runner_command now fresh rid body r)) queue r)
      = (Inr (map (queued_command rid) queue), r2)" "command_queue r2 rid = []"
    using queue_then_pull [OF assms(1,2), of queue limit] len assms(3) by auto
  have bodies: "map qc_body (map (queued_command rid) queue) = approval_commands a"
    using assms(4) by (simp add: queued_command_def comp_def)
  let ?api = "apply_pulled_runner_commands clock fresh 0 (map (queued_command rid) queue) (hm_api h)"
  obtain a' where ev: "ra_event_tx ?api = ChannelOpen [ApprovalResolved a']"
    and a': "ap_approval_id a' = ap_approval_id a" "ap_session_id a' = ap_session_id a"
      "ap_state a' = ap_state a" "ap_note a' = ap_note a"
    using approval_commands_applied [OF d bodies assms(6,7,8), of clock fresh 0]
    by (auto simp: runner_event_channel_capacity_def)
  obtain b where b: "approval_behavior (ap_state a) = Some b" "(b = ''allow'') = (ap_state a = ApApproved)"
      "b \<in> {''allow'', ''deny''}"
    using assms(5) by (cases "ap_state a") auto
  let ?h = "h\<lparr>hm_api := ?api\<lparr>ra_event_tx := ChannelOpen []\<rparr>\<rparr>"
  have "serve_events p spawns profile 1 (h\<lparr>hm_api := ?api\<rparr>) = snd (forward_approval_resolution a' ?h)"
    by (simp add: ev handle_runner_event_def One_nat_def)
  moreover have "inputs_of (snd (forward_approval_resolution a' ?h)) (ap_session_id a) = inputs_of h (ap_session_id a)
      @ [control_response_payload request b (unwrap_or (default_note (ap_state a)) (ap_note a))]"
    using resolution_forwarded [of ?h a' hs request b] assms(9-11) b(1) a' by (simp add: can_send_def)
  ultimately show ?thesis using pull b(2,3) by metis
qed

theorem queued_decision_reaches_process_witness:
  "\<forall>p spawns profile. \<exists>cs r2. pull_runner_commands (str ''runner'') 16
        (fold (\<lambda>(now, fresh, body) r. snd (enqueue_runner_command now fresh (str ''runner'') body r))
           (map (\<lambda>b. (0, 0, b)) (approval_commands demo_approved))
           (snd (register_runner 0 demo_registration 30 None registry_default))) = (Inr cs, r2)
     \<and> inputs_of (serve_events p spawns profile 1
          (demo_host\<lparr>hm_api := apply_pulled_runner_commands (\<lambda>_. 0) (\<lambda>_. 0) 0 cs (hm_api demo_host)\<rparr>)) 7
       = [control_response_payload [1] ''allow'' (str ''Approved remotely.'')]"
proof (intro allI)
  fix p spawns profile
  let ?r = "snd (register_runner 0 demo_registration 30 None registry_default)"
  have r: "bm_contains (runners ?r) (str ''runner'')" "command_queue ?r (str ''runner'') = []"
    by (simp_all add: register_runner_def Let_def refresh_counts_runner command_queue_def registry_default_def
        demo_registration_def)
  obtain s where "bm_get (ra_sessions demo_sessions) 7 = Some s" using demo_sessions_eval(1) by auto
  with queued_decision_reaches_process [OF r, of 16 "map (\<lambda>b. (0, 0, b)) (approval_commands demo_approved)" demo_approved
      demo_host s _ "[1]" p spawns profile "\<lambda>_. 0" "\<lambda>_. 0"]
  show "\<exists>cs r2. pull_runner_commands (str ''runner'') 16
        (fold (\<lambda>(now, fresh, body) r. snd (enqueue_runner_command now fresh (str ''runner'') body r))
           (map (\<lambda>b. (0, 0, b)) (approval_commands demo_approved)) ?r) = (Inr cs, r2)
     \<and> inputs_of (serve_events p spawns profile 1
          (demo_host\<lparr>hm_api := apply_pulled_runner_commands (\<lambda>_. 0) (\<lambda>_. 0) 0 cs (hm_api demo_host)\<rparr>)) 7
       = [control_response_payload [1] ''allow'' (str ''Approved remotely.'')]"
    by (fastforce simp: demo_host_def demo_approved_def demo_sessions_eval(2) host_start_def new_handle_def can_send_def
        inputs_of_def comp_def)
qed

section \<open>Agent events at the control plane\<close>

lemma extract_trimmed:
  "extract_tool_call_id_recursive v depth max_depth = Some tid \<Longrightarrow> trim tid \<noteq> []"
proof (induction v depth max_depth arbitrary: tid rule: extract_tool_call_id_recursive.induct)
  case (1 v depth max_depth)
  have found: "\<exists>x \<in> set xs. f x = Some y" if "find_map f xs = Some y" for f :: "'x \<Rightarrow> rstring option" and xs y
    using that by (induction xs) (auto split: option.splits)
  have own: "trim t \<noteq> []" if "own_tool_call_id w = Some t" for w t
    using found [OF that [unfolded own_tool_call_id_def]]
    by (auto simp: bind_eq_Some_conv non_empty_arc_def split: if_splits dest: arg_cong [of _ _ trim])
      (metis trim_Nil_iff hd_in_set hd_trim)
  show ?case
    using 1 own by (auto simp: extract_tool_call_id_recursive.simps [of v] split: if_splits json.splits option.splits
      dest!: found)
qed

lemma derived_id_not_blank: "trim (derive_tool_call_id env sid tool payload) \<noteq> []"
proof (cases "extract_tool_call_id payload")
  case None
  have "45 \<in> set (stable_tool_call_id env sid tool payload)" by (simp add: stable_tool_call_id_def Let_def str_def)
  moreover have "\<not> is_whitespace 45" by (simp add: is_whitespace_def)
  ultimately show ?thesis using None by (auto simp: derive_tool_call_id_def trim_Nil_iff)
next
  case (Some tid)
  with extract_trimmed show ?thesis by (simp add: derive_tool_call_id_def extract_tool_call_id_def)
qed

text \<open>The events whose timeline form the control plane takes.\<close>

fun timeline_ready :: "unified_agent_event \<Rightarrow> bool" where
  "timeline_ready (UaMessageDelta sid delta) \<longleftrightarrow> trim delta \<noteq> []"
| "timeline_ready (UaToolCallStarted sid tool tool_input) \<longleftrightarrow> trim tool \<noteq> []"
| "timeline_ready (UaToolCallProgress sid tool progress) \<longleftrightarrow>
     (fst (parse_progress_tool_call_id progress) \<noteq> None \<or> trim tool \<noteq> []) \<and> snd (parse_progress_tool_call_id progress) \<noteq> []"
| "timeline_ready (UaToolCallCompleted sid tool result) \<longleftrightarrow> trim tool \<noteq> []"
| "timeline_ready (UaSubtaskStarted sid tid descr) \<longleftrightarrow> trim descr \<noteq> []"
| "timeline_ready (UaSubtaskProgress sid tid progress) \<longleftrightarrow> trim tid \<noteq> []"
| "timeline_ready (UaSubtaskCompleted sid tid result) \<longleftrightarrow> trim tid \<noteq> []"
| "timeline_ready (UaError sid message recoverable) \<longleftrightarrow> trim message \<noteq> []"
| "timeline_ready (UaCompleted sid result) \<longleftrightarrow> ag_response_text result = []
     \<or> is_some_and (\<lambda>p. trim p \<noteq> []) (byte_prefix (min (length (utf8 (ag_response_text result))) 200) (ag_response_text result))"
| "timeline_ready _ \<longleftrightarrow> True"

text \<open>What the control plane turns down stays at the head of the buffer and holds up everything behind it.\<close>

lemma rejected_head_blocks:
  assumes "buffered u sid = d # ds" "length (d # ds) \<le> 500" "\<not> ans (up_posts u)"
  shows "buffered (flush_event_buffer ans sid u) sid = d # ds"
    "up_accepted (flush_event_buffer ans sid u) = up_accepted u"
    "up_consecutive_flush_failures (flush_event_buffer ans sid u) = up_consecutive_flush_failures u + 1"
proof -
  let ?u = "u\<lparr>up_event_buffer := bm_remove sid (up_event_buffer u), up_posts := Suc (up_posts u),
    up_consecutive_flush_failures := up_consecutive_flush_failures u + 1\<rparr>"
  have "buffered ?u sid = []" by (simp add: buffered_def)
  moreover have "flush_event_buffer ans sid u = rebuffer sid (d # ds) ?u"
    using assms(3) by (simp add: flush_event_buffer_def take_event_buffer_def assms(1) post_detail_def)
  ultimately show "buffered (flush_event_buffer ans sid u) sid = d # ds"
    "up_accepted (flush_event_buffer ans sid u) = up_accepted u"
    "up_consecutive_flush_failures (flush_event_buffer ans sid u) = up_consecutive_flush_failures u + 1"
    using assms(2) by (simp_all add: rebuffer_def Let_def drop_front_eq max_event_buffer_per_session_def buffered_def)
qed

text \<open>
  What an agent reports is accepted by the control plane exactly if it says something: a message delta,
  description, error or closing text that is not blank, a tool or task with a name, progress with text and a
  tool it belongs to. Permission requests and reports on the context are always accepted.
\<close>

theorem agent_events_accepted:
  assumes "unified_event_to_runtime_detail env e = BridgeDetail d"
  shows "(validate_runtime_event_request r sid d = Inr ()) = timeline_ready e"
proof -
  have field: "(require_non_empty_runtime_field v = Inr ()) = (trim v \<noteq> [])" for v
    by (simp add: require_non_empty_runtime_field_def)
  have pair: "(bind_result (require_non_empty_runtime_field v) (\<lambda>_. x) = Inr ()) = (trim v \<noteq> [] \<and> x = Inr ())" for v x
    by (simp add: require_non_empty_runtime_field_def bind_result_def)
  have label: "trim (str ''approval-'' @ t) \<noteq> []" "trim (str ''approval:'' @ t) \<noteq> []" "trim (str ''session completed'') \<noteq> []" for t
    by (auto simp: trim_Nil_iff str_def is_whitespace_def)
  have parsed: "fst (parse_progress_tool_call_id p) \<noteq> Some []" for p
    by (simp add: parse_progress_tool_call_id_def Let_def split: list.splits)
  show ?thesis
  proof (cases e)
    case (UaToolCallProgress s tool progress)
    then show ?thesis using assms parsed [of progress]
      by (auto simp: non_empty_arc_def split: prod.splits option.splits if_splits)
  next
    case (UaCompleted s result)
    then show ?thesis using assms label(3) by (auto simp: Let_def field split: if_splits option.splits)
  qed (use assms in \<open>auto simp: field pair label derived_id_not_blank\<close>)
qed

theorem agent_events_accepted_witness:
  "\<forall>r. validate_runtime_event_request r 0 (RtRuntimeError (str ''x'')) = Inr ()"
  using agent_events_accepted [of _ "UaError [] (str ''x'') False" "RtRuntimeError (str ''x'')"]
  by (simp add: str_def trim_id is_whitespace_def)

end
