(* ===== verification/Quic.thy ===== *)
theory Quic
  imports Cp_Serve Cp_Views Transport_Security
begin

text \<open>
  The QUIC endpoint of the control plane (\<^verbatim>\<open>rc-control-plane/src/quic.rs\<close>) and the transport that speaks to it
  (\<^verbatim>\<open>rc-remote-transport/src/quic_transport.rs\<close>). A client opens one stream to authenticate, receives every event
  on a stream of its own, and opens a stream per command; every stream carries one length-prefixed frame.
  The decoders of messages and identifiers, the encoders, TLS and the network are parameters.
\<close>

section \<open>Frames\<close>

definition max_quic_frame_bytes :: nat where "max_quic_frame_bytes = 1024 * 1024"

definition u32_to_le_bytes :: "nat \<Rightarrow> byte list" where
  "u32_to_le_bytes n = [of_nat n, of_nat (n div 256), of_nat (n div 65536), of_nat (n div 16777216)]"

fun u32_from_le_bytes :: "byte list \<Rightarrow> nat" where
  "u32_from_le_bytes [] = 0"
| "u32_from_le_bytes (b # bs) = unat b + 256 * u32_from_le_bytes bs"

text \<open>\<^verbatim>\<open>read_exact\<close> fails when the stream ends early; what follows the frame stays unread.\<close>

definition read_len_prefixed_payload :: "byte list \<Rightarrow> byte list anyhow" where
  "read_len_prefixed_payload stream =
     (if length stream < 4 then Inl ''stream finished early''
      else let len = u32_from_le_bytes (take 4 stream); rest = drop 4 stream
           in if max_quic_frame_bytes < len then Inl ''frame too large: {len} bytes''
              else if length rest < len then Inl ''stream finished early''
              else Inr (take len rest))"

definition write_len_prefixed_payload :: "byte list \<Rightarrow> byte list anyhow" where
  "write_len_prefixed_payload buf =
     (if max_quic_frame_bytes < length buf then Inl ''frame too large: {} bytes''
      else Inr (u32_to_le_bytes (length buf) @ buf))"

section \<open>The server\<close>

definition quic_session_ttl :: int where "quic_session_ttl = seconds (4 * 60 * 60)"

record quic_auth_message =
  qa_token :: rstring
  qa_session_id :: rstring

record quic_codec =
  qc_auth :: "byte list \<Rightarrow> quic_auth_message option"
  qc_command :: "byte list \<Rightarrow> transport_command option"
  qc_uuid :: "rstring \<Rightarrow> uuid option"
  qc_event :: "timeline_event \<Rightarrow> byte list"
  qc_ack :: "command_ack \<Rightarrow> byte list"

text \<open>An \<^verbatim>\<open>anyhow\<close> error is its message; the errors of the registry keep only theirs on the way to a client.\<close>

fun api_message :: "api_error \<Rightarrow> string" where
  "api_message (NotFound m) = m"
| "api_message (Conflict m) = m"
| "api_message (BadRequest m) = m"
| "api_message (ServiceUnavailable m) = m"
| "api_message (BadGateway m) = m"
| "api_message (Unauthorized m) = m"
| "api_message (Forbidden m) = m"
| "api_message (Internal m) = m"

definition authenticate_quic_token :: "hash \<Rightarrow> rstring \<Rightarrow> auth_principal option task" where
  "authenticate_quic_token sha provided =
     section_on (\<lambda>now ids sv.
       if is_some_and (\<lambda>expected. constant_time_value_eq sha provided expected) (cfg_auth_token (sv_auth sv))
       then (Inr (Some SharedToken), sv)
       else case authenticate_device_token sha (now 0) provided (sv_registry sv) of (found, r) \<Rightarrow>
         (Inr (case found of Some (d, True) \<Rightarrow> Some (Device d) | _ \<Rightarrow> None), sv\<lparr>sv_registry := r\<rparr>))"

definition verify_session_tenant_access :: "uuid \<Rightarrow> auth_principal \<Rightarrow> unit task" where
  "verify_session_tenant_access sid who =
     (case principal_user_id who of
        None \<Rightarrow> done_with ()
      | Some uid \<Rightarrow>
          read_registry (\<lambda>now ids r.
            bind_result (get_session r sid) (\<lambda>s.
              case ses_owner_runner_id s of
                None \<Rightarrow> Inr ()
              | Some rid \<Rightarrow>
                  if \<not> runner_visible_to r rid (Some uid)
                  then Inl (Internal ''session {session_id} belongs to runner {runner_id} which is not owned by the authenticated user'')
                  else Inr ())))"

definition dispatch_runner_session_command :: "codec \<Rightarrow> uuid \<Rightarrow> runner_session_command_request \<Rightarrow> unit task" where
  "dispatch_runner_session_command cd sid req =
     and_then (read_registry (\<lambda>now ids r.
         bind_result (get_session r sid) (\<lambda>s.
           case ses_owner_runner_id s of
             None \<Rightarrow> Inl (Internal ''session {session_id} is not assigned to a runner'')
           | Some rid \<Rightarrow>
               (case bm_get (runners r) rid of
                  None \<Rightarrow> Inl (Internal ''runner {runner_id} was not found'')
                | Some runner \<Rightarrow> Inr (rid, runner)))))
       (\<lambda>(rid, runner). and_then
         (if runner_uses_pull_commands runner
          then ignore_result (write_registry (\<lambda>now ids.
                 enqueue_runner_command (now 0) (ids 0) rid (CmdSessionCommand sid req)))
          else remote_call (\<lambda>h.
                 case dispatch_session_command_to_runner (hc_command h) runner sid req of
                   Inl e \<Rightarrow> Inl (Internal ''runner command relay failed for session {session_id}: {}'')
                 | Inr _ \<Rightarrow> Inr ()))
       (\<lambda>_. persist_state_logged cd))"

text \<open>
  \<^verbatim>\<open>decision_request_from_resolved_approval\<close> is the conversion that the HTTP handler makes in place, and the
  relay to a runner that takes connections is the same as there.
\<close>

definition dispatch_approval_decision ::
  "codec \<Rightarrow> uuid option \<Rightarrow> uuid \<Rightarrow> approval_decision_request \<Rightarrow> unit task" where
  "dispatch_approval_decision cd target aid req =
     and_then (read_registry (\<lambda>now ids r.
         bind_result (get_approval r aid) (\<lambda>a.
           if is_some_and (\<lambda>sid. ap_session_id a \<noteq> sid) target
           then Inl (Internal ''approval {approval_id} does not belong to the authenticated QUIC session'')
           else plan_approval_decision (now 0) aid req r)))
       (\<lambda>planned. and_then (relay_decision planned)
       (\<lambda>_. and_then (write_registry (\<lambda>now ids. commit_planned_approval_decision planned))
       (\<lambda>(a, transition). and_then (publish_event cd
              \<lparr> dr_runner_id = nonempty (ap_runner_id a), dr_session_id = Some (ap_session_id a),
                dr_detail = EvApprovalResolved (ap_approval_id a) (ap_state a) (ap_responder a) \<rparr>)
       (\<lambda>_. and_then (publish_transition cd transition)
       (\<lambda>_. and_then
            (if queue_for_runner planned
             then (case decision_relay_request a of
                     None \<Rightarrow> fail_with (Internal ''approval {approval_id} remained pending during decision dispatch'')
                   | Some dreq \<Rightarrow>
                       ignore_result (write_registry (\<lambda>now ids.
                          enqueue_runner_command (now 0) (ids 0) (ap_runner_id a)
                            (CmdApplyApprovalDecision (ap_approval_id a) dreq))))
             else done_with ())
       (\<lambda>_. persist_state_logged cd))))))"

definition queued_ack :: command_ack where
  "queued_ack = \<lparr> ck_accepted = True, ck_message = ''queued'' \<rparr>"

definition refused_ack :: "string \<Rightarrow> command_ack" where
  "refused_ack msg = \<lparr> ck_accepted = False, ck_message = msg \<rparr>"

definition dispatch_session_bound ::
  "codec \<Rightarrow> uuid option \<Rightarrow> auth_principal \<Rightarrow> string \<Rightarrow> runner_session_command_request \<Rightarrow> command_ack task" where
  "dispatch_session_bound cd target who unbound req =
     (case target of
        None \<Rightarrow> fail_with (Internal unbound)
      | Some sid \<Rightarrow>
          and_then (verify_session_tenant_access sid who)
            (\<lambda>_. and_then (dispatch_runner_session_command cd sid req) (\<lambda>_. done_with queued_ack)))"

definition dispatch_quic_command ::
  "quic_codec \<Rightarrow> codec \<Rightarrow> uuid option \<Rightarrow> auth_principal \<Rightarrow> byte list \<Rightarrow> command_ack task" where
  "dispatch_quic_command q cd target who payload =
     (case qc_command q payload of
        None \<Rightarrow> fail_with (Internal ''invalid command'')
      | Some (TcSendPrompt content) \<Rightarrow>
          dispatch_session_bound cd target who ''QUIC send_prompt requires a bound session'' (SendPrompt content)
      | Some TcInterrupt \<Rightarrow>
          dispatch_session_bound cd target who ''QUIC interrupt requires a bound session'' Interrupt
      | Some (TcRespondToApproval raw decision note) \<Rightarrow>
          (case qc_uuid q raw of
             None \<Rightarrow> fail_with (Internal ''invalid approval id'')
           | Some aid \<Rightarrow>
               and_then (dispatch_approval_decision cd target aid
                   \<lparr> adr_decision = decision, adr_responder = Some (str ''remote-code-quic''), adr_note = note \<rparr>)
                 (\<lambda>_. done_with queued_ack)))"

text \<open>What a connection knows once it has authenticated.\<close>

record quic_peer =
  qp_principal :: auth_principal
  qp_target :: "uuid option"
  qp_filter :: "tenant_filter option"

text \<open>The session the client binds to, if it names one that parses.\<close>

definition quic_target :: "quic_codec \<Rightarrow> quic_auth_message \<Rightarrow> uuid option option" where
  "quic_target q auth =
     (if qa_session_id auth = [] then Some None else map_option Some (qc_uuid q (qa_session_id auth)))"

definition quic_auth_of :: "quic_codec \<Rightarrow> byte list anyhow \<Rightarrow> quic_auth_message option" where
  "quic_auth_of q auth_stream =
     (case bind_result auth_stream read_len_prefixed_payload of Inl _ \<Rightarrow> None | Inr buf \<Rightarrow> qc_auth q buf)"

text \<open>The handshake: no peer if the frame or the message is bad, or with a reason if the connection is closed.\<close>

definition quic_handshake ::
  "quic_codec \<Rightarrow> hash \<Rightarrow> byte list anyhow \<Rightarrow> (string option + quic_peer) task" where
  "quic_handshake q sha auth_stream =
     (case quic_auth_of q auth_stream of
        None \<Rightarrow> done_with (Inl None)
      | Some auth \<Rightarrow>
          and_then (authenticate_quic_token sha (qa_token auth))
            (\<lambda>found. case found of
               None \<Rightarrow> done_with (Inl (Some ''auth failed''))
             | Some who \<Rightarrow>
                 (case quic_target q auth of
                    None \<Rightarrow> done_with (Inl (Some ''invalid session_id''))
                  | Some target \<Rightarrow>
                      and_then (read_tenant_filter who)
                        (\<lambda>f. done_with (Inr \<lparr> qp_principal = who, qp_target = target, qp_filter = f \<rparr>)))))"

text \<open>
  What the loop of a connection sees: an event of the broadcast channel (and whether the link takes it), a gap
  in it, its end; a command stream with the time since the handshake, its bytes and whether the reply can be
  written; the end of the connection.
\<close>

datatype quic_input =
    QuicEvent timeline_event bool
  | QuicLagged u64
  | QuicChannelClosed
  | QuicCommand int "byte list" bool
  | QuicAcceptError

datatype quic_output =
    SentEvent timeline_event
  | SentAck command_ack
  | ClosedConn nat string

definition quic_wants :: "quic_peer \<Rightarrow> timeline_event \<Rightarrow> bool" where
  "quic_wants p e \<longleftrightarrow>
     (ev_session_id e = qp_target p \<or> ev_session_id e = None) \<and> tenant_allows (qp_filter p) e"

text \<open>\<^verbatim>\<open>send_quic_event\<close> and the reply: a frame that is too large is not sent.\<close>

definition send_quic_event :: "quic_codec \<Rightarrow> timeline_event \<Rightarrow> bool \<Rightarrow> bool" where
  "send_quic_event q e link = (link \<and> is_ok (write_len_prefixed_payload (qc_event q e)))"

text \<open>\<^verbatim>\<open>unwrap_or_else\<close>: an error becomes a refusal with its message.\<close>

definition ack_or_refuse :: "command_ack task \<Rightarrow> command_ack task" where
  "ack_or_refuse t w s =
     (case t w s of (Inl e, s') \<Rightarrow> (Inr (refused_ack (api_message e)), s') | (Inr a, s') \<Rightarrow> (Inr a, s'))"

definition answer_quic_command ::
  "quic_codec \<Rightarrow> codec \<Rightarrow> quic_peer \<Rightarrow> int \<Rightarrow> byte list \<Rightarrow> command_ack task" where
  "answer_quic_command q cd p elapsed stream =
     (if quic_session_ttl < elapsed then done_with (refused_ack ''session expired: please reconnect'')
      else case read_len_prefixed_payload stream of
        Inl e \<Rightarrow> done_with (refused_ack ''invalid QUIC command frame: {e}'')
      | Inr buf \<Rightarrow> ack_or_refuse (dispatch_quic_command q cd (qp_target p) (qp_principal p) buf))"

fun quic_loop :: "quic_codec \<Rightarrow> codec \<Rightarrow> quic_peer \<Rightarrow> quic_input list \<Rightarrow> quic_output list task" where
  "quic_loop q cd p [] = done_with []"
| "quic_loop q cd p (QuicEvent e link # ins) =
     (if quic_wants p e
      then if send_quic_event q e link
           then and_then (quic_loop q cd p ins) (\<lambda>outs. done_with (SentEvent e # outs))
           else done_with [ClosedConn 0 ''done'']
      else quic_loop q cd p ins)"
| "quic_loop q cd p (QuicLagged n # ins) = quic_loop q cd p ins"
| "quic_loop q cd p (QuicChannelClosed # ins) = done_with [ClosedConn 0 ''done'']"
| "quic_loop q cd p (QuicCommand elapsed stream link # ins) =
     and_then (answer_quic_command q cd p elapsed stream)
       (\<lambda>ack. and_then (quic_loop q cd p ins)
          (\<lambda>outs. done_with
             (if link \<and> is_ok (write_len_prefixed_payload (qc_ack q ack)) then SentAck ack # outs else outs)))"
| "quic_loop q cd p (QuicAcceptError # ins) = done_with [ClosedConn 0 ''done'']"

definition handle_quic_connection ::
  "quic_codec \<Rightarrow> codec \<Rightarrow> hash \<Rightarrow> byte list anyhow \<Rightarrow> quic_input list \<Rightarrow> quic_output list task" where
  "handle_quic_connection q cd sha auth_stream ins =
     and_then (quic_handshake q sha auth_stream)
       (\<lambda>res. case res of
          Inl None \<Rightarrow> done_with []
        | Inl (Some reason) \<Rightarrow> done_with [ClosedConn 1 reason]
        | Inr p \<Rightarrow> quic_loop q cd p ins)"

section \<open>Frames there and back\<close>

lemma unat_byte: "unat (of_nat n :: byte) = n mod 256"
  by (simp add: unsigned_of_nat take_bit_eq_mod)

lemma u32_le_roundtrip:
  assumes "n < 2 ^ 32"
  shows "u32_from_le_bytes (u32_to_le_bytes n) = n"
proof -
  let ?c = "n div 256 div 256 div 256"
  have quot: "n div 65536 = n div 256 div 256" "n div 16777216 = ?c" by (simp_all flip: div_mult2_eq)
  have "?c < 256" using assms by (simp flip: div_mult2_eq add: less_mult_imp_div_less)
  then have "?c mod 256 = ?c" by (rule mod_less)
  moreover have "x mod 256 + 256 * (x div 256) = x" for x :: nat by (rule mod_mult_div_eq)
  ultimately show ?thesis
    unfolding u32_to_le_bytes_def u32_from_le_bytes.simps unat_byte quot by (simp only: mult_0_right add_0_right)
qed

lemma quic_frame_roundtrip:
  assumes "write_len_prefixed_payload buf = Inr frame"
  shows "read_len_prefixed_payload (frame @ rest) = Inr buf"
proof -
  have small: "length buf \<le> max_quic_frame_bytes" and frame: "frame = u32_to_le_bytes (length buf) @ buf"
    using assms by (auto simp: write_len_prefixed_payload_def split: if_splits)
  then have "length buf < 2 ^ 32" by (simp add: max_quic_frame_bytes_def)
  then have "u32_from_le_bytes (u32_to_le_bytes (length buf)) = length buf" by (rule u32_le_roundtrip)
  with small frame show ?thesis
    by (simp add: read_len_prefixed_payload_def Let_def u32_to_le_bytes_def)
qed

text \<open>No frame makes the reader hold more than the limit.\<close>

lemma quic_frame_bounded: "read_len_prefixed_payload stream = Inr buf \<Longrightarrow> length buf \<le> max_quic_frame_bytes"
  by (auto simp: read_len_prefixed_payload_def Let_def split: if_splits)

section \<open>A connection makes good steps only\<close>

lemma keeps_authenticate_quic [keeps_intros]: "consistent.keeps (authenticate_quic_token sha token)"
  unfolding authenticate_quic_token_def
  by (intro keeps_intros) (simp add: split_beta good_step_op [OF op_authenticate])

lemma keeps_dispatch_runner_session_command [keeps_intros]:
  "consistent.keeps (dispatch_runner_session_command cd sid req)"
  unfolding dispatch_runner_session_command_def by (intro keeps_intros) simp_all

lemma keeps_dispatch_approval_decision [keeps_intros]:
  "consistent.keeps (dispatch_approval_decision cd target aid req)"
proof -
  have plan: "consistent.triple (\<lambda>_. True) (read_registry (\<lambda>now ids r.
         bind_result (get_approval r aid) (\<lambda>a.
           if is_some_and (\<lambda>sid. ap_session_id a \<noteq> sid) target
           then Inl (Internal ''approval {approval_id} does not belong to the authenticated QUIC session'')
           else plan_approval_decision (now 0) aid req r))) decision_plan_ok"
    by (rule consistent.triple_read)
      (auto simp: bind_result_def registry_inv_def intro: plan_decision_ok split: sum.splits if_splits)
  have commit: "consistent.triple (decision_plan_ok pn) (write_registry (\<lambda>now ids. commit_planned_approval_decision pn)) (\<lambda>_ _. True)" for pn
    by (rule consistent.triple_write) (simp_all add: good_step_commit_decision)
  show ?thesis
    unfolding dispatch_approval_decision_def
    by (rule consistent.triple_and_then [OF plan consistent.triple_and_then [OF triple_relay_decision consistent.triple_and_then [OF commit]]])
      (auto intro!: keeps_intros)
qed

lemma keeps_verify [keeps_intros]: "consistent.keeps (verify_session_tenant_access sid who)"
  unfolding verify_session_tenant_access_def by (intro keeps_intros)

lemma keeps_dispatch_quic_command [keeps_intros]: "consistent.keeps (dispatch_quic_command q cd target who payload)"
  unfolding dispatch_quic_command_def dispatch_session_bound_def
  by (auto split: option.split transport_command.split intro!: keeps_intros)

lemma keeps_ack_or_refuse [keeps_intros]:
  assumes "consistent.keeps t" shows "consistent.keeps (ack_or_refuse t)"
proof (rule consistent.tripleI)
  fix w sv n res sv' n'
  assume w: "consistent.env_ok w" and inv: "registry_inv (sv_registry sv)"
    and run: "ack_or_refuse t w (sv, n) = (res, sv', n')"
  obtain res1 where t: "t w (sv, n) = (res1, sv', n')"
    using run by (cases "t w (sv, n)") (auto simp: ack_or_refuse_def split: sum.splits)
  from consistent.tripleD(1) [OF assms w inv _ t]
  show "good_step (sv_registry sv) (sv_registry sv') \<and> (\<forall>x. res = Inr x \<longrightarrow> True)" by simp
qed

lemma keeps_quic_loop [keeps_intros]: "consistent.keeps (quic_loop q cd p ins)"
  by (induction q cd p ins rule: quic_loop.induct)
    (auto simp: answer_quic_command_def split: sum.split intro!: keeps_intros)

lemma keeps_read_tenant_filter [keeps_intros]: "consistent.keeps (read_tenant_filter who)"
  unfolding read_tenant_filter_def by (intro keeps_intros)

lemma keeps_quic_handshake [keeps_intros]: "consistent.keeps (quic_handshake q sha auth_stream)"
  unfolding quic_handshake_def by (intro keeps_intros)

lemma keeps_handle_quic_connection: "consistent.keeps (handle_quic_connection q cd sha auth_stream ins)"
  unfolding handle_quic_connection_def
  by (rule consistent.keeps_and_then [OF keeps_quic_handshake]) (auto split: sum.split option.split intro!: keeps_intros)

section \<open>What a connection sends\<close>

text \<open>The loop of a connection never fails as a whole.\<close>

lemma ack_or_refuse_run: "\<exists>a s'. ack_or_refuse t w s = (Inr a, s')"
  by (simp add: ack_or_refuse_def split: prod.split sum.split)

lemma answer_quic_command_run: "\<exists>a s'. answer_quic_command q cd p elapsed stream w s = (Inr a, s')"
  using ack_or_refuse_run by (auto simp: answer_quic_command_def done_with_def split: sum.split)

lemma answer_expired:
  "quic_session_ttl < elapsed \<Longrightarrow> answer_quic_command q cd p elapsed stream w s = (Inr a, s') \<Longrightarrow>
     \<not> ck_accepted a \<and> s' = s"
  by (auto simp: answer_quic_command_def done_with_def refused_ack_def)

text \<open>
  What an input of the loop leads to. An event of the bound session, or of none, is sent or, if it cannot
  be sent, ends the connection; other events are skipped. A command has an acknowledgement, written if the
  link takes it and it fits a frame; for a command that comes after the lifetime of the connection it is
  the refusal.
\<close>

fun quic_explains :: "quic_codec \<Rightarrow> uuid option \<Rightarrow> quic_input \<Rightarrow> quic_output option \<Rightarrow> bool" where
  "quic_explains q target (QuicEvent e link) x =
     (if ev_session_id e = target \<or> ev_session_id e = None
      then x = Some (SentEvent e) \<or> x = Some (ClosedConn 0 ''done'') else x = None)"
| "quic_explains q target (QuicLagged n) x = (x = None)"
| "quic_explains q target QuicChannelClosed x = (x = Some (ClosedConn 0 ''done''))"
| "quic_explains q target (QuicCommand elapsed stream link) x =
     (\<exists>a. x = (if link \<and> is_ok (write_len_prefixed_payload (qc_ack q a)) then Some (SentAck a) else None)
        \<and> (quic_session_ttl < elapsed \<longrightarrow> a = refused_ack ''session expired: please reconnect''))"
| "quic_explains q target QuicAcceptError x = (x = Some (ClosedConn 0 ''done''))"

definition quic_sent_ok :: "quic_codec \<Rightarrow> uuid option \<Rightarrow> quic_input list \<Rightarrow> quic_output list \<Rightarrow> bool" where
  "quic_sent_ok q target ins outs \<longleftrightarrow>
     (\<exists>xs. length xs \<le> length ins \<and> list_all2 (quic_explains q target) (take (length xs) ins) xs
        \<and> outs = filter_map (\<lambda>x. x) xs
        \<and> (length xs < length ins \<longrightarrow> xs \<noteq> [] \<and> last xs = Some (ClosedConn 0 ''done'')))"

lemma quic_sent_ok_step:
  assumes "quic_explains q target i x" "quic_sent_ok q target ins outs"
  shows "quic_sent_ok q target (i # ins) (case x of None \<Rightarrow> outs | Some y \<Rightarrow> y # outs)"
proof -
  obtain xs where xs: "length xs \<le> length ins" "list_all2 (quic_explains q target) (take (length xs) ins) xs"
    "outs = filter_map (\<lambda>x. x) xs" "length xs < length ins \<longrightarrow> xs \<noteq> [] \<and> last xs = Some (ClosedConn 0 ''done'')"
    using assms(2) by (auto simp: quic_sent_ok_def)
  with assms(1) show ?thesis
    unfolding quic_sent_ok_def by (intro exI [of _ "x # xs"]) (auto simp: filter_map_def split: option.split)
qed

lemma quic_sent_ok_stop:
  "quic_explains q target i (Some (ClosedConn 0 ''done'')) \<Longrightarrow> quic_sent_ok q target (i # ins) [ClosedConn 0 ''done'']"
  unfolding quic_sent_ok_def by (intro exI [of _ "[Some (ClosedConn 0 ''done'')]"]) (simp add: filter_map_def)

lemma quic_loop_sends:
  "qp_filter p = None \<Longrightarrow>
     \<exists>outs s'. quic_loop q cd p ins w s = (Inr outs, s') \<and> quic_sent_ok q (qp_target p) ins outs"
proof (induction q cd p ins arbitrary: s rule: quic_loop.induct)
  case (1 q cd p)
  show ?case by (simp add: done_with_def quic_sent_ok_def filter_map_def)
next
  case (2 q cd p e link ins)
  have wants: "quic_wants p e \<longleftrightarrow> ev_session_id e = qp_target p \<or> ev_session_id e = None"
    using "2.prems" by (simp add: quic_wants_def tenant_allows_def)
  show ?case
  proof (cases "quic_wants p e")
    case True
    show ?thesis
    proof (cases "send_quic_event q e link")
      case sends: True
      obtain outs s' where "quic_loop q cd p ins w s = (Inr outs, s')" "quic_sent_ok q (qp_target p) ins outs"
        using "2.IH"(1) True sends "2.prems" by blast
      moreover from this True have "quic_sent_ok q (qp_target p) (QuicEvent e link # ins) (SentEvent e # outs)"
        using quic_sent_ok_step [of q "qp_target p" "QuicEvent e link" "Some (SentEvent e)" ins outs]
        by (simp add: wants)
      ultimately show ?thesis using True sends by (simp add: and_then_def done_with_def)
    next
      case False
      with True show ?thesis by (simp add: done_with_def quic_sent_ok_stop wants)
    qed
  next
    case False
    then obtain outs s' where "quic_loop q cd p ins w s = (Inr outs, s')" "quic_sent_ok q (qp_target p) ins outs"
      using "2.IH"(2) "2.prems" by blast
    with False quic_sent_ok_step [of q "qp_target p" "QuicEvent e link" None ins outs] show ?thesis
      by (auto simp: wants)
  qed
next
  case (3 q cd p n ins)
  then obtain outs s' where "quic_loop q cd p ins w s = (Inr outs, s')" "quic_sent_ok q (qp_target p) ins outs" by blast
  with quic_sent_ok_step [of q "qp_target p" "QuicLagged n" None ins outs] show ?case by simp
next
  case (5 q cd p elapsed stream link ins)
  obtain a s1 where a: "answer_quic_command q cd p elapsed stream w s = (Inr a, s1)"
    using answer_quic_command_run by blast
  obtain outs s' where run: "quic_loop q cd p ins w s1 = (Inr outs, s')" and ok: "quic_sent_ok q (qp_target p) ins outs"
    using "5.IH" "5.prems" by blast
  let ?x = "if link \<and> is_ok (write_len_prefixed_payload (qc_ack q a)) then Some (SentAck a) else None"
  have "quic_explains q (qp_target p) (QuicCommand elapsed stream link) ?x"
    using a by (auto simp: answer_quic_command_def done_with_def)
  from quic_sent_ok_step [OF this ok] show ?case using a run by (auto simp: and_then_def done_with_def split: if_splits)
qed (simp_all add: done_with_def quic_sent_ok_stop)

text \<open>Who gets in: a holder of the shared token, or of the access token of a device; never a user key.\<close>

definition quic_admits :: "hash \<Rightarrow> instant \<Rightarrow> rstring \<Rightarrow> service \<Rightarrow> auth_principal \<Rightarrow> bool" where
  "quic_admits sha now token sv who \<longleftrightarrow>
     (case who of
        SharedToken \<Rightarrow> is_some_and (\<lambda>expected. sha token = sha expected) (cfg_auth_token (sv_auth sv))
      | Device d \<Rightarrow> fst (authenticate_device_token sha now token (sv_registry sv)) = Some (d, True)
      | User _ \<Rightarrow> False)"

lemma authenticate_quic_token_run:
  "\<exists>found s'. authenticate_quic_token sha token w (sv, n) = (Inr found, s')
     \<and> is_none_or (quic_admits sha (w_now w n 0) token (w_env w n sv)) found"
proof (cases "authenticate_device_token sha (w_now w n 0) token (sv_registry (w_env w n sv))")
  case (Pair found r)
  then show ?thesis
    by (auto simp: authenticate_quic_token_def section_on_def quic_admits_def constant_time_value_eq_def
        split: option.split bool.split)
qed

lemma quic_handshake_run:
  "\<exists>res s'. quic_handshake q sha auth_stream w (sv, n) = (Inr res, s')
     \<and> (\<forall>p. res = Inr p \<longrightarrow> (\<exists>auth. quic_auth_of q auth_stream = Some auth \<and> quic_target q auth = Some (qp_target p)
          \<and> quic_admits sha (w_now w n 0) (qa_token auth) (w_env w n sv) (qp_principal p) \<and> qp_filter p = None))"
proof (cases "quic_auth_of q auth_stream")
  case None
  then show ?thesis by (simp add: quic_handshake_def done_with_def)
next
  case (Some auth)
  obtain found sv1 n1 where run: "authenticate_quic_token sha (qa_token auth) w (sv, n) = (Inr found, sv1, n1)"
    and ok: "is_none_or (quic_admits sha (w_now w n 0) (qa_token auth) (w_env w n sv)) found"
    using authenticate_quic_token_run [of sha "qa_token auth" w sv n] by auto
  have nofilter: "read_tenant_filter who w (sv1, n1) = (Inr None, w_env w n1 sv1, Suc n1)"
    if "quic_admits sha (w_now w n 0) (qa_token auth) (w_env w n sv) who" for who
    using that by (cases who) (simp_all add: quic_admits_def read_tenant_filter_def read_registry_def read_service_def
        section_on_def user_id_from_principal_def tenant_filter_from_registry_def)
  show ?thesis
    using Some run ok nofilter
    by (cases found) (auto simp: quic_handshake_def and_then_def done_with_def split: option.split)
qed

definition quic_sent :: "quic_output \<Rightarrow> bool" where
  "quic_sent x \<longleftrightarrow> (case x of ClosedConn _ _ \<Rightarrow> False | _ \<Rightarrow> True)"

lemma handle_quic_connection_sends:
  "\<exists>outs sv' n'. handle_quic_connection q cd sha auth_stream ins w (sv, n) = (Inr outs, sv', n')
     \<and> ((\<exists>auth who target. quic_auth_of q auth_stream = Some auth \<and> quic_target q auth = Some target
          \<and> quic_admits sha (w_now w n 0) (qa_token auth) (w_env w n sv) who \<and> quic_sent_ok q target ins outs)
        \<or> (\<forall>x \<in> set outs. \<not> quic_sent x))"
proof -
  obtain res sv1 n1 where run: "quic_handshake q sha auth_stream w (sv, n) = (Inr res, sv1, n1)"
    and peer: "\<And>p. res = Inr p \<Longrightarrow> \<exists>auth. quic_auth_of q auth_stream = Some auth \<and> quic_target q auth = Some (qp_target p)
          \<and> quic_admits sha (w_now w n 0) (qa_token auth) (w_env w n sv) (qp_principal p) \<and> qp_filter p = None"
    using quic_handshake_run [of q sha auth_stream w sv n] by (metis prod.collapse)
  show ?thesis
  proof (cases res)
    case (Inl reason)
    then show ?thesis using run
      by (cases reason) (auto simp: handle_quic_connection_def and_then_def done_with_def quic_sent_def)
  next
    case (Inr p)
    obtain outs sv' n' where "quic_loop q cd p ins w (sv1, n1) = (Inr outs, sv', n')" "quic_sent_ok q (qp_target p) ins outs"
      using quic_loop_sends [of p q cd ins w "(sv1, n1)"] peer [OF Inr] by auto
    moreover from this run Inr have "handle_quic_connection q cd sha auth_stream ins w (sv, n) = (Inr outs, sv', n')"
      by (simp add: handle_quic_connection_def and_then_def)
    ultimately show ?thesis using peer [OF Inr] by blast
  qed
qed


definition demo_quic :: quic_codec where
  "demo_quic = \<lparr> qc_auth = (\<lambda>_. Some \<lparr> qa_token = [9], qa_session_id = [] \<rparr>), qc_command = (\<lambda>_. None), qc_uuid = (\<lambda>_. None),
     qc_event = (\<lambda>_. []), qc_ack = (\<lambda>_. []) \<rparr>"

definition demo_quic_event :: timeline_event where
  "demo_quic_event = \<lparr> ev_sequence = 1, ev_recorded_at = 0, ev_runner_id = None, ev_session_id = None,
     ev_detail = EvRunnerHeartbeat Idle 0 0 0 \<rparr>"

definition demo_quic_service :: service where
  "demo_quic_service = wit_service\<lparr>sv_registry := registry_default,
     sv_auth := (sv_auth wit_service)\<lparr>cfg_auth_token := Some [9]\<rparr>\<rparr>"


text \<open>
  An open connection is not re-authenticated: who it belongs to makes no difference to its commands, so the
  revocation of a device does not reach the connections the device has open until they expire.
\<close>

lemma quic_principal_irrelevant:
  "principal_user_id who = None \<Longrightarrow> dispatch_quic_command q cd target who payload = dispatch_quic_command q cd target SharedToken payload"
  by (simp add: dispatch_quic_command_def dispatch_session_bound_def verify_session_tenant_access_def
      cong: option.case_cong transport_command.case_cong)


section \<open>The same effect as over HTTP\<close>

text \<open>
  Two tasks have the same effect from two starting points: both succeed or both fail, and they leave the same
  registry and the same timeline. What is written to the database may differ.
\<close>

definition same_effect :: "world \<Rightarrow> 'a task \<Rightarrow> service \<times> nat \<Rightarrow> 'b task \<Rightarrow> service \<times> nat \<Rightarrow> bool" where
  "same_effect w t s u s' \<longleftrightarrow>
     (case (t w s, u w s') of ((x, sv1, _), (y, sv2, _)) \<Rightarrow>
        is_ok x = is_ok y \<and> sv_registry sv1 = sv_registry sv2 \<and> sv_timeline sv1 = sv_timeline sv2)"

lemma same_effect_refl [simp]: "same_effect w t s t s"
  by (simp add: same_effect_def split: prod.split)

lemma same_effect_and_then:
  assumes "\<And>x s'. same_effect w (k x) s' (j x) s'"
  shows "same_effect w (and_then t k) s (and_then t j) s"
proof -
  obtain x s' where "t w s = (x, s')" by (cases "t w s") blast
  then show ?thesis using assms [of _ s'] by (cases x) (auto simp: same_effect_def and_then_def split: prod.splits)
qed

lemma same_effect_prod:
  "(\<And>a b. same_effect w (k a b) s (j a b) s) \<Longrightarrow>
     same_effect w (case x of (a, b) \<Rightarrow> k a b) s (case x of (a, b) \<Rightarrow> j a b) s"
  by (cases x) simp

lemma persist_effect [simp]: "sv_registry (persist_state cd sv) = sv_registry sv" "sv_timeline (persist_state cd sv) = sv_timeline sv"
  by (simp_all add: persist_state_def store_snapshot_def)

lemma same_effect_persist:
  "quiet w \<Longrightarrow> same_effect w (persist_state_logged cd) s (done_with x) s"
  by (cases s) (simp add: same_effect_def quiet_persist done_with_def)

lemma get_session_no_user [simp]: "get_session_for_user r sid None = get_session r sid"
  by (simp add: get_session_for_user_def session_visible_to_def bind_result_def get_session_def split: option.split)

lemma session_command_effect:
  assumes "quiet w" "principal_user_id who = None"
  shows "same_effect w (dispatch_runner_session_command cd sid req) (sv, Suc n) (post_session_command cd who sid req) (sv, n)"
  using assms
  by (auto simp: same_effect_def dispatch_runner_session_command_def post_session_command_def and_then_def read_registry_def
      quiet_read quiet_write quiet_persist user_id_from_principal_def bind_result_def get_session_def ignore_result_def
      done_with_def fail_with_def remote_call_def split: sum.splits option.splits prod.splits if_splits)

text \<open>The read sections of the two decision handlers plan the same change.\<close>

lemma decision_read_agrees:
  assumes "registry_inv r" "principal_user_id who = None"
    and "\<And>a. bm_get (approvals r) aid = Some a \<Longrightarrow> is_none_or (\<lambda>sid. sid = ap_session_id a) target"
  shows "bind_result (get_approval r aid) (\<lambda>a.
           if is_some_and (\<lambda>sid. ap_session_id a \<noteq> sid) target
           then Inl (Internal ''approval {approval_id} does not belong to the authenticated QUIC session'')
           else plan_approval_decision now aid req r)
       = bind_result (get_approval r aid) (\<lambda>a.
           bind_result (get_session_for_user r (ap_session_id a) (user_id_from_principal who)) (\<lambda>_.
             plan_approval_decision now aid req r))"
proof (cases "bm_get (approvals r) aid")
  case (Some a)
  then have "bm_get (sessions r) (ap_session_id a) \<noteq> None"
    using assms(1) by (auto simp: registry_inv_def work_inv_def approval_inv_def)
  then show ?thesis using Some assms(2) assms(3) [OF Some]
    by (cases target) (auto simp: get_approval_def get_session_def bind_result_def user_id_from_principal_def)
qed (simp add: get_approval_def bind_result_def)

lemma approval_decision_effect:
  assumes quiet: "quiet w" and "registry_inv (sv_registry sv)" "principal_user_id who = None"
    and "\<And>a. bm_get (approvals (sv_registry sv)) aid = Some a \<Longrightarrow> is_none_or (\<lambda>sid. sid = ap_session_id a) target"
  shows "same_effect w (dispatch_approval_decision cd target aid req) (sv, n) (apply_approval_decision cd who aid req) (sv, n)"
proof -
  let ?f = "\<lambda>now ids r. bind_result (get_approval r aid) (\<lambda>a.
           if is_some_and (\<lambda>sid. ap_session_id a \<noteq> sid) target
           then Inl (Internal ''approval {approval_id} does not belong to the authenticated QUIC session'')
           else plan_approval_decision (now 0) aid req r)"
  let ?g = "\<lambda>now ids r. bind_result (get_approval r aid) (\<lambda>a.
           bind_result (get_session_for_user r (ap_session_id a) (user_id_from_principal who)) (\<lambda>_.
             plan_approval_decision (now 0) aid req r))"
  have same_plan: "read_registry ?f w (sv, n) = read_registry ?g w (sv, n)"
    unfolding read_registry_def quiet_read [OF quiet] by (subst decision_read_agrees [OF assms(2-4)]) simp_all
  have swap: "same_effect w (and_then (read_registry ?f) k) (sv, n) (and_then (read_registry ?g) j) (sv, n)"
    if "\<And>x s. same_effect w (k x) s (j x) s" for k :: "_ \<Rightarrow> unit task" and j :: "_ \<Rightarrow> approval_request_record task"
    using same_effect_and_then [where t = "read_registry ?g" and s = "(sv, n)", OF that]
    by (simp add: same_effect_def and_then_def same_plan)
  have tail: "same_effect w
      (and_then (if queued
           then (case decision_relay_request a of
                   None \<Rightarrow> fail_with (Internal ''approval {approval_id} remained pending during decision dispatch'')
                 | Some dreq \<Rightarrow> ignore_result (t dreq))
           else done_with ()) (\<lambda>_. persist_state_logged cd)) s
      (if queued
       then (case decision_relay_request a of
               None \<Rightarrow> fail_with (Internal ''approval {approval_id} remained pending after commit'')
             | Some dreq \<Rightarrow> and_then (t dreq) (\<lambda>_. and_then (persist_state_logged cd) (\<lambda>_. done_with a)))
       else done_with a) s" for queued a s and t :: "approval_decision_request \<Rightarrow> runner_queued_command task"
  proof (cases "queued \<and> decision_relay_request a \<noteq> None")
    case True
    then obtain dreq where dreq: "decision_relay_request a = Some dreq" by auto
    obtain x sv1 n1 where "t dreq w s = (x, sv1, n1)" by (cases "t dreq w s")
    with quiet True dreq show ?thesis
      by (cases x) (simp_all add: same_effect_def ignore_result_def and_then_def done_with_def quiet_persist)
  next
    case False
    with quiet show ?thesis
      by (cases s; cases queued) (auto simp: same_effect_def and_then_def done_with_def fail_with_def quiet_persist)
  qed
  show ?thesis
    unfolding dispatch_approval_decision_def apply_approval_decision_def
    by (rule swap, intro same_effect_and_then same_effect_prod tail)
qed

lemma same_effect_then_done:
  assumes "same_effect w t s u s'"
  shows "same_effect w (and_then t (\<lambda>_. done_with x)) s u s'"
proof -
  obtain y sv1 n1 where "t w s = (y, sv1, n1)" by (cases "t w s")
  with assms show ?thesis by (cases y) (auto simp: same_effect_def and_then_def done_with_def)
qed

lemma bound_command_effect:
  assumes "quiet w" "principal_user_id who = None"
  shows "same_effect w (dispatch_session_bound cd (Some sid) who unbound req) (sv, Suc n) (post_session_command cd who sid req) (sv, n)"
proof -
  have "dispatch_session_bound cd (Some sid) who unbound req
      = and_then (dispatch_runner_session_command cd sid req) (\<lambda>_. done_with queued_ack)"
    using assms(2) by (intro ext) (simp add: dispatch_session_bound_def verify_session_tenant_access_def and_then_def done_with_def)
  then show ?thesis using same_effect_then_done [OF session_command_effect [OF assms]] by simp
qed

text \<open>
  C32. A command given over QUIC does what the same request does over HTTP. Without interference, for a caller
  that is not confined to a tenant, a prompt or an interrupt for the bound session, and a decision on an
  approval of that session (or of any session, when the connection names none), succeeds exactly when the HTTP
  handler succeeds and leaves the same registry, with the same queued commands, and the same timeline. (A prompt over
  HTTP reads the registry once more, so its run starts one section earlier.)
\<close>

theorem quic_agrees_with_http:
  assumes "quiet w" "registry_inv (sv_registry sv)" "principal_user_id who = None"
  shows "(qc_command q payload = Some (TcSendPrompt content) \<longrightarrow>
            same_effect w (dispatch_quic_command q cd (Some sid) who payload) (sv, Suc n)
              (post_session_command cd who sid (SendPrompt content)) (sv, n))
         \<and> (qc_command q payload = Some TcInterrupt \<longrightarrow>
            same_effect w (dispatch_quic_command q cd (Some sid) who payload) (sv, Suc n)
              (post_session_command cd who sid Interrupt) (sv, n))
         \<and> (qc_command q payload = Some (TcRespondToApproval raw decision note) \<longrightarrow> qc_uuid q raw = Some aid \<longrightarrow>
            (\<forall>a. bm_get (approvals (sv_registry sv)) aid = Some a \<longrightarrow> is_none_or (\<lambda>s. s = ap_session_id a) target) \<longrightarrow>
            same_effect w (dispatch_quic_command q cd target who payload) (sv, n)
              (apply_approval_decision cd who aid
                 \<lparr> adr_decision = decision, adr_responder = Some (str ''remote-code-quic''), adr_note = note \<rparr>) (sv, n))"
  by (intro conjI impI)
    (simp_all add: dispatch_quic_command_def bound_command_effect [OF assms(1,3)]
      same_effect_then_done [OF approval_decision_effect [OF assms]])

definition demo_quic_prompt :: quic_codec where
  "demo_quic_prompt = demo_quic\<lparr>qc_command := (\<lambda>_. Some (TcSendPrompt [65]))\<rparr>"

theorem quic_agrees_with_http_witness:
  "qc_command demo_quic_prompt [1] = Some (TcSendPrompt [65])
   \<and> same_effect wit_world (dispatch_quic_command demo_quic_prompt (wit_codec wit_service) (Some 3) SharedToken [1]) (wit_waiting, 1)
       (post_session_command (wit_codec wit_service) SharedToken 3 (SendPrompt [65])) (wit_waiting, 0)"
proof -
  have q: "quiet wit_world" by (simp add: quiet_def wit_world_def)
  have c: "qc_command demo_quic_prompt [1] = Some (TcSendPrompt [65])" by (simp add: demo_quic_prompt_def)
  have "principal_user_id SharedToken = None" by simp
  from quic_agrees_with_http [OF q wit_waiting_inv this] c show ?thesis by fastforce
qed

section \<open>The client\<close>

text \<open>
  The network of the client: what the native certificate roots, binding a socket, dialling an address under a
  server name (with the time it took), and writing a frame give; and, for a command, what the peer answers.
\<close>

record quic_network =
  qn_roots :: "unit anyhow"
  qn_bind :: "unit anyhow"
  qn_dial :: "socket_addr \<Rightarrow> rstring \<Rightarrow> tls_verifier \<Rightarrow> nat anyhow"
  qn_uni :: "byte list \<Rightarrow> unit anyhow"
  qn_bi :: "byte list \<Rightarrow> byte list anyhow"
  qn_enc_auth :: "quic_auth_message \<Rightarrow> byte list"
  qn_enc_command :: "transport_command \<Rightarrow> byte list"
  qn_dec_ack :: "byte list \<Rightarrow> command_ack option"
  qn_dec_event :: "byte list \<Rightarrow> transport_event option"

record quic_transport =
  qt_state :: connection_state
  qt_config :: "transport_config option"
  qt_metrics :: transport_metrics
  qt_events_open :: bool
  qt_connected :: bool
  qt_cancelled :: bool
  qt_dialled :: "(socket_addr \<times> tls_verifier) list"

text \<open>The last field is a trace: the servers to which a connection was tried, and how they were to be verified.\<close>

definition quic_transport_new :: quic_transport where
  "quic_transport_new = \<lparr> qt_state = Disconnected, qt_config = None, qt_metrics = metrics_default, qt_events_open = False,
     qt_connected = False, qt_cancelled = False, qt_dialled = [] \<rparr>"

definition strip_quic_scheme :: "rstring \<Rightarrow> rstring" where
  "strip_quic_scheme url =
     unwrap_or url (or_else (strip_prefix (str ''quic://'') url) (strip_prefix (str ''https://'') url))"

definition parse_quic_addr :: "rstring \<Rightarrow> socket_addr anyhow" where
  "parse_quic_addr url =
     (case parse_socket_addr (strip_quic_scheme url) of
        Inl _ \<Rightarrow> Inl ''invalid QUIC address: {url}'' | Inr a \<Rightarrow> Inr a)"

definition extract_server_name :: "rstring \<Rightarrow> rstring" where
  "extract_server_name url = hd (split_on 58 (strip_quic_scheme url))"

definition quic_tls_config :: "rstring option \<Rightarrow> tls_config" where
  "quic_tls_config cert_fp =
     \<lparr> tls_accept_self_signed = (cert_fp \<noteq> None),
       tls_cert_fingerprints = (case cert_fp of None \<Rightarrow> [] | Some fp \<Rightarrow> [fp]), tls_enforce_https = False \<rparr>"

text \<open>Writing an authentication frame: a payload that is too large is refused before the stream is opened.\<close>

definition quic_send_auth :: "quic_network \<Rightarrow> transport_config \<Rightarrow> unit anyhow" where
  "quic_send_auth nw cfg =
     bind_result (write_len_prefixed_payload
         (qn_enc_auth nw \<lparr> qa_token = tc_auth_token cfg, qa_session_id = tc_session_id cfg \<rparr>))
       (qn_uni nw)"

definition quic_opened :: "u32 \<Rightarrow> bool \<Rightarrow> int \<Rightarrow> quic_transport \<Rightarrow> quic_transport" where
  "quic_opened latency is_reconnect now t =
     t\<lparr>qt_connected := True, qt_events_open := True,
       qt_metrics := (qt_metrics t)\<lparr>tm_reconnect_count := tm_reconnect_count (qt_metrics t) + (if is_reconnect then 1 else 0),
         tm_latency_ms := latency, tm_last_event_at := Some now\<rparr>,
       qt_state := Open ''quic'' latency\<rparr>"

definition quic_connect :: "quic_network \<Rightarrow> int \<Rightarrow> transport_config \<Rightarrow> quic_transport \<Rightarrow> unit anyhow \<times> quic_transport" where
  "quic_connect nw now cfg t =
     (case tc_strategy cfg of
        Quic url cert_fp \<Rightarrow>
          (let t1 = t\<lparr>qt_config := Some cfg, qt_state := Connecting\<rparr>
           in case parse_quic_addr url of
                Inl e \<Rightarrow> (Inl e, t1)
              | Inr addr \<Rightarrow>
                  if cert_fp = None \<and> \<not> is_loopback (sa_ip addr)
                  then (Inl ''QUIC requires a pinned server certificate fingerprint for non-loopback hosts'', t1)
                  else (case bind_result (build_client_tls_config (qn_roots nw) (quic_tls_config cert_fp))
                               (\<lambda>v. bind_result (qn_bind nw) (\<lambda>_. Inr v)) of
                          Inl e \<Rightarrow> (Inl e, t1)
                        | Inr v \<Rightarrow>
                            (let t2 = t1\<lparr>qt_dialled := qt_dialled t1 @ [(addr, v)]\<rparr>
                             in case qn_dial nw addr (extract_server_name url) v of
                                  Inl e \<Rightarrow> (Inl e, t2\<lparr>qt_state := ConnError e\<rparr>)
                                | Inr ms \<Rightarrow>
                                    (case quic_send_auth nw cfg of
                                       Inl e \<Rightarrow> (Inl e, t2)
                                     | Inr _ \<Rightarrow> (Inr (), quic_opened (of_nat ms) (qt_config t \<noteq> None) now t2)))))
      | _ \<Rightarrow> (Inl ''QuicTransport requires Quic strategy'', t))"

definition quic_send_command :: "quic_network \<Rightarrow> transport_command \<Rightarrow> quic_transport \<Rightarrow> command_ack anyhow \<times> quic_transport" where
  "quic_send_command nw c t =
     (if \<not> qt_connected t then (Inl ''not connected'', t)
      else let payload = qn_enc_command nw c
           in case bind_result (write_len_prefixed_payload payload) (qn_bi nw) of
                Inl e \<Rightarrow> (Inl e, t)
              | Inr received \<Rightarrow>
                  (let m = (qt_metrics t)\<lparr>tm_bytes_sent := tm_bytes_sent (qt_metrics t) + (of_nat (length payload) + 4)\<rparr>
                   in case read_len_prefixed_payload received of
                        Inl e \<Rightarrow> (Inl e, t\<lparr>qt_metrics := m\<rparr>)
                      | Inr buf \<Rightarrow>
                          (case qn_dec_ack nw buf of None \<Rightarrow> Inl ''invalid acknowledgement'' | Some a \<Rightarrow> Inr a,
                           t\<lparr>qt_metrics := m\<lparr>tm_bytes_received := tm_bytes_received m + (of_nat (length buf) + 4)\<rparr>\<rparr>)))"

definition quic_health_probe :: "quic_transport \<Rightarrow> health_status" where
  "quic_health_probe t =
     \<lparr> hl_endpoints = [\<lparr> eh_url = str ''quic://connection'', eh_reachable = qt_connected t,
         eh_latency_ms = Some (tm_latency_ms (qt_metrics t)), eh_auth_valid = qt_connected t,
         eh_error = (if qt_connected t then None else Some ''no QUIC connection'') \<rparr>],
       hl_recommended_strategy = (if qt_connected t then Some ''quic'' else None) \<rparr>"

definition quic_disconnect :: "quic_transport \<Rightarrow> quic_transport" where
  "quic_disconnect t = t\<lparr>qt_cancelled := True, qt_connected := False, qt_events_open := False, qt_state := Closed\<rparr>"

text \<open>
  The reader of events. It sees streams (with the time), a refusal of the connection, or a change of the cancel flag; the last
  argument of a stream says whether the receiver is still there.
\<close>

datatype reader_input = EventStream "byte list" int bool | ReaderError | CancelChanged bool

fun quic_event_reader ::
  "quic_network \<Rightarrow> reader_input list \<Rightarrow> transport_metrics \<Rightarrow> transport_event list \<times> transport_metrics" where
  "quic_event_reader nw [] m = ([], m)"
| "quic_event_reader nw (EventStream bs now receiving # ins) m =
     (case read_len_prefixed_payload bs of
        Inl _ \<Rightarrow> ([], m)
      | Inr buf \<Rightarrow>
          (case qn_dec_event nw buf of
             None \<Rightarrow> quic_event_reader nw ins m
           | Some e \<Rightarrow>
               (let m1 = m\<lparr>tm_events_received := tm_events_received m + 1,
                           tm_bytes_received := tm_bytes_received m + (of_nat (length buf) + 4),
                           tm_last_event_at := Some now\<rparr>
                in if \<not> receiving then ([], m1)
                   else case quic_event_reader nw ins m1 of (es, m2) \<Rightarrow> (e # es, m2))))"
| "quic_event_reader nw (ReaderError # ins) m = ([], m)"
| "quic_event_reader nw (CancelChanged cancelled # ins) m =
     (if cancelled then ([], m) else quic_event_reader nw ins m)"

text \<open>
  A client dials only a loopback address without a pinned certificate; anything else is verified against the
  pin alone.
\<close>

definition quic_dials_safely :: "quic_transport \<Rightarrow> bool" where
  "quic_dials_safely t \<longleftrightarrow> (\<forall>(addr, v) \<in> set (qt_dialled t). is_loopback (sa_ip addr) \<or> (\<exists>fp. v = Pinned [fp]))"

lemma quic_connect_dials_safely:
  "quic_dials_safely t \<Longrightarrow> quic_dials_safely (snd (quic_connect nw now cfg t))"
  by (auto simp: quic_connect_def quic_dials_safely_def Let_def quic_opened_def quic_tls_config_def
      build_client_tls_config_def bind_result_def split: transport_strategy.split sum.splits option.splits if_splits)

text \<open>Not every failure is seen in the state: after a bad address the transport looks like it is still connecting.\<close>

lemma quic_connect_bad_address:
  "tc_strategy cfg = Quic url fp \<Longrightarrow> parse_quic_addr url = Inl e \<Longrightarrow>
     fst (quic_connect nw now cfg t) = Inl e \<and> qt_state (snd (quic_connect nw now cfg t)) = Connecting"
  by (simp add: quic_connect_def Let_def)

text \<open>The server name taken from a bracketed IPv6 address is its opening bracket.\<close>

lemma ipv6_server_name: "extract_server_name (str ''quic://[::1]:443'') = str ''[''"
  by (simp add: extract_server_name_def strip_quic_scheme_def strip_prefix_def starts_with_def str_def)

text \<open>
  The two ends fit: the frame the client writes for a command is read back by the server as the payload, and
  the other way round for the acknowledgement.
\<close>

lemma quic_command_there_and_back:
  assumes "qt_connected t" "length (qn_enc_command nw c) \<le> max_quic_frame_bytes"
    and peer: "\<And>frame. qn_bi nw frame =
        bind_result (read_len_prefixed_payload frame) (\<lambda>buf. write_len_prefixed_payload (enc_ack (reply buf)))"
    and "length (enc_ack (reply (qn_enc_command nw c))) \<le> max_quic_frame_bytes"
    and "\<And>a. qn_dec_ack nw (enc_ack a) = Some a"
  shows "fst (quic_send_command nw c t) = Inr (reply (qn_enc_command nw c))"
proof -
  let ?payload = "qn_enc_command nw c"
  obtain frame received where f: "write_len_prefixed_payload ?payload = Inr frame"
    and a: "write_len_prefixed_payload (enc_ack (reply ?payload)) = Inr received"
    using assms(2,4) by (simp add: write_len_prefixed_payload_def)
  from quic_frame_roundtrip [OF f, of "[]"] quic_frame_roundtrip [OF a, of "[]"] f a assms(1,5) show ?thesis
    by (simp add: quic_send_command_def Let_def peer bind_result_def)
qed

end
