(* ===== verification/Roo_Approval.thy ===== *)
theory Roo_Approval
  imports Cp_Helpers
begin

text \<open>
  Which actions of an agent go ahead without asking (\<^verbatim>\<open>roo-auto-approval\<close>): the list of allowed and denied command
  prefixes, the splitting of a command line into its commands, the patterns that always need a person, the
  switches per kind of tool, and the limits on consecutive requests. Everything here is pure. Parameters are the
  Unicode tables (lower case, decimal digits), the JSON decoders of the \<^verbatim>\<open>text\<close> field and the comparison of
  floating-point costs.
\<close>

section \<open>Patterns\<close>

text \<open>
  The regular expressions of \<^verbatim>\<open>commands.rs\<close> are sequences of single characters of a class and of repetitions of a
  class; an alternative is a second sequence. \<^verbatim>\<open>is_match\<close> looks for a match anywhere.
\<close>

datatype re_item = One "rchar \<Rightarrow> bool" | Many "rchar \<Rightarrow> bool"

fun re_prefix :: "re_item list \<Rightarrow> rstring \<Rightarrow> bool" where
  "re_prefix [] s = True"
| "re_prefix (One P # r) [] = False"
| "re_prefix (One P # r) (c # s) = (P c \<and> re_prefix r s)"
| "re_prefix (Many P # r) [] = re_prefix r []"
| "re_prefix (Many P # r) (c # s) = (re_prefix r (c # s) \<or> P c \<and> re_prefix (Many P # r) s)"

fun re_is_match :: "re_item list \<Rightarrow> rstring \<Rightarrow> bool" where
  "re_is_match r [] = re_prefix r []"
| "re_is_match r (c # s) = (re_prefix r (c # s) \<or> re_is_match r s)"

definition lit :: "string \<Rightarrow> re_item list" where
  "lit s = map (\<lambda>c. One (\<lambda>d. d = c)) (str s)"

definition any_of :: "string \<Rightarrow> rchar \<Rightarrow> bool" where
  "any_of s c \<longleftrightarrow> c \<in> set (str s)"

definition none_of :: "string \<Rightarrow> rchar \<Rightarrow> bool" where
  "none_of s c \<longleftrightarrow> c \<notin> set (str s)"

definition hex_class :: "rchar \<Rightarrow> bool" where
  "hex_class c \<longleftrightarrow> 48 \<le> c \<and> c \<le> 57 \<or> 97 \<le> c \<and> c \<le> 102 \<or> 65 \<le> c \<and> c \<le> 70"

definition octal_class :: "rchar \<Rightarrow> bool" where
  "octal_class c \<longleftrightarrow> 48 \<le> c \<and> c \<le> 55"

abbreviation in_braces :: re_item where "in_braces \<equiv> Many (none_of ''}'')"

definition dangerous_parameter_expansion :: "re_item list" where
  "dangerous_parameter_expansion =
     lit ''${'' @ [in_braces] @ lit ''@'' @ [One (any_of ''PQEAa''), in_braces] @ lit ''}''"

definition parameter_assignment :: "re_item list \<Rightarrow> re_item list" where
  "parameter_assignment escape =
     lit ''${'' @ [in_braces, One (any_of ''=+-?''), in_braces] @ lit [CHR 0x5C] @ escape @ [in_braces] @ lit ''}''"

definition parameter_assignment_octal :: "re_item list" where
  "parameter_assignment_octal = parameter_assignment (replicate 3 (One octal_class))"

definition parameter_assignment_hex :: "re_item list" where
  "parameter_assignment_hex = parameter_assignment (lit ''x'' @ replicate 2 (One hex_class))"

definition parameter_assignment_unicode :: "re_item list" where
  "parameter_assignment_unicode = parameter_assignment (lit ''u'' @ replicate 4 (One hex_class))"

definition indirect_expansion :: "re_item list" where
  "indirect_expansion = lit ''${!'' @ [One (none_of ''}''), in_braces] @ lit ''}''"

definition here_string_with_substitution :: "string \<Rightarrow> re_item list" where
  "here_string_with_substitution opening = lit ''<<<'' @ [Many is_whitespace] @ lit opening"

definition zsh_substitution :: "re_item list" where
  "zsh_substitution = lit ''=('' @ [One (none_of '')''), Many (none_of '')'')] @ lit '')''"

text \<open>At the start, or after one of the characters that end a word.\<close>

definition zsh_process_substitution :: "rstring \<Rightarrow> bool" where
  "zsh_process_substitution s \<longleftrightarrow>
     re_prefix zsh_substitution s
     \<or> re_is_match (One (\<lambda>c. is_whitespace c \<or> any_of '';|&(<'' c) # zsh_substitution) s"

definition zsh_glob_qualifier :: "re_item list" where
  "zsh_glob_qualifier =
     [One (any_of ''*?+@!'')] @ lit ''(e:'' @ [One (none_of '':''), Many (none_of '':'')] @ lit '':)''"

definition contains_dangerous_substitution :: "rstring \<Rightarrow> bool" where
  "contains_dangerous_substitution s \<longleftrightarrow>
     re_is_match dangerous_parameter_expansion s
     \<or> re_is_match parameter_assignment_octal s
     \<or> re_is_match parameter_assignment_hex s
     \<or> re_is_match parameter_assignment_unicode s
     \<or> re_is_match indirect_expansion s
     \<or> re_is_match (here_string_with_substitution ''$('') s \<or> re_is_match (here_string_with_substitution ''`'') s
     \<or> zsh_process_substitution s
     \<or> re_is_match zsh_glob_qualifier s"

section \<open>Prefixes\<close>

datatype command_decision = AutoApprove | AutoDeny | AskUser

definition byte_len :: "rstring \<Rightarrow> nat" where
  "byte_len s = length (utf8 s)"

definition prefix_matches :: "(rstring \<Rightarrow> rstring) \<Rightarrow> rstring \<Rightarrow> rstring \<Rightarrow> bool" where
  "prefix_matches lower command p \<longleftrightarrow> lower p = str ''*'' \<or> starts_with (lower (trim command)) (lower p)"

text \<open>The loop keeps the first of the longest matches, measured in lower case.\<close>

fun longest_prefix :: "(rstring \<Rightarrow> rstring) \<Rightarrow> rstring \<Rightarrow> rstring option \<Rightarrow> rstring list \<Rightarrow> rstring option" where
  "longest_prefix lower command best [] = best"
| "longest_prefix lower command best (p # ps) =
     longest_prefix lower command
       (if prefix_matches lower command p
        then (case best of
                None \<Rightarrow> Some p
              | Some b \<Rightarrow> if byte_len (lower b) < byte_len (lower p) then Some p else Some b)
        else best) ps"

definition find_longest_prefix_match :: "(rstring \<Rightarrow> rstring) \<Rightarrow> rstring \<Rightarrow> rstring list \<Rightarrow> rstring option" where
  "find_longest_prefix_match lower command prefixes =
     (if command = [] \<or> prefixes = [] then None else longest_prefix lower command None prefixes)"

definition is_auto_approved_single_command ::
  "(rstring \<Rightarrow> rstring) \<Rightarrow> rstring \<Rightarrow> rstring list \<Rightarrow> rstring list option \<Rightarrow> bool" where
  "is_auto_approved_single_command lower command allowed denied_opt =
     (if command = [] then True
      else if allowed = [] then False
      else let has_wildcard = list_ex (\<lambda>c. lower c = str ''*'') allowed
           in case denied_opt of
                None \<Rightarrow> list_ex (prefix_matches lower command) allowed
              | Some denied \<Rightarrow>
                  (let longest_denied = find_longest_prefix_match lower command denied;
                       longest_allowed = find_longest_prefix_match lower command allowed
                   in if has_wildcard \<and> longest_denied = None then True
                      else case longest_allowed of
                        None \<Rightarrow> False
                      | Some a \<Rightarrow> (case longest_denied of None \<Rightarrow> True | Some d \<Rightarrow> byte_len d < byte_len a)))"

definition is_auto_denied_single_command ::
  "(rstring \<Rightarrow> rstring) \<Rightarrow> rstring \<Rightarrow> rstring list \<Rightarrow> rstring list option \<Rightarrow> bool" where
  "is_auto_denied_single_command lower command allowed denied_opt =
     (if command = [] then False
      else case denied_opt of
        None \<Rightarrow> False
      | Some denied \<Rightarrow>
          if denied = [] then False
          else case find_longest_prefix_match lower command denied of
            None \<Rightarrow> False
          | Some d \<Rightarrow>
              (case find_longest_prefix_match lower command allowed of
                 None \<Rightarrow> True | Some a \<Rightarrow> byte_len a \<le> byte_len d))"

definition get_single_command_decision ::
  "(rstring \<Rightarrow> rstring) \<Rightarrow> rstring \<Rightarrow> rstring list \<Rightarrow> rstring list \<Rightarrow> command_decision" where
  "get_single_command_decision lower command allowed denied =
     (if command = [] then AutoApprove
      else case (find_longest_prefix_match lower command allowed, find_longest_prefix_match lower command denied) of
        (Some _, None) \<Rightarrow> AutoApprove
      | (None, Some _) \<Rightarrow> AutoDeny
      | (Some a, Some d) \<Rightarrow> if byte_len d < byte_len a then AutoApprove else AutoDeny
      | (None, None) \<Rightarrow> AskUser)"

section \<open>The commands of a command line\<close>

datatype quoting = Unquoted | SingleQuoted | DoubleQuoted

definition is_separator :: "rchar \<Rightarrow> bool" where
  "is_separator c \<longleftrightarrow> c = 38 \<or> c = 124 \<or> c = 59 \<or> c = 10 \<or> c = 13"

text \<open>\<open>split_chain q current rest\<close>: the segments of the rest, the first of them begun with \<open>current\<close>.\<close>

fun split_chain :: "quoting \<Rightarrow> rstring \<Rightarrow> rstring \<Rightarrow> rstring list" where
  "split_chain q current [] = [current]"
| "split_chain SingleQuoted current (c # s) =
     split_chain (if c = 39 then Unquoted else SingleQuoted) (current @ [c]) s"
| "split_chain DoubleQuoted current (c # s) =
     (if c = 34 then split_chain Unquoted (current @ [c]) s
      else if c = 92
      then (case s of [] \<Rightarrow> [current @ [c]] | d # t \<Rightarrow> split_chain DoubleQuoted (current @ [c, d]) t)
      else split_chain DoubleQuoted (current @ [c]) s)"
| "split_chain Unquoted current (c # s) =
     (if c = 39 then split_chain SingleQuoted (current @ [c]) s
      else if c = 34 then split_chain DoubleQuoted (current @ [c]) s
      else if c = 38 \<or> c = 124
      then current # (case s of d # t \<Rightarrow> if d = c then split_chain Unquoted [] t else split_chain Unquoted [] s
                      | [] \<Rightarrow> split_chain Unquoted [] s)
      else if c = 59 \<or> c = 10 \<or> c = 13 then current # split_chain Unquoted [] s
      else split_chain Unquoted (current @ [c]) s)"

text \<open>\<^verbatim>\<open>replace_all\<close> of the pattern: digits, \<^verbatim>\<open>>&\<close>, digits. The class of digits is that of Unicode.\<close>

lemma dropWhile_shorter:
  assumes "dropWhile P (c # s) = d # e # t" shows "length (dropWhile Q t) < Suc (length s)"
proof -
  have "length (d # e # t) \<le> length (c # s)" using length_dropWhile_le [of P "c # s"] assms by simp
  with length_dropWhile_le [of Q t] show ?thesis by simp
qed

function strip_redirections :: "(rchar \<Rightarrow> bool) \<Rightarrow> rstring \<Rightarrow> rstring" where
  "strip_redirections digit [] = []"
| "strip_redirections digit (c # s) =
     (case dropWhile digit (c # s) of
        d # e # t \<Rightarrow>
          if d = 62 \<and> e = 38 then strip_redirections digit (dropWhile digit t) else c # strip_redirections digit s
      | _ \<Rightarrow> c # strip_redirections digit s)"
  by pat_completeness auto
termination
  by (relation "measure (\<lambda>(digit, s). length s)") (auto simp del: dropWhile.simps dest: dropWhile_shorter)

definition remove_powershell_redirections :: "(rchar \<Rightarrow> bool) \<Rightarrow> rstring \<Rightarrow> rstring" where
  "remove_powershell_redirections digit s = trim (strip_redirections digit s)"

definition clean_segments :: "(rchar \<Rightarrow> bool) \<Rightarrow> rstring list \<Rightarrow> rstring list" where
  "clean_segments digit segs =
     filter (\<lambda>s. s \<noteq> []) (map (\<lambda>s. remove_powershell_redirections digit (trim s)) segs)"

text \<open>What a parenthesis holds up to the one that closes it, and the rest; the closing one may be missing.\<close>

fun take_parens :: "nat \<Rightarrow> rstring \<Rightarrow> rstring \<times> rstring" where
  "take_parens depth [] = ([], [])"
| "take_parens depth (c # s) =
     (if c = 40 then (case take_parens (Suc depth) s of (a, b) \<Rightarrow> (c # a, b))
      else if c = 41
      then if depth = 1 then ([], s) else (case take_parens (depth - 1) s of (a, b) \<Rightarrow> (c # a, b))
      else (case take_parens depth s of (a, b) \<Rightarrow> (c # a, b)))"

lemma length_take_parens: "take_parens depth s = (a, b) \<Longrightarrow> length a + length b \<le> length s"
proof (induction depth s arbitrary: a b rule: take_parens.induct)
  case (2 depth c s)
  then show ?case by (auto split: if_splits prod.splits)
qed simp

definition push_nonempty :: "rstring \<Rightarrow> rstring list \<Rightarrow> rstring list" where
  "push_nonempty content found = (if trim content = [] then found else trim content # found)"

function extract_subshells_from :: "quoting \<Rightarrow> rstring \<Rightarrow> rstring list" where
  "extract_subshells_from q [] = []"
| "extract_subshells_from SingleQuoted (c # s) =
     extract_subshells_from (if c = 39 then Unquoted else SingleQuoted) s"
| "extract_subshells_from DoubleQuoted (c # s) =
     (if c = 34 then extract_subshells_from Unquoted s
      else if c = 92 then extract_subshells_from DoubleQuoted (drop 1 s)
      else extract_subshells_from DoubleQuoted s)"
| "extract_subshells_from Unquoted (c # s) =
     (if c = 39 then extract_subshells_from SingleQuoted s
      else if c = 34 then extract_subshells_from DoubleQuoted s
      else if c = 96
      then push_nonempty (takeWhile (\<lambda>d. d \<noteq> 96) s)
             (extract_subshells_from Unquoted (drop 1 (dropWhile (\<lambda>d. d \<noteq> 96) s)))
      else if c = 36 \<and> s \<noteq> [] \<and> hd s = 40
      then push_nonempty (fst (take_parens 1 (tl s))) (extract_subshells_from Unquoted (snd (take_parens 1 (tl s))))
      else extract_subshells_from Unquoted s)"
  by pat_completeness auto
termination
proof (relation "measure (\<lambda>(q, s). length s)", goal_cases)
  case (8 c s)
  then show ?case using length_dropWhile_le [of "\<lambda>d. d \<noteq> 96" s] by simp
next
  case (9 c s)
  then show ?case using length_take_parens [of 1 "tl s" "fst (take_parens 1 (tl s))" "snd (take_parens 1 (tl s))"] by simp
qed auto

definition extract_subshells :: "rstring \<Rightarrow> rstring list" where
  "extract_subshells command = extract_subshells_from Unquoted command"

lemma length_trim_le: "length (trim s) \<le> length s"
  by (simp add: trim_def trim_start_by_def trim_end_by_def length_dropWhile_le order_trans [OF length_dropWhile_le])

lemma push_nonempty_shorter:
  "\<forall>x \<in> set found. length x < n \<Longrightarrow> length content < n \<Longrightarrow> \<forall>x \<in> set (push_nonempty content found). length x < n"
  using length_trim_le [of content] by (auto simp: push_nonempty_def)

lemma extract_subshells_bounded: "length s \<le> n \<Longrightarrow> \<forall>x \<in> set (extract_subshells_from q s). length x < n"
proof (induction q s rule: extract_subshells_from.induct)
  case (3 c s)
  then show ?case by (auto split: if_splits)
next
  case (4 c s)
  have tick: "length (takeWhile (\<lambda>d. d \<noteq> 96) s) \<le> length s" "length (dropWhile (\<lambda>d. d \<noteq> 96) s) \<le> length s"
    by (simp_all add: length_takeWhile_le length_dropWhile_le)
  have paren: "length (fst (take_parens 1 (tl s))) \<le> length s" "length (snd (take_parens 1 (tl s))) \<le> length s"
    using length_take_parens [of 1 "tl s" "fst (take_parens 1 (tl s))" "snd (take_parens 1 (tl s))"] by auto
  have len: "length s < n" using 4 by simp
  consider "c = 39" | "c = 34" | "c = 96" | "c = 36" "s \<noteq> []" "hd s = 40"
    | "c \<noteq> 39" "c \<noteq> 34" "c \<noteq> 96" "\<not> (c = 36 \<and> s \<noteq> [] \<and> hd s = 40)" by blast
  then show ?case
  proof cases
    case 3
    then have "\<forall>x \<in> set (extract_subshells_from Unquoted (drop 1 (dropWhile (\<lambda>d. d \<noteq> 96) s))). length x < n"
      using "4.IH"(3) len tick by simp
    from push_nonempty_shorter [OF this, of "takeWhile (\<lambda>d. d \<noteq> 96) s"] len tick 3 show ?thesis by simp
  next
    case 4
    then have "\<forall>x \<in> set (extract_subshells_from Unquoted (snd (take_parens 1 (tl s)))). length x < n"
      using "4.IH"(4) len paren by simp
    from push_nonempty_shorter [OF this, of "fst (take_parens 1 (tl s))"] len paren 4 show ?thesis by simp
  qed (use "4.IH" len in auto)
qed (auto split: if_splits)

lemma extract_subshells_shorter: "x \<in> set (extract_subshells_from q s) \<Longrightarrow> length x < length s"
  using extract_subshells_bounded [of s "length s" q] by blast

text \<open>The commands of the line, then those of its subshells, which are parsed the same way.\<close>

function parse_command_chain :: "(rchar \<Rightarrow> bool) \<Rightarrow> rstring \<Rightarrow> rstring list" where
  "parse_command_chain digit command =
     (if trim command = [] then []
      else clean_segments digit (split_chain Unquoted [] command)
           @ concat (map (parse_command_chain digit) (extract_subshells command)))"
  by pat_completeness auto
termination
  by (relation "measure (\<lambda>(digit, s). length s)") (auto simp: extract_subshells_def extract_subshells_shorter)

declare parse_command_chain.simps [simp del]

definition get_command_decision ::
  "(rstring \<Rightarrow> rstring) \<Rightarrow> (rchar \<Rightarrow> bool) \<Rightarrow> rstring \<Rightarrow> rstring list \<Rightarrow> rstring list \<Rightarrow> command_decision" where
  "get_command_decision lower digit command allowed denied =
     (if trim command = [] then AutoApprove
      else let decisions = map (\<lambda>c. get_single_command_decision lower c allowed denied) (parse_command_chain digit command)
           in if AutoDeny \<in> set decisions then AutoDeny
              else if contains_dangerous_substitution command then AskUser
              else if list_all (\<lambda>d. d = AutoApprove) decisions then AutoApprove
              else AskUser)"

section \<open>What an agent asks for\<close>

datatype ask_type =
    Followup | Command | CommandOutput | CompletionResult | Tool | ApiReqFailed | ResumeTask | ResumeCompletedTask
  | MistakeLimitReached | UseMcpServer | AutoApprovalMaxReqReached

definition is_non_blocking :: "ask_type \<Rightarrow> bool" where
  "is_non_blocking a \<longleftrightarrow> a = CommandOutput"

datatype auto_approval_result = Approve | Deny | Ask | Timeout u64 rstring

datatype tool_action =
    ReadFile bool | ListFiles bool | ListFilesTopLevel bool | ListFilesRecursive bool | SearchFiles bool
  | CodebaseSearch bool | RunSlashCommand bool | EditedExistingFile bool | AppliedDiff bool | NewFileCreated bool
  | GenerateImage bool | UpdateTodoList | SkillAction | SwitchMode | NewTask | FinishTask

fun action_name :: "tool_action \<Rightarrow> string" where
  "action_name (ReadFile _) = ''readFile''"
| "action_name (ListFiles _) = ''listFiles''"
| "action_name (ListFilesTopLevel _) = ''listFilesTopLevel''"
| "action_name (ListFilesRecursive _) = ''listFilesRecursive''"
| "action_name (SearchFiles _) = ''searchFiles''"
| "action_name (CodebaseSearch _) = ''codebaseSearch''"
| "action_name (RunSlashCommand _) = ''runSlashCommand''"
| "action_name (EditedExistingFile _) = ''editedExistingFile''"
| "action_name (AppliedDiff _) = ''appliedDiff''"
| "action_name (NewFileCreated _) = ''newFileCreated''"
| "action_name (GenerateImage _) = ''generateImage''"
| "action_name UpdateTodoList = ''updateTodoList''"
| "action_name SkillAction = ''skill''"
| "action_name SwitchMode = ''switchMode''"
| "action_name NewTask = ''newTask''"
| "action_name FinishTask = ''finishTask''"

fun is_outside_workspace :: "tool_action \<Rightarrow> bool" where
  "is_outside_workspace (ReadFile b) = b"
| "is_outside_workspace (ListFiles b) = b"
| "is_outside_workspace (ListFilesTopLevel b) = b"
| "is_outside_workspace (ListFilesRecursive b) = b"
| "is_outside_workspace (SearchFiles b) = b"
| "is_outside_workspace (CodebaseSearch b) = b"
| "is_outside_workspace (RunSlashCommand b) = b"
| "is_outside_workspace (EditedExistingFile b) = b"
| "is_outside_workspace (AppliedDiff b) = b"
| "is_outside_workspace (NewFileCreated b) = b"
| "is_outside_workspace (GenerateImage b) = b"
| "is_outside_workspace _ = False"

definition read_only_tool_names :: "string list" where
  "read_only_tool_names =
     [''readFile'', ''listFiles'', ''listFilesTopLevel'', ''listFilesRecursive'', ''searchFiles'', ''codebaseSearch'',
      ''runSlashCommand'']"

definition write_tool_names :: "string list" where
  "write_tool_names = [''editedExistingFile'', ''appliedDiff'', ''newFileCreated'', ''generateImage'']"

definition is_read_only_tool_action :: "tool_action \<Rightarrow> bool" where
  "is_read_only_tool_action t \<longleftrightarrow> List.member read_only_tool_names (action_name t)"

definition is_write_tool_action :: "tool_action \<Rightarrow> bool" where
  "is_write_tool_action t \<longleftrightarrow> List.member write_tool_names (action_name t)"

record mcp_tool =
  mt_name :: rstring
  mt_always_allow :: bool

record mcp_server =
  ms_name :: rstring
  ms_tools :: "mcp_tool list"

datatype mcp_server_use = UseMcpTool rstring rstring | AccessMcpResource rstring rstring

fun is_mcp_tool_always_allowed :: "mcp_server_use \<Rightarrow> mcp_server list \<Rightarrow> bool" where
  "is_mcp_tool_always_allowed (UseMcpTool server tool) servers =
     (case find (\<lambda>s. ms_name s = server) servers of
        None \<Rightarrow> False
      | Some s \<Rightarrow> unwrap_or False (map_option mt_always_allow (find (\<lambda>t. mt_name t = tool) (ms_tools s))))"
| "is_mcp_tool_always_allowed (AccessMcpResource _ _) servers = False"

text \<open>A cost is the bit pattern of a floating-point number.\<close>

record auto_approval_state =
  aa_enabled :: bool
  aa_read_only :: bool
  aa_read_only_outside :: bool
  aa_write :: bool
  aa_write_outside :: bool
  aa_write_protected :: bool
  aa_mcp :: bool
  aa_mode_switch :: bool
  aa_subtasks :: bool
  aa_execute :: bool
  aa_followup :: bool
  aa_followup_timeout_ms :: "u64 option"
  aa_allowed_commands :: "rstring list"
  aa_denied_commands :: "rstring list"
  aa_max_requests :: "u32 option"
  aa_max_cost :: "u64 option"
  aa_request_count :: u32
  aa_cost :: u64

text \<open>What the \<^verbatim>\<open>text\<close> field decodes to: the answers that are suggested, the use of a server, a tool action.\<close>

record approval_platform =
  ap_lower :: "rstring \<Rightarrow> rstring"
  ap_digit :: "rchar \<Rightarrow> bool"
  ap_followup :: "rstring \<Rightarrow> rstring list option"
  ap_mcp_use :: "rstring \<Rightarrow> mcp_server_use option"
  ap_tool :: "rstring \<Rightarrow> tool_action option"
  ap_cost_exceeds :: "u64 \<Rightarrow> u64 \<Rightarrow> bool"

definition approve_if :: "bool \<Rightarrow> auto_approval_result" where
  "approve_if b = (if b then Approve else Ask)"

definition check_followup :: "approval_platform \<Rightarrow> auto_approval_state \<Rightarrow> rstring option \<Rightarrow> auto_approval_result" where
  "check_followup pf st txt =
     (if aa_followup st
      then (case (Option.bind txt (ap_followup pf), aa_followup_timeout_ms st) of
              (Some (answer # _), Some t) \<Rightarrow> if 0 < t then Timeout t answer else Ask
            | _ \<Rightarrow> Ask)
      else Ask)"

definition check_mcp ::
  "approval_platform \<Rightarrow> auto_approval_state \<Rightarrow> mcp_server list \<Rightarrow> rstring option \<Rightarrow> auto_approval_result" where
  "check_mcp pf st servers txt =
     (case Option.bind txt (ap_mcp_use pf) of
        None \<Rightarrow> Ask
      | Some (UseMcpTool s t) \<Rightarrow> approve_if (aa_mcp st \<and> is_mcp_tool_always_allowed (UseMcpTool s t) servers)
      | Some (AccessMcpResource _ _) \<Rightarrow> approve_if (aa_mcp st))"

definition check_command :: "approval_platform \<Rightarrow> auto_approval_state \<Rightarrow> rstring option \<Rightarrow> auto_approval_result" where
  "check_command pf st txt =
     (case txt of
        None \<Rightarrow> Ask
      | Some t \<Rightarrow>
          if aa_execute st
          then (case get_command_decision (ap_lower pf) (ap_digit pf) t (aa_allowed_commands st) (aa_denied_commands st) of
                  AutoApprove \<Rightarrow> Approve | AutoDeny \<Rightarrow> Deny | AskUser \<Rightarrow> Ask)
          else Ask)"

definition check_tool :: "approval_platform \<Rightarrow> auto_approval_state \<Rightarrow> bool \<Rightarrow> rstring option \<Rightarrow> auto_approval_result" where
  "check_tool pf st is_protected txt =
     (case Option.bind txt (ap_tool pf) of
        None \<Rightarrow> Ask
      | Some tool \<Rightarrow>
          if tool = UpdateTodoList then Approve
          else if tool = SkillAction then Approve
          else if tool = SwitchMode then approve_if (aa_mode_switch st)
          else if tool = NewTask \<or> tool = FinishTask then approve_if (aa_subtasks st)
          else if is_read_only_tool_action tool
          then approve_if (aa_read_only st \<and> (\<not> is_outside_workspace tool \<or> aa_read_only_outside st))
          else if is_write_tool_action tool
          then approve_if (aa_write st \<and> (\<not> is_outside_workspace tool \<or> aa_write_outside st)
                           \<and> (\<not> is_protected \<or> aa_write_protected st))
          else Ask)"

definition check_auto_approval ::
  "approval_platform \<Rightarrow> auto_approval_state \<Rightarrow> ask_type \<Rightarrow> rstring option \<Rightarrow> bool \<Rightarrow> mcp_server list \<Rightarrow> auto_approval_result" where
  "check_auto_approval pf st a txt is_protected servers =
     (if is_non_blocking a then Approve
      else if \<not> aa_enabled st then Ask
      else if a = Followup then check_followup pf st txt
      else if a = UseMcpServer then check_mcp pf st servers txt
      else if a = Command then check_command pf st txt
      else if a = Tool then check_tool pf st is_protected txt
      else Ask)"

section \<open>Limits\<close>

datatype approval_limit_type = LimitRequests | LimitCost

text \<open>The limit that is reported is printed; here it is kept as it is.\<close>

record approval_limit_result =
  lr_should_proceed :: bool
  lr_requires_approval :: bool
  lr_exceeded :: "(approval_limit_type \<times> nat) option"

definition limit_proceed :: approval_limit_result where
  "limit_proceed = \<lparr> lr_should_proceed = True, lr_requires_approval = False, lr_exceeded = None \<rparr>"

definition limit_exceeded :: "approval_limit_type \<Rightarrow> nat \<Rightarrow> approval_limit_result" where
  "limit_exceeded t n = \<lparr> lr_should_proceed = False, lr_requires_approval = True, lr_exceeded = Some (t, n) \<rparr>"

definition check_request_limit :: "nat \<Rightarrow> auto_approval_state \<Rightarrow> approval_limit_result \<times> auto_approval_state" where
  "check_request_limit started st =
     (case aa_max_requests st of
        None \<Rightarrow> (limit_proceed, st)
      | Some max_requests \<Rightarrow>
          (let st1 = st\<lparr>aa_request_count := of_nat started + 1\<rparr>
           in (if max_requests < aa_request_count st1 then limit_exceeded LimitRequests (unat max_requests)
               else limit_proceed, st1)))"

definition check_cost_limit ::
  "approval_platform \<Rightarrow> u64 \<Rightarrow> auto_approval_state \<Rightarrow> approval_limit_result \<times> auto_approval_state" where
  "check_cost_limit pf cost st =
     (case aa_max_cost st of
        None \<Rightarrow> (limit_proceed, st)
      | Some max_cost \<Rightarrow>
          (if ap_cost_exceeds pf cost max_cost then limit_exceeded LimitCost (unat max_cost) else limit_proceed,
           st\<lparr>aa_cost := cost\<rparr>))"

definition check_auto_approval_limits ::
  "approval_platform \<Rightarrow> nat \<Rightarrow> u64 \<Rightarrow> auto_approval_state \<Rightarrow> approval_limit_result \<times> auto_approval_state" where
  "check_auto_approval_limits pf started cost st =
     (case check_request_limit started st of (res, st1) \<Rightarrow>
        if \<not> lr_should_proceed res \<or> lr_requires_approval res then (res, st1) else check_cost_limit pf cost st1)"

definition reset_limits :: "auto_approval_state \<Rightarrow> auto_approval_state" where
  "reset_limits st = st\<lparr>aa_request_count := 0, aa_cost := 0\<rparr>"

text \<open>
  The handler keeps its own counters, and where in the list of messages it began to count. The caller
  counts the requests from there on.
\<close>

record auto_approval_handler =
  ah_last_reset :: nat
  ah_requests :: nat
  ah_cost :: u64

definition handler_new :: auto_approval_handler where
  "handler_new = \<lparr> ah_last_reset = 0, ah_requests = 0, ah_cost = 0 \<rparr>"

definition handler_check_limits ::
  "approval_platform \<Rightarrow> nat option \<Rightarrow> u64 option \<Rightarrow> nat \<Rightarrow> u64 \<Rightarrow> auto_approval_handler
   \<Rightarrow> approval_limit_result \<times> auto_approval_handler" where
  "handler_check_limits pf max_requests max_cost started cost h =
     (let h1 = (case max_requests of None \<Rightarrow> h | Some _ \<Rightarrow> h\<lparr>ah_requests := started + 1\<rparr>)
      in if is_some_and (\<lambda>m. m < started + 1) max_requests
         then (limit_exceeded LimitRequests (the max_requests), h1)
         else case max_cost of
           None \<Rightarrow> (limit_proceed, h1)
         | Some c \<Rightarrow>
             (if ap_cost_exceeds pf cost c then limit_exceeded LimitCost (unat c) else limit_proceed,
              h1\<lparr>ah_cost := cost\<rparr>))"

definition approve_and_reset :: "nat \<Rightarrow> auto_approval_handler \<Rightarrow> auto_approval_handler" where
  "approve_and_reset messages h = h\<lparr>ah_last_reset := messages\<rparr>"

definition reset_request_count :: "auto_approval_handler \<Rightarrow> auto_approval_handler" where
  "reset_request_count h = h\<lparr>ah_last_reset := 0, ah_requests := 0, ah_cost := 0\<rparr>"

section \<open>The matcher finds what the pattern describes\<close>

inductive re_lang :: "re_item list \<Rightarrow> rstring \<Rightarrow> bool" where
  lang_nil: "re_lang [] []"
| lang_one: "P c \<Longrightarrow> re_lang r u \<Longrightarrow> re_lang (One P # r) (c # u)"
| lang_none: "re_lang r u \<Longrightarrow> re_lang (Many P # r) u"
| lang_more: "P c \<Longrightarrow> re_lang (Many P # r) u \<Longrightarrow> re_lang (Many P # r) (c # u)"

lemma re_prefix_sound: "re_prefix r s \<Longrightarrow> \<exists>u v. s = u @ v \<and> re_lang r u"
proof (induction r s rule: re_prefix.induct)
  case (5 P r c s)
  then consider "re_prefix r (c # s)" | "P c" "re_prefix (Many P # r) s" by auto
  then show ?case by cases (use 5 lang_none lang_more in \<open>metis append_Cons\<close>)+
next
  case (3 P r c s)
  then obtain u v where "s = u @ v" "re_lang r u" "P c" by auto
  then show ?case by (metis append_Cons lang_one)
qed (auto intro: lang_nil lang_none)

lemma re_prefix_complete: "re_lang r u \<Longrightarrow> re_prefix r (u @ v)"
proof (induction rule: re_lang.induct)
  case (lang_none r u P)
  then show ?case by (cases "u @ v") auto
qed auto

lemma re_is_match_iff: "re_is_match r s \<longleftrightarrow> (\<exists>a u b. s = a @ u @ b \<and> re_lang r u)"
proof -
  have "re_is_match r s \<longleftrightarrow> (\<exists>a t. s = a @ t \<and> re_prefix r t)"
  proof (induction s)
    case (Cons c s)
    then show ?case by (auto simp: Cons_eq_append_conv)
  qed simp
  also have "\<dots> \<longleftrightarrow> (\<exists>a u b. s = a @ u @ b \<and> re_lang r u)" using re_prefix_sound re_prefix_complete by metis
  finally show ?thesis .
qed

section \<open>The longest prefix\<close>

definition longest_of :: "(rstring \<Rightarrow> rstring) \<Rightarrow> rstring \<Rightarrow> rstring list \<Rightarrow> rstring \<Rightarrow> bool" where
  "longest_of lower command ps b \<longleftrightarrow>
     b \<in> set ps \<and> prefix_matches lower command b
     \<and> (\<forall>p \<in> set ps. prefix_matches lower command p \<longrightarrow> byte_len (lower p) \<le> byte_len (lower b))"

lemma longest_prefix_run:
  "case longest_prefix lower command best ps of
     None \<Rightarrow> best = None \<and> (\<forall>p \<in> set ps. \<not> prefix_matches lower command p)
   | Some b \<Rightarrow> (best = Some b \<or> b \<in> set ps \<and> prefix_matches lower command b)
       \<and> (\<forall>p \<in> set ps. prefix_matches lower command p \<longrightarrow> byte_len (lower p) \<le> byte_len (lower b))
       \<and> (\<forall>c. best = Some c \<longrightarrow> byte_len (lower c) \<le> byte_len (lower b))"
proof (induction ps arbitrary: best)
  case (Cons p ps)
  let ?best = "if prefix_matches lower command p
        then (case best of None \<Rightarrow> Some p
              | Some b \<Rightarrow> if byte_len (lower b) < byte_len (lower p) then Some p else Some b)
        else best"
  show ?case using Cons [of ?best]
    by (cases "longest_prefix lower command ?best ps") (auto split: if_splits option.splits)
qed (simp split: option.split)

lemma find_longest_cases:
  assumes "command \<noteq> []"
  shows "case find_longest_prefix_match lower command ps of
           None \<Rightarrow> \<forall>p \<in> set ps. \<not> prefix_matches lower command p
         | Some b \<Rightarrow> longest_of lower command ps b"
  using assms longest_prefix_run [where lower = lower and command = command and best = None and ps = ps]
  by (auto simp: find_longest_prefix_match_def longest_of_def split: option.splits)

text \<open>A prefix whose length is not changed by lower case, as every prefix of ASCII characters.\<close>

definition plain_prefixes :: "(rstring \<Rightarrow> rstring) \<Rightarrow> rstring list \<Rightarrow> bool" where
  "plain_prefixes lower ps \<longleftrightarrow> (\<forall>p \<in> set ps. byte_len (lower p) = byte_len p)"

text \<open>
  The rule: an allowed prefix that is longer than every denied one, or a denied one at least as long as every
  allowed one. The star is a prefix of everything; otherwise the command, in lower case, begins with the prefix in
  lower case.
\<close>

definition begins_with :: "(rstring \<Rightarrow> rstring) \<Rightarrow> rstring \<Rightarrow> rstring \<Rightarrow> bool" where
  "begins_with lower c p \<longleftrightarrow> lower p = str ''*'' \<or> (\<exists>rest. lower (trim c) = lower p @ rest)"

definition command_allowed :: "(rstring \<Rightarrow> rstring) \<Rightarrow> rstring list \<Rightarrow> rstring list \<Rightarrow> rstring \<Rightarrow> bool" where
  "command_allowed lower allowed denied c \<longleftrightarrow>
     (\<exists>a \<in> set allowed. begins_with lower c a
        \<and> (\<forall>d \<in> set denied. begins_with lower c d \<longrightarrow> byte_len d < byte_len a))"

definition command_denied :: "(rstring \<Rightarrow> rstring) \<Rightarrow> rstring list \<Rightarrow> rstring list \<Rightarrow> rstring \<Rightarrow> bool" where
  "command_denied lower allowed denied c \<longleftrightarrow>
     (\<exists>d \<in> set denied. begins_with lower c d
        \<and> (\<forall>a \<in> set allowed. begins_with lower c a \<longrightarrow> byte_len a \<le> byte_len d))"

lemma begins_with_iff: "begins_with lower c p \<longleftrightarrow> prefix_matches lower c p"
proof -
  have "starts_with x y \<longleftrightarrow> (\<exists>rest. x = y @ rest)" for x y
    unfolding starts_with_def by (metis append_eq_conv_conj append_take_drop_id)
  then show ?thesis by (simp add: begins_with_def prefix_matches_def)
qed

lemma single_decision_exact:
  assumes "c \<noteq> []" "plain_prefixes lower allowed" "plain_prefixes lower denied"
  shows "get_single_command_decision lower c allowed denied =
     (if command_allowed lower allowed denied c then AutoApprove
      else if command_denied lower allowed denied c then AutoDeny else AskUser)"
proof -
  have len: "byte_len (lower p) = byte_len p" if "p \<in> set allowed \<or> p \<in> set denied" for p
    using that assms(2,3) by (auto simp: plain_prefixes_def)
  note la = find_longest_cases [OF assms(1), where lower = lower and ps = allowed]
  note ld = find_longest_cases [OF assms(1), where lower = lower and ps = denied]
  show ?thesis
  proof (cases "find_longest_prefix_match lower c allowed")
    case None
    then show ?thesis using la ld assms(1) len
      by (cases "find_longest_prefix_match lower c denied")
        (auto simp: get_single_command_decision_def command_allowed_def command_denied_def begins_with_iff longest_of_def)
  next
    case a: (Some a)
    show ?thesis
    proof (cases "find_longest_prefix_match lower c denied")
      case None
      then show ?thesis using a la ld assms(1)
        by (auto simp: get_single_command_decision_def command_allowed_def command_denied_def begins_with_iff longest_of_def)
    next
      case d: (Some d)
      have A: "a \<in> set allowed" "prefix_matches lower c a" "\<And>p. p \<in> set allowed \<Longrightarrow> prefix_matches lower c p \<Longrightarrow> byte_len p \<le> byte_len a"
        using a la len by (auto simp: longest_of_def)
      have D: "d \<in> set denied" "prefix_matches lower c d" "\<And>p. p \<in> set denied \<Longrightarrow> prefix_matches lower c p \<Longrightarrow> byte_len p \<le> byte_len d"
        using d ld len by (auto simp: longest_of_def)
      have "command_allowed lower allowed denied c \<longleftrightarrow> byte_len d < byte_len a"
        unfolding command_allowed_def begins_with_iff using A D by (meson le_less_trans less_le_trans)
      moreover have "command_denied lower allowed denied c \<longleftrightarrow> byte_len a \<le> byte_len d"
        unfolding command_denied_def begins_with_iff using A D by (meson order_trans)
      ultimately show ?thesis using a d assms(1) by (simp add: get_single_command_decision_def)
    qed
  qed
qed

section \<open>Command lines without quotes\<close>

text \<open>
  The reference: cut at every separator, so that \<^verbatim>\<open>&&\<close> leaves an empty piece behind, and drop what is empty.
\<close>

fun split_where :: "(rchar \<Rightarrow> bool) \<Rightarrow> rstring \<Rightarrow> rstring \<Rightarrow> rstring list" where
  "split_where P current [] = [current]"
| "split_where P current (c # s) = (if P c then current # split_where P [] s else split_where P (current @ [c]) s)"

lemma strip_redirections_Nil [simp]: "remove_powershell_redirections digit [] = []" "trim [] = []"
  by (simp_all add: remove_powershell_redirections_def trim_def trim_start_by_def trim_end_by_def)

lemma clean_segments_simps [simp]:
  "clean_segments digit [] = []" "clean_segments digit ([] # segs) = clean_segments digit segs"
  by (simp_all add: clean_segments_def)

lemma clean_segments_Cons_cong:
  "clean_segments digit xs = clean_segments digit ys \<Longrightarrow> clean_segments digit (x # xs) = clean_segments digit (x # ys)"
  by (simp add: clean_segments_def)

lemma split_chain_plain:
  assumes "39 \<notin> set s" "34 \<notin> set s"
  shows "clean_segments digit (split_chain Unquoted current s) = clean_segments digit (split_where is_separator current s)"
  using assms
proof (induction s arbitrary: current rule: length_induct)
  case (1 s)
  show ?case
  proof (cases s)
    case (Cons c t)
    have IH: "clean_segments digit (split_chain Unquoted cur u) = clean_segments digit (split_where is_separator cur u)"
      if "length u < length s" "set u \<subseteq> set s" for u cur
      using 1 that by blast
    consider "c = 38 \<or> c = 124" | "c = 59 \<or> c = 10 \<or> c = 13" | "\<not> is_separator c" by (auto simp: is_separator_def)
    then show ?thesis
    proof cases
      case 1
      then have sep: "is_separator c" and c: "c \<noteq> 39" "c \<noteq> 34" by (auto simp: is_separator_def)
      show ?thesis
      proof (cases t)
        case (Cons d u)
        show ?thesis
        proof (cases "d = c")
          case True
          have "clean_segments digit (split_chain Unquoted [] u) = clean_segments digit ([] # split_where is_separator [] u)"
            using IH [of u] \<open>s = c # t\<close> Cons by auto
          from clean_segments_Cons_cong [OF this, of current] show ?thesis
            using \<open>s = c # t\<close> Cons True 1 sep c by simp
        next
          case False
          have "clean_segments digit (split_chain Unquoted [] t) = clean_segments digit (split_where is_separator [] t)"
            using IH [of t] \<open>s = c # t\<close> by auto
          from clean_segments_Cons_cong [OF this, of current] show ?thesis
            using \<open>s = c # t\<close> Cons False 1 sep c by simp
        qed
      qed (use \<open>s = c # t\<close> 1 sep c in simp)
    next
      case 2
      then have sep: "is_separator c" and c: "c \<noteq> 39" "c \<noteq> 34" "c \<noteq> 38" "c \<noteq> 124" by (auto simp: is_separator_def)
      have "clean_segments digit (split_chain Unquoted [] t) = clean_segments digit (split_where is_separator [] t)"
        using IH [of t] \<open>s = c # t\<close> by auto
      from clean_segments_Cons_cong [OF this, of current] show ?thesis
        using \<open>s = c # t\<close> 2 sep c by simp
    next
      case 3
      moreover from 3 have "c \<noteq> 38" "c \<noteq> 124" "c \<noteq> 59" "c \<noteq> 10" "c \<noteq> 13" by (auto simp: is_separator_def)
      moreover have "clean_segments digit (split_chain Unquoted (current @ [c]) t)
          = clean_segments digit (split_where is_separator (current @ [c]) t)"
        using IH [of t] \<open>s = c # t\<close> by auto
      ultimately show ?thesis using \<open>s = c # t\<close> "1.prems" by simp
    qed
  qed simp
qed

lemma extract_subshells_plain:
  assumes "39 \<notin> set s" "34 \<notin> set s" "96 \<notin> set s" "40 \<notin> set s"
  shows "extract_subshells_from Unquoted s = []"
  using assms
proof (induction s)
  case (Cons c s)
  then show ?case by (cases s) auto
qed simp

definition unquoted_line :: "rstring \<Rightarrow> bool" where
  "unquoted_line s \<longleftrightarrow> 39 \<notin> set s \<and> 34 \<notin> set s \<and> 96 \<notin> set s \<and> 40 \<notin> set s"

text \<open>
  On a line without quotes, backquotes and opening parentheses the parser gives the obvious reading: cut the line
  at every ampersand, bar, semicolon and line end, take redirections and surrounding space away from each
  piece, and keep the pieces that are not empty, in order.
\<close>

theorem plain_command_line:
  assumes "unquoted_line command"
  shows "parse_command_chain digit command = clean_segments digit (split_where is_separator [] command)"
proof (cases "trim command = []")
  case True
  have blank: "\<forall>p \<in> set (split_where is_separator cur t). trim p = []"
    if "trim cur = []" "trim t = []" for cur t
    using that by (induction is_separator cur t rule: split_where.induct) (auto simp: trim_Nil_iff)
  have "clean_segments digit ps = []" if "\<forall>p \<in> set ps. trim p = []" for ps
    using that by (simp add: clean_segments_def)
  with True blank [of "[]" command] show ?thesis by (simp add: parse_command_chain.simps)
next
  case False
  with assms show ?thesis
    by (simp add: parse_command_chain.simps [of digit command] unquoted_line_def split_chain_plain extract_subshells_def extract_subshells_plain)
qed

theorem plain_command_line_witness:
  "unquoted_line [97, 38, 38, 98] \<and> parse_command_chain (\<lambda>c. 48 \<le> c \<and> c \<le> 57) [97, 38, 38, 98] = [[97], [98]]"
proof -
  have u: "unquoted_line [97, 38, 38, 98]" by (simp add: unquoted_line_def)
  from plain_command_line [OF this, of "\<lambda>c. 48 \<le> c \<and> c \<le> 57"] u show ?thesis
    by (simp add: clean_segments_def is_separator_def remove_powershell_redirections_def trim_def trim_start_by_def
        trim_end_by_def is_whitespace_def)
qed

section \<open>Simple command lines\<close>

text \<open>
  The pieces of a line between separators: the runs without a separator that go from the start of the line or a
  separator to the next separator or the end. The commands of a simple line are its pieces, without the space
  around them, as far as anything is left of them.
\<close>

definition pieces_of :: "(rchar \<Rightarrow> bool) \<Rightarrow> rstring \<Rightarrow> rstring set" where
  "pieces_of P s = {p. (\<forall>c \<in> set p. \<not> P c)
     \<and> (\<exists>a b. s = a @ p @ b \<and> (a = [] \<or> P (last a)) \<and> (b = [] \<or> P (hd b)))}"

definition line_commands :: "rstring \<Rightarrow> rstring set" where
  "line_commands s = {c. c \<noteq> [] \<and> (\<exists>p \<in> pieces_of (\<lambda>c. c \<in> {38, 124, 59, 10, 13}) s. c = trim p)}"

text \<open>No quotes, backquotes, opening parentheses, dollar signs or redirections.\<close>

definition simple_line :: "rstring \<Rightarrow> bool" where
  "simple_line s \<longleftrightarrow> set s \<inter> {39, 34, 96, 40, 36, 62} = {}"

lemma pieces_of_single: "\<forall>c \<in> set s. \<not> P c \<Longrightarrow> pieces_of P s = {s}"
proof -
  assume none: "\<forall>c \<in> set s. \<not> P c"
  have whole: "p = s" if "s = a @ p @ b" "a = [] \<or> P (last a)" "b = [] \<or> P (hd b)" for a p b
  proof -
    have "a = []" using that(1,2) none last_in_set [of a] by auto
    moreover have "b = []" using that(1,3) none hd_in_set [of b] by auto
    ultimately show ?thesis using that(1) by simp
  qed
  have "s \<in> pieces_of P s"
    unfolding pieces_of_def using none by (intro CollectI conjI exI [of _ "[]"]) simp_all
  moreover have "p = s" if "p \<in> pieces_of P s" for p using that whole by (auto simp: pieces_of_def)
  ultimately show ?thesis by blast
qed

lemma pieces_of_cut:
  assumes "\<forall>x \<in> set cur. \<not> P x" "P c"
  shows "pieces_of P (cur @ c # s) = insert cur (pieces_of P s)"
proof (intro equalityI subsetI)
  fix p assume "p \<in> pieces_of P (cur @ c # s)"
  then obtain a b where p: "\<forall>x \<in> set p. \<not> P x" and eq: "cur @ c # s = a @ p @ b"
    and a: "a = [] \<or> P (last a)" and b: "b = [] \<or> P (hd b)" by (auto simp: pieces_of_def)
  show "p \<in> insert cur (pieces_of P s)"
  proof (cases "length a \<le> length cur")
    case True
    then obtain d where d: "cur = a @ d" using eq by (metis append_eq_append_conv_if append_take_drop_id)
    then have "a = []" using a assms(1) by (metis UnCI last_in_set set_append)
    then have eq': "cur @ c # s = p @ b" using eq by simp
    have takeP: "takeWhile (\<lambda>x. \<not> P x) (cur @ c # s) = cur" using assms by simp
    have "takeWhile (\<lambda>x. \<not> P x) (p @ b) = p" using p b by (cases b) simp_all
    with takeP eq' show ?thesis by simp
  next
    case False
    then obtain d where d: "a = cur @ c # d"
      using eq by (auto simp: append_eq_append_conv2 Cons_eq_append_conv)
    then have s: "s = d @ p @ b" using eq by simp
    have "d = [] \<or> P (last d)" using a d by (auto split: if_splits)
    with s p b show ?thesis by (auto simp: pieces_of_def)
  qed
next
  fix p assume "p \<in> insert cur (pieces_of P s)"
  then show "p \<in> pieces_of P (cur @ c # s)"
  proof
    assume "p = cur"
    then show ?thesis
      unfolding pieces_of_def using assms by (intro CollectI conjI exI [of _ "[]"] exI [of _ "c # s"]) auto
  next
    assume "p \<in> pieces_of P s"
    then obtain a b where "\<forall>x \<in> set p. \<not> P x" "s = a @ p @ b" "a = [] \<or> P (last a)" "b = [] \<or> P (hd b)"
      by (auto simp: pieces_of_def)
    moreover from this(3) assms(2) have "P (last (cur @ c # a))" by (cases a) auto
    ultimately show ?thesis
      unfolding pieces_of_def by (intro CollectI conjI exI [of _ "cur @ c # a"] exI [of _ b]) auto
  qed
qed

lemma split_where_pieces:
  "\<forall>x \<in> set cur. \<not> P x \<Longrightarrow> set (split_where P cur s) = pieces_of P (cur @ s)"
proof (induction P cur s rule: split_where.induct)
  case (1 P cur)
  then show ?case by (simp add: pieces_of_single)
next
  case (2 P cur c s)
  show ?case
  proof (cases "P c")
    case True
    with 2 show ?thesis by (simp add: pieces_of_cut)
  next
    case False
    with 2 show ?thesis by simp
  qed
qed

lemma strip_redirections_none: "62 \<notin> set s \<Longrightarrow> strip_redirections digit s = s"
proof (induction digit s rule: strip_redirections.induct)
  case (2 digit c s)
  have "\<not> (d = 62 \<and> e = 38)" if "dropWhile digit (c # s) = d # e # t" for d e t
    using "2.prems" that set_dropWhileD [of d digit "c # s"] by (auto simp del: dropWhile.simps)
  with 2 show ?case
    by (subst strip_redirections.simps) (auto simp del: dropWhile.simps split: list.split)
qed simp

lemma dropWhile_stripped: "dropWhile P xs = xs" if "xs = [] \<or> \<not> P (hd xs)"
  using that by (cases xs) auto

lemma trim_trim [simp]: "trim (trim s) = trim s"
proof -
  let ?a = "dropWhile is_whitespace s" and ?b = "trim s"
  have b: "?b = rev (dropWhile is_whitespace (rev ?a))" by (simp add: trim_def trim_start_by_def trim_end_by_def)
  then have "rev ?b = [] \<or> \<not> is_whitespace (hd (rev ?b))" using hd_dropWhile [of is_whitespace "rev ?a"] by auto
  then have rear: "dropWhile is_whitespace (rev ?b) = rev ?b" by (rule dropWhile_stripped)
  have "?b = [] \<or> \<not> is_whitespace (hd ?b)"
  proof (cases "?b = []")
    case False
    obtain zs where "rev ?a = zs @ rev ?b" using b by (metis rev_rev_ident takeWhile_dropWhile_id)
    then have "?a = ?b @ rev zs" by (metis rev_append rev_rev_ident)
    with False have "hd ?b = hd ?a" "?a \<noteq> []" by (metis hd_append2, simp)
    with hd_dropWhile [of is_whitespace s] show ?thesis by simp
  qed simp
  then have "dropWhile is_whitespace ?b = ?b" by (rule dropWhile_stripped)
  with rear show ?thesis by (simp add: trim_def [of "trim s"] trim_start_by_def trim_end_by_def)
qed

lemma simple_line_commands:
  assumes "simple_line t"
  shows "set (parse_command_chain digit t) = line_commands t"
proof -
  have sep: "is_separator = (\<lambda>c. c \<in> {38, 124, 59, 10, 13})" by (auto simp: is_separator_def fun_eq_iff)
  have "unquoted_line t" using assms by (auto simp: simple_line_def unquoted_line_def)
  then have "set (parse_command_chain digit t) = set (clean_segments digit (split_where is_separator [] t))"
    by (simp add: plain_command_line)
  moreover have "remove_powershell_redirections digit (trim p) = trim p" if "p \<in> pieces_of is_separator t" for p
  proof -
    have "62 \<notin> set p" using that assms by (auto simp: pieces_of_def simple_line_def)
    then have "62 \<notin> set (trim p)"
      by (auto simp: trim_def trim_start_by_def trim_end_by_def dest!: set_dropWhileD)
    then show ?thesis by (simp add: remove_powershell_redirections_def strip_redirections_none)
  qed
  moreover have "line_commands t = {c. c \<noteq> [] \<and> (\<exists>p \<in> pieces_of is_separator t. c = trim p)}"
    unfolding line_commands_def sep ..
  ultimately show ?thesis
    using split_where_pieces [of "[]" is_separator t] by (auto simp: clean_segments_def image_iff)
qed

lemma re_lang_needs: "re_lang r u \<Longrightarrow> One P \<in> set r \<Longrightarrow> \<exists>c \<in> set u. P c"
  by (induction rule: re_lang.induct) auto

lemma no_match: "One P \<in> set r \<Longrightarrow> \<forall>c \<in> set s. \<not> P c \<Longrightarrow> \<not> re_is_match r s \<and> \<not> re_prefix r s"
  using re_lang_needs re_is_match_iff re_prefix_sound by (metis UnCI set_append)

lemma simple_line_safe:
  assumes "simple_line t"
  shows "\<not> contains_dangerous_substitution t"
proof -
  have free: "\<forall>c \<in> set t. \<not> c = 36" "\<forall>c \<in> set t. \<not> c = 40" "\<forall>c \<in> set t. \<not> c = 96"
    using assms by (auto simp: simple_line_def)
  note defs = dangerous_parameter_expansion_def parameter_assignment_octal_def parameter_assignment_hex_def
    parameter_assignment_unicode_def parameter_assignment_def indirect_expansion_def
    here_string_with_substitution_def zsh_substitution_def zsh_glob_qualifier_def lit_def str_def
  have "\<not> re_is_match r t" if "One (\<lambda>d. d = 36) \<in> set r" for r using no_match [OF that free(1)] by blast
  then have "\<not> re_is_match dangerous_parameter_expansion t" "\<not> re_is_match parameter_assignment_octal t"
    "\<not> re_is_match parameter_assignment_hex t" "\<not> re_is_match parameter_assignment_unicode t"
    "\<not> re_is_match indirect_expansion t" "\<not> re_is_match (here_string_with_substitution ''$('') t"
    by (simp_all add: defs)
  moreover have "\<not> re_is_match (here_string_with_substitution ''`'') t"
    using no_match [OF _ free(3)] by (simp add: defs)
  moreover have "\<not> re_is_match r t \<and> \<not> re_prefix r t" if "One (\<lambda>d. d = 40) \<in> set r" for r
    using no_match [OF that free(2)] .
  then have "\<not> zsh_process_substitution t" "\<not> re_is_match zsh_glob_qualifier t"
    by (simp_all add: zsh_process_substitution_def defs)
  ultimately show ?thesis unfolding contains_dangerous_substitution_def by blast
qed

section \<open>Decisions\<close>

lemma clean_segments_nonempty: "c \<in> set (clean_segments digit segs) \<Longrightarrow> c \<noteq> []"
  by (auto simp: clean_segments_def)

lemma parse_command_chain_nonempty: "c \<in> set (parse_command_chain digit command) \<Longrightarrow> c \<noteq> []"
proof (induction digit command rule: parse_command_chain.induct)
  case (1 digit command)
  then show ?case
    by (subst (asm) (2) parse_command_chain.simps) (auto split: if_splits dest: clean_segments_nonempty)
qed

lemma command_decision_exact:
  assumes "plain_prefixes lower allowed" "plain_prefixes lower denied"
  shows "get_command_decision lower digit command allowed denied =
     (if trim command = [] then AutoApprove
      else if \<exists>c \<in> set (parse_command_chain digit command). command_denied lower allowed denied c \<and> \<not> command_allowed lower allowed denied c
      then AutoDeny
      else if contains_dangerous_substitution command then AskUser
      else if \<forall>c \<in> set (parse_command_chain digit command). command_allowed lower allowed denied c then AutoApprove
      else AskUser)"
proof -
  let ?cs = "parse_command_chain digit command"
  let ?rule = "\<lambda>c. if command_allowed lower allowed denied c then AutoApprove
      else if command_denied lower allowed denied c then AutoDeny else AskUser"
  have same: "map (\<lambda>c. get_single_command_decision lower c allowed denied) ?cs = map ?rule ?cs"
    using single_decision_exact [OF parse_command_chain_nonempty assms] by (intro map_cong) auto
  have deny: "AutoDeny \<in> set (map ?rule ?cs) \<longleftrightarrow>
      (\<exists>c \<in> set ?cs. command_denied lower allowed denied c \<and> \<not> command_allowed lower allowed denied c)"
    by (auto simp: image_iff split: if_splits)
  have all: "list_all (\<lambda>d. d = AutoApprove) (map ?rule ?cs) \<longleftrightarrow> (\<forall>c \<in> set ?cs. command_allowed lower allowed denied c)"
    unfolding list_all_length by (auto simp: all_set_conv_all_nth)
  show ?thesis unfolding get_command_decision_def Let_def same deny all ..
qed

lemma allowed_not_denied: "command_allowed lower allowed denied c \<Longrightarrow> \<not> command_denied lower allowed denied c"
  unfolding command_allowed_def command_denied_def by (meson leD)

text \<open>What the settings say: the command line may run, it must not run, the tool may be used.\<close>

definition line_allowed :: "approval_platform \<Rightarrow> auto_approval_state \<Rightarrow> rstring \<Rightarrow> bool" where
  "line_allowed pf st t \<longleftrightarrow>
     (\<forall>c \<in> line_commands t. command_allowed (ap_lower pf) (aa_allowed_commands st) (aa_denied_commands st) c)"

definition line_denied :: "approval_platform \<Rightarrow> auto_approval_state \<Rightarrow> rstring \<Rightarrow> bool" where
  "line_denied pf st t \<longleftrightarrow>
     (\<exists>c \<in> line_commands t. command_denied (ap_lower pf) (aa_allowed_commands st) (aa_denied_commands st) c)"

definition reading_permitted :: "auto_approval_state \<Rightarrow> bool \<Rightarrow> bool" where
  "reading_permitted st outside \<longleftrightarrow> aa_read_only st \<and> (outside \<longrightarrow> aa_read_only_outside st)"

definition writing_permitted :: "auto_approval_state \<Rightarrow> bool \<Rightarrow> bool \<Rightarrow> bool" where
  "writing_permitted st outside prot \<longleftrightarrow>
     aa_write st \<and> (outside \<longrightarrow> aa_write_outside st) \<and> (prot \<longrightarrow> aa_write_protected st)"

fun tool_permitted :: "auto_approval_state \<Rightarrow> bool \<Rightarrow> tool_action \<Rightarrow> bool" where
  "tool_permitted st prot UpdateTodoList = True"
| "tool_permitted st prot SkillAction = True"
| "tool_permitted st prot SwitchMode = aa_mode_switch st"
| "tool_permitted st prot NewTask = aa_subtasks st"
| "tool_permitted st prot FinishTask = aa_subtasks st"
| "tool_permitted st prot (ReadFile outside) = reading_permitted st outside"
| "tool_permitted st prot (ListFiles outside) = reading_permitted st outside"
| "tool_permitted st prot (ListFilesTopLevel outside) = reading_permitted st outside"
| "tool_permitted st prot (ListFilesRecursive outside) = reading_permitted st outside"
| "tool_permitted st prot (SearchFiles outside) = reading_permitted st outside"
| "tool_permitted st prot (CodebaseSearch outside) = reading_permitted st outside"
| "tool_permitted st prot (RunSlashCommand outside) = reading_permitted st outside"
| "tool_permitted st prot (EditedExistingFile outside) = writing_permitted st outside prot"
| "tool_permitted st prot (AppliedDiff outside) = writing_permitted st outside prot"
| "tool_permitted st prot (NewFileCreated outside) = writing_permitted st outside prot"
| "tool_permitted st prot (GenerateImage outside) = writing_permitted st outside prot"

lemma read_only_actions [simp]:
  "is_read_only_tool_action (ReadFile b)"
  "is_read_only_tool_action (ListFiles b)"
  "is_read_only_tool_action (ListFilesTopLevel b)"
  "is_read_only_tool_action (ListFilesRecursive b)"
  "is_read_only_tool_action (SearchFiles b)"
  "is_read_only_tool_action (CodebaseSearch b)"
  "is_read_only_tool_action (RunSlashCommand b)"
  "\<not> is_read_only_tool_action (EditedExistingFile b)"
  "\<not> is_read_only_tool_action (AppliedDiff b)"
  "\<not> is_read_only_tool_action (NewFileCreated b)"
  "\<not> is_read_only_tool_action (GenerateImage b)"
  by (simp_all add: is_read_only_tool_action_def read_only_tool_names_def)

lemma write_actions [simp]:
  "is_write_tool_action (EditedExistingFile b)"
  "is_write_tool_action (AppliedDiff b)"
  "is_write_tool_action (NewFileCreated b)"
  "is_write_tool_action (GenerateImage b)"
  by (simp_all add: is_write_tool_action_def write_tool_names_def)

lemma line_decision:
  assumes "plain_prefixes (ap_lower pf) (aa_allowed_commands st)" "plain_prefixes (ap_lower pf) (aa_denied_commands st)"
    and "simple_line t"
  shows "get_command_decision (ap_lower pf) (ap_digit pf) t (aa_allowed_commands st) (aa_denied_commands st) =
     (if line_denied pf st t then AutoDeny else if line_allowed pf st t then AutoApprove else AskUser)"
proof -
  have both: "command_denied lower as ds c \<and> \<not> command_allowed lower as ds c \<longleftrightarrow> command_denied lower as ds c" for lower as ds c
    using allowed_not_denied by blast
  have blank: "line_commands t = {}" if "trim t = []"
    using simple_line_commands [OF assms(3), of "ap_digit pf"] that by (simp add: parse_command_chain.simps)
  show ?thesis
    unfolding command_decision_exact [OF assms(1,2)] line_denied_def line_allowed_def simple_line_commands [OF assms(3)] both
    using simple_line_safe [OF assms(3)] blank by simp
qed

lemma tool_decision: "check_tool pf st prot txt = approve_if (\<exists>t. Option.bind txt (ap_tool pf) = Some t \<and> tool_permitted st prot t)"
proof (cases "Option.bind txt (ap_tool pf)")
  case (Some t)
  then show ?thesis
    by (cases t) (simp_all add: check_tool_def approve_if_def reading_permitted_def writing_permitted_def)
qed (simp add: check_tool_def approve_if_def)

text \<open>
  C34. An agent goes ahead on its own exactly where the settings say so. With prefixes whose length lower case
  does not change, and for command lines without quotes, backquotes, opening parentheses, dollar signs and redirections,
  an action is approved exactly if it does not block, or approval is switched on and: for a command line, commands
  may run and each command of the line, cut at every ampersand, bar, semicolon and line end, has an allowed
  prefix longer than every denied prefix it has; for a server, servers are allowed and, if a tool is called, the
  first server of that name lists the first tool of that name as always allowed; for a tool, its switch is on,
  with the further switches for files outside the workspace and for protected files. It is refused exactly if a
  command of the line has a denied prefix at least as long as every allowed one, whatever the rest of the line is.
\<close>

theorem auto_approval_exact:
  assumes "plain_prefixes (ap_lower pf) (aa_allowed_commands st)" "plain_prefixes (ap_lower pf) (aa_denied_commands st)"
    and "\<And>t. a = Command \<Longrightarrow> txt = Some t \<Longrightarrow> simple_line t"
  shows "(check_auto_approval pf st a txt prot servers = Approve \<longleftrightarrow>
            a = CommandOutput
            \<or> aa_enabled st
               \<and> (a = Command \<and> aa_execute st \<and> (\<exists>t. txt = Some t \<and> line_allowed pf st t)
                  \<or> a = UseMcpServer \<and> aa_mcp st
                     \<and> (\<exists>u. Option.bind txt (ap_mcp_use pf) = Some u
                          \<and> ((\<exists>s r. u = AccessMcpResource s r)
                             \<or> (\<exists>s t server tool. u = UseMcpTool s t \<and> find (\<lambda>x. ms_name x = s) servers = Some server
                                  \<and> find (\<lambda>x. mt_name x = t) (ms_tools server) = Some tool \<and> mt_always_allow tool)))
                  \<or> a = Tool \<and> (\<exists>t. Option.bind txt (ap_tool pf) = Some t \<and> tool_permitted st prot t)))
       \<and> (check_auto_approval pf st a txt prot servers = Deny \<longleftrightarrow>
            aa_enabled st \<and> a = Command \<and> aa_execute st \<and> (\<exists>t. txt = Some t \<and> line_denied pf st t))"
proof -
  have followup: "check_followup pf st txt \<noteq> Approve" "check_followup pf st txt \<noteq> Deny"
    by (auto simp: check_followup_def split: option.split list.split)
  have apart: "line_allowed pf st t \<Longrightarrow> \<not> line_denied pf st t" for t
    unfolding line_allowed_def line_denied_def using allowed_not_denied by blast
  have command: "check_command pf st txt =
      (if aa_execute st \<and> (\<exists>t. txt = Some t \<and> line_denied pf st t) then Deny
       else approve_if (aa_execute st \<and> (\<exists>t. txt = Some t \<and> line_allowed pf st t)))" if "a = Command"
    using assms(3) [OF that]
    by (auto simp: check_command_def line_decision [OF assms(1,2)] approve_if_def split: option.split)
  have listed: "is_mcp_tool_always_allowed u servers \<longleftrightarrow>
      (\<exists>s t server tool. u = UseMcpTool s t \<and> find (\<lambda>x. ms_name x = s) servers = Some server
         \<and> find (\<lambda>x. mt_name x = t) (ms_tools server) = Some tool \<and> mt_always_allow tool)" for u
    by (cases u) (auto simp: unwrap_or_def split: option.split)
  have mcp: "check_mcp pf st servers txt = approve_if (aa_mcp st
      \<and> (\<exists>u. Option.bind txt (ap_mcp_use pf) = Some u
           \<and> ((\<exists>s r. u = AccessMcpResource s r) \<or> is_mcp_tool_always_allowed u servers)))"
    by (auto simp: check_mcp_def approve_if_def split: option.split mcp_server_use.split)
  have appr: "approve_if b = Approve \<longleftrightarrow> b" "approve_if b \<noteq> Deny" for b by (simp_all add: approve_if_def)
  show ?thesis
    unfolding listed [symmetric]
    by (cases a) (simp_all add: check_auto_approval_def is_non_blocking_def followup command mcp tool_decision appr,
      use apart in auto)
qed

definition demo_approval_platform :: approval_platform where
  "demo_approval_platform = \<lparr> ap_lower = map ascii_lower, ap_digit = (\<lambda>c. 48 \<le> c \<and> c \<le> 57), ap_followup = (\<lambda>_. None),
     ap_mcp_use = (\<lambda>_. None), ap_tool = (\<lambda>_. None), ap_cost_exceeds = (\<lambda>a b. b < a) \<rparr>"

definition demo_approval_state :: auto_approval_state where
  "demo_approval_state = \<lparr> aa_enabled = True, aa_read_only = False, aa_read_only_outside = False, aa_write = False,
     aa_write_outside = False, aa_write_protected = False, aa_mcp = False, aa_mode_switch = False, aa_subtasks = False,
     aa_execute = True, aa_followup = False, aa_followup_timeout_ms = None, aa_allowed_commands = [str ''echo''],
     aa_denied_commands = [str ''rm''], aa_max_requests = None, aa_max_cost = None, aa_request_count = 0, aa_cost = 0 \<rparr>"

text \<open>Small lines, evaluated.\<close>

lemmas line_eval = get_command_decision_def parse_command_chain.simps clean_segments_def remove_powershell_redirections_def
  trim_def trim_start_by_def trim_end_by_def is_whitespace_def str_def extract_subshells_def push_nonempty_def
  get_single_command_decision_def find_longest_prefix_match_def prefix_matches_def starts_with_def ascii_lower_def
  byte_len_def utf8_def utf8_char_def contains_dangerous_substitution_def dangerous_parameter_expansion_def
  parameter_assignment_octal_def parameter_assignment_hex_def parameter_assignment_unicode_def parameter_assignment_def
  indirect_expansion_def here_string_with_substitution_def zsh_process_substitution_def zsh_substitution_def
  zsh_glob_qualifier_def lit_def any_of_def none_of_def

abbreviation demo_decision :: "rstring \<Rightarrow> rstring list \<Rightarrow> rstring list \<Rightarrow> command_decision" where
  "demo_decision \<equiv> get_command_decision (map ascii_lower) (\<lambda>c. 48 \<le> c \<and> c \<le> 57)"

lemma denied_in_chain: "demo_decision (str ''echo a; rm x'') [str ''echo''] [str ''rm''] = AutoDeny"
  by (simp add: line_eval)

lemma denied_in_subshell: "demo_decision (str ''echo $(rm x)'') [str ''echo''] [str ''rm''] = AutoDeny"
  by (simp add: line_eval)

text \<open>
  The shell substitutes inside double quotes too, the parser looks for subshells outside quotes only: between
  double quotes a denied command is approved.
\<close>

lemma quoted_substitution_approved:
  "demo_decision (str ''echo '' @ [34] @ str ''$(rm x)'' @ [34]) [str ''echo''] [str ''rm''] = AutoApprove"
  by (simp add: line_eval)

text \<open>A quote after a backslash opens a string for the parser and not for the shell: the separator behind it is not seen.\<close>

lemma escaped_quote_hides_command:
  "demo_decision (str ''echo '' @ [92, 34] @ str ''; rm x'') [str ''echo''] [str ''rm''] = AutoApprove"
  by (simp add: line_eval)

text \<open>The ampersand splits the line before the redirection is looked for, so a redirected command is not recognised.\<close>

lemma redirected_command_asks: "demo_decision (str ''ls 2>&1'') [str ''ls''] [] = AskUser"
  by (simp add: line_eval)

theorem auto_approval_exact_witness:
  "check_auto_approval demo_approval_platform demo_approval_state Command (Some (str ''echo a; rm x'')) False [] = Deny"
proof -
  have plain: "plain_prefixes (ap_lower demo_approval_platform) (aa_allowed_commands demo_approval_state)"
    "plain_prefixes (ap_lower demo_approval_platform) (aa_denied_commands demo_approval_state)"
    by (simp_all add: plain_prefixes_def demo_approval_platform_def demo_approval_state_def line_eval)
  have simple: "simple_line (str ''echo a; rm x'')" by (simp add: simple_line_def str_def)
  have "str '' rm x'' \<in> pieces_of (\<lambda>c. c \<in> {38, 124, 59, 10, 13}) (str ''echo a; rm x'')"
    unfolding pieces_of_def by (intro CollectI conjI exI [of _ "str ''echo a;''"] exI [of _ "[]"]) (simp_all add: str_def)
  moreover have "str ''rm x'' = trim (str '' rm x'')" "str ''rm x'' \<noteq> []"
    by (simp_all add: trim_def trim_start_by_def trim_end_by_def is_whitespace_def str_def)
  ultimately have "str ''rm x'' \<in> line_commands (str ''echo a; rm x'')"
    unfolding line_commands_def by (intro CollectI conjI bexI [of _ "str '' rm x''"])
  moreover have "command_denied (ap_lower demo_approval_platform) (aa_allowed_commands demo_approval_state)
      (aa_denied_commands demo_approval_state) (str ''rm x'')"
    by (simp add: command_denied_def begins_with_iff demo_approval_platform_def demo_approval_state_def line_eval)
  ultimately have "line_denied demo_approval_platform demo_approval_state (str ''echo a; rm x'')"
    unfolding line_denied_def by blast
  then show ?thesis
    using auto_approval_exact [OF plain, of Command "Some (str ''echo a; rm x'')" False "[]"] simple
    by (simp add: demo_approval_state_def)
qed

section \<open>How often\<close>

text \<open>
  With fewer than four thousand million requests so far, a request goes ahead without a person exactly if it is
  within the limit. The counter has 32 bits: beyond, the count starts again.
\<close>

lemma request_limit_exact:
  assumes "started < 2 ^ 32 - 1"
  shows "lr_should_proceed (fst (check_request_limit started st)) \<longleftrightarrow>
    is_none_or (\<lambda>m. started < unat m) (aa_max_requests st)"
proof -
  have "unat (of_nat (Suc started) :: u32) = Suc started"
    using assms by (simp only: unsigned_of_nat) (simp add: take_bit_nat_eq_self)
  then have "unat (of_nat started + 1 :: u32) = Suc started" by (simp add: add.commute)
  then show ?thesis
    by (auto simp: check_request_limit_def Let_def limit_exceeded_def limit_proceed_def word_less_nat_alt split: option.split)
qed

lemma request_count_wraps: "lr_should_proceed (fst (check_request_limit (2 ^ 32 - 1) st))"
proof -
  have "(of_nat (2 ^ 32 - 1) + 1 :: u32) = of_nat (Suc (2 ^ 32 - 1))" by (simp only: of_nat_Suc add.commute)
  also have "\<dots> = 0" by (simp only: word_of_nat_eq_0_iff) simp
  finally have "(of_nat (2 ^ 32 - 1) + 1 :: u32) = 0" .
  then show ?thesis by (simp only: check_request_limit_def Let_def) (simp add: limit_proceed_def split: option.split)
qed

text \<open>The handler asks for the first time after the limit and then counts from the message at which a person agreed.\<close>

lemma handler_limit_exact:
  "lr_should_proceed (fst (handler_check_limits pf max_requests None started cost h)) \<longleftrightarrow>
     is_none_or (\<lambda>m. started < m) max_requests"
  "ah_last_reset (approve_and_reset messages h) = messages"
  "ah_requests (approve_and_reset messages h) = ah_requests h"
  by (cases max_requests; simp add: handler_check_limits_def Let_def limit_exceeded_def limit_proceed_def approve_and_reset_def;
      arith)+

end
