(* ===== verification/Claude_Rules.thy ===== *)
theory Claude_Rules
  imports Cp_Helpers
begin

text \<open>
  Permission rules of the Claude agent (\<^verbatim>\<open>claude-permissions\<close>): the text form of a rule with its escapes
  (\<^verbatim>\<open>rule_parser.rs\<close>), and the four matchers for patterns with wildcards, by a table (\<^verbatim>\<open>shell_rules.rs\<close>), by two positions
  with backtracking (\<^verbatim>\<open>shell_matching.rs\<close>), by recursion (\<^verbatim>\<open>rule.rs\<close>) and by parts (\<^verbatim>\<open>lib.rs\<close>), compared with one
  description of what a pattern matches.
\<close>

section \<open>Rules as text\<close>

record permission_rule_value =
  rv_tool_name :: rstring
  rv_content :: "rstring option"

definition normalize_legacy_tool_name :: "rstring \<Rightarrow> rstring" where
  "normalize_legacy_tool_name name =
     (if name = str ''Task'' then str ''Agent''
      else if name = str ''KillShell'' then str ''TaskStop''
      else if name = str ''AgentOutputTool'' then str ''TaskOutput''
      else if name = str ''BashOutputTool'' then str ''TaskOutput''
      else name)"

text \<open>Positions count characters; the code counts bytes, and cuts at parentheses only, which are single bytes.\<close>

definition unescaped_at :: "rstring \<Rightarrow> rchar \<Rightarrow> nat \<Rightarrow> bool" where
  "unescaped_at s ch i \<longleftrightarrow> s ! i = ch \<and> even (length (takeWhile (\<lambda>c. c = 92) (rev (take i s))))"

definition find_first_unescaped_char :: "rstring \<Rightarrow> rchar \<Rightarrow> nat option" where
  "find_first_unescaped_char s ch = find (unescaped_at s ch) [0..<length s]"

definition find_last_unescaped_char :: "rstring \<Rightarrow> rchar \<Rightarrow> nat option" where
  "find_last_unescaped_char s ch =
     fold (\<lambda>i found. if unescaped_at s ch i then Some i else found) [0..<length s] None"

definition escape_rule_content :: "rstring \<Rightarrow> rstring" where
  "escape_rule_content content =
     concat (map (\<lambda>c. if c = 92 \<or> c = 40 \<or> c = 41 then [92, c] else [c]) content)"

fun unescape_rule_content :: "rstring \<Rightarrow> rstring" where
  "unescape_rule_content [] = []"
| "unescape_rule_content [c] = [c]"
| "unescape_rule_content (c # d # s) =
     (if c = 92 \<and> (d = 92 \<or> d = 40 \<or> d = 41) then d # unescape_rule_content s
      else c # unescape_rule_content (d # s))"

definition tool_only :: "rstring \<Rightarrow> permission_rule_value" where
  "tool_only name = \<lparr> rv_tool_name = name, rv_content = None \<rparr>"

definition parse_permission_rule_value :: "rstring \<Rightarrow> permission_rule_value option" where
  "parse_permission_rule_value input =
     (case (find_first_unescaped_char input 40, find_last_unescaped_char input 41) of
        (Some oi, Some ci) \<Rightarrow>
          if ci \<le> oi \<or> ci \<noteq> length input - 1
          then (if input = [] then None else Some (tool_only (normalize_legacy_tool_name input)))
          else (let tool_name = take oi input; raw_content = take (ci - (oi + 1)) (drop (oi + 1) input)
                in if tool_name = []
                   then (if input = [] then None else Some (tool_only (normalize_legacy_tool_name input)))
                   else if raw_content = [] \<or> raw_content = str ''*''
                   then Some (tool_only (normalize_legacy_tool_name tool_name))
                   else Some \<lparr> rv_tool_name = normalize_legacy_tool_name tool_name,
                               rv_content = Some (unescape_rule_content raw_content) \<rparr>)
      | _ \<Rightarrow> if input = [] then None else Some (tool_only (normalize_legacy_tool_name input)))"

definition permission_rule_value_to_string :: "permission_rule_value \<Rightarrow> rstring" where
  "permission_rule_value_to_string v =
     (case rv_content v of
        Some content \<Rightarrow> rv_tool_name v @ [40] @ escape_rule_content content @ [41]
      | None \<Rightarrow> rv_tool_name v)"

section \<open>Wildcards\<close>

text \<open>\<^verbatim>\<open>wildcard_match\<close>: row after row of a table over the bytes of the text.\<close>

fun dp_cells :: "nat \<Rightarrow> bool \<Rightarrow> bool \<Rightarrow> bool list \<Rightarrow> nat list \<Rightarrow> bool list" where
  "dp_cells p diag left (u # us) (c # cs) =
     (let v = (if p = 42 then u \<or> left else (p = 63 \<or> p = c) \<and> diag) in v # dp_cells p u v us cs)"
| "dp_cells p diag left _ _ = []"

definition dp_row :: "nat list \<Rightarrow> nat \<Rightarrow> bool list \<Rightarrow> bool list" where
  "dp_row txt p prev = (let first = (p = 42 \<and> hd prev) in first # dp_cells p (hd prev) first (tl prev) txt)"

definition wildcard_match :: "rstring \<Rightarrow> rstring \<Rightarrow> bool" where
  "wildcard_match pattern txt =
     last (fold (dp_row (utf8 txt)) (utf8 pattern) (True # replicate (length (utf8 txt)) False))"

text \<open>\<^verbatim>\<open>recursive_glob_match\<close>: positions in text and pattern, and those of the last star.\<close>

definition star_behind :: "(nat \<times> nat) option \<Rightarrow> nat \<Rightarrow> nat \<Rightarrow> bool" where
  "star_behind star ti pi \<longleftrightarrow> (case star of None \<Rightarrow> True | Some (sp, st) \<Rightarrow> sp < pi \<and> st \<le> ti)"

function glob_loop :: "rstring \<Rightarrow> rstring \<Rightarrow> nat \<Rightarrow> nat \<Rightarrow> (nat \<times> nat) option \<Rightarrow> bool" where
  "glob_loop txt pat ti pi star =
     (if ti < length txt then
        if pi < length pat \<and> (pat ! pi = txt ! ti \<or> pat ! pi = 63) then glob_loop txt pat (ti + 1) (pi + 1) star
        else if pi < length pat \<and> pat ! pi = 42 then glob_loop txt pat ti (pi + 1) (Some (pi, ti))
        else case star of
          Some (sp, st) \<Rightarrow> glob_loop txt pat (st + 1) (sp + 1) (Some (sp, st + 1))
        | None \<Rightarrow> False
      else dropWhile (\<lambda>c. c = 42) (drop pi pat) = [])"
  by pat_completeness auto
termination
  by (relation "measures
      [\<lambda>(txt, pat, ti, pi, star). if star_behind star ti pi then 0 else 1,
       \<lambda>(txt, pat, ti, pi, star). case star of None \<Rightarrow> Suc (length pat) | Some (sp, st) \<Rightarrow> length pat - sp,
       \<lambda>(txt, pat, ti, pi, star). case star of None \<Rightarrow> 0 | Some (sp, st) \<Rightarrow> length txt - st,
       \<lambda>(txt, pat, ti, pi, star). length pat - pi]")
    (auto simp: star_behind_def split: option.splits)

declare glob_loop.simps [simp del]

definition recursive_glob_match :: "rstring \<Rightarrow> rstring \<Rightarrow> bool" where
  "recursive_glob_match txt pat = glob_loop txt pat 0 0 None"

definition one_star_match :: "rstring \<Rightarrow> rstring \<Rightarrow> rstring \<Rightarrow> bool" where
  "one_star_match before after txt \<longleftrightarrow>
     starts_with txt before \<and> ends_with txt after \<and> length (utf8 before) + length (utf8 after) \<le> length (utf8 txt)"

definition glob_match_command :: "rstring \<Rightarrow> rstring \<Rightarrow> bool" where
  "glob_match_command command pat =
     (case split_on 42 pat of
        [p] \<Rightarrow> command = p
      | [before, after] \<Rightarrow> one_star_match before after command
      | _ \<Rightarrow> recursive_glob_match command pat)"

text \<open>What stands between the first opening and the last closing parenthesis.\<close>

definition extract_tool_content :: "rstring \<Rightarrow> rstring option" where
  "extract_tool_content pat =
     (if 40 \<in> set pat \<and> 41 \<in> set pat
         \<and> length (takeWhile (\<lambda>c. c \<noteq> 40) pat) < length pat - 1 - length (takeWhile (\<lambda>c. c \<noteq> 41) (rev pat))
      then Some (let inner = tl (dropWhile (\<lambda>c. c \<noteq> 40) pat)
                 in rev (tl (dropWhile (\<lambda>c. c \<noteq> 41) (rev inner))))
      else None)"

lemma extract_tool_content_shorter: "extract_tool_content pat = Some inner \<Longrightarrow> length inner < length pat"
proof -
  assume "extract_tool_content pat = Some inner"
  then have p: "40 \<in> set pat" and i: "inner = rev (tl (dropWhile (\<lambda>c. c \<noteq> 41) (rev (tl (dropWhile (\<lambda>c. c \<noteq> 40) pat)))))"
    by (auto simp: extract_tool_content_def Let_def split: if_splits)
  have "length inner \<le> length (tl (dropWhile (\<lambda>c. c \<noteq> 40) pat))"
    using length_dropWhile_le [of "\<lambda>c. c \<noteq> 41" "rev (tl (dropWhile (\<lambda>c. c \<noteq> 40) pat))"] by (simp add: i)
  also have "\<dots> < length pat"
    using length_dropWhile_le [of "\<lambda>c. c \<noteq> 40" pat] p by (cases pat) auto
  finally show ?thesis .
qed

function shell_command_matches_pattern :: "rstring \<Rightarrow> rstring \<Rightarrow> bool" where
  "shell_command_matches_pattern command pattern =
     (let cmd = trim command; pat = trim pattern
      in if cmd = pat then True
         else case extract_tool_content pat of
           Some inner \<Rightarrow> shell_command_matches_pattern cmd inner
         | None \<Rightarrow> if 42 \<in> set pat then glob_match_command cmd pat else False)"
  by pat_completeness auto
termination
proof (relation "measure (\<lambda>(command, pattern). length pattern)", goal_cases)
  case (2 command pattern cmd pat inner)
  have "length (trim pattern) \<le> length pattern"
    by (simp add: trim_def trim_start_by_def trim_end_by_def length_dropWhile_le order_trans [OF length_dropWhile_le])
  with extract_tool_content_shorter 2 show ?case by fastforce
qed auto

text \<open>
  \<^verbatim>\<open>glob_match_recursive\<close> tries every byte offset of the rest; one inside a character is a panic, which is the value
  \<open>None\<close>.
\<close>

function glob_match_recursive :: "rstring \<Rightarrow> rstring \<Rightarrow> bool option"
  and try_suffixes :: "rstring \<Rightarrow> rstring \<Rightarrow> bool option" where
  "glob_match_recursive [] txt = Some (txt = [])"
| "glob_match_recursive (p # ps) txt =
     (if p = 42 then try_suffixes ps txt
      else case txt of
        [] \<Rightarrow> Some False
      | c # cs \<Rightarrow> if p = c \<or> p = 63 then glob_match_recursive ps cs else Some False)"
| "try_suffixes ps txt =
     (case glob_match_recursive ps txt of
        None \<Rightarrow> None
      | Some True \<Rightarrow> Some True
      | Some False \<Rightarrow>
          (case txt of
             [] \<Rightarrow> Some False
           | c # cs \<Rightarrow> if length (utf8_char c) = 1 then try_suffixes ps cs else None))"
  by pat_completeness auto
termination
  by (relation "measures [\<lambda>x. case x of Inl (ps, txt) \<Rightarrow> length ps | Inr (ps, txt) \<Rightarrow> length ps,
      \<lambda>x. case x of Inl _ \<Rightarrow> 0 | Inr _ \<Rightarrow> 1, \<lambda>x. case x of Inl (ps, txt) \<Rightarrow> length txt | Inr (ps, txt) \<Rightarrow> length txt]") auto

definition glob_match :: "rstring \<Rightarrow> rstring \<Rightarrow> bool option" where
  "glob_match pattern txt =
     (if pattern = str ''*'' then Some True
      else if 42 \<notin> set pattern then Some (pattern = txt)
      else case split_on 42 pattern of
        [before, after] \<Rightarrow> Some (one_star_match before after txt)
      | _ \<Rightarrow> glob_match_recursive pattern txt)"

text \<open>\<^verbatim>\<open>rule_matches_pattern\<close>: the parts between stars, one after the other; \<open>rest\<close> is the name from the current position on.\<close>

fun find_str :: "rstring \<Rightarrow> rstring \<Rightarrow> rstring option" where
  "find_str part [] = (if part = [] then Some [] else None)"
| "find_str part (c # s) = (if starts_with (c # s) part then Some (drop (length part) (c # s)) else find_str part s)"

fun match_parts :: "rstring \<Rightarrow> bool \<Rightarrow> rstring list \<Rightarrow> rstring \<Rightarrow> bool" where
  "match_parts name first [] rest = True"
| "match_parts name first (part # parts) rest =
     (if part = [] then match_parts name False parts rest
      else if first then starts_with rest part \<and> match_parts name False parts (drop (length part) rest)
      else if parts = [] then ends_with name part
      else case find_str part rest of None \<Rightarrow> False | Some rest' \<Rightarrow> match_parts name False parts rest')"

definition rule_matches_pattern :: "rstring \<Rightarrow> rstring \<Rightarrow> bool" where
  "rule_matches_pattern pattern name =
     (if pattern = str ''*'' then True
      else if 42 \<notin> set pattern then pattern = name
      else match_parts name True (split_on 42 pattern) name)"

section \<open>What a pattern matches\<close>

text \<open>A star stands for any text, a question mark for one character, everything else for itself.\<close>

inductive globs :: "nat list \<Rightarrow> nat list \<Rightarrow> bool" where
  globs_nil: "globs [] []"
| globs_one: "p \<noteq> 42 \<Longrightarrow> p = 63 \<or> p = c \<Longrightarrow> globs ps cs \<Longrightarrow> globs (p # ps) (c # cs)"
| globs_none: "globs ps cs \<Longrightarrow> globs (42 # ps) cs"
| globs_more: "globs (42 # ps) cs \<Longrightarrow> globs (42 # ps) (c # cs)"

inductive_cases globs_NilE: "globs [] t"
inductive_cases globs_ConsE: "globs (p # ps) t"

lemma globs_Nil [simp]: "globs [] t \<longleftrightarrow> t = []"
  by (auto intro: globs_nil elim: globs_NilE)

lemma globs_literal: "p \<noteq> 42 \<Longrightarrow> globs (p # ps) t \<longleftrightarrow> (\<exists>c cs. t = c # cs \<and> (p = 63 \<or> p = c) \<and> globs ps cs)"
  by (auto intro: globs_one elim: globs_ConsE)

lemma globs_star: "globs (42 # ps) t \<longleftrightarrow> (\<exists>k \<le> length t. globs ps (drop k t))"
proof
  assume "globs (42 # ps) t"
  then show "\<exists>k \<le> length t. globs ps (drop k t)"
  proof (induction "42 # ps" t rule: globs.induct)
    case (globs_none cs)
    then show ?case by (intro exI [of _ 0]) simp
  next
    case (globs_more cs c)
    then obtain k where "k \<le> length cs" "globs ps (drop k cs)" by blast
    then show ?case by (intro exI [of _ "Suc k"]) simp
  qed simp
next
  assume "\<exists>k \<le> length t. globs ps (drop k t)"
  then show "globs (42 # ps) t"
  proof (induction t)
    case (Cons c t)
    then obtain k where k: "k \<le> length (c # t)" "globs ps (drop k (c # t))" by blast
    show ?case
    proof (cases k)
      case (Suc j)
      with k Cons.IH show ?thesis by (auto intro: globs_more)
    qed (use k in \<open>auto intro: globs_none\<close>)
  qed (auto intro: globs_none)
qed

lemma globs_append: "globs (ps @ qs) t \<longleftrightarrow> (\<exists>u v. t = u @ v \<and> globs ps u \<and> globs qs v)"
proof (induction ps arbitrary: t)
  case (Cons p ps)
  show ?case
  proof (cases "p = 42")
    case True
    have "globs ((p # ps) @ qs) t \<longleftrightarrow> (\<exists>k \<le> length t. \<exists>u v. drop k t = u @ v \<and> globs ps u \<and> globs qs v)"
      by (simp add: True globs_star Cons)
    also have "\<dots> \<longleftrightarrow> (\<exists>w v. t = w @ v \<and> (\<exists>k \<le> length w. globs ps (drop k w)) \<and> globs qs v)"
    proof safe
      fix k u v assume "k \<le> length t" "drop k t = u @ v" "globs ps u" "globs qs v"
      then show "\<exists>w v. t = w @ v \<and> (\<exists>k \<le> length w. globs ps (drop k w)) \<and> globs qs v"
        by (intro exI [of _ "take k t @ u"] exI [of _ v] conjI exI [of _ k])
          (simp_all, metis append_take_drop_id)
    next
      fix w v k assume "k \<le> length w" "globs ps (drop k w)" "globs qs v"
      then show "\<exists>ka \<le> length (w @ v). \<exists>u va. drop ka (w @ v) = u @ va \<and> globs ps u \<and> globs qs va"
        by (intro exI [of _ k]) auto
    qed
    finally show ?thesis by (simp add: True globs_star)
  next
    case False
    then show ?thesis by (auto simp: globs_literal Cons) (metis append_Cons)+
  qed
qed auto

lemma globs_snoc_star: "globs (ps @ [42]) t \<longleftrightarrow> (\<exists>k \<le> length t. globs ps (take k t))"
proof -
  have "globs [42] v" for v by (auto simp: globs_star intro: exI [of _ "length v"])
  then have "globs (ps @ [42]) t \<longleftrightarrow> (\<exists>u v. t = u @ v \<and> globs ps u)" by (simp add: globs_append)
  also have "\<dots> \<longleftrightarrow> (\<exists>k \<le> length t. globs ps (take k t))"
    by (metis append_eq_conv_conj append_take_drop_id length_append le_add1)
  finally show ?thesis .
qed

lemma globs_snoc_literal:
  "p \<noteq> 42 \<Longrightarrow> globs (ps @ [p]) t \<longleftrightarrow> (\<exists>u c. t = u @ [c] \<and> (p = 63 \<or> p = c) \<and> globs ps u)"
  by (auto simp: globs_append globs_literal)

section \<open>The table\<close>

text \<open>A row says which beginnings of the text the pattern so far matches.\<close>

definition row_ok :: "nat list \<Rightarrow> nat list \<Rightarrow> bool list \<Rightarrow> bool" where
  "row_ok ps t row \<longleftrightarrow> length row = Suc (length t) \<and> (\<forall>j \<le> length t. row ! j = globs ps (take j t))"

lemma dp_cells_correct:
  assumes "length us = length cs"
    and "diag = globs ps done_part" "left = globs (ps @ [p]) done_part"
    and "\<And>j. j < length cs \<Longrightarrow> us ! j = globs ps (done_part @ take (Suc j) cs)"
  shows "length (dp_cells p diag left us cs) = length cs
    \<and> (\<forall>j < length cs. dp_cells p diag left us cs ! j = globs (ps @ [p]) (done_part @ take (Suc j) cs))"
  using assms
proof (induction cs arbitrary: us diag left done_part)
  case (Cons c cs)
  obtain u us' where us: "us = u # us'" using Cons.prems(1) by (cases us) auto
  have u: "u = globs ps (done_part @ [c])" using Cons.prems(4) [of 0] us by simp
  let ?v = "if p = 42 then u \<or> left else (p = 63 \<or> p = c) \<and> diag"
  have v: "?v = globs (ps @ [p]) (done_part @ [c])"
  proof (cases "p = 42")
    case True
    have "globs (ps @ [42]) (done_part @ [c]) \<longleftrightarrow> globs ps (done_part @ [c]) \<or> globs (ps @ [42]) done_part"
      unfolding globs_snoc_star by (auto simp: le_Suc_eq)
    then show ?thesis using True u Cons.prems(3) by simp
  next
    case False
    then show ?thesis using Cons.prems(2) by (auto simp: globs_snoc_literal)
  qed
  have rest: "us' ! j = globs ps ((done_part @ [c]) @ take (Suc j) cs)" if "j < length cs" for j
    using Cons.prems(4) [of "Suc j"] that us by simp
  have IH: "length (dp_cells p u ?v us' cs) = length cs
      \<and> (\<forall>j < length cs. dp_cells p u ?v us' cs ! j = globs (ps @ [p]) ((done_part @ [c]) @ take (Suc j) cs))"
    by (rule Cons.IH) (use Cons.prems(1) us u v rest in simp_all)
  show ?case
    using IH v by (auto simp: us Let_def nth_Cons split: nat.split)
qed simp

lemma dp_row_correct:
  assumes "row_ok ps t row" shows "row_ok (ps @ [p]) t (dp_row t p row)"
proof -
  obtain f us where row: "row = f # us" and len: "length us = length t"
    using assms by (cases row) (auto simp: row_ok_def)
  have f: "f = globs ps []" using assms row by (auto simp: row_ok_def)
  have left: "(p = 42 \<and> f) = globs (ps @ [p]) []"
    using f by (cases "p = 42") (simp_all add: globs_snoc_star globs_snoc_literal)
  have cells: "us ! j = globs ps ([] @ take (Suc j) t)" if "j < length t" for j
    using assms that row by (auto simp: row_ok_def dest!: spec [of _ "Suc j"])
  from dp_cells_correct [OF len f left cells] left
  show ?thesis by (auto simp: row_ok_def dp_row_def Let_def row nth_Cons split: nat.split)
qed

lemma dp_rows_correct:
  "row_ok ps t row \<Longrightarrow> row_ok (ps @ qs) t (fold (dp_row t) qs row)"
proof (induction qs arbitrary: ps row)
  case (Cons q qs)
  from Cons.IH [OF dp_row_correct [OF Cons.prems, of q]] show ?case by simp
qed simp

text \<open>
  C36. The table decides what the pattern describes: a rule's pattern matches a text exactly if the bytes of the
  text are those of the pattern with every star replaced by some bytes and every question mark by one.
\<close>

theorem wildcard_match_exact: "wildcard_match pattern txt \<longleftrightarrow> globs (utf8 pattern) (utf8 txt)"
proof -
  let ?t = "utf8 txt"
  have "row_ok [] ?t (True # replicate (length ?t) False)"
    by (auto simp: row_ok_def nth_Cons split: nat.split)
  from dp_rows_correct [OF this, of "utf8 pattern"]
  have row: "row_ok (utf8 pattern) ?t (fold (dp_row ?t) (utf8 pattern) (True # replicate (length ?t) False))" by simp
  moreover from row have "fold (dp_row ?t) (utf8 pattern) (True # replicate (length ?t) False) \<noteq> []"
    by (auto simp: row_ok_def)
  ultimately show ?thesis by (simp add: wildcard_match_def row_ok_def last_conv_nth)
qed

section \<open>Two positions and the last star\<close>

lemma globs_end: "globs ps [] \<longleftrightarrow> dropWhile (\<lambda>c. c = 42) ps = []"
proof (induction ps)
  case (Cons p ps)
  then show ?case by (cases "p = 42") (simp_all add: globs_star globs_literal)
qed simp

lemma globs_starfree:
  "\<forall>x \<in> set seg. x \<noteq> 42 \<Longrightarrow> globs (seg @ r) t \<Longrightarrow> length seg \<le> length t \<and> globs r (drop (length seg) t)"
proof (induction seg arbitrary: t)
  case (Cons x seg)
  then obtain c cs where t: "t = c # cs" and "globs (seg @ r) cs" by (auto simp: globs_literal)
  with Cons have "length seg \<le> length cs \<and> globs r (drop (length seg) cs)" by simp
  with t show ?case by simp
qed simp

text \<open>
  Since the last star, the pattern was compared with as many characters of the text, without meeting another
  star; what can still match is the rest from here, or the pattern after the star from some later position.
\<close>

definition segment_ok :: "rstring \<Rightarrow> nat \<Rightarrow> nat \<Rightarrow> (nat \<times> nat) option \<Rightarrow> bool" where
  "segment_ok pat ti pi star \<longleftrightarrow>
     pi \<le> length pat
     \<and> (case star of
          None \<Rightarrow> True
        | Some (sp, st) \<Rightarrow> sp < pi \<and> st \<le> ti \<and> pi - Suc sp = ti - st \<and> (\<forall>i. sp < i \<and> i < pi \<longrightarrow> pat ! i \<noteq> 42))"

definition later_match :: "rstring \<Rightarrow> rstring \<Rightarrow> (nat \<times> nat) option \<Rightarrow> bool" where
  "later_match pat txt star \<longleftrightarrow>
     (case star of
        None \<Rightarrow> False
      | Some (sp, st) \<Rightarrow> \<exists>k. st < k \<and> k \<le> length txt \<and> globs (drop (Suc sp) pat) (drop k txt))"

text \<open>A match from a later position gives one that begins with what is left of the pattern, later in the text.\<close>

lemma later_match_here:
  assumes "segment_ok pat ti pi star" "later_match pat txt star"
  shows "\<exists>k. ti < k \<and> k \<le> length txt \<and> globs (drop pi pat) (drop k txt)"
proof -
  obtain sp st k where star: "star = Some (sp, st)" and k: "st < k" "k \<le> length txt" "globs (drop (Suc sp) pat) (drop k txt)"
    using assms(2) by (auto simp: later_match_def split: option.splits)
  have seg: "sp < pi" "st \<le> ti" "pi - Suc sp = ti - st" "\<forall>i. sp < i \<and> i < pi \<longrightarrow> pat ! i \<noteq> 42" "pi \<le> length pat"
    using assms(1) star by (auto simp: segment_ok_def)
  let ?s = "take (pi - Suc sp) (drop (Suc sp) pat)"
  have split: "drop (Suc sp) pat = ?s @ drop pi pat"
    using seg(1) append_take_drop_id [of "pi - Suc sp" "drop (Suc sp) pat"] by simp
  have len: "length ?s = ti - st" using seg by simp
  have "\<forall>x \<in> set ?s. x \<noteq> 42" using seg(1,4,5) by (auto simp: in_set_conv_nth)
  from globs_starfree [OF this, of "drop pi pat" "drop k txt"] k(3) split
  have "length ?s \<le> length (drop k txt)" "globs (drop pi pat) (drop (length ?s) (drop k txt))" by simp_all
  then show ?thesis using len seg(2) k by (intro exI [of _ "k + (ti - st)"]) (auto simp: add.commute)
qed

lemma glob_loop_exact:
  assumes "42 \<notin> set tx"
  shows "ti \<le> length tx \<Longrightarrow> segment_ok pat ti pi star \<Longrightarrow>
    glob_loop tx pat ti pi star \<longleftrightarrow> globs (drop pi pat) (drop ti tx) \<or> later_match pat tx star"
  using assms
proof (induction tx pat ti pi star rule: glob_loop.induct)
  case (1 tx pat ti pi star)
  note seg = "1.prems"(2) and plain = "1.prems"(3)
  show ?case
  proof (cases "ti < length tx")
    case False
    then have "ti = length tx" using "1.prems"(1) by simp
    moreover have "glob_loop tx pat ti pi star \<longleftrightarrow> globs (drop pi pat) []"
      using False by (subst glob_loop.simps) (simp add: globs_end)
    moreover have "\<not> later_match pat tx star" using later_match_here [OF seg, of tx] False by fastforce
    ultimately show ?thesis by simp
  next
    case in_text: True
    have tail: "drop ti tx = tx ! ti # drop (Suc ti) tx" using in_text by (rule Cons_nth_drop_Suc [symmetric])
    have not_star: "tx ! ti \<noteq> 42" using in_text plain by (metis nth_mem)
    consider (lit) "pi < length pat" "pat ! pi = tx ! ti \<or> pat ! pi = 63"
      | (star) "pi < length pat" "pat ! pi = 42"
      | (fail) "pi < length pat \<longrightarrow> pat ! pi \<noteq> tx ! ti \<and> pat ! pi \<noteq> 63 \<and> pat ! pi \<noteq> 42" by blast
    then show ?thesis
    proof cases
      case lit
      have pat: "drop pi pat = pat ! pi # drop (Suc pi) pat" using lit(1) by (rule Cons_nth_drop_Suc [symmetric])
      have p: "pat ! pi \<noteq> 42" using lit(2) not_star by auto
      have "segment_ok pat (ti + 1) (pi + 1) star"
        using seg lit(1) p by (auto simp: segment_ok_def less_Suc_eq split: option.splits)
      from "1.IH"(1) [OF in_text _ _ this plain] lit in_text
      have "glob_loop tx pat ti pi star \<longleftrightarrow> globs (drop (pi + 1) pat) (drop (ti + 1) tx) \<or> later_match pat tx star"
        by (simp add: glob_loop.simps [of tx pat ti])
      then show ?thesis using lit(2) p by (auto simp: pat tail globs_literal)
    next
      case star
      have pat: "drop pi pat = 42 # drop (Suc pi) pat" using Cons_nth_drop_Suc [OF star(1)] star(2) by simp
      have "segment_ok pat ti (pi + 1) (Some (pi, ti))" using star(1) by (auto simp: segment_ok_def)
      from "1.IH"(2) [OF in_text _ _ _ this plain] star not_star in_text
      have "glob_loop tx pat ti pi star \<longleftrightarrow>
          globs (drop (pi + 1) pat) (drop ti tx) \<or> later_match pat tx (Some (pi, ti))"
        by (simp add: glob_loop.simps [of tx pat ti])
      also have "\<dots> \<longleftrightarrow> (\<exists>k. ti \<le> k \<and> k \<le> length tx \<and> globs (drop (Suc pi) pat) (drop k tx))"
        using in_text by (auto simp: later_match_def order_le_less)
      also have "\<dots> \<longleftrightarrow> globs (drop pi pat) (drop ti tx)"
      proof
        assume "\<exists>k. ti \<le> k \<and> k \<le> length tx \<and> globs (drop (Suc pi) pat) (drop k tx)"
        then obtain k where k: "ti \<le> k" "k \<le> length tx" "globs (drop (Suc pi) pat) (drop k tx)" by blast
        then have "globs (drop (Suc pi) pat) (drop (k - ti) (drop ti tx))" "k - ti \<le> length (drop ti tx)" by simp_all
        then show "globs (drop pi pat) (drop ti tx)" unfolding pat globs_star by blast
      next
        assume "globs (drop pi pat) (drop ti tx)"
        then obtain j where "j \<le> length (drop ti tx)" "globs (drop (Suc pi) pat) (drop j (drop ti tx))"
          unfolding pat globs_star by blast
        with in_text show "\<exists>k. ti \<le> k \<and> k \<le> length tx \<and> globs (drop (Suc pi) pat) (drop k tx)"
          by (intro exI [of _ "ti + j"]) (simp add: add.commute)
      qed
      also have "\<dots> \<longleftrightarrow> globs (drop pi pat) (drop ti tx) \<or> later_match pat tx star"
      proof -
        have "globs (drop pi pat) (drop ti tx)" if late: "later_match pat tx star"
        proof -
          obtain k where k: "ti < k" "k \<le> length tx" "globs (drop pi pat) (drop k tx)"
            using later_match_here [OF seg late] by blast
          then obtain j where j: "j \<le> length (drop k tx)" "globs (drop (Suc pi) pat) (drop j (drop k tx))"
            unfolding pat globs_star by blast
          then have "globs (drop (Suc pi) pat) (drop (k - ti + j) (drop ti tx))" "k - ti + j \<le> length (drop ti tx)"
            using k by (simp_all add: add.commute)
          then show ?thesis unfolding pat globs_star by blast
        qed
        then show ?thesis by blast
      qed
      finally show ?thesis .
    next
      case fail
      have none: "\<not> globs (drop pi pat) (drop ti tx)"
      proof (cases "pi < length pat")
        case True
        then have "drop pi pat = pat ! pi # drop (Suc pi) pat" by (rule Cons_nth_drop_Suc [symmetric])
        then show ?thesis using fail True by (simp add: tail globs_literal)
      qed (simp add: tail)
      show ?thesis
      proof (cases star)
        case None
        then show ?thesis using none fail in_text by (auto simp: glob_loop.simps [of tx pat ti] later_match_def)
      next
        case (Some x)
        obtain sp st where x: "x = (sp, st)" by (cases x)
        have ok: "segment_ok pat (st + 1) (sp + 1) (Some (sp, st + 1))" and st: "st + 1 \<le> length tx"
          using seg in_text by (auto simp: Some x segment_ok_def)
        have "glob_loop tx pat ti pi star = glob_loop tx pat (st + 1) (sp + 1) (Some (sp, st + 1))"
          using fail in_text by (auto simp: glob_loop.simps [of tx pat ti] Some x)
        also have "\<dots> \<longleftrightarrow> globs (drop (sp + 1) pat) (drop (st + 1) tx) \<or> later_match pat tx (Some (sp, st + 1))"
          by (rule "1.IH"(3) [OF in_text _ _ Some x [symmetric] st ok plain]) (use fail in auto)
        also have "\<dots> \<longleftrightarrow> later_match pat tx star"
        proof -
          have "(\<exists>k. st < k \<and> Q k) \<longleftrightarrow> Q (Suc st) \<or> (\<exists>k. Suc st < k \<and> Q k)" for Q by (metis Suc_lessD Suc_lessI lessI)
          from this [of "\<lambda>k. k \<le> length tx \<and> globs (drop (Suc sp) pat) (drop k tx)"] st show ?thesis
            by (simp add: later_match_def Some x)
        qed
        finally show ?thesis using none by simp
      qed
    qed
  qed
qed

text \<open>
  C37. The matcher with two positions, which goes back to the last star only, is exact: on a text without a star
  it ends and says whether the pattern describes the text.
\<close>

theorem recursive_glob_exact:
  assumes "42 \<notin> set t"
  shows "recursive_glob_match t pat \<longleftrightarrow> globs pat t"
  using glob_loop_exact [OF assms, of 0 pat 0 None]
  by (simp add: recursive_glob_match_def segment_ok_def later_match_def)

theorem recursive_glob_exact_witness: "recursive_glob_match [97, 98, 99] [97, 42, 63] \<and> 42 \<notin> set [97, 98, 99 :: nat]"
proof -
  have "globs [97, 42, 63] [97, 98, 99]" 
    by (rule globs_one, simp, simp, rule globs_more, rule globs_none, rule globs_one, simp, simp, rule globs_nil)
  then show ?thesis using recursive_glob_exact [of "[97, 98, 99]" "[97, 42, 63]"] by simp
qed

text \<open>A star in the text is taken for the star of the pattern and used up: a pattern that describes the text misses it.\<close>

lemma star_in_text_missed:
  "\<not> shell_command_matches_pattern (str ''*; rm x'') (str ''*rm*'') \<and> globs (str ''*rm*'') (str ''*; rm x'')"
proof
  have "glob_loop (str ''*; rm x'') (str ''*rm*'') 0 0 None = False"
    by (simp add: glob_loop.simps str_def)
  then show "\<not> shell_command_matches_pattern (str ''*; rm x'') (str ''*rm*'')"
    by (subst shell_command_matches_pattern.simps)
      (simp add: Let_def str_def trim_def trim_start_by_def trim_end_by_def is_whitespace_def extract_tool_content_def
        glob_match_command_def recursive_glob_match_def)
next
  have "globs [42] [32, 120]" by (rule globs_more, rule globs_more, rule globs_none, rule globs_nil)
  then have "globs [114, 109, 42] [114, 109, 32, 120]" by (simp add: globs_literal)
  then have "globs [42, 114, 109, 42] [42, 59, 32, 114, 109, 32, 120]" by (intro globs_more globs_none)
  then show "globs (str ''*rm*'') (str ''*; rm x'')" by (simp add: str_def)
qed

section \<open>The other matchers\<close>

lemma starts_with_split: "starts_with t p \<longleftrightarrow> (\<exists>r. t = p @ r)"
  by (auto simp: starts_with_def) (metis append_take_drop_id)

lemma ends_with_iff: "ends_with t p \<longleftrightarrow> (\<exists>r. t = r @ p)"
  by (auto simp: ends_with_def) (metis append_take_drop_id)

text \<open>With one star, the text begins and ends like the pattern without overlap; a question mark stands for itself.\<close>

lemma one_star_exact: "one_star_match before after t \<longleftrightarrow> (\<exists>mid. t = before @ mid @ after)"
proof
  assume m: "one_star_match before after t"
  then have len: "length (utf8 before) + length (utf8 after) \<le> length (utf8 t)" by (simp add: one_star_match_def)
  from m obtain r where r: "t = before @ r" by (auto simp: one_star_match_def starts_with_split)
  from m obtain q where "t = q @ after" by (auto simp: one_star_match_def ends_with_iff)
  note t = r this
  have utf8_app: "utf8 (a @ b) = utf8 a @ utf8 b" for a b by (simp add: utf8_def)
  from t have "before @ r = q @ after" by simp
  then consider mid where "q = before @ mid" "r = mid @ after" | mid where "before = q @ mid" "after = mid @ r"
    by (auto simp: append_eq_append_conv2)
  then show "\<exists>mid. t = before @ mid @ after"
  proof cases
    case 1
    then show ?thesis using t by auto
  next
    case 2
    then have "length (utf8 mid) = 0" using len t(1) by (simp add: utf8_app)
    then have "mid = []" by (cases mid) (auto simp: utf8_def utf8_char_def split: if_splits)
    then show ?thesis using 2 t by (intro exI [of _ "[]"]) simp
  qed
qed (auto simp: one_star_match_def starts_with_split ends_with_iff utf8_def)

lemma ascii_one_byte: "c < 128 \<Longrightarrow> length (utf8_char c) = 1"
  by (simp add: utf8_char_def)

text \<open>On ASCII texts the recursive matcher is exact and does not panic.\<close>

lemma glob_match_recursive_exact:
  "\<forall>c \<in> set t. c < 128 \<Longrightarrow> glob_match_recursive ps t = Some (globs ps t)"
  "\<forall>c \<in> set t. c < 128 \<Longrightarrow> try_suffixes ps t = Some (globs (42 # ps) t)"
proof (induction ps t and ps t rule: glob_match_recursive_try_suffixes.induct)
  case (2 p ps t)
  then show ?case by (cases t) (auto simp: globs_literal)
next
  case (3 ps t)
  show ?case
  proof (cases t)
    case (Cons c cs)
    have "globs (42 # ps) (c # cs) \<longleftrightarrow> globs ps (c # cs) \<or> globs (42 # ps) cs"
      by (auto intro: globs_none globs_more elim: globs_ConsE)
    then show ?thesis using 3 Cons by (auto simp: ascii_one_byte split: option.splits bool.splits)
  qed (use 3 in \<open>auto simp: globs_star split: bool.splits\<close>)
qed auto

text \<open>On others it panics when it steps into a character.\<close>

lemma glob_match_panics: "glob_match (str ''a*b*c'') (str ''a'' @ [233] @ str ''bc'') = None"
  by (simp add: glob_match_def str_def utf8_char_def)

text \<open>The matcher by parts lets the last part overlap what was matched before.\<close>

lemma parts_overlap: "rule_matches_pattern (str ''ab*b'') (str ''ab'') \<and> \<not> globs (str ''ab*b'') (str ''ab'')"
  by (simp add: rule_matches_pattern_def str_def starts_with_def ends_with_def globs_literal globs_star)

section \<open>Printing and parsing\<close>

lemma escape_simps [simp]:
  "escape_rule_content [] = []"
  "escape_rule_content (c # s) = (if c = 92 \<or> c = 40 \<or> c = 41 then [92, c] else [c]) @ escape_rule_content s"
  "escape_rule_content (s @ t) = escape_rule_content s @ escape_rule_content t"
  by (simp_all add: escape_rule_content_def)

lemma unescape_plain: "c \<noteq> 92 \<Longrightarrow> unescape_rule_content (c # s) = c # unescape_rule_content s"
  by (cases s) simp_all

lemma unescape_escape: "unescape_rule_content (escape_rule_content s) = s"
  by (induction s) (auto simp: unescape_plain)

text \<open>An escaped text ends with an even number of backslashes.\<close>

lemma escaped_trailing_even:
  "even (length (takeWhile (\<lambda>c. c = 92) (rev (escape_rule_content s) @ 40 # rest)))"
  by (induction s rule: rev_induct) auto

lemma find_last_Suc:
  assumes "s \<noteq> []" "unescaped_at s ch (length s - 1)"
  shows "find_last_unescaped_char s ch = Some (length s - 1)"
proof -
  have "[0..<length s] = [0..<length s - 1] @ [length s - 1]" using assms(1) by (cases s) simp_all
  then show ?thesis using assms(2) by (simp add: find_last_unescaped_char_def)
qed

lemma find_first_at:
  assumes "n < length s" "unescaped_at s ch n" "\<And>i. i < n \<Longrightarrow> s ! i \<noteq> ch"
  shows "find_first_unescaped_char s ch = Some n"
proof -
  have "[0..<length s] = [0..<n] @ n # [Suc n..<length s]"
    using assms(1) upt_add_eq_append [of 0 n "length s - n"] upt_conv_Cons [of n "length s"] by simp
  moreover have "find (unescaped_at s ch) [0..<n] = None"
    using assms(3) by (auto simp: find_None_iff unescaped_at_def)
  moreover have "find P (xs @ ys) = (case find P xs of None \<Rightarrow> find P ys | Some x \<Rightarrow> Some x)" for P :: "nat \<Rightarrow> bool" and xs ys
    by (induction xs) auto
  ultimately show ?thesis using assms(2) by (simp add: find_first_unescaped_char_def)
qed

text \<open>
  C38. A rule survives being written and read. For a tool whose name is not empty, is not an old name, has no opening
  parenthesis and does not end in a backslash, and no content or a content that is neither empty nor a lone star,
  whatever parentheses and backslashes it has, parsing the text of the rule gives the rule back.
\<close>

theorem rule_text_roundtrip:
  assumes "tool \<noteq> []" "40 \<notin> set tool" "last tool \<noteq> 92" "normalize_legacy_tool_name tool = tool"
    and "content \<noteq> Some []" "content \<noteq> Some (str ''*'')"
  shows "parse_permission_rule_value (permission_rule_value_to_string \<lparr> rv_tool_name = tool, rv_content = content \<rparr>)
    = Some \<lparr> rv_tool_name = tool, rv_content = content \<rparr>"
proof (cases content)
  case None
  have "find_first_unescaped_char tool 40 = None"
    using assms(2) by (auto simp: find_first_unescaped_char_def find_None_iff unescaped_at_def dest: nth_mem)
  then show ?thesis using None assms(1,4)
    by (simp add: parse_permission_rule_value_def permission_rule_value_to_string_def tool_only_def)
next
  case (Some c)
  let ?e = "escape_rule_content c" and ?s = "tool @ [40] @ escape_rule_content c @ [41]"
  have len: "length ?s - 1 = length tool + 1 + length ?e" by simp
  have tail: "take (length ?s - 1) ?s = tool @ 40 # ?e" unfolding len by simp
  have "unescaped_at ?s 41 (length ?s - 1)"
    unfolding unescaped_at_def tail using escaped_trailing_even [of c "rev tool"] by (simp add: nth_append)
  then have close: "find_last_unescaped_char ?s 41 = Some (length tool + 1 + length ?e)"
    using find_last_Suc [of ?s 41] len by simp
  have "takeWhile (\<lambda>c. c = 92) (rev tool) = []" using assms(1,3) by (cases tool rule: rev_cases) auto
  then have "unescaped_at ?s 40 (length tool)" by (simp add: unescaped_at_def nth_append)
  moreover have "?s ! i \<noteq> 40" if "i < length tool" for i
    using that assms(2) by (auto simp: nth_append dest: nth_mem)
  ultimately have open_par: "find_first_unescaped_char ?s 40 = Some (length tool)" by (intro find_first_at) simp_all
  have "?e \<noteq> []" "?e \<noteq> str ''*''"
    using assms(5,6) Some unescape_escape [of c] by (auto simp: str_def)
  then show ?thesis
    using close open_par assms(1,4) Some
    by (simp add: parse_permission_rule_value_def permission_rule_value_to_string_def Let_def unescape_escape)
qed

theorem rule_text_roundtrip_witness:
  "parse_permission_rule_value (permission_rule_value_to_string \<lparr> rv_tool_name = str ''Bash'', rv_content = Some [40, 92, 41, 42] \<rparr>)
    = Some \<lparr> rv_tool_name = str ''Bash'', rv_content = Some [40, 92, 41, 42] \<rparr>"
  by (rule rule_text_roundtrip) (simp_all add: str_def normalize_legacy_tool_name_def)

text \<open>What is lost: a content of a lone star, and the name of a tool that has a newer one.\<close>

lemma lone_star_lost:
  "parse_permission_rule_value (permission_rule_value_to_string \<lparr> rv_tool_name = str ''Bash'', rv_content = Some (str ''*'') \<rparr>)
    = Some (tool_only (str ''Bash''))"
  by (simp add: parse_permission_rule_value_def permission_rule_value_to_string_def find_first_unescaped_char_def
      find_last_unescaped_char_def unescaped_at_def str_def upt_rec normalize_legacy_tool_name_def)

section \<open>Taking a command line apart\<close>

definition push_command :: "rstring \<Rightarrow> rstring list \<Rightarrow> rstring list" where
  "push_command current commands = (if trim current = [] then commands else commands @ [trim current])"

text \<open>For an ampersand the code looks at the character of the whole line whose index is the length of the current command.\<close>

fun decompose_from :: "rstring \<Rightarrow> rchar option \<Rightarrow> nat \<Rightarrow> rstring \<Rightarrow> rstring list \<Rightarrow> rstring \<Rightarrow> rstring list" where
  "decompose_from line quote depth current commands [] = push_command current commands"
| "decompose_from line quote depth current commands (ch # s) =
     (if (ch = 39 \<or> ch = 34) \<and> quote = None then decompose_from line (Some ch) depth (current @ [ch]) commands s
      else if (ch = 39 \<or> ch = 34) \<and> quote = Some ch then decompose_from line None depth (current @ [ch]) commands s
      else if ch = 40 \<and> quote = None then decompose_from line quote (depth + 1) (current @ [ch]) commands s
      else if ch = 41 \<and> quote = None \<and> 0 < depth then decompose_from line quote (depth - 1) (current @ [ch]) commands s
      else if ch = 38 \<and> quote = None \<and> depth = 0
      then if length (utf8 current) < length line \<and> line ! length (utf8 current) = 38
           then decompose_from line quote depth [] (push_command current commands) s
           else decompose_from line quote depth current commands s
      else if (ch = 124 \<or> ch = 59) \<and> quote = None \<and> depth = 0
      then decompose_from line quote depth [] (push_command current commands) s
      else decompose_from line quote depth (current @ [ch]) commands s)"

definition decompose_command :: "rstring \<Rightarrow> rstring list" where
  "decompose_command command = decompose_from command None 0 [] [] command"

text \<open>Semicolons and bars separate as they should; from the second command on, two ampersands need not.\<close>

lemma decompose_semicolons:
  "decompose_command (str ''a; b | c'') = [str ''a'', str ''b'', str ''c'']"
  by (simp add: decompose_command_def push_command_def str_def trim_def trim_start_by_def trim_end_by_def is_whitespace_def)

lemma decompose_merges_commands:
  "decompose_command (str ''ls -la && b && rm x'') = [str ''ls -la'', str ''b  rm x'']"
  by (simp add: decompose_command_def push_command_def str_def trim_def trim_start_by_def trim_end_by_def is_whitespace_def
      utf8_def utf8_char_def)

end
