(* ===== verification/Claude_Broker.thy ===== *)
theory Claude_Broker
  imports Claude_Rules Json_Value Btree_Map
begin

text \<open>
  Who decides about a tool call of the Claude agent (\<^verbatim>\<open>claude-permissions\<close>): the match of a rule with a request
  (\<^verbatim>\<open>shell_rules.rs\<close>), the brokers and the updates of a session (\<^verbatim>\<open>lib.rs\<close>), the engine that goes by the source of a rule
  (\<^verbatim>\<open>rules.rs\<close>) and the counting of denials (\<^verbatim>\<open>denial_tracking.rs\<close>). The classifier behind rules that describe a command in
  words, the comparison of file paths and the broker that asks a person are arguments. Slicing a string inside a character or backwards is a
  panic, the value \<open>None\<close>.
\<close>

section \<open>Tools and modes\<close>

datatype permission_class = ClassRead | ClassEdit | ClassBash | ClassMcp | ClassAgent

definition classify_tool :: "rstring \<Rightarrow> permission_class" where
  "classify_tool name =
     (if starts_with name (str ''mcp__'') then ClassMcp
      else if name \<in> set (map str [''Read'', ''Glob'', ''LS'']) then ClassRead
      else if name \<in> set (map str [''Edit'', ''Write'', ''MultiEdit'']) then ClassEdit
      else if name \<in> set (map str [''Bash'', ''PowerShell'', ''WebFetch'', ''WebSearch'', ''WebBrowser'', ''TerminalCapture'',
                                   ''RemoteTrigger'', ''Daemon'']) then ClassBash
      else if name \<in> set (map str [''mcp'', ''McpServerList'', ''McpAuth'', ''McpCall'']) then ClassMcp
      else if name \<in> set (map str [''Agent'', ''Task'', ''ExecuteSkill'', ''TeamDelete'']) then ClassAgent
      else if name \<in> set (map str [''Config'', ''LSP'', ''ToolSearch'', ''VerifyPlan'', ''Snip'']) then ClassRead
      else if name \<in> set (map str [''bash_command'', ''powershell'', ''repl'', ''tungsten'', ''web_fetch'', ''web_search'',
                                   ''web_browser'', ''terminal_capture'', ''remote_trigger'', ''daemon'']) then ClassBash
      else if name \<in> set (map str [''write_file'', ''replace_in_file'', ''edit_file'', ''notebook_edit'', ''schedule_cron'',
                                   ''enter_worktree'', ''exit_worktree'']) then ClassEdit
      else if name \<in> set (map str [''agent'', ''team_delete'']) then ClassAgent
      else if name \<in> set (map str [''mcp_call'', ''mcp_auth'']) then ClassMcp
      else ClassRead)"

datatype permission_mode = ModeDefault | ModeAcceptEdits | ModeAuto | ModeBypass | ModeDontAsk | ModePlan

datatype extended_permission_mode =
    ExtDefault | ExtPlan | ExtAcceptEdits | ExtBypass | ExtDontAsk | ExtAuto | ExtBubble

fun extended_permission_mode_to_core_mode :: "extended_permission_mode \<Rightarrow> permission_mode" where
  "extended_permission_mode_to_core_mode ExtDefault = ModeDefault"
| "extended_permission_mode_to_core_mode ExtPlan = ModePlan"
| "extended_permission_mode_to_core_mode ExtAcceptEdits = ModeAcceptEdits"
| "extended_permission_mode_to_core_mode ExtBypass = ModeBypass"
| "extended_permission_mode_to_core_mode ExtDontAsk = ModeDontAsk"
| "extended_permission_mode_to_core_mode ExtAuto = ModeAuto"
| "extended_permission_mode_to_core_mode ExtBubble = ModeDefault"

fun auto_allows :: "permission_mode \<Rightarrow> permission_class \<Rightarrow> bool" where
  "auto_allows ModeBypass c = True"
| "auto_allows ModeAcceptEdits c = (c = ClassRead \<or> c = ClassEdit)"
| "auto_allows _ c = (c = ClassRead)"

record permission_request =
  rq_tool_name :: rstring
  rq_permission_class :: "permission_class option"
  rq_tool_input :: json
  rq_working_directory :: "rstring option"
  rq_tool_use_id :: "rstring option"
  rq_title :: "rstring option"
  rq_description :: "rstring option"
  rq_blocked_path :: "rstring option"
  rq_permission_suggestions :: "json list"

definition resolved_permission_class :: "permission_request \<Rightarrow> permission_class" where
  "resolved_permission_class rq = unwrap_or (classify_tool (rq_tool_name rq)) (rq_permission_class rq)"

section \<open>Does a rule apply\<close>

datatype rule_action = RuleAllow | RuleAsk | RuleDeny

datatype rule_source = SrcCli | SrcSession | SrcProject | SrcUser

fun source_priority :: "rule_source \<Rightarrow> nat" where
  "source_priority SrcCli = 0"
| "source_priority SrcSession = 1"
| "source_priority SrcProject = 2"
| "source_priority SrcUser = 3"

record source_rule =
  sr_pattern :: rstring
  sr_action :: rule_action
  sr_source :: rule_source

definition first_index :: "rchar \<Rightarrow> rstring \<Rightarrow> nat" where
  "first_index c s = length (takeWhile (\<lambda>d. d \<noteq> c) s)"

definition last_index :: "rchar \<Rightarrow> rstring \<Rightarrow> nat" where
  "last_index c s = length s - 1 - length (takeWhile (\<lambda>d. d \<noteq> c) (rev s))"

definition split_pattern :: "rstring \<Rightarrow> (rstring \<times> rstring option) option" where
  "split_pattern pattern =
     (if 40 \<in> set pattern
      then let start = first_index 40 pattern;
               close = (if 41 \<in> set pattern then last_index 41 pattern else length pattern)
           in if close < start + 1 then None
              else Some (trim (take start pattern), Some (trim (take (close - (start + 1)) (drop (start + 1) pattern))))
      else Some (trim pattern, None))"

definition name_matches :: "rstring \<Rightarrow> rstring \<Rightarrow> bool" where
  "name_matches pattern tool_name =
     (let normalized = map ascii_lower (trim pattern)
      in if normalized = str ''bash''
         then eq_ignore_ascii_case tool_name (str ''bash'') \<or> eq_ignore_ascii_case tool_name (str ''bash_command'')
         else if normalized = str ''powershell'' then eq_ignore_ascii_case tool_name (str ''powershell'')
         else if normalized = str ''read'' then classify_tool tool_name = ClassRead
         else if normalized = str ''edit'' then classify_tool tool_name = ClassEdit
         else if normalized = str ''command'' then classify_tool tool_name = ClassBash
         else if 42 \<in> set pattern \<or> 63 \<in> set pattern then wildcard_match normalized (map ascii_lower tool_name)
         else eq_ignore_ascii_case pattern tool_name)"

text \<open>\<^verbatim>\<open>s[..n]\<close> and \<^verbatim>\<open>s[n..]\<close> for a number of bytes.\<close>

fun split_at_byte :: "nat \<Rightarrow> rstring \<Rightarrow> (rstring \<times> rstring) option" where
  "split_at_byte 0 s = Some ([], s)"
| "split_at_byte (Suc n) [] = None"
| "split_at_byte (Suc n) (c # s) =
     (if length (utf8_char c) \<le> Suc n
      then map_option (\<lambda>(a, b). (c # a, b)) (split_at_byte (Suc n - length (utf8_char c)) s) else None)"

definition extract_prompt_description :: "rstring \<Rightarrow> rstring option option" where
  "extract_prompt_description content =
     (let trimmed = trim content
      in if length (utf8 trimmed) < 7 then Some None
         else case split_at_byte 7 trimmed of
           None \<Rightarrow> None
         | Some (start, rest) \<Rightarrow>
             Some (if \<not> eq_ignore_ascii_case start (str ''prompt:'') then None
                   else if trim rest = [] then None else Some (trim rest)))"

record rule_env =
  re_prompt_rule :: "rstring \<Rightarrow> rstring \<Rightarrow> bool"
  re_file_rule :: "rstring \<Rightarrow> permission_request \<Rightarrow> rule_action \<Rightarrow> bool"

definition shell_input_pattern_matches_command :: "rule_env \<Rightarrow> rstring \<Rightarrow> rstring \<Rightarrow> bool option" where
  "shell_input_pattern_matches_command env input_pattern command =
     map_option (\<lambda>d. case d of Some description \<Rightarrow> re_prompt_rule env command description
                     | None \<Rightarrow> wildcard_match input_pattern command)
       (extract_prompt_description input_pattern)"

fun wildcard_match_values :: "rstring \<Rightarrow> json \<Rightarrow> bool" where
  "wildcard_match_values pattern (JStr s) = wildcard_match pattern s"
| "wildcard_match_values pattern (JArr vs) = list_ex (wildcard_match_values pattern) vs"
| "wildcard_match_values pattern (JObj ms) = list_ex (\<lambda>kv. wildcard_match_values pattern (snd kv)) ms"
| "wildcard_match_values pattern _ = False"

definition rule_action_matches_request_action ::
  "rule_env \<Rightarrow> rstring \<Rightarrow> permission_request \<Rightarrow> rule_action \<Rightarrow> bool option" where
  "rule_action_matches_request_action env pattern rq action =
     (case split_pattern pattern of
        None \<Rightarrow> None
      | Some (name_part, input) \<Rightarrow>
          if \<not> name_matches name_part (rq_tool_name rq) then Some False
          else case input of
            None \<Rightarrow> Some True
          | Some input_pattern \<Rightarrow>
              (case get_str (rq_tool_input rq) ''command'' of
                 Some command \<Rightarrow> shell_input_pattern_matches_command env input_pattern command
               | None \<Rightarrow>
                   if classify_tool (rq_tool_name rq) \<in> {ClassRead, ClassEdit}
                   then Some (re_file_rule env input_pattern rq action)
                   else Some (wildcard_match_values input_pattern (rq_tool_input rq))))"

definition rule_hits :: "rule_env \<Rightarrow> permission_request \<Rightarrow> source_rule \<Rightarrow> bool option" where
  "rule_hits env rq r = rule_action_matches_request_action env (sr_pattern r) rq (sr_action r)"

text \<open>\<^verbatim>\<open>rule_matches_request\<close> compares files as for an allowing rule.\<close>

definition rule_matches_request :: "rule_env \<Rightarrow> rstring \<Rightarrow> permission_request \<Rightarrow> bool option" where
  "rule_matches_request env pattern rq = rule_action_matches_request_action env pattern rq RuleAllow"

section \<open>The engine by source\<close>

definition materialize_rules :: "rstring list \<Rightarrow> rstring list \<Rightarrow> rstring list \<Rightarrow> rule_source \<Rightarrow> source_rule list" where
  "materialize_rules allow ask deny source =
     map (\<lambda>p. \<lparr> sr_pattern = p, sr_action = RuleAllow, sr_source = source \<rparr>) allow
     @ map (\<lambda>p. \<lparr> sr_pattern = p, sr_action = RuleAsk, sr_source = source \<rparr>) ask
     @ map (\<lambda>p. \<lparr> sr_pattern = p, sr_action = RuleDeny, sr_source = source \<rparr>) deny"

definition engine_new :: "source_rule list \<Rightarrow> source_rule list" where
  "engine_new rules = sort_key (\<lambda>r. source_priority (sr_source r)) rules"

fun engine_check :: "rule_env \<Rightarrow> permission_request \<Rightarrow> source_rule list \<Rightarrow> source_rule option option" where
  "engine_check env rq [] = Some None"
| "engine_check env rq (r # rs) =
     (case rule_matches_request env (sr_pattern r) rq of
        None \<Rightarrow> None | Some True \<Rightarrow> Some (Some r) | Some False \<Rightarrow> engine_check env rq rs)"

definition all_sources :: "rule_source list" where
  "all_sources = [SrcCli, SrcSession, SrcProject, SrcUser]"

definition summarize_rule_sources :: "source_rule list \<Rightarrow> (rule_source \<times> nat) list" where
  "summarize_rule_sources rules =
     List.map_filter (\<lambda>src. let count = length (filter (\<lambda>r. sr_source r = src) rules)
                           in if 0 < count then Some (src, count) else None) all_sources"

section \<open>Brokers\<close>

datatype update_destination = DestUser | DestProject | DestLocal | DestSession | DestCli

datatype permission_update =
    AddRules update_destination "permission_rule_value list" rule_action
  | ReplaceRules update_destination "permission_rule_value list" rule_action
  | RemoveRules update_destination "permission_rule_value list" rule_action
  | SetMode update_destination extended_permission_mode
  | AddDirectories update_destination "rstring list"
  | RemoveDirectories update_destination "rstring list"

record broker_decision =
  pd_allowed :: bool
  pd_message :: "rstring option"
  pd_permission_suggestions :: "json list"
  pd_updated_input :: "json option"
  pd_permission_updates :: "permission_update list"
  pd_feedback :: "rstring option"
  pd_content_blocks :: "json list"

definition decision_allow :: broker_decision where
  "decision_allow =
     \<lparr> pd_allowed = True, pd_message = None, pd_permission_suggestions = [], pd_updated_input = None, pd_permission_updates = [],
       pd_feedback = None, pd_content_blocks = [] \<rparr>"

definition decision_deny :: "rstring \<Rightarrow> broker_decision" where
  "decision_deny msg =
     \<lparr> pd_allowed = False, pd_message = Some msg, pd_permission_suggestions = [], pd_updated_input = None, pd_permission_updates = [],
       pd_feedback = None, pd_content_blocks = [] \<rparr>"

definition static_decide :: "bool \<Rightarrow> permission_mode option \<Rightarrow> permission_request \<Rightarrow> broker_decision" where
  "static_decide allow_all mode rq =
     (if allow_all then decision_allow
      else if rq_working_directory rq \<noteq> None \<and> rq_blocked_path rq \<noteq> None \<and> mode \<noteq> Some ModeBypass
      then decision_deny (str ''Permission denied by static broker'')
      else if is_some_and (\<lambda>m. auto_allows m (resolved_permission_class rq)) mode then decision_allow
      else decision_deny (str ''Permission denied by static broker''))"

text \<open>\<^verbatim>\<open>from_mode\<close> allows everything in bypass mode only.\<close>

definition static_from_mode :: "permission_mode \<Rightarrow> bool \<times> permission_mode option" where
  "static_from_mode mode = (mode = ModeBypass, Some mode)"

record fallback =
  fb_decide :: "permission_request \<Rightarrow> broker_decision"
  fb_forced :: "permission_request \<Rightarrow> broker_decision"

record audit_record =
  au_tool_name :: rstring
  au_tool_use_id :: rstring
  au_source :: "rule_source option"
  au_matched_pattern :: "rstring option"
  au_action :: rule_action
  au_final_allowed :: bool
  au_reason :: "rstring option"

record layered_broker =
  lb_rules :: "source_rule list"
  lb_session_rules :: "source_rule list"
  lb_session_mode :: "permission_mode option"
  lb_session_dirs :: "rstring list"
  lb_audit :: "audit_record list"

definition layered_new :: "source_rule list \<Rightarrow> layered_broker" where
  "layered_new rules = \<lparr> lb_rules = rules, lb_session_rules = [], lb_session_mode = None, lb_session_dirs = [], lb_audit = [] \<rparr>"

text \<open>One pass: a denying rule ends it, an asking one replaces an allowing one.\<close>

fun process_rules ::
  "(source_rule \<Rightarrow> bool option) \<Rightarrow> source_rule list \<Rightarrow> source_rule option \<Rightarrow> nat
   \<Rightarrow> (bool \<times> source_rule option \<times> nat) option" where
  "process_rules hits [] best prio = Some (False, best, prio)"
| "process_rules hits (r # rs) best prio =
     (case hits r of
        None \<Rightarrow> None
      | Some False \<Rightarrow> process_rules hits rs best prio
      | Some True \<Rightarrow>
          (case sr_action r of
             RuleDeny \<Rightarrow> Some (True, Some r, prio)
           | RuleAsk \<Rightarrow> if prio < 2 then process_rules hits rs (Some r) 2 else process_rules hits rs best prio
           | RuleAllow \<Rightarrow> if prio < 1 then process_rules hits rs (Some r) 1 else process_rules hits rs best prio))"

definition matching_rule :: "rule_env \<Rightarrow> permission_request \<Rightarrow> layered_broker \<Rightarrow> source_rule option option" where
  "matching_rule env rq b =
     (case process_rules (rule_hits env rq) (lb_session_rules b) None 0 of
        None \<Rightarrow> None
      | Some (True, best, _) \<Rightarrow> Some best
      | Some (False, best, prio) \<Rightarrow>
          map_option (\<lambda>(_, best', _). best') (process_rules (rule_hits env rq) (lb_rules b) best prio))"

fun first_hit :: "(source_rule \<Rightarrow> bool option) \<Rightarrow> source_rule list \<Rightarrow> source_rule option option" where
  "first_hit hits [] = Some None"
| "first_hit hits (r # rs) =
     (case hits r of None \<Rightarrow> None | Some True \<Rightarrow> Some (Some r) | Some False \<Rightarrow> first_hit hits rs)"

definition matching_rule_for_action ::
  "rule_env \<Rightarrow> permission_request \<Rightarrow> rule_action \<Rightarrow> layered_broker \<Rightarrow> source_rule option option" where
  "matching_rule_for_action env rq action b =
     (case first_hit (rule_hits env rq) (filter (\<lambda>r. sr_action r = action) (lb_session_rules b)) of
        None \<Rightarrow> None
      | Some (Some r) \<Rightarrow> Some (Some r)
      | Some None \<Rightarrow> first_hit (rule_hits env rq) (filter (\<lambda>r. sr_action r = action) (lb_rules b)))"

definition rule_audit :: "permission_request \<Rightarrow> source_rule \<Rightarrow> rstring option \<Rightarrow> audit_record" where
  "rule_audit rq r reason =
     \<lparr> au_tool_name = rq_tool_name rq, au_tool_use_id = [], au_source = Some (sr_source r), au_matched_pattern = Some (sr_pattern r),
       au_action = sr_action r, au_final_allowed = (sr_action r = RuleAllow), au_reason = reason \<rparr>"

definition push_audit :: "audit_record \<Rightarrow> layered_broker \<Rightarrow> layered_broker" where
  "push_audit a b = b\<lparr>lb_audit := lb_audit b @ [a]\<rparr>"

fun source_debug :: "rule_source \<Rightarrow> rstring" where
  "source_debug SrcCli = str ''Cli''"
| "source_debug SrcSession = str ''Session''"
| "source_debug SrcProject = str ''Project''"
| "source_debug SrcUser = str ''User''"

definition denied_by :: "source_rule \<Rightarrow> broker_decision" where
  "denied_by r =
     decision_deny (if sr_source r = SrcSession then str ''Denied by session rule: '' @ sr_pattern r
                    else str ''Denied by rule from '' @ source_debug (sr_source r) @ str '': '' @ sr_pattern r)"

definition decide_by_mode :: "fallback \<Rightarrow> permission_mode option \<Rightarrow> permission_request \<Rightarrow> broker_decision" where
  "decide_by_mode fb mode rq =
     (case mode of
        None \<Rightarrow> fb_decide fb rq
      | Some m \<Rightarrow>
          if rq_blocked_path rq = None \<and> auto_allows m (resolved_permission_class rq) then decision_allow
          else if m = ModeDontAsk then decision_deny (str ''Permission denied by session mode'')
          else if m = ModePlan then fb_decide fb rq
          else fb_forced fb rq)"

definition layered_decide ::
  "rule_env \<Rightarrow> fallback \<Rightarrow> permission_request \<Rightarrow> layered_broker \<Rightarrow> (broker_decision \<times> layered_broker) option" where
  "layered_decide env fb rq b =
     (case matching_rule env rq b of
        None \<Rightarrow> None
      | Some (Some r) \<Rightarrow>
          Some (case sr_action r of
                  RuleAllow \<Rightarrow> decision_allow
                | RuleDeny \<Rightarrow> denied_by r
                | RuleAsk \<Rightarrow> fb_forced fb rq,
                push_audit (rule_audit rq r None) b)
      | Some None \<Rightarrow> Some (decide_by_mode fb (lb_session_mode b) rq, b))"

definition layered_decide_forced ::
  "rule_env \<Rightarrow> fallback \<Rightarrow> permission_request \<Rightarrow> layered_broker \<Rightarrow> (broker_decision \<times> layered_broker) option" where
  "layered_decide_forced env fb rq b =
     (case matching_rule_for_action env rq RuleDeny b of
        None \<Rightarrow> None
      | Some (Some r) \<Rightarrow>
          Some (denied_by r, push_audit (rule_audit rq r (Some (str ''forced prompt denied by matching rule''))) b)
      | Some None \<Rightarrow> Some (fb_forced fb rq, b))"

section \<open>Updates of a session\<close>

definition permission_rule_value_to_pattern :: "permission_rule_value \<Rightarrow> rstring" where
  "permission_rule_value_to_pattern v =
     (case rv_content v of Some content \<Rightarrow> rv_tool_name v @ [40] @ content @ [41] | None \<Rightarrow> rv_tool_name v)"

definition add_session_rule :: "rule_action \<Rightarrow> rstring \<Rightarrow> layered_broker \<Rightarrow> layered_broker" where
  "add_session_rule action pattern b =
     b\<lparr>lb_session_rules := lb_session_rules b @ [\<lparr> sr_pattern = pattern, sr_action = action, sr_source = SrcSession \<rparr>]\<rparr>"

definition clear_session_rules :: "layered_broker \<Rightarrow> nat \<times> layered_broker" where
  "clear_session_rules b = (length (lb_session_rules b), b\<lparr>lb_session_rules := []\<rparr>)"

text \<open>A directory is normalised and compared in a normal form; both are arguments.\<close>

record dir_forms =
  df_normalize :: "rstring \<Rightarrow> rstring"
  df_compare :: "rstring \<Rightarrow> rstring"

fun add_directories :: "dir_forms \<Rightarrow> rstring list \<Rightarrow> nat \<times> rstring list \<Rightarrow> nat \<times> rstring list" where
  "add_directories f [] x = x"
| "add_directories f (d # ds) (n, dirs) =
     (let nd = df_normalize f d
      in if list_ex (\<lambda>e. df_compare f e = df_compare f nd) dirs then add_directories f ds (n, dirs)
         else add_directories f ds (n + 1, dirs @ [nd]))"

definition apply_update :: "dir_forms \<Rightarrow> permission_update \<Rightarrow> nat \<times> layered_broker \<Rightarrow> nat \<times> layered_broker" where
  "apply_update f u x =
     (case x of (applied, b) \<Rightarrow>
        (case u of
           AddRules DestSession rules action \<Rightarrow>
             (applied + length rules, fold (\<lambda>v. add_session_rule action (permission_rule_value_to_pattern v)) rules b)
         | ReplaceRules DestSession rules action \<Rightarrow>
             (case clear_session_rules b of (n, b1) \<Rightarrow>
                (applied + n + length rules, fold (\<lambda>v. add_session_rule action (permission_rule_value_to_pattern v)) rules b1))
         | RemoveRules DestSession rules action \<Rightarrow>
             (let patterns = map permission_rule_value_to_pattern rules;
                  kept = filter (\<lambda>r. \<not> (sr_action r = action \<and> sr_pattern r \<in> set patterns)) (lb_session_rules b)
              in (applied + (length (lb_session_rules b) - length kept), b\<lparr>lb_session_rules := kept\<rparr>))
         | SetMode DestSession mode \<Rightarrow>
             (let m = extended_permission_mode_to_core_mode mode
              in if lb_session_mode b \<noteq> Some m then (applied + 1, b\<lparr>lb_session_mode := Some m\<rparr>) else (applied, b))
         | AddDirectories DestSession ds \<Rightarrow>
             (case add_directories f ds (applied, lb_session_dirs b) of (n, dirs) \<Rightarrow> (n, b\<lparr>lb_session_dirs := dirs\<rparr>))
         | RemoveDirectories DestSession ds \<Rightarrow>
             (let patterns = map (\<lambda>d. df_compare f (df_normalize f d)) ds;
                  kept = filter (\<lambda>e. df_compare f e \<notin> set patterns) (lb_session_dirs b)
              in (applied + (length (lb_session_dirs b) - length kept), b\<lparr>lb_session_dirs := kept\<rparr>))
         | _ \<Rightarrow> (applied, b)))"

definition apply_permission_updates :: "dir_forms \<Rightarrow> permission_update list \<Rightarrow> layered_broker \<Rightarrow> nat \<times> layered_broker" where
  "apply_permission_updates f updates b = fold (apply_update f) updates (0, b)"

definition layered_rules :: "layered_broker \<Rightarrow> source_rule list" where
  "layered_rules b =
     (if lb_session_rules b = [] then lb_rules b
      else if lb_rules b = [] then lb_session_rules b
      else lb_session_rules b @ lb_rules b)"

section \<open>Denials\<close>

definition max_consecutive_denials :: u32 where "max_consecutive_denials = 3"
definition max_total_denials :: u64 where "max_total_denials = 20"

record denial_record =
  dn_tool_name :: rstring
  dn_reason :: rstring
  dn_timestamp :: instant
  dn_consecutive :: u32

record denial_tracker =
  dt_denials :: "(rstring, denial_record) btree"
  dt_total :: u64
  dt_session_consecutive :: u32

definition denial_tracker_new :: denial_tracker where
  "denial_tracker_new = \<lparr> dt_denials = bm_empty, dt_total = 0, dt_session_consecutive = 0 \<rparr>"

definition record_denial :: "instant \<Rightarrow> rstring \<Rightarrow> rstring \<Rightarrow> denial_tracker \<Rightarrow> denial_tracker" where
  "record_denial now tool reason d =
     d\<lparr>dt_total := dt_total d + 1, dt_session_consecutive := dt_session_consecutive d + 1,
       dt_denials := bm_insert tool
         (case bm_get (dt_denials d) tool of
            Some r \<Rightarrow> r\<lparr>dn_consecutive := dn_consecutive r + 1, dn_reason := reason, dn_timestamp := now\<rparr>
          | None \<Rightarrow> \<lparr> dn_tool_name = tool, dn_reason = reason, dn_timestamp = now, dn_consecutive = 1 \<rparr>)
         (dt_denials d)\<rparr>"

definition record_approval :: "rstring \<Rightarrow> denial_tracker \<Rightarrow> denial_tracker" where
  "record_approval tool d =
     d\<lparr>dt_session_consecutive := 0, dt_denials := bm_update tool (\<lambda>r. r\<lparr>dn_consecutive := 0\<rparr>) (dt_denials d)\<rparr>"

definition consecutive_denials :: "denial_tracker \<Rightarrow> rstring \<Rightarrow> u32" where
  "consecutive_denials d tool = unwrap_or 0 (map_option dn_consecutive (bm_get (dt_denials d) tool))"

definition should_auto_skip :: "denial_tracker \<Rightarrow> rstring \<Rightarrow> u32 \<Rightarrow> bool" where
  "should_auto_skip d tool threshold \<longleftrightarrow> threshold \<le> consecutive_denials d tool"

definition should_fallback_to_prompting :: "denial_tracker \<Rightarrow> bool" where
  "should_fallback_to_prompting d \<longleftrightarrow>
     max_consecutive_denials \<le> dt_session_consecutive d \<or> max_total_denials \<le> dt_total d"


definition clear_denials :: "denial_tracker \<Rightarrow> denial_tracker" where
  "clear_denials d = d\<lparr>dt_denials := bm_empty, dt_total := 0, dt_session_consecutive := 0\<rparr>"

section \<open>One pass finds what three would\<close>

definition first_of :: "rule_action \<Rightarrow> (source_rule \<Rightarrow> bool) \<Rightarrow> source_rule list \<Rightarrow> source_rule option" where
  "first_of a hit rs = find (\<lambda>r. sr_action r = a \<and> hit r) rs"

definition deny_ask_allow :: "(source_rule \<Rightarrow> bool) \<Rightarrow> source_rule list \<Rightarrow> source_rule option" where
  "deny_ask_allow hit rs =
     (case first_of RuleDeny hit rs of
        Some r \<Rightarrow> Some r
      | None \<Rightarrow> (case first_of RuleAsk hit rs of Some r \<Rightarrow> Some r | None \<Rightarrow> first_of RuleAllow hit rs))"

text \<open>What the pass holds in its hand, and how strong that is.\<close>

definition held :: "source_rule option \<Rightarrow> nat \<Rightarrow> bool" where
  "held best prio \<longleftrightarrow>
     (case best of None \<Rightarrow> prio = 0 | Some r \<Rightarrow> (sr_action r = RuleAllow \<and> prio = 1) \<or> (sr_action r = RuleAsk \<and> prio = 2))"

lemma first_of_Nil [simp]: "first_of a hit [] = None"
  by (simp add: first_of_def)

lemma first_of_Cons [simp]:
  "first_of a hit (r # rs) = (if sr_action r = a \<and> hit r then Some r else first_of a hit rs)"
  by (simp add: first_of_def)

lemma first_of_append:
  "first_of a hit (rs @ qs) = (case first_of a hit rs of None \<Rightarrow> first_of a hit qs | Some r \<Rightarrow> Some r)"
  by (induction rs) auto

lemma first_of_None: "first_of a hit rs = None \<longleftrightarrow> (\<forall>r \<in> set rs. sr_action r = a \<longrightarrow> \<not> hit r)"
  by (induction rs) auto

lemma first_of_SomeD: "first_of a hit rs = Some r \<Longrightarrow> r \<in> set rs \<and> sr_action r = a \<and> hit r"
  by (induction rs) (auto split: if_splits)

text \<open>With \<open>best\<close> as a rule in front of the others, the pass is the choice among all of them.\<close>

fun in_hand :: "source_rule option \<Rightarrow> source_rule list" where
  "in_hand None = []"
| "in_hand (Some r) = [r]"

lemma process_rules_step:
  assumes "hits r = Some (hit r)" "held best prio" "\<forall>q. best = Some q \<longrightarrow> hit q" "\<not> (hit r \<and> sr_action r = RuleDeny)"
  obtains best' prio' where "process_rules hits (r # rs) best prio = process_rules hits rs best' prio'"
    "held best' prio'" "\<forall>q. best' = Some q \<longrightarrow> hit q"
    "deny_ask_allow hit (in_hand best @ r # rs) = deny_ask_allow hit (in_hand best' @ rs)"
proof -
  consider (stay) "\<not> hit r \<or> sr_action r = RuleAllow \<and> prio \<noteq> 0 \<or> sr_action r = RuleAsk \<and> prio = 2"
    | (allow) "hit r" "sr_action r = RuleAllow" "prio = 0" | (ask) "hit r" "sr_action r = RuleAsk" "prio \<noteq> 2"
    using assms(4) by (cases "sr_action r") auto
  then show thesis
  proof cases
    case stay
    then have "process_rules hits (r # rs) best prio = process_rules hits rs best prio"
      using assms(1) by (cases "hit r") auto
    moreover have "deny_ask_allow hit (in_hand best @ r # rs) = deny_ask_allow hit (in_hand best @ rs)"
      using stay assms(2,3,4) by (cases best) (auto simp: held_def deny_ask_allow_def split: option.split)
    ultimately show thesis using that assms(2,3) by blast
  next
    case allow
    then have "best = None" using assms(2) by (auto simp: held_def split: option.splits)
    then show thesis using that [of "Some r" 1] allow assms(1) by (simp add: held_def)
  next
    case ask
    then have "prio < 2" using assms(2) by (auto simp: held_def split: option.splits)
    moreover have "deny_ask_allow hit (in_hand best @ r # rs) = deny_ask_allow hit (in_hand (Some r) @ rs)"
      using ask assms(2) by (cases best) (auto simp: held_def deny_ask_allow_def split: option.split)
    ultimately show thesis using that [of "Some r" 2] ask assms(1) by (simp add: held_def)
  qed
qed

lemma process_rules_choice:
  assumes "\<forall>r \<in> set rs. hits r = Some (hit r)" "held best prio" "\<forall>r. best = Some r \<longrightarrow> hit r"
  shows "\<exists>prio'. process_rules hits rs best prio
      = Some (first_of RuleDeny hit rs \<noteq> None, deny_ask_allow hit (in_hand best @ rs), prio')
    \<and> (first_of RuleDeny hit rs = None \<longrightarrow> held (deny_ask_allow hit (in_hand best @ rs)) prio')"
  using assms
proof (induction rs arbitrary: best prio)
  case Nil
  then show ?case by (cases best) (auto simp: held_def deny_ask_allow_def split: option.split)
next
  case (Cons r rs)
  have here: "hits r = Some (hit r)" and all: "\<forall>r \<in> set rs. hits r = Some (hit r)" using Cons.prems(1) by simp_all
  show ?case
  proof (cases "hit r \<and> sr_action r = RuleDeny")
    case True
    then show ?thesis using here Cons.prems(2) by (cases best) (auto simp: deny_ask_allow_def held_def split: option.split)
  next
    case False
    obtain best' prio' where
      step: "process_rules hits (r # rs) best prio = process_rules hits rs best' prio'"
        "deny_ask_allow hit (in_hand best @ r # rs) = deny_ask_allow hit (in_hand best' @ rs)"
      and h: "held best' prio'" "\<forall>q. best' = Some q \<longrightarrow> hit q"
      using process_rules_step [of hits r hit best prio rs] here Cons.prems(2,3) False by metis
    have "first_of RuleDeny hit (r # rs) = first_of RuleDeny hit rs" using False by auto
    then show ?thesis unfolding step using Cons.IH [OF all h] by simp
  qed
qed

definition no_panic :: "rule_env \<Rightarrow> permission_request \<Rightarrow> layered_broker \<Rightarrow> bool" where
  "no_panic env rq b \<longleftrightarrow> list_all (\<lambda>r. rule_hits env rq r \<noteq> None) (lb_session_rules b @ lb_rules b)"

definition hits_request :: "rule_env \<Rightarrow> permission_request \<Rightarrow> source_rule \<Rightarrow> bool" where
  "hits_request env rq r \<longleftrightarrow> rule_hits env rq r = Some True"

lemma no_panic_hits:
  "no_panic env rq b \<Longrightarrow> \<forall>r \<in> set (lb_session_rules b @ lb_rules b). rule_hits env rq r = Some (hits_request env rq r)"
proof -
  have known: "x \<noteq> None \<Longrightarrow> x = Some (x = Some True)" for x by (cases x) auto
  then show "no_panic env rq b \<Longrightarrow> ?thesis" by (simp only: no_panic_def list_all_iff hits_request_def) blast
qed

lemma deny_ask_allow_resume:
  assumes "first_of RuleDeny hit rs = None"
  shows "deny_ask_allow hit (in_hand (deny_ask_allow hit rs) @ qs) = deny_ask_allow hit (rs @ qs)"
  using assms
  by (auto simp: deny_ask_allow_def first_of_append dest: first_of_SomeD split: option.splits)

lemma deny_ask_allow_hits: "deny_ask_allow hit rs = Some r \<Longrightarrow> r \<in> set rs \<and> hit r"
  by (auto simp: deny_ask_allow_def dest: first_of_SomeD split: option.splits)

lemma matching_rule_choice:
  assumes "no_panic env rq b"
  shows "matching_rule env rq b = Some (deny_ask_allow (hits_request env rq) (lb_session_rules b @ lb_rules b))"
proof -
  let ?hit = "hits_request env rq" and ?s = "lb_session_rules b" and ?f = "lb_rules b"
  have s: "\<forall>r \<in> set ?s. rule_hits env rq r = Some (?hit r)" and f: "\<forall>r \<in> set ?f. rule_hits env rq r = Some (?hit r)"
    using no_panic_hits [OF assms] by auto
  from process_rules_choice [OF s, of None 0] obtain p where
    first: "process_rules (rule_hits env rq) ?s None 0 = Some (first_of RuleDeny ?hit ?s \<noteq> None, deny_ask_allow ?hit ?s, p)"
    and p: "first_of RuleDeny ?hit ?s = None \<Longrightarrow> held (deny_ask_allow ?hit ?s) p"
    by (auto simp: held_def)
  show ?thesis
  proof (cases "first_of RuleDeny ?hit ?s")
    case None
    have h: "\<forall>r. deny_ask_allow ?hit ?s = Some r \<longrightarrow> ?hit r" using deny_ask_allow_hits by blast
    from process_rules_choice [OF f p [OF None] h] deny_ask_allow_resume [OF None, of ?f] None first
    show ?thesis by (auto simp: matching_rule_def)
  next
    case (Some r)
    then show ?thesis using first by (simp add: matching_rule_def deny_ask_allow_def first_of_append)
  qed
qed

lemma first_hit_first_of:
  "\<forall>r \<in> set rs. hits r = Some (hit r) \<Longrightarrow> first_hit hits (filter (\<lambda>r. sr_action r = a) rs) = Some (first_of a hit rs)"
  by (induction rs) auto

lemma matching_rule_for_action_first:
  assumes "no_panic env rq b"
  shows "matching_rule_for_action env rq a b
    = Some (first_of a (hits_request env rq) (lb_session_rules b @ lb_rules b))"
proof -
  have first: "first_hit (rule_hits env rq) (filter (\<lambda>r. sr_action r = a) rs) = Some (first_of a (hits_request env rq) rs)"
    if "rs = lb_session_rules b \<or> rs = lb_rules b" for rs
    using no_panic_hits [OF assms] that by (intro first_hit_first_of) auto
  show ?thesis by (simp add: matching_rule_for_action_def first first_of_append split: option.split)
qed

text \<open>
  C35. A denying rule wins, wherever it stands. If no rule of the session or of the settings makes the matcher panic,
  the single pass over session and settings rules answers; if a denying rule matches, the call is denied whatever the
  mode, the other rules and the broker behind say, also when the caller asks for a forced prompt, and the audit log
  names a denying rule that matches. A call is allowed without the broker behind only by an allowing rule
  that matches while no denying or asking rule does, or by the mode while no rule matches at all.
\<close>

theorem deny_rule_wins:
  assumes "no_panic env rq b"
  shows "\<exists>d b'. layered_decide env fb rq b = Some (d, b')
      \<and> ((\<exists>r \<in> set (layered_rules b). sr_action r = RuleDeny \<and> hits_request env rq r)
          \<longrightarrow> \<not> pd_allowed d
            \<and> (\<exists>r \<in> set (layered_rules b). sr_action r = RuleDeny \<and> hits_request env rq r \<and> b' = push_audit (rule_audit rq r None) b)
            \<and> (\<exists>b''. layered_decide_forced env fb rq b = Some (d, b'')))
      \<and> (pd_allowed d \<longrightarrow>
          (\<forall>r \<in> set (layered_rules b). hits_request env rq r \<longrightarrow> sr_action r \<noteq> RuleDeny)
          \<and> ((\<exists>r \<in> set (layered_rules b). hits_request env rq r \<and> sr_action r = RuleAsk) \<and> pd_allowed (fb_forced fb rq)
             \<or> (\<exists>r \<in> set (layered_rules b). hits_request env rq r \<and> sr_action r = RuleAllow)
               \<and> (\<forall>r \<in> set (layered_rules b). hits_request env rq r \<longrightarrow> sr_action r = RuleAllow)
             \<or> (\<forall>r \<in> set (layered_rules b). \<not> hits_request env rq r)
               \<and> pd_allowed (decide_by_mode fb (lb_session_mode b) rq)))"
proof -
  let ?hit = "hits_request env rq" and ?rs = "layered_rules b"
  have rules: "lb_session_rules b @ lb_rules b = ?rs" by (simp add: layered_rules_def)
  note m = matching_rule_choice [OF assms, unfolded rules]
    and forced = matching_rule_for_action_first [OF assms, of RuleDeny, unfolded rules]
  consider (deny) r where "first_of RuleDeny ?hit ?rs = Some r"
    | (ask) r where "first_of RuleDeny ?hit ?rs = None" "first_of RuleAsk ?hit ?rs = Some r"
    | (allow) r where "first_of RuleDeny ?hit ?rs = None" "first_of RuleAsk ?hit ?rs = None"
        "first_of RuleAllow ?hit ?rs = Some r"
    | (none) "first_of RuleDeny ?hit ?rs = None" "first_of RuleAsk ?hit ?rs = None" "first_of RuleAllow ?hit ?rs = None"
    by (meson not_None_eq)
  then show ?thesis
  proof cases
    case deny
    then have "layered_decide env fb rq b = Some (denied_by r, push_audit (rule_audit rq r None) b)"
      and "\<exists>b''. layered_decide_forced env fb rq b = Some (denied_by r, b'')"
      and "\<not> pd_allowed (denied_by r)"
      using first_of_SomeD [OF deny]
      by (simp_all add: layered_decide_def layered_decide_forced_def m forced deny_ask_allow_def denied_by_def decision_deny_def)
    then show ?thesis using first_of_SomeD [OF deny] by auto
  next
    case ask
    then have "layered_decide env fb rq b = Some (fb_forced fb rq, push_audit (rule_audit rq r None) b)"
      using first_of_SomeD [OF ask(2)] by (simp add: layered_decide_def m deny_ask_allow_def)
    then show ?thesis using first_of_SomeD [OF ask(2)] ask(1) by (auto simp: first_of_None)
  next
    case allow
    have "\<forall>r \<in> set ?rs. ?hit r \<longrightarrow> sr_action r = RuleAllow"
      using allow(1,2) rule_action.exhaust by (simp add: first_of_None) blast
    moreover have "layered_decide env fb rq b = Some (decision_allow, push_audit (rule_audit rq r None) b)"
      using allow first_of_SomeD [OF allow(3)] by (simp add: layered_decide_def m deny_ask_allow_def)
    ultimately show ?thesis using first_of_SomeD [OF allow(3)] by auto
  next
    case none
    then have "\<forall>r \<in> set ?rs. \<not> ?hit r"
      using rule_action.exhaust by (simp add: first_of_None) blast
    moreover have "layered_decide env fb rq b = Some (decide_by_mode fb (lb_session_mode b) rq, b)"
      using none by (simp add: layered_decide_def m deny_ask_allow_def)
    ultimately show ?thesis by auto
  qed
qed

definition demo_env :: rule_env where
  "demo_env = \<lparr> re_prompt_rule = (\<lambda>_ _. False), re_file_rule = (\<lambda>_ _ _. False) \<rparr>"

definition demo_call :: "string \<Rightarrow> string \<Rightarrow> permission_request" where
  "demo_call tool command =
     \<lparr> rq_tool_name = str tool, rq_permission_class = None, rq_tool_input = JObj [(str ''command'', JStr (str command))],
       rq_working_directory = None, rq_tool_use_id = None, rq_title = None, rq_description = None,
       rq_blocked_path = None, rq_permission_suggestions = [] \<rparr>"

definition demo_rules :: "source_rule list" where
  "demo_rules = materialize_rules [str ''Bash''] [] [str ''Bash(rm *)''] SrcUser"

lemmas rule_eval = rule_hits_def rule_matches_request_def rule_action_matches_request_action_def split_pattern_def first_index_def
  last_index_def name_matches_def trim_def trim_start_by_def trim_end_by_def is_whitespace_def ascii_lower_def
  shell_input_pattern_matches_command_def extract_prompt_description_def eq_ignore_ascii_case_def wildcard_match_def dp_row_def
  utf8_def utf8_char_def demo_env_def demo_call_def get_str_def str_def

theorem deny_rule_wins_witness:
  "\<exists>d b'. layered_decide demo_env \<lparr> fb_decide = (\<lambda>_. decision_allow), fb_forced = (\<lambda>_. decision_allow) \<rparr>
      (demo_call ''Bash'' ''rm x'') (layered_new demo_rules) = Some (d, b') \<and> \<not> pd_allowed d"
proof -
  let ?rq = "demo_call ''Bash'' ''rm x''" and ?deny = "\<lparr> sr_pattern = str ''Bash(rm *)'', sr_action = RuleDeny, sr_source = SrcUser \<rparr>"
  have hits: "rule_hits demo_env ?rq ?deny = Some True"
    "rule_hits demo_env ?rq \<lparr> sr_pattern = str ''Bash'', sr_action = RuleAllow, sr_source = SrcUser \<rparr> = Some True"
    by (simp_all add: rule_eval)
  then have "no_panic demo_env ?rq (layered_new demo_rules)" and "?deny \<in> set (layered_rules (layered_new demo_rules))"
    by (auto simp: no_panic_def layered_new_def layered_rules_def demo_rules_def materialize_rules_def)
  with hits(1) deny_rule_wins [of demo_env ?rq "layered_new demo_rules"]
  show ?thesis by (fastforce simp: hits_request_def)
qed

text \<open>
  The engine that goes by source asks the rules in order and takes the first: with the rules of one file, whose allowing
  rules come first, an allowing rule hides the denying one that the broker would obey.
\<close>

lemma engine_allow_hides_deny:
  "map_option (map_option sr_action) (engine_check demo_env (demo_call ''Bash'' ''rm x'') (engine_new demo_rules))
    = Some (Some RuleAllow)"
  by (simp add: demo_rules_def materialize_rules_def engine_new_def rule_eval)

text \<open>Patterns without parentheses in a wrong order and without characters of several bytes never make the matcher panic.\<close>

lemma split_at_byte_ascii: "\<forall>c \<in> set s. c < 128 \<Longrightarrow> n \<le> length s \<Longrightarrow> split_at_byte n s = Some (take n s, drop n s)"
proof (induction n s rule: split_at_byte.induct)
  case (3 n c s)
  then show ?case by (simp add: utf8_char_def)
qed simp_all

lemma utf8_ascii_length: "\<forall>c \<in> set s. c < 128 \<Longrightarrow> length (utf8 s) = length s"
  by (induction s) (simp_all add: utf8_def utf8_char_def)

lemma extract_prompt_description_ascii:
  assumes "\<forall>c \<in> set s. c < 128" shows "extract_prompt_description s \<noteq> None"
proof -
  have "\<forall>c \<in> set (trim s). c < 128" using assms set_trim [of s] by blast
  then show ?thesis by (simp add: extract_prompt_description_def Let_def utf8_ascii_length split_at_byte_ascii)
qed

lemma first_index_less: "c \<in> set s \<Longrightarrow> first_index c s < length s"
  by (induction s) (auto simp: first_index_def)

lemma rule_hits_ascii:
  assumes "\<forall>c \<in> set (sr_pattern r). c < 128"
    and "40 \<in> set (sr_pattern r) \<longrightarrow> 41 \<in> set (sr_pattern r) \<longrightarrow> first_index 40 (sr_pattern r) < last_index 41 (sr_pattern r)"
  shows "rule_hits env rq r \<noteq> None"
proof (cases "split_pattern (sr_pattern r)")
  case None
  have "first_index 40 (sr_pattern r) < length (sr_pattern r)" if "40 \<in> set (sr_pattern r)"
    using first_index_less [OF that] .
  with None assms(2) show ?thesis by (auto simp: split_pattern_def Let_def split: if_splits)
next
  case (Some x)
  obtain name input where x: "x = (name, input)" by (cases x)
  have "\<forall>c \<in> set ip. c < 128" if "input = Some ip" for ip
  proof -
    have "set ip \<subseteq> set (sr_pattern r)"
      using Some that set_trim by (auto simp: x split_pattern_def Let_def split: if_splits dest!: subsetD [OF set_trim] in_set_takeD in_set_dropD)
    with assms(1) show ?thesis by blast
  qed
  with extract_prompt_description_ascii Some show ?thesis
    by (auto simp: x rule_hits_def rule_action_matches_request_action_def shell_input_pattern_matches_command_def
        split: option.splits)
qed

text \<open>Otherwise it can: a closing parenthesis in front of the first opening one, or a character across the seventh byte.\<close>

lemma parentheses_panic: "rule_matches_request env (str '')('') rq = None"
  by (simp add: rule_eval)

lemma split_at_byte_pos:
  "0 < n \<Longrightarrow> split_at_byte n (c # s)
    = (if length (utf8_char c) \<le> n then map_option (\<lambda>(a, b). (c # a, b)) (split_at_byte (n - length (utf8_char c)) s) else None)"
  by (cases n) simp_all

lemma prompt_description_panics: "extract_prompt_description (str ''echo a'' @ [233]) = None"
  by (simp add: rule_eval split_at_byte_pos)

text \<open>
  A tool whose name is not in the lists counts as reading and runs without a question in every mode, among them the shell under
  the name a rule may use for it.
\<close>

lemma unknown_tool_allowed:
  "classify_tool (str ''bash'') = ClassRead"
  "static_decide False (Some m) (demo_call ''bash'' ''rm x'') = decision_allow"
  by (cases m; simp add: classify_tool_def starts_with_def str_def static_decide_def demo_call_def resolved_permission_class_def
      unwrap_or_def is_some_and_def)+

section \<open>The rules of a session after updates\<close>

lemma fold_add_session_rule:
  "fold (\<lambda>v. add_session_rule a (permission_rule_value_to_pattern v)) vs b
    = b\<lparr>lb_session_rules := lb_session_rules b
        @ map (\<lambda>v. \<lparr> sr_pattern = permission_rule_value_to_pattern v, sr_action = a, sr_source = SrcSession \<rparr>) vs\<rparr>"
  by (induction vs arbitrary: b) (simp_all add: add_session_rule_def)

definition session_rule :: "rule_action \<Rightarrow> permission_rule_value \<Rightarrow> source_rule" where
  "session_rule a v = \<lparr> sr_pattern = permission_rule_value_to_pattern v, sr_action = a, sr_source = SrcSession \<rparr>"

lemma updated_session_rules:
  "lb_session_rules (snd (apply_update f (AddRules DestSession vs a) x)) = lb_session_rules (snd x) @ map (session_rule a) vs"
  "lb_session_rules (snd (apply_update f (ReplaceRules DestSession vs a) x)) = map (session_rule a) vs"
  "lb_session_rules (snd (apply_update f (RemoveRules DestSession vs a) x))
    = filter (\<lambda>r. \<not> (sr_action r = a \<and> sr_pattern r \<in> permission_rule_value_to_pattern ` set vs)) (lb_session_rules (snd x))"
  by (simp_all add: apply_update_def fold_add_session_rule clear_session_rules_def session_rule_def Let_def split: prod.split)

text \<open>Updates never change the rules of the settings or the audit log, and those for another destination change nothing.\<close>

fun destination :: "permission_update \<Rightarrow> update_destination" where
  "destination (AddRules d _ _) = d"
| "destination (ReplaceRules d _ _) = d"
| "destination (RemoveRules d _ _) = d"
| "destination (SetMode d _) = d"
| "destination (AddDirectories d _) = d"
| "destination (RemoveDirectories d _) = d"

lemma apply_update_frame:
  "lb_rules (snd (apply_update f u x)) = lb_rules (snd x) \<and> lb_audit (snd (apply_update f u x)) = lb_audit (snd x)"
  by (cases u; cases "destination u")
    (simp_all add: apply_update_def fold_add_session_rule clear_session_rules_def Let_def split: prod.split)

lemma apply_update_elsewhere: "destination u \<noteq> DestSession \<Longrightarrow> apply_update f u x = x"
  by (cases u; cases "destination u") (simp_all add: apply_update_def split: prod.split)

lemma apply_updates_frame:
  "lb_rules (snd (fold (apply_update f) us x)) = lb_rules (snd x) \<and> lb_audit (snd (fold (apply_update f) us x)) = lb_audit (snd x)"
  by (induction us arbitrary: x) (simp_all add: apply_update_frame)

text \<open>
  A rule that an update adds is read as it was written: its tool, and what stands in its outermost parentheses,
  without the blanks around them, even if that contains parentheses itself.
\<close>

lemma added_pattern_splits:
  assumes "40 \<notin> set (rv_tool_name v)"
  shows "split_pattern (permission_rule_value_to_pattern v) = Some (trim (rv_tool_name v), map_option trim (rv_content v))"
proof (cases "rv_content v")
  case None
  then show ?thesis using assms by (simp add: permission_rule_value_to_pattern_def split_pattern_def)
next
  case (Some content)
  have "first_index 40 (rv_tool_name v @ 40 # content @ [41]) = length (rv_tool_name v)"
    unfolding first_index_def using assms by (subst takeWhile_append2) auto
  then show ?thesis using Some
    by (simp add: permission_rule_value_to_pattern_def split_pattern_def Let_def last_index_def)
qed

section \<open>Denials are counted\<close>

datatype denial_event = Denied rstring rstring instant | Approved rstring

fun track :: "denial_event \<Rightarrow> denial_tracker \<Rightarrow> denial_tracker" where
  "track (Denied tool reason now) d = record_denial now tool reason d"
| "track (Approved tool) d = record_approval tool d"

fun is_denial :: "denial_event \<Rightarrow> bool" where
  "is_denial (Denied _ _ _) = True"
| "is_denial (Approved _) = False"

fun event_tool :: "denial_event \<Rightarrow> rstring" where
  "event_tool (Denied tool _ _) = tool"
| "event_tool (Approved tool) = tool"

text \<open>The denials since the last approval, latest first.\<close>

definition streak :: "denial_event list \<Rightarrow> nat" where
  "streak h = length (takeWhile is_denial (rev h))"

lemma streak_snoc [simp]: "streak [] = 0" "streak (h @ [e]) = (if is_denial e then Suc (streak h) else 0)"
  by (simp_all add: streak_def)

lemma track_counts:
  "dt_total (track e d) = dt_total d + of_bool (is_denial e)"
  "dt_session_consecutive (track e d) = (if is_denial e then dt_session_consecutive d + 1 else 0)"
  "consecutive_denials (track e d) tool
    = (if event_tool e \<noteq> tool then consecutive_denials d tool
       else if is_denial e then consecutive_denials d tool + 1 else 0)"
  by (cases e; auto simp: record_denial_def record_approval_def consecutive_denials_def unwrap_or_def split: option.split)+

text \<open>
  After any sequence of denials and approvals the tracker knows, as numbers of its width, how many
  denials there were, how many since the last approval of any tool, and for each tool how many since the last
  approval of that tool; a tool is skipped, and the session falls back to asking, by exactly these numbers.
\<close>

theorem denials_counted:
  "dt_total (fold track h denial_tracker_new) = of_nat (length (filter is_denial h))
   \<and> dt_session_consecutive (fold track h denial_tracker_new) = of_nat (streak h)
   \<and> consecutive_denials (fold track h denial_tracker_new) tool = of_nat (streak (filter (\<lambda>e. event_tool e = tool) h))
   \<and> (should_auto_skip (fold track h denial_tracker_new) tool threshold
        \<longleftrightarrow> threshold \<le> of_nat (streak (filter (\<lambda>e. event_tool e = tool) h)))
   \<and> (should_fallback_to_prompting (fold track h denial_tracker_new)
        \<longleftrightarrow> 3 \<le> (of_nat (streak h) :: u32) \<or> 20 \<le> (of_nat (length (filter is_denial h)) :: u64))"
proof -
  have total: "dt_total (fold track h denial_tracker_new) = of_nat (length (filter is_denial h))"
    by (induction h rule: rev_induct) (simp_all add: track_counts denial_tracker_new_def add.commute)
  moreover have session: "dt_session_consecutive (fold track h denial_tracker_new) = of_nat (streak h)"
    by (induction h rule: rev_induct) (simp_all add: track_counts denial_tracker_new_def add.commute)
  moreover have tool: "consecutive_denials (fold track h denial_tracker_new) tool
      = of_nat (streak (filter (\<lambda>e. event_tool e = tool) h))"
  proof (induction h rule: rev_induct)
    case Nil
    show ?case by (simp add: consecutive_denials_def denial_tracker_new_def unwrap_or_def)
  qed (simp add: track_counts add.commute)
  ultimately show ?thesis
    by (simp add: should_auto_skip_def should_fallback_to_prompting_def max_consecutive_denials_def max_total_denials_def)
qed

end
