(* ===== verification/Claude_Classifier.thy ===== *)
theory Claude_Classifier
  imports Claude_Broker Runner_Http
begin

text \<open>
  Judging commands by their text in the Claude agent (\<^verbatim>\<open>claude-permissions\<close>): the dangerous patterns
  (\<^verbatim>\<open>dangerous_patterns.rs\<close>), the rule-based classifiers and the rules that describe a command in words
  (\<^verbatim>\<open>classifier.rs\<close>), rules with their source (\<^verbatim>\<open>rule.rs\<close>) and the search for rules that another one hides
  (\<^verbatim>\<open>shadowed_detection.rs\<close>).
\<close>

section \<open>Dangerous patterns\<close>

datatype danger_level = DangerLow | DangerMedium | DangerHigh | DangerCritical

record dangerous_pattern =
  dgp_name :: string
  dgp_level :: danger_level
  dgp_check :: "rstring \<Rightarrow> bool"

definition has :: "rstring \<Rightarrow> string \<Rightarrow> bool" where
  "has c s \<longleftrightarrow> contains_str c (str s)"

definition begins :: "rstring \<Rightarrow> string \<Rightarrow> bool" where
  "begins c s \<longleftrightarrow> starts_with c (str s)"

definition dangerous_patterns :: "dangerous_pattern list" where
  "dangerous_patterns =
     [\<lparr> dgp_name = ''rm_rf_root'', dgp_level = DangerCritical,
        dgp_check = (\<lambda>cmd. let c = trim cmd
          in (has c ''rm'' \<and> has c ''-rf'' \<and> (has c '' /'' \<or> begins c ''rm -rf /''))
             \<or> (has c ''rm'' \<and> has c ''-r'' \<and> has c ''-f'' \<and> has c '' /'')) \<rparr>,
      \<lparr> dgp_name = ''rm_rf_home'', dgp_level = DangerCritical,
        dgp_check = (\<lambda>cmd. let c = trim cmd
          in has c ''rm'' \<and> (has c ''-rf'' \<or> (has c ''-r'' \<and> has c ''-f'')) \<and> has c ''~/'') \<rparr>,
      \<lparr> dgp_name = ''sudo'', dgp_level = DangerHigh,
        dgp_check = (\<lambda>cmd. let c = trim cmd
          in begins c ''sudo '' \<or> starts_with c (str ''sudo'' @ [9]) \<or> has c ''; sudo '' \<or> has c ''&& sudo '' \<or> has c ''| sudo '') \<rparr>,
      \<lparr> dgp_name = ''chmod_777'', dgp_level = DangerHigh,
        dgp_check = (\<lambda>cmd. has cmd ''chmod'' \<and> has cmd ''777'') \<rparr>,
      \<lparr> dgp_name = ''force_push'', dgp_level = DangerHigh,
        dgp_check = (\<lambda>cmd. has cmd ''git push'' \<and> has cmd ''--force'') \<rparr>,
      \<lparr> dgp_name = ''drop_database'', dgp_level = DangerCritical,
        dgp_check = (\<lambda>cmd. has cmd ''DROP DATABASE'' \<or> has cmd ''dropdb '') \<rparr>,
      \<lparr> dgp_name = ''format_disk'', dgp_level = DangerCritical,
        dgp_check = (\<lambda>cmd. has cmd ''mkfs.'' \<or> has cmd ''fdisk '' \<or> (has cmd ''dd '' \<and> has cmd ''of=/dev/'')) \<rparr>,
      \<lparr> dgp_name = ''shutdown'', dgp_level = DangerHigh,
        dgp_check = (\<lambda>cmd. let c = trim cmd
          in begins c ''shutdown '' \<or> begins c ''reboot'' \<or> begins c ''halt '' \<or> begins c ''poweroff'') \<rparr>,
      \<lparr> dgp_name = ''curl_pipe_sh'', dgp_level = DangerCritical,
        dgp_check = (\<lambda>cmd. has cmd ''curl'' \<and> has cmd ''|'' \<and> (has cmd ''sh'' \<or> has cmd ''bash'')) \<rparr>,
      \<lparr> dgp_name = ''npm_global'', dgp_level = DangerMedium,
        dgp_check = (\<lambda>cmd. has cmd ''npm install'' \<and> has cmd ''-g'') \<rparr>,
      \<lparr> dgp_name = ''docker_rm'', dgp_level = DangerMedium,
        dgp_check = (\<lambda>cmd. has cmd ''docker rm'' \<or> has cmd ''docker rmi'' \<or> has cmd ''docker system prune'') \<rparr>,
      \<lparr> dgp_name = ''wget_pipe_sh'', dgp_level = DangerCritical,
        dgp_check = (\<lambda>cmd. has cmd ''wget'' \<and> has cmd ''|'' \<and> (has cmd ''sh'' \<or> has cmd ''bash'')) \<rparr>,
      \<lparr> dgp_name = ''base64_decode_sh'', dgp_level = DangerCritical,
        dgp_check = (\<lambda>cmd. has cmd ''base64'' \<and> has cmd ''-d'' \<and> has cmd ''|'' \<and> (has cmd ''sh'' \<or> has cmd ''bash'')) \<rparr>,
      \<lparr> dgp_name = ''reverse_shell'', dgp_level = DangerCritical,
        dgp_check = (\<lambda>cmd. (has cmd ''nc '' \<or> has cmd ''ncat '') \<and> (has cmd ''-e'' \<or> has cmd ''-c'')
                          \<or> (has cmd ''mkfifo'' \<and> has cmd ''|'')) \<rparr>]"

definition detect_dangerous_patterns :: "rstring \<Rightarrow> dangerous_pattern list" where
  "detect_dangerous_patterns command = filter (\<lambda>p. dgp_check p command) dangerous_patterns"

definition is_critically_dangerous :: "rstring \<Rightarrow> bool" where
  "is_critically_dangerous command \<longleftrightarrow> list_ex (\<lambda>p. dgp_level p = DangerCritical) (detect_dangerous_patterns command)"

definition has_dangerous_patterns :: "rstring \<Rightarrow> bool" where
  "has_dangerous_patterns command \<longleftrightarrow>
     list_ex (\<lambda>p. dgp_level p \<in> {DangerMedium, DangerHigh, DangerCritical}) (detect_dangerous_patterns command)"

section \<open>The classifiers\<close>

record classifier_result =
  cr_should_allow :: bool
  cr_confidence :: "8 word"
  cr_reason :: rstring
  cr_classifier_name :: rstring

definition classifier_deny :: "rstring \<Rightarrow> 8 word \<Rightarrow> classifier_result" where
  "classifier_deny reason confidence =
     \<lparr> cr_should_allow = False, cr_confidence = confidence, cr_reason = reason, cr_classifier_name = [] \<rparr>"

definition yolo_result :: "bool \<Rightarrow> 8 word \<Rightarrow> rstring \<Rightarrow> classifier_result" where
  "yolo_result ok confidence reason =
     \<lparr> cr_should_allow = ok, cr_confidence = confidence, cr_reason = reason, cr_classifier_name = str ''yolo'' \<rparr>"

definition safe_read_tools :: "rstring list" where
  "safe_read_tools = map str [''Read'', ''Grep'', ''Glob'', ''LS'', ''WebFetch'', ''WebSearch'']"

definition safe_bash_prefixes :: "string list" where
  "safe_bash_prefixes =
     [''git status'', ''git log'', ''git diff'', ''git branch'', ''git remote'', ''ls'', ''cat'', ''head'', ''tail'', ''wc'',
      ''echo'', ''pwd'', ''which'', ''env'', ''printenv'', ''node --version'', ''python --version'', ''rustc --version'',
      ''cargo --version'', ''npm --version'', ''npm list'', ''npm view'', ''pip list'', ''pip show'', ''cargo check'',
      ''cargo test'', ''cargo build'', ''cargo clippy'', ''cargo doc'', ''cargo tree'', ''df'', ''du'', ''free'', ''uname'',
      ''date'', ''whoami'', ''id'', ''hostname'']"

definition dev_prefixes :: "string list" where
  "dev_prefixes =
     [''npm run'', ''npm test'', ''npm start'', ''npm build'', ''cargo run'', ''cargo test'', ''cargo build'',
      ''cargo check'', ''cargo clippy'', ''make'', ''pytest'', ''jest'', ''vitest'', ''go test'', ''go build'', ''go run'',
      ''python '', ''python3 '', ''node '', ''git add'', ''git commit'', ''git checkout'', ''git stash'', ''docker compose'',
      ''docker-compose'', ''kubectl'']"

definition is_safe_read_tool :: "rstring \<Rightarrow> bool" where
  "is_safe_read_tool tool_name \<longleftrightarrow> tool_name \<in> set safe_read_tools"

fun safe_by_prefix :: "rstring \<Rightarrow> string list \<Rightarrow> bool" where
  "safe_by_prefix trimmed [] = False"
| "safe_by_prefix trimmed (p # ps) =
     (if begins trimmed p
      then (if has trimmed ''&&'' \<or> has trimmed ''|'' \<or> has trimmed '';'' then trimmed = str p else True)
      else safe_by_prefix trimmed ps)"

definition is_safe_bash_command :: "rstring \<Rightarrow> bool" where
  "is_safe_bash_command command =
     (let trimmed = trim command
      in if is_critically_dangerous trimmed then False else safe_by_prefix trimmed safe_bash_prefixes)"

text \<open>Cutting at a byte inside a character is a panic.\<close>

definition truncate_command :: "rstring \<Rightarrow> nat \<Rightarrow> rstring option" where
  "truncate_command s max_len =
     (if length (utf8 s) \<le> max_len then Some s
      else map_option (\<lambda>(start, _). start @ str ''...'') (split_at_byte max_len s))"

definition yolo_shell :: "rstring \<Rightarrow> rstring \<Rightarrow> classifier_result option option" where
  "yolo_shell tool_name command =
     (if is_safe_bash_command command
      then Some (map_option (\<lambda>t. yolo_result True 90 (str ''Bash command '' @ [39] @ t @ [39] @ str '' is in safe list''))
                   (truncate_command command 40))
      else if is_critically_dangerous command
      then Some (map_option (\<lambda>t. yolo_result False 99 (str ''Bash command '' @ [39] @ t @ [39] @ str '' matches critical danger pattern''))
                   (truncate_command command 40))
      else None)"

definition yolo_file :: "rstring \<Rightarrow> classifier_result option option" where
  "yolo_file path =
     (if begins path ''/etc/'' \<or> begins path ''/usr/'' \<or> begins path ''/sys/''
      then Some (Some (yolo_result False 95 (str ''Write to system path '' @ [39] @ path @ [39] @ str '' blocked'')))
      else if \<not> begins path ''..'' \<and> \<not> begins path ''~''
      then Some (map_option (\<lambda>t. yolo_result True 80 (str ''Write to project file '' @ [39] @ t @ [39] @ str '' allowed''))
                   (truncate_command path 40))
      else None)"

text \<open>The outer \<open>None\<close> of the two parts above goes on; that of the whole is a panic.\<close>

definition yolo_classify :: "bool \<Rightarrow> rstring \<Rightarrow> json \<Rightarrow> classifier_result option" where
  "yolo_classify enabled tool_name input =
     (if \<not> enabled then Some (classifier_deny (str ''YOLO classifier disabled'') 100)
      else if is_safe_read_tool tool_name then Some (yolo_result True 95 (tool_name @ str '' is a safe read-only tool''))
      else
        let shell = (if tool_name = str ''Bash'' \<or> tool_name = str ''BashCommand''
                     then Option.bind (get_str input ''command'') (yolo_shell tool_name) else None);
            file = (if tool_name \<in> set (map str [''Write'', ''Edit'', ''MultiEdit''])
                    then Option.bind (Option.bind (case j_get input ''file_path'' of Some v \<Rightarrow> Some v | None \<Rightarrow> j_get input ''path'') as_str)
                           yolo_file
                    else None)
        in case shell of
             Some r \<Rightarrow> r
           | None \<Rightarrow>
               (case file of
                  Some r \<Rightarrow> r
                | None \<Rightarrow> Some (yolo_result False 50 (str ''No safe pattern match for tool '' @ [39] @ tool_name @ [39]))))"

datatype bash_command_category = CatSafe | CatDevelopment | CatUnknown | CatDangerous | CatCritical

definition classify_command :: "rstring \<Rightarrow> bash_command_category" where
  "classify_command command =
     (let trimmed = trim command
      in if is_critically_dangerous trimmed then CatCritical
         else if has_dangerous_patterns trimmed then CatDangerous
         else if is_safe_bash_command trimmed then CatSafe
         else if list_ex (begins trimmed) dev_prefixes then CatDevelopment
         else CatUnknown)"

section \<open>Rules in words\<close>

text \<open>\<^verbatim>\<open>split_whitespace\<close>: the maximal runs of other characters.\<close>

fun words_from :: "rstring \<Rightarrow> rstring \<Rightarrow> rstring list" where
  "words_from w [] = (if w = [] then [] else [w])"
| "words_from w (c # s) =
     (if is_whitespace c then (if w = [] then words_from [] s else w # words_from [] s) else words_from (w @ [c]) s)"

definition split_whitespace :: "rstring \<Rightarrow> rstring list" where
  "split_whitespace s = words_from [] s"

definition is_alpha :: "rchar \<Rightarrow> bool" where
  "is_alpha c \<longleftrightarrow> (65 \<le> c \<and> c \<le> 90) \<or> (97 \<le> c \<and> c \<le> 122)"

definition is_alnum :: "rchar \<Rightarrow> bool" where
  "is_alnum c \<longleftrightarrow> is_alpha c \<or> (48 \<le> c \<and> c \<le> 57)"

definition token_is_env_assignment :: "rstring \<Rightarrow> bool" where
  "token_is_env_assignment token =
     (case split_once 61 token of
        None \<Rightarrow> False
      | Some (name, _) \<Rightarrow>
          (case name of
             [] \<Rightarrow> False
           | first # rest \<Rightarrow> (is_alpha first \<or> first = 95) \<and> list_all (\<lambda>ch. is_alnum ch \<or> ch = 95) rest))"

definition command_words :: "rstring \<Rightarrow> rstring list" where
  "command_words command =
     (case dropWhile token_is_env_assignment (split_whitespace command) of
        [] \<Rightarrow> []
      | token # tokens \<Rightarrow>
          if eq_ignore_ascii_case token (str ''env'') then dropWhile token_is_env_assignment tokens else token # tokens)"

definition normalize_shell_prompt_command :: "rstring \<Rightarrow> rstring" where
  "normalize_shell_prompt_command command = map ascii_lower (join_with 32 (command_words command))"

definition contains_shell_control_operators :: "rstring \<Rightarrow> bool" where
  "contains_shell_control_operators command =
     (let trimmed = trim command
      in has trimmed ''&&'' \<or> has trimmed ''||'' \<or> 59 \<in> set trimmed \<or> 124 \<in> set trimmed \<or> 10 \<in> set trimmed)"

definition is_ascii_whitespace :: "rchar \<Rightarrow> bool" where
  "is_ascii_whitespace c \<longleftrightarrow> c \<in> {32, 9, 10, 12, 13}"

definition normalize_description :: "rstring \<Rightarrow> rstring" where
  "normalize_description description =
     join_with 32 (split_whitespace
       (map (\<lambda>ch. if is_alnum ch \<or> is_ascii_whitespace ch \<or> ch = 45 then ch else 32) (map ascii_lower description)))"

definition contains_any :: "rstring \<Rightarrow> string list \<Rightarrow> bool" where
  "contains_any description needles \<longleftrightarrow> list_ex (has description) needles"

definition command_starts_with_any :: "rstring \<Rightarrow> string list \<Rightarrow> bool" where
  "command_starts_with_any command starts \<longleftrightarrow> list_ex (\<lambda>p. begins command p \<or> command = str p) starts"

datatype prompt_intent =
    RunTests | InstallDependencies | BuildProject | LintCode | FormatCode | Typecheck
  | RunProject | GitInspect | GitCommit | GitBranch | RunMigrations

fun intent_prefixes :: "prompt_intent \<Rightarrow> string list" where
  "intent_prefixes RunTests =
     [''cargo test'', ''cargo nextest'', ''npm test'', ''npm run test'', ''pnpm test'', ''pnpm run test'', ''yarn test'',
      ''bun test'', ''pytest'', ''python -m pytest'', ''python3 -m pytest'', ''go test'', ''dotnet test'', ''mvn test'',
      ''gradle test'', ''jest'', ''vitest'', ''mix test'']"
| "intent_prefixes InstallDependencies =
     [''npm install'', ''npm ci'', ''pnpm install'', ''pnpm i'', ''yarn install'', ''bun install'', ''pip install'',
      ''python -m pip install'', ''python3 -m pip install'', ''uv pip install'', ''poetry install'', ''cargo fetch'',
      ''go mod download'', ''composer install'', ''bundle install'']"
| "intent_prefixes BuildProject =
     [''cargo build'', ''npm run build'', ''pnpm build'', ''pnpm run build'', ''yarn build'', ''bun run build'',
      ''go build'', ''dotnet build'', ''mvn package'', ''gradle build'', ''make'', ''cmake --build'', ''next build'',
      ''vite build'']"
| "intent_prefixes LintCode =
     [''cargo clippy'', ''npm run lint'', ''pnpm lint'', ''pnpm run lint'', ''yarn lint'', ''eslint'', ''ruff check'',
      ''flake8'', ''golangci-lint'', ''biome lint'']"
| "intent_prefixes FormatCode =
     [''cargo fmt'', ''rustfmt'', ''npm run format'', ''pnpm format'', ''pnpm run format'', ''yarn format'', ''prettier'',
      ''black '', ''gofmt'', ''biome format'']"
| "intent_prefixes Typecheck =
     [''cargo check'', ''npm run typecheck'', ''pnpm typecheck'', ''pnpm run typecheck'', ''yarn typecheck'', ''tsc'',
      ''npx tsc'', ''pyright'', ''mypy'']"
| "intent_prefixes RunProject =
     [''cargo run'', ''npm start'', ''npm run dev'', ''pnpm dev'', ''pnpm run dev'', ''yarn dev'', ''bun run dev'',
      ''uvicorn'', ''next dev'', ''vite'', ''docker compose up'', ''docker-compose up'']"
| "intent_prefixes GitInspect =
     [''git status'', ''git diff'', ''git log'', ''git branch'', ''git show'']"
| "intent_prefixes GitCommit =
     [''git add'', ''git commit'']"
| "intent_prefixes GitBranch =
     [''git checkout'', ''git switch'', ''git branch'']"
| "intent_prefixes RunMigrations =
     [''alembic upgrade'', ''prisma migrate'', ''npm run migrate'', ''pnpm migrate'', ''pnpm run migrate'', ''yarn migrate'',
      ''cargo sqlx migrate'', ''diesel migration'', ''goose up'', ''flyway migrate'', ''dbmate up'']"

fun describes :: "rstring \<Rightarrow> prompt_intent \<Rightarrow> bool" where
  "describes d RunTests =
       contains_any d [''run tests'', ''test suite'', ''unit test'', ''integration test'', ''tests'', ''test'']"
| "describes d InstallDependencies =
       (contains_any d [''install dependencies'', ''install packages'', ''install deps'', ''bootstrap dependencies'', ''dependency install'']
       \<or> contains_any d [''install'', ''bootstrap'']
         \<and> contains_any d [''dependency'', ''dependencies'', ''deps'', ''package'', ''packages''])"
| "describes d BuildProject =
       contains_any d [''build'', ''compile'']"
| "describes d LintCode =
       contains_any d [''lint'', ''clippy'', ''eslint'', ''ruff'', ''flake8'', ''golangci'']"
| "describes d FormatCode =
       contains_any d [''format'', ''fmt'', ''prettier'', ''rustfmt'', ''gofmt'', ''black'']"
| "describes d Typecheck =
       contains_any d [''typecheck'', ''type check'', ''type-check'', ''check types'', ''check type'']"
| "describes d RunProject =
       contains_any d [''run app'', ''run the app'', ''start app'', ''start server'', ''run server'', ''dev server'',
        ''development server'', ''start dev'', ''launch server'']"
| "describes d GitInspect =
       contains_any d [''git status'', ''inspect changes'', ''review changes'', ''check changes'', ''show changes'', ''review diff'',
        ''show diff'', ''git diff'', ''git log'', ''git branch'', ''git history'', ''inspect git'']"
| "describes d GitCommit =
       contains_any d [''commit changes'', ''git commit'', ''commit code'', ''create commit'', ''stage changes'']"
| "describes d GitBranch =
       contains_any d [''checkout branch'', ''switch branch'', ''create branch'', ''git checkout'', ''git switch'']"
| "describes d RunMigrations =
       contains_any d [''migration'', ''migrate'', ''database migration'', ''schema migration'', ''run migrations'']"

definition all_intents :: "prompt_intent list" where
  "all_intents =
     [RunTests, InstallDependencies, BuildProject, LintCode, FormatCode, Typecheck, RunProject,
      GitInspect, GitCommit, GitBranch, RunMigrations]"

definition infer_prompt_intents :: "rstring \<Rightarrow> prompt_intent list" where
  "infer_prompt_intents description =
     (let normalized = normalize_description description in filter (describes normalized) all_intents)"

definition intent_matches :: "prompt_intent \<Rightarrow> rstring \<Rightarrow> bool" where
  "intent_matches intent command = command_starts_with_any command (intent_prefixes intent)"

definition create_prompt_rule_content :: "rstring \<Rightarrow> rstring" where
  "create_prompt_rule_content description = str ''prompt:'' @ str '' '' @ trim description"

definition shell_prompt_rule_matches_command :: "rstring \<Rightarrow> rstring \<Rightarrow> bool" where
  "shell_prompt_rule_matches_command command description =
     (if trim command = [] \<or> trim description = [] then False
      else if is_critically_dangerous command \<or> has_dangerous_patterns command then False
      else if contains_shell_control_operators command then False
      else let normalized_command = normalize_shell_prompt_command command
           in if normalized_command = [] then False
              else let intents = infer_prompt_intents description
                   in if intents = [] then False
                      else list_ex (\<lambda>intent. intent_matches intent normalized_command) intents)"

section \<open>Rules with their source\<close>

datatype permission_rule_source =
    UserSettings | ProjectSettings | LocalSettings | FlagSettings | PolicySettings | CliArg | CommandRule | SessionRule

record permission_rule_v2 =
  r2_source :: permission_rule_source
  r2_behavior :: rule_action
  r2_value :: permission_rule_value

definition rule_v2_matches :: "permission_rule_v2 \<Rightarrow> rstring \<Rightarrow> rstring option \<Rightarrow> bool option" where
  "rule_v2_matches r tool_name content =
     (if rv_tool_name (r2_value r) \<noteq> tool_name then Some False
      else case (rv_content (r2_value r), content) of
        (None, _) \<Rightarrow> Some True
      | (Some pattern, Some c) \<Rightarrow>
          if classify_tool tool_name = ClassBash
          then (case extract_prompt_description pattern of
                  None \<Rightarrow> None
                | Some (Some description) \<Rightarrow> Some (shell_prompt_rule_matches_command c description)
                | Some None \<Rightarrow> glob_match pattern c)
          else glob_match pattern c
      | (Some _, None) \<Rightarrow> Some False)"

definition rule_source_order :: "permission_rule_source list" where
  "rule_source_order =
     [CliArg, CommandRule, SessionRule, FlagSettings, PolicySettings, LocalSettings, ProjectSettings, UserSettings]"

definition rule_source_priority :: "permission_rule_source \<Rightarrow> nat" where
  "rule_source_priority s = length (takeWhile (\<lambda>t. t \<noteq> s) rule_source_order)"

datatype shadow_reason = HigherPrioritySource | BroaderRule | DenyOverridesAllow

record shadowed_rule =
  sh_shadowed :: permission_rule_v2
  sh_shadowed_by :: permission_rule_v2
  sh_reason :: shadow_reason

definition rules_overlap :: "permission_rule_v2 \<Rightarrow> permission_rule_v2 \<Rightarrow> bool" where
  "rules_overlap a b =
     (if rv_tool_name (r2_value a) \<noteq> rv_tool_name (r2_value b) then False
      else case (rv_content (r2_value a), rv_content (r2_value b)) of
        (None, None) \<Rightarrow> True
      | (None, Some _) \<Rightarrow> True
      | (Some _, None) \<Rightarrow> False
      | (Some ac, Some bc) \<Rightarrow>
          ac = bc \<or> ac = str ''*'' \<or> (ends_with ac (str ''*'') \<and> starts_with bc (trim (trim_end_by (\<lambda>c. c = 42) ac))))"

definition shadow_reason_of :: "permission_rule_v2 \<Rightarrow> permission_rule_v2 \<Rightarrow> shadow_reason" where
  "shadow_reason_of other r =
     (if r2_source other \<noteq> r2_source r then HigherPrioritySource
      else if r2_behavior other = RuleDeny \<and> r2_behavior r = RuleAllow then DenyOverridesAllow
      else BroaderRule)"

fun shadowed_after :: "permission_rule_v2 list \<Rightarrow> permission_rule_v2 list \<Rightarrow> shadowed_rule list" where
  "shadowed_after before [] = []"
| "shadowed_after before (r # rs) =
     (case find (\<lambda>other. rules_overlap other r) before of
        Some other \<Rightarrow> [\<lparr> sh_shadowed = r, sh_shadowed_by = other, sh_reason = shadow_reason_of other r \<rparr>]
      | None \<Rightarrow> []) @ shadowed_after (before @ [r]) rs"

definition detect_shadowed_rules :: "permission_rule_v2 list \<Rightarrow> shadowed_rule list" where
  "detect_shadowed_rules rules = shadowed_after [] (sort_key (\<lambda>r. rule_source_priority (r2_source r)) rules)"

section \<open>What counts as safe\<close>

lemmas text_eval = has_def begins_def str_def starts_with_def trim_def trim_start_by_def trim_end_by_def is_whitespace_def

lemma safe_prefixes_plain:
  "p \<in> set safe_bash_prefixes \<Longrightarrow> \<not> has (str p) ''&&'' \<and> \<not> has (str p) ''|'' \<and> \<not> has (str p) '';''"
  unfolding safe_bash_prefixes_def by (auto simp: text_eval)

lemma safe_by_prefixD:
  "safe_by_prefix c ps \<Longrightarrow> \<exists>p \<in> set ps. begins c p \<and> (has c ''&&'' \<or> has c ''|'' \<or> has c '';'' \<longrightarrow> c = str p)"
  by (induction ps) (auto split: if_splits)

text \<open>A command that counts as safe is not critical, begins with a listed one, and is not chained by the operators looked for.\<close>

lemma safe_command_unchained:
  assumes "is_safe_bash_command command"
  shows "\<not> is_critically_dangerous (trim command) \<and> list_ex (begins (trim command)) safe_bash_prefixes
    \<and> \<not> has (trim command) ''&&'' \<and> \<not> has (trim command) ''|'' \<and> \<not> has (trim command) '';''"
  using assms safe_prefixes_plain
  by (fastforce simp: is_safe_bash_command_def Let_def list_ex_iff split: if_splits dest: safe_by_prefixD)

text \<open>The operators not looked for chain commands too, and some listed commands run whatever follows them.\<close>

lemma safe_command_evasions:
  "is_safe_bash_command (str ''ls'' @ [10] @ str ''rm x'')"
  "is_safe_bash_command (str ''ls & rm x'')"
  "is_safe_bash_command (str ''echo $(rm x)'')"
  "is_safe_bash_command (str ''env rm x'')"
  "is_safe_bash_command (str ''lsof'')"
  by (simp_all add: is_safe_bash_command_def is_critically_dangerous_def detect_dangerous_patterns_def dangerous_patterns_def
      safe_bash_prefixes_def text_eval)

lemma yolo_writes_elsewhere:
  "map_option (map_option cr_should_allow) (yolo_file (str ''/root/.bashrc'')) = Some (Some True)"
  "map_option (map_option cr_should_allow) (yolo_file (str ''a/../../x'')) = Some (Some True)"
  by (simp_all add: yolo_file_def truncate_command_def utf8_def utf8_char_def yolo_result_def text_eval)

text \<open>The summary of a command is cut at byte 40.\<close>

lemma yolo_panics:
  "yolo_classify True (str ''Bash'') (jobj [(''command'', JStr (str ''echo 0123456789012345678901234567890123'' @ [233]))]) = None"
proof -
  let ?c = "str ''echo 0123456789012345678901234567890123'' @ [233 :: rchar]"
  have "is_safe_bash_command ?c"
    by (simp add: is_safe_bash_command_def is_critically_dangerous_def detect_dangerous_patterns_def dangerous_patterns_def
        safe_bash_prefixes_def text_eval)
  moreover have "truncate_command ?c 40 = None"
    by (simp add: str_def truncate_command_def utf8_def utf8_char_def split_at_byte_pos)
  ultimately show ?thesis
    by (simp add: yolo_classify_def is_safe_read_tool_def safe_read_tools_def yolo_shell_def jobj_def get_str_def)
qed

section \<open>Rules in words match what they describe\<close>

lemma critical_is_dangerous: "is_critically_dangerous c \<Longrightarrow> has_dangerous_patterns c"
  by (auto simp: is_critically_dangerous_def has_dangerous_patterns_def list_ex_iff)

lemma all_intents_all: "set all_intents = UNIV"
  by (auto simp: all_intents_def) (metis prompt_intent.exhaust)

lemma intent_prefixes_nonempty: "p \<in> set (intent_prefixes i) \<Longrightarrow> p \<noteq> []"
  by (cases i) auto

lemma command_starts_with_any_iff: "command_starts_with_any c ps \<longleftrightarrow> list_ex (begins c) ps"
proof -
  have "(begins c p \<or> c = str p) = begins c p" for p by (auto simp: begins_def starts_with_def)
  then show ?thesis by (simp add: command_starts_with_any_def)
qed

lemma prompt_rule_exact:
  "shell_prompt_rule_matches_command command description \<longleftrightarrow>
     trim command \<noteq> [] \<and> trim description \<noteq> [] \<and> \<not> has_dangerous_patterns command
     \<and> \<not> contains_shell_control_operators command
     \<and> (\<exists>i. describes (normalize_description description) i
          \<and> list_ex (begins (normalize_shell_prompt_command command)) (intent_prefixes i))"
  (is "?m \<longleftrightarrow> ?c \<and> ?d \<and> ?safe \<and> ?plain \<and> ?ex")
proof -
  have some: "infer_prompt_intents description \<noteq> [] \<and> normalize_shell_prompt_command command \<noteq> []" if "?ex"
    using that intent_prefixes_nonempty
    by (fastforce simp: infer_prompt_intents_def Let_def filter_empty_conv all_intents_all list_ex_iff begins_def starts_with_def str_def)
  have "list_ex (\<lambda>i. intent_matches i (normalize_shell_prompt_command command)) (infer_prompt_intents description) \<longleftrightarrow> ?ex"
    by (simp add: list_ex_iff [of _ "filter _ _"] infer_prompt_intents_def Let_def all_intents_all intent_matches_def
        command_starts_with_any_iff)
  then show ?thesis
    using some critical_is_dangerous [of command] by (auto simp: shell_prompt_rule_matches_command_def Let_def)
qed

text \<open>Assignments in front of a command make no difference to a rule in words.\<close>

lemma words_from_append:
  "\<forall>c \<in> set w. \<not> is_whitespace c \<Longrightarrow> words_from v (w @ s) = words_from (v @ w) s"
  by (induction w arbitrary: v) simp_all

lemma assignment_ignored:
  assumes "\<forall>c \<in> set w. \<not> is_whitespace c" "token_is_env_assignment w"
  shows "normalize_shell_prompt_command (w @ 32 # command) = normalize_shell_prompt_command command"
proof -
  have "w \<noteq> []" using assms(2) by (auto simp: token_is_env_assignment_def split_once_def)
  then have "split_whitespace (w @ 32 # command) = w # split_whitespace command"
    using words_from_append [OF assms(1), of "[]"] by (simp add: split_whitespace_def is_whitespace_def)
  then show ?thesis using assms(2) by (simp add: normalize_shell_prompt_command_def command_words_def)
qed

text \<open>A rule in words survives being written and read, whatever characters it has.\<close>

lemma prompt_content_roundtrip:
  assumes "trim d \<noteq> []"
  shows "extract_prompt_description (create_prompt_rule_content d) = Some (Some (trim d))"
proof -
  let ?s = "str ''prompt:'' @ str '' '' @ trim d"
  have last: "\<not> is_whitespace (last (trim d))"
    using assms last_trim_end_by [of is_whitespace "trim_start_by is_whitespace d"] by (simp add: trim_def)
  have ts: "trim ?s = ?s"
  proof -
    have "trim_start_by is_whitespace ?s = ?s" by (simp add: trim_start_by_def str_def is_whitespace_def)
    then show ?thesis using assms last unfolding trim_def [of ?s] by (simp add: trim_end_by_id trim_def)
  qed
  have "trim (32 # trim d) = trim (trim d)" by (simp add: trim_def [of "32 # trim d"] trim_start_by_def is_whitespace_def) (simp add: trim_def trim_start_by_def)
  moreover have "trim (trim d) = trim d"
    using hd_trim [OF assms] last assms by (cases "trim d") (auto simp: trim_def [of "_ # _"] trim_start_by_def trim_end_by_id)
  ultimately have "trim (32 # trim d) = trim d" by simp
  then show ?thesis using assms ts
    by (simp add: extract_prompt_description_def create_prompt_rule_content_def Let_def)
       (simp add: str_def split_at_byte_pos utf8_def utf8_char_def eq_ignore_ascii_case_def)
qed

text \<open>
  A rule that allows a kind of command allows with it what a substitution or a single ampersand starts, and every command
  whose name merely begins like a listed one.
\<close>

lemma prompt_rule_evasions:
  "shell_prompt_rule_matches_command (str ''npm test $(rm x)'') (str ''run tests'')"
  "shell_prompt_rule_matches_command (str ''npm test & rm x'') (str ''run tests'')"
  "shell_prompt_rule_matches_command (str ''makefile-evil'') (str ''build'')"
  by (simp_all add: shell_prompt_rule_matches_command_def is_critically_dangerous_def has_dangerous_patterns_def
      detect_dangerous_patterns_def dangerous_patterns_def text_eval contains_shell_control_operators_def
      normalize_shell_prompt_command_def command_words_def split_whitespace_def token_is_env_assignment_def split_once_def
      eq_ignore_ascii_case_def ascii_lower_def infer_prompt_intents_def normalize_description_def is_alnum_def is_alpha_def
      is_ascii_whitespace_def all_intents_def contains_any_def intent_matches_def command_starts_with_any_def)

section \<open>Rules that another one hides\<close>

lemma glob_match_prefix_star:
  assumes "42 \<notin> set p" "starts_with c p" shows "glob_match (p @ [42]) c = Some True"
proof (cases "p = []")
  case True
  then show ?thesis by (simp add: glob_match_def str_def)
next
  case False
  have "split_on 42 (p @ [42]) = [p, []]" using assms(1) by (induction p) auto
  moreover have "one_star_match p [] c"
    using assms(2) by (auto simp: one_star_exact starts_with_split)
  ultimately show ?thesis using False by (auto simp: glob_match_def str_def Cons_eq_append_conv append_eq_Cons_conv)
qed

lemma glob_match_recursive_starts:
  "42 \<notin> set p \<Longrightarrow> 63 \<notin> set p \<Longrightarrow> glob_match_recursive (p @ q) c = Some True \<Longrightarrow> starts_with c p"
  by (induction p arbitrary: c) (auto simp: starts_with_def split: list.splits if_splits)

lemma split_on_hd: "42 \<notin> set p \<Longrightarrow> split_on 42 (p @ q) = before # rest \<Longrightarrow> starts_with before p"
  by (induction p arbitrary: before) (auto simp: starts_with_def split: list.splits)

lemma glob_match_starts:
  assumes "42 \<notin> set p" "63 \<notin> set p" "glob_match (p @ q) c = Some True"
  shows "starts_with c p \<or> p @ q = str ''*''"
proof (cases "42 \<in> set (p @ q) \<and> p @ q \<noteq> str ''*''")
  case True
  show ?thesis
  proof (cases "\<exists>before after. split_on 42 (p @ q) = [before, after]")
    case two: True
    then obtain before after where parts: "split_on 42 (p @ q) = [before, after]" by blast
    then have "one_star_match before after c" using assms(3) True by (auto simp: glob_match_def)
    with split_on_hd [OF assms(1) parts] show ?thesis by (auto simp: one_star_exact starts_with_split)
  next
    case False
    have "glob_match (p @ q) c = glob_match_recursive (p @ q) c"
    proof (cases "split_on 42 (p @ q)")
      case (Cons a as)
      then show ?thesis using False True by (cases as; cases "tl as") (auto simp: glob_match_def)
    qed (use True in \<open>auto simp: glob_match_def\<close>)
    then show ?thesis using glob_match_recursive_starts [OF assms(1,2)] assms(3) by auto
  qed
next
  case False
  then show ?thesis using assms(3) by (auto simp: glob_match_def starts_with_def split: if_splits)
qed

text \<open>Where each rule stands in the order of sources, and which rule is named as hiding it.\<close>

lemma shadowed_after_iff:
  "e \<in> set (shadowed_after before rs) \<longleftrightarrow>
    (\<exists>us r vs. rs = us @ r # vs \<and> find (\<lambda>other. rules_overlap other r) (before @ us) = Some (sh_shadowed_by e)
       \<and> sh_shadowed e = r \<and> sh_reason e = shadow_reason_of (sh_shadowed_by e) r)"
proof (induction rs arbitrary: before)
  case (Cons r rs)
  show ?case
    by (auto simp: Cons.IH Cons_eq_append_conv split: option.splits) (cases e; force)+
qed simp

definition in_words :: "permission_rule_v2 \<Rightarrow> bool" where
  "in_words r \<longleftrightarrow> classify_tool (rv_tool_name (r2_value r)) = ClassBash
     \<and> is_some_and (\<lambda>x. extract_prompt_description x \<noteq> Some None) (rv_content (r2_value r))"

definition final_star_only :: "rstring \<Rightarrow> bool" where
  "final_star_only x \<longleftrightarrow> x \<noteq> [] \<and> last x = 42 \<and> 42 \<notin> set (butlast x) \<and> 63 \<notin> set (butlast x) \<and> trim (butlast x) = butlast x"

definition hides_plainly :: "permission_rule_v2 \<Rightarrow> permission_rule_v2 \<Rightarrow> bool" where
  "hides_plainly a b \<longleftrightarrow>
     rv_content (r2_value a) = rv_content (r2_value b)
     \<or> \<not> in_words a \<and> \<not> in_words b \<and> is_none_or final_star_only (rv_content (r2_value a))"

lemma overlap_covers:
  assumes "rules_overlap a b" "hides_plainly a b" "rule_v2_matches b tool content = Some True"
  shows "rule_v2_matches a tool content = Some True"
proof (cases "rv_content (r2_value a) = rv_content (r2_value b) \<or> rv_content (r2_value a) = None")
  case True
  then show ?thesis using assms(1,3) by (auto simp: rules_overlap_def rule_v2_matches_def split: if_splits option.splits)
next
  case False
  then obtain ac bc c where ac: "rv_content (r2_value a) = Some ac" and bc: "rv_content (r2_value b) = Some bc"
    and c: "content = Some c" and tool: "rv_tool_name (r2_value a) = tool" "rv_tool_name (r2_value b) = tool"
    using assms(1,3) by (auto simp: rules_overlap_def rule_v2_matches_def split: if_splits option.splits)
  have plain: "\<not> in_words a" "\<not> in_words b" "final_star_only ac"
    using assms(2) False ac by (auto simp: hides_plainly_def)
  then obtain p where p: "ac = p @ [42]" "42 \<notin> set p" "63 \<notin> set p" "trim p = p"
    by (metis append_butlast_last_id final_star_only_def)
  have by_glob: "rule_v2_matches r tool content = glob_match x c"
    if "\<not> in_words r" "rv_content (r2_value r) = Some x" "rv_tool_name (r2_value r) = tool" for r x
    using that by (auto simp: rule_v2_matches_def in_words_def c split: option.splits)
  have "trim_end_by (\<lambda>c. c = 42) (p @ [42]) = p"
    using p(2) by (cases p rule: rev_cases) (auto simp: trim_end_by_def)
  then have "p = [] \<or> starts_with bc p"
    using assms(1) False ac bc p(1,4) by (auto simp: rules_overlap_def str_def split: if_splits)
  moreover have "p @ q \<noteq> str ''*''" if "p \<noteq> []" for q
    using that p(2) by (auto simp: str_def append_eq_Cons_conv)
  moreover have "glob_match bc c = Some True" using assms(3) by_glob [OF plain(2) bc tool(2)] by simp
  ultimately have "starts_with c p \<or> p = []"
    using glob_match_starts [OF p(2,3)] by (metis starts_with_split)
  then have "glob_match ac c = Some True" using glob_match_prefix_star [OF p(2), of c] p(1) by (auto simp: starts_with_def)
  then show ?thesis by (simp add: by_glob [OF plain(1) ac tool(1)])
qed

text \<open>
  A rule that is reported as hidden is: both rules are in the list, the hiding one comes from a source of the same or a higher
  priority, and whatever the hidden rule matches, the hiding one matches too, if the two have the same content, or the
  hiding one has none, or its only wildcard is a star at its end with no blank before it, and neither is in words.
\<close>

theorem shadowed_rule_hidden:
  assumes "e \<in> set (detect_shadowed_rules rules)"
    and "hides_plainly (sh_shadowed_by e) (sh_shadowed e)"
    and "rule_v2_matches (sh_shadowed e) tool content = Some True"
  shows "rule_v2_matches (sh_shadowed_by e) tool content = Some True
    \<and> {sh_shadowed e, sh_shadowed_by e} \<subseteq> set rules
    \<and> rule_source_priority (r2_source (sh_shadowed_by e)) \<le> rule_source_priority (r2_source (sh_shadowed e))"
proof -
  let ?k = "\<lambda>r. rule_source_priority (r2_source r)"
  obtain us vs where split: "sort_key ?k rules = us @ sh_shadowed e # vs"
    and found: "find (\<lambda>other. rules_overlap other (sh_shadowed e)) us = Some (sh_shadowed_by e)"
    using assms(1) by (auto simp: detect_shadowed_rules_def shadowed_after_iff)
  from find_Some_D [OF found] have by_in: "sh_shadowed_by e \<in> set us" and overlap: "rules_overlap (sh_shadowed_by e) (sh_shadowed e)"
    by auto
  have "set rules = set (us @ sh_shadowed e # vs)" using split by (metis set_sort)
  moreover have "?k (sh_shadowed_by e) \<le> ?k (sh_shadowed e)"
    using sorted_sort_key [of ?k rules] by_in unfolding split by (auto simp: sorted_append)
  ultimately show ?thesis using overlap_covers [OF overlap assms(2,3)] by_in by auto
qed

definition demo_rule :: "permission_rule_source \<Rightarrow> rule_action \<Rightarrow> string \<Rightarrow> permission_rule_v2" where
  "demo_rule src a content =
     \<lparr> r2_source = src, r2_behavior = a, r2_value = \<lparr> rv_tool_name = str ''Bash'', rv_content = Some (str content) \<rparr> \<rparr>"

lemmas shadow_eval = detect_shadowed_rules_def demo_rule_def rule_source_priority_def rule_source_order_def rules_overlap_def
  shadow_reason_of_def str_def starts_with_def ends_with_def trim_def trim_start_by_def trim_end_by_def is_whitespace_def

theorem shadowed_rule_hidden_witness:
  "rule_v2_matches (demo_rule SessionRule RuleDeny ''rm*'') (str ''Bash'') (Some (str ''rm x'')) = Some True"
proof -
  let ?d = "demo_rule SessionRule RuleDeny ''rm*''" and ?a = "demo_rule UserSettings RuleAllow ''rm x''"
  let ?e = "\<lparr> sh_shadowed = ?a, sh_shadowed_by = ?d, sh_reason = HigherPrioritySource \<rparr>"
  have "?e \<in> set (detect_shadowed_rules [?a, ?d])" by (simp add: shadow_eval)
  moreover have "hides_plainly ?d ?a"
    by (simp add: hides_plainly_def in_words_def final_star_only_def extract_prompt_description_def Let_def shadow_eval utf8_def utf8_char_def)
  moreover have "rule_v2_matches ?a (str ''Bash'') (Some (str ''rm x'')) = Some True"
    by (simp add: rule_v2_matches_def demo_rule_def extract_prompt_description_def Let_def glob_match_def str_def
        trim_def trim_start_by_def trim_end_by_def is_whitespace_def utf8_def utf8_char_def classify_tool_def)
  ultimately show ?thesis using shadowed_rule_hidden [of ?e "[?a, ?d]"] by auto
qed

text \<open>
  Without these conditions a report can be wrong: the blank before a final star is dropped. And a denying rule is
  reported as hidden by an allowing one of a higher source, although the broker obeys it.
\<close>

lemma shadow_report_wrong:
  "map sh_shadowed (detect_shadowed_rules [demo_rule SessionRule RuleAllow ''git *'', demo_rule UserSettings RuleAllow ''github''])
    = [demo_rule UserSettings RuleAllow ''github'']"
  "glob_match (str ''git *'') (str ''github'') = Some False"
  by (simp_all add: shadow_eval glob_match_def one_star_match_def)

lemma shadow_report_denying:
  "map sh_shadowed (detect_shadowed_rules [demo_rule SessionRule RuleAllow ''rm x'', demo_rule UserSettings RuleDeny ''rm x''])
    = [demo_rule UserSettings RuleDeny ''rm x'']"
  by (simp add: shadow_eval)

end
