(* ===== verification/Claude_Paths.thy ===== *)
theory Claude_Paths
  imports Claude_Classifier
begin

text \<open>
  Which files a tool of the Claude agent may touch unasked (\<^verbatim>\<open>claude-permissions\<close>): cleaning and judging the raw path
  (\<^verbatim>\<open>path_validation.rs\<close>), resolving it, following links and comparing it with the working directories
  (\<^verbatim>\<open>filesystem.rs\<close>), and rules about files (\<^verbatim>\<open>shell_rules.rs\<close>), all as on a Unix system. A path is its text;
  paths with the same components are the same to the system. The file system is an argument, as is the home directory.
\<close>

section \<open>Paths as the standard library sees them\<close>

datatype component = RootDir | CurDir | ParentDir | Normal rstring

definition is_absolute :: "rstring \<Rightarrow> bool" where
  "is_absolute p \<longleftrightarrow> starts_with p [47]"

definition segment_component :: "rstring \<Rightarrow> component" where
  "segment_component s = (if s = [46, 46] then ParentDir else Normal s)"

text \<open>Empty segments are skipped, and so are those of one dot, except in front of a relative path.\<close>

definition components :: "rstring \<Rightarrow> component list" where
  "components p =
     (let segs = filter (\<lambda>s. s \<noteq> [] \<and> s \<noteq> [46]) (split_on 47 p)
      in (if is_absolute p then [RootDir] else if hd (split_on 47 p) = [46] then [CurDir] else [])
         @ map segment_component segs)"

fun component_text :: "component \<Rightarrow> rstring" where
  "component_text RootDir = []"
| "component_text CurDir = [46]"
| "component_text ParentDir = [46, 46]"
| "component_text (Normal s) = s"

definition path_text :: "component list \<Rightarrow> rstring" where
  "path_text cs = (if cs = [RootDir] then [47] else join_with 47 (map component_text cs))"

definition path_join :: "rstring \<Rightarrow> rstring \<Rightarrow> rstring" where
  "path_join a b = (if is_absolute b then b else if a = [] \<or> last a = 47 then a @ b else a @ [47] @ b)"

definition path_parent :: "rstring \<Rightarrow> rstring option" where
  "path_parent p =
     (case rev (components p) of [] \<Rightarrow> None | RootDir # _ \<Rightarrow> None | _ # cs \<Rightarrow> Some (path_text (rev cs)))"

definition file_name :: "component list \<Rightarrow> rstring option" where
  "file_name cs = (case rev cs of Normal s # _ \<Rightarrow> Some s | _ \<Rightarrow> None)"

section \<open>The raw path\<close>

definition strip_surrounding_quotes :: "rstring \<Rightarrow> rstring" where
  "strip_surrounding_quotes path =
     (if 2 \<le> length (utf8 path) \<and> (hd path = 34 \<and> last path = 34 \<or> hd path = 39 \<and> last path = 39)
      then butlast (tl path) else path)"

definition expand_tilde :: "rstring option \<Rightarrow> rstring \<Rightarrow> rstring" where
  "expand_tilde home path =
     (case home of
        Some h \<Rightarrow> if path = [126] \<or> starts_with path [126, 47] \<or> starts_with path [126, 92] then h @ tl path else path
      | None \<Rightarrow> path)"

definition clean_path_input :: "rstring option \<Rightarrow> rstring \<Rightarrow> rstring" where
  "clean_path_input home path = expand_tilde home (strip_surrounding_quotes (trim path))"

datatype path_validation = PathValid | PathInvalid rstring

definition validate_path :: "rstring option \<Rightarrow> rstring \<Rightarrow> path_validation" where
  "validate_path home path =
     (let cleaned = clean_path_input home path
      in if 0 \<in> set cleaned then PathInvalid (str ''Path contains a null byte.'')
         else if 4096 < length (utf8 cleaned) then PathInvalid (str ''Path exceeds the maximum supported length.'')
         else PathValid)"

definition has_glob_pattern :: "rstring \<Rightarrow> bool" where
  "has_glob_pattern path \<longleftrightarrow> list_ex (\<lambda>ch. ch \<in> {42, 63, 91, 93, 123, 125}) path"

definition contains_vulnerable_unc_path :: "rstring \<Rightarrow> bool" where
  "contains_vulnerable_unc_path path \<longleftrightarrow> starts_with path [92, 92] \<or> starts_with path [47, 47]"

definition contains_shell_expansion :: "rstring \<Rightarrow> bool" where
  "contains_shell_expansion path \<longleftrightarrow> 36 \<in> set path \<or> 37 \<in> set path \<or> starts_with path [61]"

definition has_alternate_data_stream :: "rstring \<Rightarrow> bool" where
  "has_alternate_data_stream path =
     (let bytes = utf8 path in 58 \<in> set (if 2 \<le> length bytes \<and> bytes ! 1 = 58 then drop 2 bytes else bytes))"

definition contains_short_name_component :: "rstring \<Rightarrow> bool" where
  "contains_short_name_component segment =
     (case dropWhile (\<lambda>c. c \<noteq> 126) segment of
        [] \<Rightarrow> False
      | _ # rest \<Rightarrow> 0 < length (takeWhile (\<lambda>ch. 48 \<le> ch \<and> ch \<le> 57) rest))"

definition has_windows_device_suffix :: "rstring \<Rightarrow> bool" where
  "has_windows_device_suffix path \<longleftrightarrow>
     list_ex (\<lambda>e. ends_with path (str e))
       [''.con'', ''.prn'', ''.aux'', ''.nul'', ''.com1'', ''.com2'', ''.com3'', ''.com4'', ''.com5'', ''.com6'',
        ''.com7'', ''.com8'', ''.com9'', ''.lpt1'', ''.lpt2'', ''.lpt3'', ''.lpt4'', ''.lpt5'', ''.lpt6'', ''.lpt7'',
        ''.lpt8'', ''.lpt9'']"

definition has_three_dot_component :: "rstring \<Rightarrow> bool" where
  "has_three_dot_component path \<longleftrightarrow>
     list_ex (\<lambda>segment. list_all (\<lambda>ch. ch = 46) segment \<and> 3 \<le> length segment) (split_on 92 path)"

definition replace_char :: "rchar \<Rightarrow> rchar \<Rightarrow> rstring \<Rightarrow> rstring" where
  "replace_char a b s = map (\<lambda>c. if c = a then b else c) s"

definition has_suspicious_windows_path_pattern :: "rstring \<Rightarrow> bool" where
  "has_suspicious_windows_path_pattern path =
     (let normalized = replace_char 47 92 path; lowered = map ascii_lower normalized
      in if starts_with normalized [92, 92, 63, 92] \<or> starts_with normalized [92, 92, 46, 92]
            \<or> starts_with normalized (str ''//?/'') \<or> starts_with normalized (str ''//./'') then True
         else if has_alternate_data_stream normalized then True
         else if list_ex (\<lambda>segment. segment \<noteq> []
                   \<and> (segment \<notin> {[46], [46, 46]} \<and> (last segment = 46 \<or> last segment = 32)
                      \<or> contains_short_name_component segment)) (split_on 92 lowered) then True
         else has_windows_device_suffix lowered \<or> has_three_dot_component lowered)"

definition path_requires_manual_approval :: "rstring option \<Rightarrow> rstring \<Rightarrow> bool \<Rightarrow> rstring option" where
  "path_requires_manual_approval home path write_semantics =
     (let cleaned = clean_path_input home path
      in if contains_vulnerable_unc_path cleaned then Some (str ''UNC or network paths require manual approval.'')
         else if starts_with cleaned [126]
         then Some (str ''Tilde expansion variants (~user, ~+, ~-) require manual approval.'')
         else if contains_shell_expansion cleaned then Some (str ''Shell expansion syntax in paths requires manual approval.'')
         else if write_semantics \<and> has_glob_pattern cleaned
         then Some (str ''Glob patterns are not allowed for write operations; use an exact path.'')
         else if has_suspicious_windows_path_pattern cleaned
         then Some (str ''Suspicious Windows path syntax requires manual approval.'')
         else None)"

section \<open>Normal forms\<close>

fun normalize_components :: "bool \<Rightarrow> component list \<Rightarrow> component list \<Rightarrow> component list" where
  "normalize_components has_root buf [] = buf"
| "normalize_components has_root buf (RootDir # cs) = normalize_components True [RootDir] cs"
| "normalize_components has_root buf (CurDir # cs) = normalize_components has_root buf cs"
| "normalize_components has_root buf (ParentDir # cs) =
     normalize_components has_root
       (if file_name buf \<noteq> None then butlast buf else if \<not> has_root then buf @ [ParentDir] else buf) cs"
| "normalize_components has_root buf (Normal s # cs) = normalize_components has_root (buf @ [Normal s]) cs"

definition normalize_path_lexically :: "rstring \<Rightarrow> rstring" where
  "normalize_path_lexically path =
     (let normalized = normalize_components False [] (components path)
      in if normalized = [] then (if is_absolute path then [47] else [46]) else path_text normalized)"

definition is_root_like :: "rstring \<Rightarrow> bool" where
  "is_root_like path \<longleftrightarrow> path = [47] \<or> length (utf8 path) = 3 \<and> utf8 path ! 1 = 58 \<and> last path = 47"

function pop_slashes :: "rstring \<Rightarrow> rstring" where
  "pop_slashes s =
     (if 1 < length (utf8 s) \<and> s \<noteq> [] \<and> last s = 47 \<and> \<not> is_root_like s then pop_slashes (butlast s) else s)"
  by pat_completeness auto
termination by (relation "measure length") auto

declare pop_slashes.simps [simp del]

definition normalize_for_comparison :: "rstring \<Rightarrow> rstring" where
  "normalize_for_comparison path =
     (let raw = normalize_path_lexically path;
          stripped = (if starts_with raw [92, 92, 63, 92] then drop 4 raw else raw)
      in pop_slashes (map ascii_lower (replace_char 92 47 stripped)))"

definition resolve_candidate_path :: "rstring option \<Rightarrow> rstring \<Rightarrow> rstring option \<Rightarrow> rstring" where
  "resolve_candidate_path home cwd maybe_relative =
     normalize_path_lexically
       (case maybe_relative of
          Some path \<Rightarrow> if trim path \<noteq> [] then path_join cwd (clean_path_input home path) else cwd
        | None \<Rightarrow> cwd)"

section \<open>Links\<close>

datatype file_kind = PlainFile | SymbolicLink | SpecialFile

record file_world =
  fs_metadata :: "rstring \<Rightarrow> file_kind option"
  fs_canonicalize :: "rstring \<Rightarrow> rstring option"
  fs_read_link :: "rstring \<Rightarrow> rstring option"
  fs_exists :: "rstring \<Rightarrow> bool"
  fs_home :: "rstring option"

record resolved_path =
  rp_resolved_path :: rstring
  rp_is_symlink :: bool
  rp_is_canonical :: bool

definition is_unc_path :: "rstring \<Rightarrow> bool" where
  "is_unc_path path \<longleftrightarrow> starts_with path [92, 92] \<or> starts_with path [47, 47]"

definition safe_resolve_path :: "file_world \<Rightarrow> rstring \<Rightarrow> resolved_path" where
  "safe_resolve_path fs path =
     (let unresolved = (\<lambda>link. \<lparr> rp_resolved_path = path, rp_is_symlink = link, rp_is_canonical = False \<rparr>)
      in if is_unc_path path then unresolved False
         else case fs_metadata fs path of
           None \<Rightarrow> unresolved False
         | Some kind \<Rightarrow>
             if kind = SpecialFile then unresolved False
             else (case fs_canonicalize fs path of
                     Some r \<Rightarrow> \<lparr> rp_resolved_path = r,
                                 rp_is_symlink = (normalize_for_comparison r \<noteq> normalize_for_comparison path), rp_is_canonical = True \<rparr>
                   | None \<Rightarrow> unresolved (kind = SymbolicLink)))"

definition rejoin_tail :: "rstring \<Rightarrow> rstring list \<Rightarrow> rstring" where
  "rejoin_tail base tail_segments = foldl path_join base (rev tail_segments)"

definition link_target :: "rstring \<Rightarrow> rstring \<Rightarrow> rstring" where
  "link_target current target = (if is_absolute target then target else path_join (unwrap_or [46] (path_parent current)) target)"

text \<open>The loop over the ancestors, on the components of the path, last first.\<close>

fun deepest_from :: "file_world \<Rightarrow> rstring \<Rightarrow> component list \<Rightarrow> rstring list \<Rightarrow> rstring option" where
  "deepest_from fs path rcs tail_segments =
     (let current = path_text (rev rcs)
      in case fs_metadata fs current of
           None \<Rightarrow>
             (case rcs of
                [] \<Rightarrow> None
              | RootDir # _ \<Rightarrow> None
              | c # rcs' \<Rightarrow> deepest_from fs path rcs' (case c of Normal s \<Rightarrow> tail_segments @ [s] | _ \<Rightarrow> tail_segments))
         | Some SymbolicLink \<Rightarrow>
             (case fs_canonicalize fs current of
                Some r \<Rightarrow> Some (rejoin_tail r tail_segments)
              | None \<Rightarrow> map_option (\<lambda>target. rejoin_tail (link_target current target) tail_segments) (fs_read_link fs current))
         | Some _ \<Rightarrow>
             (case fs_canonicalize fs current of
                Some r \<Rightarrow>
                  (let rejoined = rejoin_tail r tail_segments
                   in if normalize_for_comparison rejoined \<noteq> normalize_for_comparison path then Some rejoined else None)
              | None \<Rightarrow> None))"

declare deepest_from.simps [simp del]

definition resolve_deepest_existing_ancestor :: "file_world \<Rightarrow> rstring \<Rightarrow> rstring option" where
  "resolve_deepest_existing_ancestor fs path = deepest_from fs path (rev (components path)) []"

definition push_unique_path :: "rstring \<Rightarrow> rstring list \<Rightarrow> rstring list" where
  "push_unique_path path paths =
     (if list_ex (\<lambda>e. normalize_for_comparison e = normalize_for_comparison path) paths then paths else paths @ [path])"

fun follow_links :: "file_world \<Rightarrow> rstring \<Rightarrow> nat \<Rightarrow> rstring \<Rightarrow> rstring list \<Rightarrow> rstring list \<Rightarrow> rstring list" where
  "follow_links fs path 0 current visited paths = paths"
| "follow_links fs path (Suc n) current visited paths =
     (let key = normalize_for_comparison current
      in if key \<in> set visited then paths
         else if \<not> fs_exists fs current
         then (if key = normalize_for_comparison path
               then (case resolve_deepest_existing_ancestor fs path of Some r \<Rightarrow> push_unique_path r paths | None \<Rightarrow> paths)
               else paths)
         else if fs_metadata fs current \<noteq> Some SymbolicLink then paths
         else case fs_read_link fs current of
           None \<Rightarrow> paths
         | Some target \<Rightarrow>
             follow_links fs path n (link_target current target) (key # visited) (push_unique_path (link_target current target) paths))"

definition get_paths_for_permission_check :: "file_world \<Rightarrow> rstring \<Rightarrow> rstring list" where
  "get_paths_for_permission_check fs path =
     (if is_unc_path path then [path]
      else let paths = follow_links fs path 40 path [] [path]; r = safe_resolve_path fs path
           in if rp_is_symlink r \<and> normalize_for_comparison (rp_resolved_path r) \<noteq> normalize_for_comparison path
              then push_unique_path (rp_resolved_path r) paths else paths)"

section \<open>The decision about a path\<close>

datatype filesystem_operation = OpRead | OpWrite | OpCreate

datatype filesystem_check_cause = CauseAllowed | OutsideWorkingDirectories | ManualApprovalRequired | DangerousEdit | InvalidPath

record filesystem_check_result =
  fc_allowed :: bool
  fc_requires_confirmation :: bool
  fc_reason :: "rstring option"
  fc_normalized_path :: rstring
  fc_checked_paths :: "rstring list"
  fc_suggestions :: "permission_update list"
  fc_cause :: filesystem_check_cause

record access_options =
  ao_additional_dirs :: "rstring list"
  ao_current_mode :: "permission_mode option"
  ao_plan_file :: "rstring option"
  ao_internal_read_dirs :: "rstring list"
  ao_internal_write_dirs :: "rstring list"
  ao_internal_read_files :: "rstring list"
  ao_internal_write_files :: "rstring list"

definition ensure_trailing_separator :: "rstring \<Rightarrow> rstring" where
  "ensure_trailing_separator path = (if ends_with path [47] then path else path @ [47])"

definition path_in_working_path :: "rstring \<Rightarrow> rstring \<Rightarrow> bool" where
  "path_in_working_path path root \<longleftrightarrow>
     normalize_for_comparison path = normalize_for_comparison root
     \<or> starts_with (normalize_for_comparison path) (ensure_trailing_separator (normalize_for_comparison root))"

definition path_in_allowed_working_path :: "file_world \<Rightarrow> rstring list \<Rightarrow> rstring \<Rightarrow> rstring list \<Rightarrow> bool" where
  "path_in_allowed_working_path fs checked_paths cwd additional_dirs \<longleftrightarrow>
     list_all (\<lambda>path. list_ex (\<lambda>root. list_ex (path_in_working_path path) (get_paths_for_permission_check fs root))
                       (cwd # additional_dirs)) checked_paths"

definition is_plan_file_path :: "file_world \<Rightarrow> rstring list \<Rightarrow> rstring option \<Rightarrow> bool" where
  "is_plan_file_path fs checked_paths plan_file =
     (case plan_file of
        None \<Rightarrow> False
      | Some plan \<Rightarrow>
          list_ex (\<lambda>checked. list_ex (\<lambda>f. normalize_for_comparison checked = normalize_for_comparison f)
                               (get_paths_for_permission_check fs plan)) checked_paths)"

definition path_matches_any_file :: "file_world \<Rightarrow> rstring list \<Rightarrow> rstring list \<Rightarrow> bool" where
  "path_matches_any_file fs checked_paths files \<longleftrightarrow>
     list_ex (\<lambda>checked. list_ex (\<lambda>file. list_ex (\<lambda>f. normalize_for_comparison checked = normalize_for_comparison f)
                                         (get_paths_for_permission_check fs file)) files) checked_paths"

definition path_matches_any_root :: "file_world \<Rightarrow> rstring list \<Rightarrow> rstring list \<Rightarrow> bool" where
  "path_matches_any_root fs checked_paths roots \<longleftrightarrow>
     roots \<noteq> []
     \<and> list_all (\<lambda>checked. list_ex (\<lambda>root. list_ex (path_in_working_path checked) (get_paths_for_permission_check fs root)) roots)
         checked_paths"

definition internal_path_allowed :: "file_world \<Rightarrow> rstring list \<Rightarrow> filesystem_operation \<Rightarrow> access_options \<Rightarrow> bool" where
  "internal_path_allowed fs checked_paths operation options =
     (if operation = OpRead
      then path_matches_any_file fs checked_paths (ao_internal_read_files options)
           \<or> path_matches_any_root fs checked_paths (ao_internal_read_dirs options)
      else path_matches_any_file fs checked_paths (ao_internal_write_files options)
           \<or> path_matches_any_root fs checked_paths (ao_internal_write_dirs options))"

definition dangerous_files :: "rstring list" where
  "dangerous_files = map str [''.gitconfig'', ''.gitmodules'', ''.bashrc'', ''.bash_profile'', ''.zshrc'', ''.zprofile'', ''.profile'',
     ''.ripgreprc'', ''.mcp.json'', ''.claude.json'']"

definition dangerous_directories :: "rstring list" where
  "dangerous_directories = map str [''.git'', ''.vscode'', ''.idea'', ''.claude'']"

fun dangerous_segments :: "rstring list \<Rightarrow> bool" where
  "dangerous_segments [] = False"
| "dangerous_segments (s # ss) =
     (if s \<in> set dangerous_directories \<and> \<not> (s = str ''.claude'' \<and> ss \<noteq> [] \<and> hd ss = str ''worktrees'') then True
      else dangerous_segments ss)"

definition is_dangerous_file_path_to_auto_edit :: "rstring \<Rightarrow> bool" where
  "is_dangerous_file_path_to_auto_edit path =
     (let normalized = normalize_for_comparison path; segments = filter (\<lambda>s. s \<noteq> []) (split_on 47 normalized)
      in if starts_with normalized [47, 47] then True
         else dangerous_segments segments \<or> segments \<noteq> [] \<and> last segments \<in> set dangerous_files)"

definition is_claude_config_file_path :: "rstring \<Rightarrow> bool" where
  "is_claude_config_file_path path =
     (let normalized = normalize_for_comparison path
      in ends_with normalized (str ''/.claude/settings.json'') \<or> ends_with normalized (str ''/.claude/settings.local.json''))"

fun check_path_safety_for_auto_edit :: "rstring list \<Rightarrow> rstring option" where
  "check_path_safety_for_auto_edit [] = None"
| "check_path_safety_for_auto_edit (path # paths) =
     (if is_claude_config_file_path path then Some (str ''Editing Claude settings files requires manual approval.'')
      else if is_dangerous_file_path_to_auto_edit path
      then Some (str ''Editing dangerous configuration paths requires manual approval.'')
      else check_path_safety_for_auto_edit paths)"

definition permission_rule_path_pattern :: "rstring \<Rightarrow> rstring" where
  "permission_rule_path_pattern path =
     (let rendered = normalize_for_comparison path
      in if ends_with rendered [47] then rendered @ str ''**'' else rendered @ str ''/**'')"

definition generate_suggestions ::
  "file_world \<Rightarrow> rstring \<Rightarrow> filesystem_operation \<Rightarrow> rstring \<Rightarrow> access_options \<Rightarrow> rstring list \<Rightarrow> permission_update list" where
  "generate_suggestions fs path operation cwd options checked_paths =
     (let outside = \<not> path_in_allowed_working_path fs checked_paths cwd (ao_additional_dirs options);
          accept_edits = (if unwrap_or ModeDefault (ao_current_mode options) \<in> {ModeDefault, ModePlan}
                          then [SetMode DestSession ExtAcceptEdits] else []);
          dirs_to_add = (case path_parent path of Some d \<Rightarrow> get_paths_for_permission_check fs d | None \<Rightarrow> [])
      in if operation = OpRead
         then (if outside
               then map (\<lambda>dir. AddRules DestSession
                      [\<lparr> rv_tool_name = str ''Read'', rv_content = Some (permission_rule_path_pattern dir) \<rparr>] RuleAllow) dirs_to_add
               else accept_edits)
         else accept_edits @ (if outside then [AddDirectories DestSession dirs_to_add] else []))"

definition fs_allow :: "rstring \<Rightarrow> rstring list \<Rightarrow> filesystem_check_result" where
  "fs_allow path checked =
     \<lparr> fc_allowed = True, fc_requires_confirmation = False, fc_reason = None, fc_normalized_path = path, fc_checked_paths = checked,
       fc_suggestions = [], fc_cause = CauseAllowed \<rparr>"

definition fs_ask :: "rstring \<Rightarrow> rstring list \<Rightarrow> rstring \<Rightarrow> permission_update list \<Rightarrow> filesystem_check_cause \<Rightarrow> filesystem_check_result" where
  "fs_ask path checked reason suggestions cause =
     \<lparr> fc_allowed = False, fc_requires_confirmation = True, fc_reason = Some reason, fc_normalized_path = path,
       fc_checked_paths = checked, fc_suggestions = suggestions, fc_cause = cause \<rparr>"

definition fs_deny :: "rstring \<Rightarrow> rstring \<Rightarrow> filesystem_check_cause \<Rightarrow> filesystem_check_result" where
  "fs_deny path reason cause =
     \<lparr> fc_allowed = False, fc_requires_confirmation = False, fc_reason = Some reason, fc_normalized_path = path,
       fc_checked_paths = [], fc_suggestions = [], fc_cause = cause \<rparr>"

definition assess_filesystem_access ::
  "file_world \<Rightarrow> rstring \<Rightarrow> rstring \<Rightarrow> access_options \<Rightarrow> filesystem_operation \<Rightarrow> filesystem_check_result" where
  "assess_filesystem_access fs path cwd options operation =
     (let home = fs_home fs;
          cleaned = clean_path_input home path;
          normalized = resolve_candidate_path home cwd (Some cleaned)
      in case validate_path home cleaned of
           PathInvalid reason \<Rightarrow> fs_deny normalized reason InvalidPath
         | PathValid \<Rightarrow>
             (let checked = get_paths_for_permission_check fs normalized;
                  suggestions = generate_suggestions fs normalized operation cwd options checked
              in if is_plan_file_path fs checked (ao_plan_file options) then fs_allow normalized checked
                 else if internal_path_allowed fs checked operation options then fs_allow normalized checked
                 else case path_requires_manual_approval home cleaned (operation \<noteq> OpRead) of
                   Some reason \<Rightarrow> fs_ask normalized checked reason suggestions ManualApprovalRequired
                 | None \<Rightarrow>
                     (case if operation = OpRead then None else check_path_safety_for_auto_edit checked of
                        Some reason \<Rightarrow> fs_ask normalized checked reason suggestions DangerousEdit
                      | None \<Rightarrow>
                          if path_in_allowed_working_path fs checked cwd (ao_additional_dirs options)
                          then fs_allow normalized checked
                          else fs_ask normalized checked (str ''Path is outside the allowed working directories.'') suggestions
                                 OutsideWorkingDirectories)))"

definition check_filesystem_permission :: "file_world \<Rightarrow> rstring \<Rightarrow> rstring \<Rightarrow> rstring list \<Rightarrow> filesystem_check_result" where
  "check_filesystem_permission fs path cwd additional_dirs =
     assess_filesystem_access fs path cwd
       \<lparr> ao_additional_dirs = additional_dirs, ao_current_mode = None, ao_plan_file = None, ao_internal_read_dirs = [],
         ao_internal_write_dirs = [], ao_internal_read_files = [], ao_internal_write_files = [] \<rparr> OpRead"

section \<open>Rules about files\<close>

definition trim_slashes :: "rstring \<Rightarrow> rstring" where
  "trim_slashes s = trim_end_by (\<lambda>c. c = 47) s"

definition normalize_filesystem_value :: "rstring \<Rightarrow> rstring" where
  "normalize_filesystem_value value = trim_slashes (map ascii_lower (replace_char 92 47 value))"

definition push_unique_candidate :: "rstring \<Rightarrow> rstring list \<Rightarrow> rstring list" where
  "push_unique_candidate c cs = (if c \<noteq> [] \<and> c \<notin> set cs then cs @ [c] else cs)"

text \<open>\<^verbatim>\<open>Path::strip_prefix\<close> by components.\<close>

definition strip_path_prefix :: "rstring \<Rightarrow> rstring \<Rightarrow> rstring option" where
  "strip_path_prefix p base =
     (let pc = components p; bc = components base
      in if take (length bc) pc = bc then Some (path_text (drop (length bc) pc)) else None)"

definition request_directory :: "permission_request \<Rightarrow> rstring" where
  "request_directory rq = unwrap_or [46] (rq_working_directory rq)"

fun add_candidates :: "file_world \<Rightarrow> rstring \<Rightarrow> rstring list \<Rightarrow> rstring list \<Rightarrow> rstring list" where
  "add_candidates fs dir [] cs = cs"
| "add_candidates fs dir (raw # raws) cs =
     (let absolute_path = resolve_candidate_path (fs_home fs) dir (Some raw);
          cs1 = push_unique_candidate (normalize_filesystem_value raw) cs;
          cs2 = push_unique_candidate (normalize_for_comparison absolute_path) cs1;
          cs3 = (case strip_path_prefix absolute_path dir of
                   Some relative \<Rightarrow> push_unique_candidate (normalize_filesystem_value relative) cs2 | None \<Rightarrow> cs2)
      in add_candidates fs dir raws cs3)"

definition file_path_candidates_for_request :: "file_world \<Rightarrow> permission_request \<Rightarrow> rstring list" where
  "file_path_candidates_for_request fs rq =
     add_candidates fs (request_directory rq)
       (List.map_filter (\<lambda>x. x) [rq_blocked_path rq, get_str (rq_tool_input rq) ''path'', get_str (rq_tool_input rq) ''directory'']) []"

fun trim_start_dot_slash :: "rstring \<Rightarrow> rstring" where
  "trim_start_dot_slash (a # b # s) = (if a = 46 \<and> b = 47 then trim_start_dot_slash s else a # b # s)"
| "trim_start_dot_slash s = s"

definition normalize_permission_pattern :: "file_world \<Rightarrow> rstring \<Rightarrow> rstring \<Rightarrow> rule_action \<Rightarrow> rstring" where
  "normalize_permission_pattern fs pattern dir action =
     (let rendered = replace_char 92 47 (trim pattern);
          rendered1 =
            (if starts_with rendered [126, 47]
             then (case fs_home fs of Some home \<Rightarrow> replace_char 92 47 home @ [47] @ drop 2 rendered | None \<Rightarrow> rendered)
             else if starts_with rendered [47, 47]
             then (case drop 2 rendered of
                     d # e # s \<Rightarrow> if e = 47 \<and> is_alpha d then ascii_lower d # 58 # e # s else 47 # drop 2 rendered
                   | _ \<Rightarrow> 47 # drop 2 rendered)
             else if starts_with rendered [47] then normalize_for_comparison dir @ rendered
             else if starts_with rendered [46, 47]
             then normalize_for_comparison dir @ [47] @ trim_start_dot_slash rendered
             else rendered);
          lowered = map ascii_lower rendered1
      in if action = RuleAllow \<and> (ends_with lowered (str ''/**'') \<or> ends_with lowered [47]) then lowered
         else trim_slashes lowered)"

definition file_pattern_match :: "rstring \<Rightarrow> rstring \<Rightarrow> bool" where
  "file_pattern_match pattern path =
     (let normalized_path = trim_slashes path;
          below = (\<lambda>root. normalized_path = root \<or> starts_with normalized_path (root @ [47]))
      in if ends_with pattern (str ''/**'') then below (trim_slashes (take (length pattern - 3) pattern))
         else if ends_with pattern [47] then below (trim_slashes pattern)
         else wildcard_match pattern normalized_path)"

definition file_rule_matches_request_for_action :: "file_world \<Rightarrow> rstring \<Rightarrow> permission_request \<Rightarrow> rule_action \<Rightarrow> bool" where
  "file_rule_matches_request_for_action fs pattern rq action =
     (let candidates = file_path_candidates_for_request fs rq
      in if candidates = [] then False
         else list_ex (file_pattern_match (normalize_permission_pattern fs pattern (request_directory rq) action)) candidates)"

text \<open>The arguments of the brokers, for a given file system.\<close>

definition claude_env :: "file_world \<Rightarrow> rule_env" where
  "claude_env fs = \<lparr> re_prompt_rule = shell_prompt_rule_matches_command, re_file_rule = file_rule_matches_request_for_action fs \<rparr>"

definition claude_dir_forms :: dir_forms where
  "claude_dir_forms = \<lparr> df_normalize = normalize_path_lexically, df_compare = normalize_for_comparison \<rparr>"

section \<open>What a normal form means\<close>

text \<open>Walking an absolute path: a dot stays, two dots go up unless at the root, a name goes down.\<close>

fun walk :: "rstring list \<Rightarrow> rstring list \<Rightarrow> rstring list" where
  "walk at [] = at"
| "walk at (s # ss) =
     walk (if s = [] \<or> s = [46] then at else if s = [46, 46] then butlast at else at @ [s]) ss"

definition where_path :: "rstring \<Rightarrow> rstring list" where
  "where_path p = walk [] (split_on 47 p)"

definition path_name :: "rstring \<Rightarrow> bool" where
  "path_name s \<longleftrightarrow> s \<noteq> [] \<and> 47 \<notin> set s \<and> s \<noteq> [46] \<and> s \<noteq> [46, 46]"

lemma walk_names:
  "\<forall>s \<in> set ss. 47 \<notin> set s \<Longrightarrow> \<forall>s \<in> set at. path_name s \<Longrightarrow> \<forall>s \<in> set (walk at ss). path_name s"
proof (induction at ss rule: walk.induct)
  case (2 at s ss)
  let ?at = "if s = [] \<or> s = [46] then at else if s = [46, 46] then butlast at else at @ [s]"
  have "path_name t" if "t \<in> set ?at" for t
    using that "2.prems" by (auto simp: path_name_def split: if_splits dest: in_set_butlastD)
  moreover have "\<forall>s \<in> set ss. 47 \<notin> set s" using "2.prems"(1) by simp
  ultimately have "\<forall>s \<in> set (walk ?at ss). path_name s" using "2.IH" by blast
  then show ?case by simp
qed simp

lemma where_path_names: "s \<in> set (where_path p) \<Longrightarrow> path_name s"
proof -
  assume "s \<in> set (where_path p)"
  moreover have "\<forall>s \<in> set (split_on 47 p). 47 \<notin> set s" using split_on_no_sep by blast
  then have "\<forall>s \<in> set (walk [] (split_on 47 p)). path_name s" by (rule walk_names) simp
  ultimately show "path_name s" by (simp add: where_path_def)
qed

lemma split_on_chars: "s \<in> set (split_on d p) \<Longrightarrow> set s \<subseteq> set p"
proof (induction p arbitrary: s)
  case (Cons c p)
  obtain x xs where x: "split_on d p = x # xs" by (cases "split_on d p") auto
  then have "set x \<subseteq> set p" using Cons.IH [of x] by simp
  moreover have "s \<in> set xs \<Longrightarrow> set s \<subseteq> set p" using Cons.IH [of s] x by simp
  ultimately show ?case using Cons.prems x by (auto split: if_splits)
qed simp

lemma walk_chars: "s \<in> set (walk at ss) \<Longrightarrow> s \<in> set at \<or> s \<in> set ss"
  by (induction at ss rule: walk.induct) (auto split: if_splits dest: in_set_butlastD)

lemma where_path_chars: "s \<in> set (where_path p) \<Longrightarrow> set s \<subseteq> set p"
  unfolding where_path_def using walk_chars [of s "[]" "split_on 47 p"] split_on_chars [of s 47 p] by simp

lemma file_name_snoc [simp]: "file_name (cs @ [Normal s]) = Some s"
  by (simp add: file_name_def)

lemma file_name_rooted: "file_name (RootDir # map Normal st) = None \<longleftrightarrow> st = []"
  by (cases st rule: rev_cases) (auto simp: file_name_def)

lemma normalize_components_walk:
  "normalize_components True (RootDir # map Normal st) (map segment_component (filter (\<lambda>s. s \<noteq> [] \<and> s \<noteq> [46]) ss))
    = RootDir # map Normal (walk st ss)"
proof (induction st ss rule: walk.induct)
  case (2 st s ss)
  consider "s = [] \<or> s = [46]" | "s = [46, 46]" "st = []" | t u where "s = [46, 46]" "st = u @ [t]"
    | "s \<noteq> []" "s \<noteq> [46]" "s \<noteq> [46, 46]"
    by (cases st rule: rev_cases) auto
  then show ?case
  proof cases
    case 3
    have "file_name (RootDir # map Normal (u @ [t])) = Some t" by (simp add: file_name_def)
    then show ?thesis using 2 3 by (simp add: segment_component_def butlast_append)
  qed (use 2 in \<open>auto simp: segment_component_def file_name_def\<close>)
qed simp

lemma path_text_rooted: "path_text (RootDir # map Normal ss) = 47 # join_with 47 ss"
  by (cases ss) (simp_all add: path_text_def comp_def)

lemma normalize_absolute:
  assumes "is_absolute p" shows "normalize_path_lexically p = 47 # join_with 47 (where_path p)"
proof -
  have "normalize_components False [] (components p) = RootDir # map Normal (where_path p)"
    using assms normalize_components_walk [of "[]" "split_on 47 p"] by (simp add: components_def where_path_def)
  then show ?thesis by (simp add: normalize_path_lexically_def Let_def path_text_rooted)
qed

lemma walk_path_names: "\<forall>s \<in> set ss. path_name s \<Longrightarrow> walk at ss = at @ ss"
  by (induction ss arbitrary: at) (auto simp: path_name_def)

lemma where_path_join:
  assumes "\<forall>s \<in> set ss. path_name s" shows "where_path (47 # join_with 47 ss) = ss"
proof (cases "ss = []")
  case False
  have "split_on 47 (join_with 47 ss) = ss" using False assms by (intro split_on_join) (auto simp: path_name_def)
  then show ?thesis using walk_path_names [OF assms] by (simp add: where_path_def)
qed (simp add: where_path_def)

lemma where_path_normalized: "is_absolute p \<Longrightarrow> where_path (normalize_path_lexically p) = where_path p"
  by (simp add: normalize_absolute where_path_join where_path_names)

lemma is_absolute_Cons [simp]: "is_absolute (c # s) \<longleftrightarrow> c = 47"
  by (auto simp: is_absolute_def starts_with_def)

text \<open>Normal forms are stable.\<close>

lemma normalize_idempotent:
  "is_absolute p \<Longrightarrow> normalize_path_lexically (normalize_path_lexically p) = normalize_path_lexically p"
  by (simp add: normalize_absolute where_path_join where_path_names)

section \<open>What the comparison means\<close>

text \<open>The names on the way to a file, without case.\<close>

definition folded :: "rstring \<Rightarrow> rstring list" where
  "folded p = map (map ascii_lower) (where_path p)"

lemma ascii_lower_47 [simp]: "ascii_lower 47 = 47"
  by (simp add: ascii_lower_def)

lemma ascii_lower_slash: "ascii_lower c = 47 \<longleftrightarrow> c = 47"
  by (auto simp: ascii_lower_def)

lemma map_lower_join: "map ascii_lower (join_with 47 ss) = join_with 47 (map (map ascii_lower) ss)"
  by (induction "47 :: rchar" ss rule: join_with.induct) simp_all

lemma folded_names: "s \<in> set (folded p) \<Longrightarrow> s \<noteq> [] \<and> 47 \<notin> set s"
  by (auto simp: folded_def path_name_def ascii_lower_slash dest!: where_path_names dest: sym)

lemma replace_char_absent: "a \<notin> set s \<Longrightarrow> replace_char a b s = s"
  unfolding replace_char_def by (induction s) auto

lemma set_join: "set (join_with d ss) \<subseteq> insert d (\<Union> (set ` set ss))"
  by (induction d ss rule: join_with.induct) auto

lemma last_join: "ss \<noteq> [] \<Longrightarrow> last ss \<noteq> [] \<Longrightarrow> last (join_with d ss) = last (last ss) \<and> join_with d ss \<noteq> []"
  by (induction d ss rule: join_with.induct) auto

lemma pop_slashes_id: "s = [47] \<or> last s \<noteq> 47 \<Longrightarrow> pop_slashes s = s"
  by (subst pop_slashes.simps) (auto simp: is_root_like_def)

lemma comparison_absolute:
  assumes "is_absolute p" "92 \<notin> set p"
  shows "normalize_for_comparison p = 47 # join_with 47 (folded p)"
proof -
  have "92 \<notin> set (join_with 47 (where_path p))"
    using set_join [of 47 "where_path p"] where_path_chars [of _ p] assms(2) by fastforce
  then have "normalize_for_comparison p = pop_slashes (47 # join_with 47 (folded p))"
    by (simp add: normalize_for_comparison_def Let_def normalize_absolute [OF assms(1)] starts_with_def replace_char_absent
        replace_char_absent map_lower_join folded_def)
  also have "\<dots> = 47 # join_with 47 (folded p)"
  proof (rule pop_slashes_id, cases "folded p = []")
    case False
    then have "last (folded p) \<noteq> [] \<and> 47 \<notin> set (last (folded p))" by (intro folded_names [of _ p]) simp
    then have "last (join_with 47 (folded p)) \<noteq> 47 \<and> join_with 47 (folded p) \<noteq> []"
      using last_join [OF False] by (metis last_in_set)
    then show "47 # join_with 47 (folded p) = [47] \<or> last (47 # join_with 47 (folded p)) \<noteq> 47" by simp
  qed simp
  finally show ?thesis .
qed

lemma join_append: "ss \<noteq> [] \<Longrightarrow> ts \<noteq> [] \<Longrightarrow> join_with d (ss @ ts) = join_with d ss @ d # join_with d ts"
proof (induction d ss rule: join_with.induct)
  case (2 d x)
  then show ?case by (cases ts) simp_all
qed simp_all

lemma split_on_join_sep:
  "ss \<noteq> [] \<Longrightarrow> \<forall>s \<in> set ss. d \<notin> set s \<Longrightarrow> split_on d (join_with d ss @ d # t) = ss @ split_on d t"
  by (induction d ss rule: join_with.induct) (auto simp: split_on_append_sep)

lemma join_prefix_iff:
  assumes "\<forall>s \<in> set as. s \<noteq> [] \<and> d \<notin> set s" "\<forall>s \<in> set bs. s \<noteq> [] \<and> d \<notin> set s" "bs \<noteq> []"
  shows "join_with d as = join_with d bs \<or> (\<exists>t. join_with d as = join_with d bs @ d # t) \<longleftrightarrow> (\<exists>rest. as = bs @ rest)"
proof
  assume "join_with d as = join_with d bs \<or> (\<exists>t. join_with d as = join_with d bs @ d # t)"
  moreover have "as \<noteq> []" using calculation assms(2,3) last_join [OF assms(3), of d] by (cases as) auto
  ultimately show "\<exists>rest. as = bs @ rest"
    using split_on_join [of as d] split_on_join [of bs d] split_on_join_sep [of bs d] assms by (metis append_Nil2)
next
  assume "\<exists>rest. as = bs @ rest"
  then obtain rest where "as = bs @ rest" by blast
  then show "join_with d as = join_with d bs \<or> (\<exists>t. join_with d as = join_with d bs @ d # t)"
    using join_append [OF assms(3), of rest d] by (cases "rest = []") auto
qed

text \<open>
  C40. The comparison of paths, which is one of texts, is one of places: for absolute paths without backslashes, however they
  are written, a path counts as inside a directory exactly if, after walking both, the names on the way to the directory
  begin the names on the way to the file, up to the case of letters.
\<close>

theorem path_in_working_path_exact:
  assumes "is_absolute p" "is_absolute r" "92 \<notin> set p" "92 \<notin> set r"
  shows "path_in_working_path p r \<longleftrightarrow> (\<exists>rest. folded p = folded r @ rest)"
proof (cases "folded r = []")
  case True
  then show ?thesis using assms
    by (simp add: path_in_working_path_def comparison_absolute ensure_trailing_separator_def ends_with_def starts_with_def)
next
  case False
  have "last (folded r) \<noteq> [] \<and> 47 \<notin> set (last (folded r))" using False by (intro folded_names [of _ r]) simp
  then have "last (join_with 47 (folded r)) \<noteq> 47" "join_with 47 (folded r) \<noteq> []"
    using last_join [OF False, of 47] by (metis last_in_set)+
  then have "ensure_trailing_separator (47 # join_with 47 (folded r)) = 47 # join_with 47 (folded r) @ [47]"
    by (auto simp: ensure_trailing_separator_def ends_with_iff) (metis last_ConsR last_snoc)
  then have "path_in_working_path p r \<longleftrightarrow> join_with 47 (folded p) = join_with 47 (folded r)
      \<or> (\<exists>t. join_with 47 (folded p) = join_with 47 (folded r) @ 47 # t)"
    using assms by (auto simp: path_in_working_path_def comparison_absolute starts_with_split)
  also have "\<dots> \<longleftrightarrow> (\<exists>rest. folded p = folded r @ rest)"
    using folded_names False by (intro join_prefix_iff) auto
  finally show ?thesis .
qed

theorem path_in_working_path_exact_witness:
  "path_in_working_path (str ''/work/a/../b/./x'') (str ''/work//b/'') \<and> \<not> path_in_working_path (str ''/work/../etc/x'') (str ''/work'')"
proof -
  have f: "folded (str ''/work/a/../b/./x'') = folded (str ''/work//b/'') @ [str ''x'']"
    "folded (str ''/work/../etc/x'') = [str ''etc'', str ''x'']" "folded (str ''/work'') = [str ''work'']"
    by (simp_all add: folded_def where_path_def str_def ascii_lower_def)
  have "is_absolute (str (CHR ''/'' # s))" for s by (simp add: str_def)
  then show ?thesis
    using path_in_working_path_exact [of "str ''/work/a/../b/./x''" "str ''/work//b/''"]
      path_in_working_path_exact [of "str ''/work/../etc/x''" "str ''/work''"] f
    by (simp add: str_def)
qed

section \<open>Nothing outside is written unasked\<close>

lemma push_unique_path_mono: "set paths \<subseteq> set (push_unique_path p paths)"
  by (auto simp: push_unique_path_def)

lemma follow_links_mono: "set paths \<subseteq> set (follow_links fs path n current visited paths)"
proof (induction n arbitrary: current visited paths)
  case (Suc n)
  have "set paths \<subseteq> set (follow_links fs path n c v (push_unique_path q paths))" for c v q
    using Suc [of "push_unique_path q paths" c v] push_unique_path_mono [of paths q] by blast
  then show ?case using push_unique_path_mono by (auto simp: Let_def split: option.split)
qed simp

lemma follow_links_pos:
  "0 < n \<Longrightarrow> follow_links fs path n current visited paths =
     (let key = normalize_for_comparison current
      in if key \<in> set visited then paths
         else if \<not> fs_exists fs current
         then (if key = normalize_for_comparison path
               then (case resolve_deepest_existing_ancestor fs path of Some r \<Rightarrow> push_unique_path r paths | None \<Rightarrow> paths)
               else paths)
         else if fs_metadata fs current \<noteq> Some SymbolicLink then paths
         else case fs_read_link fs current of
           None \<Rightarrow> paths
         | Some target \<Rightarrow>
             follow_links fs path (n - 1) (link_target current target) (key # visited)
               (push_unique_path (link_target current target) paths))"
  by (auto simp: gr0_conv_Suc Let_def split: option.split)

lemma path_checked_itself: "path \<in> set (get_paths_for_permission_check fs path)"
  using follow_links_mono [of "[path]" fs path 40 path "[]"] push_unique_path_mono
  by (fastforce simp: get_paths_for_permission_check_def Let_def)

text \<open>How many forms of a path are looked at is bounded, whatever links the file system has.\<close>

lemma follow_links_length: "length (follow_links fs path n current visited paths) \<le> length paths + n"
proof (induction n arbitrary: current visited paths)
  case (Suc n)
  have step: "length (follow_links fs path n c v (push_unique_path q paths)) \<le> length paths + Suc n" for c v q
    using Suc [of c v "push_unique_path q paths"] by (simp add: push_unique_path_def split: if_splits)
  have once: "length (push_unique_path q paths) \<le> length paths + Suc n" for q by (simp add: push_unique_path_def)
  show ?case using once step by (simp add: Let_def split: option.split)
qed simp

lemma checked_paths_bounded: "length (get_paths_for_permission_check fs path) \<le> 42"
  using follow_links_length [of fs path 40 path "[]" "[path]"]
  by (auto simp: get_paths_for_permission_check_def Let_def push_unique_path_def)

lemma check_path_safety_None:
  "check_path_safety_for_auto_edit ps = None \<longleftrightarrow>
    (\<forall>p \<in> set ps. \<not> is_claude_config_file_path p \<and> \<not> is_dangerous_file_path_to_auto_edit p)"
  by (induction ps) auto

lemma dangerous_file_exact:
  assumes "is_absolute p" "92 \<notin> set p"
  shows "is_dangerous_file_path_to_auto_edit p \<longleftrightarrow>
    dangerous_segments (folded p) \<or> folded p \<noteq> [] \<and> last (folded p) \<in> set dangerous_files"
proof -
  have names: "\<forall>s \<in> set (folded p). s \<noteq> [] \<and> 47 \<notin> set s" using folded_names by blast
  have "filter (\<lambda>s. s \<noteq> []) (split_on 47 (47 # join_with 47 (folded p))) = folded p"
    using names split_on_join [of "folded p" 47] by (cases "folded p = []") (auto simp: filter_id_conv)
  moreover have "\<not> starts_with (47 # join_with 47 (folded p)) [47, 47]"
  proof (cases "folded p")
    case (Cons s ss)
    then obtain c t where "s = c # t" "c \<noteq> 47" using names by (cases s) auto
    then show ?thesis using Cons by (cases ss) (auto simp: starts_with_def)
  qed (simp add: starts_with_def)
  ultimately show ?thesis
    unfolding is_dangerous_file_path_to_auto_edit_def comparison_absolute [OF assms] Let_def by simp
qed

lemma resolved_from:
  assumes "is_absolute cwd"
  shows "\<exists>p. is_absolute p \<and> resolve_candidate_path home cwd path = normalize_path_lexically p"
proof -
  have "is_absolute (case path of Some p \<Rightarrow> if trim p \<noteq> [] then path_join cwd (clean_path_input home p) else cwd | None \<Rightarrow> cwd)"
    using assms by (cases cwd) (auto simp: path_join_def is_absolute_def starts_with_def split: option.split)
  then show ?thesis unfolding resolve_candidate_path_def by blast
qed

lemma resolve_absolute: "is_absolute cwd \<Longrightarrow> is_absolute (resolve_candidate_path home cwd path)"
  using resolved_from [of cwd home path] by (auto simp: normalize_absolute)

text \<open>
  Where writing unasked is fine: inside the working directory or an additional one, or inside what links make of
  these; not a settings file; not one of the protected files or below a protected directory.
\<close>

definition safe_place :: "file_world \<Rightarrow> rstring list \<Rightarrow> rstring \<Rightarrow> bool" where
  "safe_place fs roots q \<longleftrightarrow>
     (\<exists>root \<in> set roots. \<exists>f \<in> set (get_paths_for_permission_check fs root). path_in_working_path q f)
     \<and> \<not> is_claude_config_file_path q \<and> \<not> is_dangerous_file_path_to_auto_edit q"

lemma safe_place_cong:
  "normalize_for_comparison e = normalize_for_comparison q \<Longrightarrow> safe_place fs roots e \<longleftrightarrow> safe_place fs roots q"
  by (simp add: safe_place_def path_in_working_path_def is_claude_config_file_path_def is_dangerous_file_path_to_auto_edit_def)

text \<open>A list of paths covers a path if one of them compares equal to it.\<close>

definition covers :: "rstring list \<Rightarrow> rstring \<Rightarrow> bool" where
  "covers paths q \<longleftrightarrow> (\<exists>e \<in> set paths. normalize_for_comparison e = normalize_for_comparison q)"

lemma covers_mono: "set paths \<subseteq> set paths' \<Longrightarrow> covers paths q \<Longrightarrow> covers paths' q"
  by (auto simp: covers_def)

lemma covers_push: "covers (push_unique_path q paths) q"
  by (auto simp: covers_def push_unique_path_def list_ex_iff)

lemma covers_member: "q \<in> set paths \<Longrightarrow> covers paths q"
  by (auto simp: covers_def)

text \<open>Links one after the other: each path but the last exists, is a link, and names the next.\<close>

fun link_chain :: "file_world \<Rightarrow> rstring list \<Rightarrow> bool" where
  "link_chain fs (a # b # rest) =
     (fs_exists fs a \<and> fs_metadata fs a = Some SymbolicLink
      \<and> (\<exists>t. fs_read_link fs a = Some t \<and> b = link_target a t) \<and> link_chain fs (b # rest))"
| "link_chain fs _ = True"

lemma follow_links_covers:
  assumes "link_chain fs (cur # qs)" "qs \<noteq> []" "length qs \<le> n"
    and "distinct (map normalize_for_comparison (cur # butlast qs))"
    and "normalize_for_comparison ` set (cur # butlast qs) \<inter> set visited = {}"
  shows "covers (follow_links fs path n cur visited paths) (last qs)"
  using assms
proof (induction qs arbitrary: n cur visited paths)
  case (Cons q qs)
  then obtain m where n: "n = Suc m" by (cases n) auto
  obtain t where t: "fs_read_link fs cur = Some t" "q = link_target cur t" using Cons.prems(1) by auto
  let ?key = "normalize_for_comparison cur"
  have step: "follow_links fs path n cur visited paths
      = follow_links fs path m q (?key # visited) (push_unique_path q paths)"
    using Cons.prems(1,5) t by (simp add: n Let_def)
  show ?case
  proof (cases "qs = []")
    case True
    then show ?thesis
      unfolding step using covers_mono [OF follow_links_mono covers_push] by simp
  next
    case False
    have "covers (follow_links fs path m q (?key # visited) (push_unique_path q paths)) (last qs)"
      by (rule Cons.IH) (use Cons.prems False n in auto)
    then show ?thesis unfolding step using False by simp
  qed
qed simp

lemma deepest_from_missing:
  assumes "\<forall>i < length names. fs_metadata fs (path_text (cs @ map Normal (take (Suc i) names))) = None"
  shows "deepest_from fs path (rev (cs @ map Normal names)) found = deepest_from fs path (rev cs) (found @ rev names)"
  using assms
proof (induction names arbitrary: found rule: rev_induct)
  case (snoc x ns)
  have "fs_metadata fs (path_text (cs @ map Normal (ns @ [x]))) = None"
    using snoc.prems [rule_format, of "length ns"] by simp
  then have "deepest_from fs path (rev (cs @ map Normal (ns @ [x]))) found
      = deepest_from fs path (rev (cs @ map Normal ns)) (found @ [x])"
    by (subst deepest_from.simps) (simp add: Let_def)
  also have "\<dots> = deepest_from fs path (rev cs) ((found @ [x]) @ rev ns)"
  proof (rule snoc.IH, intro allI impI)
    fix i assume "i < length ns"
    then show "fs_metadata fs (path_text (cs @ map Normal (take (Suc i) ns))) = None"
      using snoc.prems [rule_format, of i] by simp
  qed
  finally show ?case by simp
qed simp

lemma missing_file_covers:
  assumes "\<not> fs_exists fs n" "components n = cs @ map Normal names"
    and "\<forall>i < length names. fs_metadata fs (path_text (cs @ map Normal (take (Suc i) names))) = None"
    and "fs_metadata fs (path_text cs) = Some kind" "fs_canonicalize fs (path_text cs) = Some c"
  shows "covers (follow_links fs n 40 n [] [n]) (foldl path_join c names)"
proof -
  let ?q = "foldl path_join c names"
  have "resolve_deepest_existing_ancestor fs n = deepest_from fs n (rev cs) (rev names)"
    using deepest_from_missing [OF assms(3), of n "[]"] assms(2) by (simp add: resolve_deepest_existing_ancestor_def)
  then have "resolve_deepest_existing_ancestor fs n = Some ?q
      \<or> resolve_deepest_existing_ancestor fs n = None \<and> normalize_for_comparison ?q = normalize_for_comparison n"
    using assms(4,5)
    by (subst (asm) deepest_from.simps) (auto simp: Let_def rejoin_tail_def split: file_kind.split)
  moreover have "follow_links fs n 40 n [] [n]
      = (case resolve_deepest_existing_ancestor fs n of Some r \<Rightarrow> push_unique_path r [n] | None \<Rightarrow> [n])"
    using assms(1) by (simp add: follow_links_pos Let_def)
  ultimately show ?thesis using covers_push [of ?q "[n]"] by (auto simp: covers_def)
qed

lemma checked_covers:
  assumes "\<not> is_unc_path n"
  shows "covers (follow_links fs n 40 n [] [n]) q \<Longrightarrow> covers (get_paths_for_permission_check fs n) q"
    and "fs_metadata fs n = Some kind \<Longrightarrow> kind \<noteq> SpecialFile \<Longrightarrow> fs_canonicalize fs n = Some c \<Longrightarrow>
         covers (get_paths_for_permission_check fs n) c"
proof -
  let ?paths = "follow_links fs n 40 n [] [n]"
  have sub: "set ?paths \<subseteq> set (get_paths_for_permission_check fs n)"
    using assms push_unique_path_mono by (auto simp: get_paths_for_permission_check_def Let_def)
  then show "covers ?paths q \<Longrightarrow> covers (get_paths_for_permission_check fs n) q" by (rule covers_mono)
  assume canon: "fs_metadata fs n = Some kind" "kind \<noteq> SpecialFile" "fs_canonicalize fs n = Some c"
  show "covers (get_paths_for_permission_check fs n) c"
  proof (cases "normalize_for_comparison c = normalize_for_comparison n")
    case True
    then show ?thesis using path_checked_itself [of n fs] by (auto simp: covers_def)
  next
    case False
    with assms canon have "get_paths_for_permission_check fs n = push_unique_path c ?paths"
      by (simp add: get_paths_for_permission_check_def safe_resolve_path_def Let_def)
    then show ?thesis using covers_push by simp
  qed
qed

lemma normalized_not_unc:
  assumes "is_absolute cwd" "92 \<notin> set (resolve_candidate_path home cwd path)"
  shows "\<not> is_unc_path (resolve_candidate_path home cwd path)"
proof -
  obtain p where p: "is_absolute p" "resolve_candidate_path home cwd path = normalize_path_lexically p"
    using resolved_from [OF assms(1)] by blast
  then have eq: "resolve_candidate_path home cwd path = 47 # join_with 47 (where_path p)" by (simp add: normalize_absolute)
  have "\<not> starts_with (47 # join_with 47 (where_path p)) [47, 47]"
  proof (cases "where_path p")
    case (Cons x xs)
    then have "path_name x" using where_path_names [of x p] by simp
    then obtain c t where "x = c # t" "c \<noteq> 47" by (cases x) (auto simp: path_name_def)
    then show ?thesis using Cons by (cases xs) (auto simp: starts_with_def)
  qed (simp add: starts_with_def)
  then show ?thesis using assms(2) unfolding eq is_unc_path_def by (simp add: starts_with_def)
qed


definition demo_fs :: file_world where
  "demo_fs = \<lparr> fs_metadata = (\<lambda>_. Some PlainFile), fs_canonicalize = Some, fs_read_link = (\<lambda>_. None), fs_exists = (\<lambda>_. True),
     fs_home = Some (str ''/home/u'') \<rparr>"

definition demo_options :: access_options where
  "demo_options = \<lparr> ao_additional_dirs = [], ao_current_mode = None, ao_plan_file = None, ao_internal_read_dirs = [],
     ao_internal_write_dirs = [], ao_internal_read_files = [], ao_internal_write_files = [] \<rparr>"

lemmas path_eval = Let_def str_def clean_path_input_def strip_surrounding_quotes_def expand_tilde_def trim_def trim_start_by_def trim_end_by_def
  is_whitespace_def utf8_def utf8_char_def starts_with_def ends_with_def path_join_def resolve_candidate_path_def
  normalize_path_lexically_def components_def segment_component_def file_name_def path_text_def is_absolute_def
  normalize_for_comparison_def replace_char_def ascii_lower_def pop_slashes.simps is_root_like_def
  path_in_working_path_def ensure_trailing_separator_def path_parent_def

lemmas access_eval = path_eval demo_fs_def demo_options_def assess_filesystem_access_def validate_path_def get_paths_for_permission_check_def
  is_unc_path_def follow_links_pos safe_resolve_path_def is_plan_file_path_def internal_path_allowed_def path_matches_any_file_def
  path_matches_any_root_def path_requires_manual_approval_def contains_vulnerable_unc_path_def contains_shell_expansion_def
  has_glob_pattern_def has_suspicious_windows_path_pattern_def has_alternate_data_stream_def contains_short_name_component_def
  has_windows_device_suffix_def has_three_dot_component_def is_claude_config_file_path_def is_dangerous_file_path_to_auto_edit_def
  dangerous_directories_def dangerous_files_def path_in_allowed_working_path_def fs_allow_def fs_ask_def fs_deny_def

text \<open>A file in the working directory that is a link to another one there.\<close>

definition demo_link_fs :: file_world where
  "demo_link_fs = (let x = str ''/work/src/x''; y = str ''/work/lib/y'' in
     \<lparr> fs_metadata = (\<lambda>p. Some (if p = x then SymbolicLink else PlainFile)),
       fs_canonicalize = (\<lambda>p. Some (if p = x then y else p)),
       fs_read_link = (\<lambda>p. if p = x then Some y else None), fs_exists = (\<lambda>_. True), fs_home = Some (str ''/home/u'') \<rparr>)"

lemma demo_write:
  "assess_filesystem_access demo_link_fs (str ''a/../src/x'') (str ''/work'') demo_options OpWrite
    = fs_allow (str ''/work/src/x'') [str ''/work/src/x'', str ''/work/lib/y'']"
proof -
  let ?n = "str ''/work/src/x''" and ?y = "str ''/work/lib/y''" and ?home = "Some (str ''/home/u'')" and ?p = "str ''a/../src/x''"
  have fs: "fs_metadata demo_link_fs p = Some (if p = ?n then SymbolicLink else PlainFile)"
    "fs_canonicalize demo_link_fs p = Some (if p = ?n then ?y else p)"
    "fs_read_link demo_link_fs p = (if p = ?n then Some ?y else None)" "fs_exists demo_link_fs p"
    "fs_home demo_link_fs = ?home" for p
    by (simp_all add: demo_link_fs_def Let_def)
  have clean: "clean_path_input ?home ?p = ?p" by (simp add: path_eval)
  have resolve: "resolve_candidate_path ?home (str ''/work'') (Some ?p) = ?n" by (simp add: path_eval)
  have cmp: "normalize_for_comparison ?n = ?n" "normalize_for_comparison ?y = ?y"
    "normalize_for_comparison (str ''/work'') = str ''/work''" by (simp_all add: path_eval)
  have differ: "?y \<noteq> ?n" "str ''/work'' \<noteq> ?n" by (simp_all add: str_def)
  have unc: "\<not> is_unc_path ?n" "\<not> is_unc_path (str ''/work'')" by (simp_all add: is_unc_path_def starts_with_def str_def)
  have "link_target ?n ?y = ?y" by (simp add: link_target_def str_def)
  then have forms: "get_paths_for_permission_check demo_link_fs ?n = [?n, ?y]"
    "get_paths_for_permission_check demo_link_fs (str ''/work'') = [str ''/work'']"
    using unc differ
    by (simp_all add: get_paths_for_permission_check_def Let_def follow_links_pos fs safe_resolve_path_def cmp push_unique_path_def)
  have valid: "validate_path ?home ?p = PathValid" by (simp add: validate_path_def clean Let_def) (simp add: path_eval)
  have manual: "path_requires_manual_approval ?home ?p True = None"
    unfolding path_requires_manual_approval_def clean by (simp add: access_eval)
  have safe: "check_path_safety_for_auto_edit [?n, ?y] = None"
    by (simp add: is_claude_config_file_path_def is_dangerous_file_path_to_auto_edit_def cmp Let_def)
      (simp add: str_def ends_with_def starts_with_def dangerous_directories_def dangerous_files_def)
  have inside: "path_in_allowed_working_path demo_link_fs [?n, ?y] (str ''/work'') []"
    by (simp add: path_in_allowed_working_path_def forms path_in_working_path_def cmp)
      (simp add: str_def ends_with_def starts_with_def ensure_trailing_separator_def)
  show ?thesis
    using safe
    by (simp add: assess_filesystem_access_def fs clean resolve valid forms manual inside demo_options_def is_plan_file_path_def
        internal_path_allowed_def path_matches_any_file_def path_matches_any_root_def Let_def)
qed


text \<open>On a file system that tells capitals apart, and takes a backslash for a letter, the comparison lets in other directories.\<close>

lemma other_directories_inside:
  "path_in_working_path (str ''/WORK/x'') (str ''/work'')"
  "path_in_working_path (str ''/work'' @ [92] @ str ''evil/x'') (str ''/work'')"
  by (simp_all add: path_eval)

section \<open>Rules about files in the brokers\<close>

text \<open>What a rule for everything below a directory matches.\<close>

lemma file_pattern_below:
  assumes "trim_slashes root = root"
  shows "file_pattern_match (root @ str ''/**'') path \<longleftrightarrow>
    trim_slashes path = root \<or> starts_with (trim_slashes path) (root @ [47])"
  using assms by (simp add: file_pattern_match_def Let_def ends_with_iff str_def)

text \<open>A rule that names a directory with a final slash covers the files below it if it allows, but not if it denies.\<close>

lemma denied_directory_open:
  "file_pattern_match (normalize_permission_pattern fs (str ''secret/'') dir RuleAllow) (str ''secret/key'')"
  "\<not> file_pattern_match (normalize_permission_pattern fs (str ''secret/'') dir RuleDeny) (str ''secret/key'')"
proof -
  have "normalize_permission_pattern fs (str ''secret/'') dir RuleAllow = str ''secret/''"
    "normalize_permission_pattern fs (str ''secret/'') dir RuleDeny = str ''secret''"
    by (simp_all add: normalize_permission_pattern_def Let_def str_def trim_def trim_start_by_def trim_end_by_def is_whitespace_def
        replace_char_def starts_with_def ends_with_def ascii_lower_def trim_slashes_def)
  then show "file_pattern_match (normalize_permission_pattern fs (str ''secret/'') dir RuleAllow) (str ''secret/key'')"
    "\<not> file_pattern_match (normalize_permission_pattern fs (str ''secret/'') dir RuleDeny) (str ''secret/key'')"
    by (simp_all add: file_pattern_match_def path_eval trim_slashes_def wildcard_match_def dp_row_def)
qed

text \<open>
  The tools take a file from the member \<^verbatim>\<open>file_path\<close> first, the rules look elsewhere: for such a call no rule about files
  applies, whatever it says.
\<close>

definition write_call :: "string \<Rightarrow> string \<Rightarrow> permission_request" where
  "write_call key path =
     \<lparr> rq_tool_name = str ''write_file'', rq_permission_class = None, rq_tool_input = jobj [(key, jstr path)],
       rq_working_directory = Some (str ''/work''), rq_tool_use_id = None, rq_title = None, rq_description = None,
       rq_blocked_path = None, rq_permission_suggestions = [] \<rparr>"

lemma file_path_not_seen: "\<not> file_rule_matches_request_for_action fs pattern (write_call ''file_path'' p) action"
  by (simp add: file_rule_matches_request_for_action_def file_path_candidates_for_request_def write_call_def get_str_def jobj_def
      List.map_filter_simps)

text \<open>
  Asked for a file outside, the check suggests a rule for its directory. A rule that begins with one slash is read below the
  working directory, so the suggested one never applies to the call it was made for.
\<close>

lemma suggested_rule:
  "generate_suggestions demo_fs (str ''/data/x'') OpRead (str ''/work'') demo_options [str ''/data/x'']
    = [AddRules DestSession [\<lparr> rv_tool_name = str ''Read'', rv_content = Some (str ''/data/**'') \<rparr>] RuleAllow]"
proof -
  have forms: "get_paths_for_permission_check demo_fs p = [p]" if "\<not> is_unc_path p" for p
    using that by (simp add: get_paths_for_permission_check_def Let_def follow_links_pos demo_fs_def safe_resolve_path_def)
  have "\<not> is_unc_path (str ''/data'')" "\<not> is_unc_path (str ''/work'')" by (simp_all add: is_unc_path_def starts_with_def str_def)
  note forms = this [THEN forms]
  have "path_parent (str ''/data/x'') = Some (str ''/data'')" "permission_rule_path_pattern (str ''/data'') = str ''/data/**''"
    "\<not> path_in_working_path (str ''/data/x'') (str ''/work'')"
    by (simp_all add: permission_rule_path_pattern_def path_eval)
  then show ?thesis
    by (simp add: generate_suggestions_def Let_def path_in_allowed_working_path_def demo_options_def forms)
qed

lemma suggested_rule_useless:
  "normalize_permission_pattern fs (str ''/data/**'') (str ''/work'') RuleAllow = str ''/work/data/**''"
  "\<not> file_pattern_match (str ''/work/data/**'') (str ''/data/x'')"
  by (simp_all add: normalize_permission_pattern_def file_pattern_match_def path_eval trim_slashes_def)

end
