(* ===== verification/Spec2Isabelle.thy ===== *)
theory Spec2Isabelle
  imports Cp_Serve Cp_Views End_To_End Quic Roo_Approval Claude_Paths
begin

text \<open>
  A verification of the shared layer of Remote Code (\<^verbatim>\<open>src/crates/shared\<close>): the server through which people drive
  coding agents that run elsewhere, the service on the machine where the agents run, and the library with which
  clients reach either.

  \<^bold>\<open>The program.\<close> Runners register with the control plane (\<^verbatim>\<open>rc-control-plane\<close>), send heartbeats and take commands,
  either by polling or because the control plane can reach them over HTTP. Clients (devices that were paired,
  tenants with a user key, or holders of the shared token) create sessions, which are placed on a runner, send
  prompts, watch the timeline of events, and answer the approvals that a session asks for. All of this is
  kept in one registry behind a read-write lock, a timeline of numbered events with a live feed, stream
  tickets, a rate limiter, and an SQLite database with a snapshot of registry and timeline and a table of
  events. Every handler takes these locks several times, calls runners in between without holding any, and
  is interleaved with other handlers at those points. A second way in is a QUIC endpoint.

  A runner has two halves. The runner service (\<^verbatim>\<open>rc-runner\<close>) keeps its own sessions and approvals behind a lock and
  serves them over HTTP; it tells the host (\<^verbatim>\<open>rc-runner-host\<close>) about each change through a bounded channel. The
  host starts one agent process per session, speaks a JSON protocol with it, turns its permission requests
  into approvals, posts its events to the control plane with a buffer for those that could not be sent, and
  pulls and applies commands. Agents in process are reached through adapters and a router
  (\<^verbatim>\<open>rc-agent-protocol\<close>), which also converts their events to those of the timeline. Clients use
  \<^verbatim>\<open>rc-remote-transport\<close>: WebSockets to the runner or through the control plane, whichever works, polling or QUIC,
  with a queue of commands given while offline, token refresh, certificate pinning and end-to-end encryption.

  \<^bold>\<open>Theories, in the order of their imports.\<close> First what all share.

  \<^item> \<open>Rc_Prelude\<close>: strings as lists of Unicode scalar values with the string functions the code uses, fallible
    results (\<open>'a api\<close> is an error or a value), time in nanoseconds, a bounded push, the collections of
    simplification and introduction rules, and the reachability of a step relation with the locale
    \<open>locked_system\<close> for invariants.
  \<^item> \<open>Btree_Map\<close>: \<^verbatim>\<open>BTreeMap\<close> (and \<^verbatim>\<open>HashMap\<close>, whose order is never observed) as a type of sorted association
    lists, with the locale of finite maps and eviction of the entry nearest to expiry.
  \<^item> \<open>Api_Types\<close>: \<^verbatim>\<open>types.rs\<close>, the wire types of \<^verbatim>\<open>rc-runner\<close> and the shared runtime events of \<^verbatim>\<open>rc-engine-events\<close>.
  \<^item> \<open>Json_Value\<close>: \<^verbatim>\<open>serde_json::Value\<close>; floating-point numbers are bit patterns that are never computed with.

  The control plane:

  \<^item> \<open>Cp_Helpers\<close>: \<^verbatim>\<open>helpers.rs\<close>: event kinds, file names and headers of artifacts, runner availability and
    ranking, the relay calls to runners, the decoder of query values.
  \<^item> \<open>Registry_State\<close>, \<open>Registry_Devices\<close>, \<open>Registry_Sessions\<close>, \<open>Registry_Approvals\<close>: \<^verbatim>\<open>registry.rs\<close>. The struct is the
    record \<open>registry\<close>; every method is a function that returns its result and the new registry. Devices:
    bootstrap, pairing, token rotation, push tokens. Sessions: registration, heartbeat, placement, the session
    state machine, the reaper, dispatch. Approvals: planning and committing, artifacts, command queues. Each
    theory states the invariant of its part (\<open>device_inv\<close>, \<open>session_inv\<close>, \<open>work_inv\<close>) and that every method keeps it.
  \<^item> \<open>Timeline\<close>: the timeline store, the event table and its queries (\<^verbatim>\<open>state.rs\<close>) and the streams that replay a
    backlog and then follow the live feed (\<^verbatim>\<open>streams.rs\<close>).
  \<^item> \<open>Cp_Auth\<close>: principals, stream tickets, the authentication middleware (\<^verbatim>\<open>auth.rs\<close>), the rate limiter
    (\<^verbatim>\<open>rate_limit.rs\<close>) and its layer in \<^verbatim>\<open>router.rs\<close>.
  \<^item> \<open>Registry_System\<close>: every registry method as a step of one system, with the approvals that were planned and
    not yet committed as part of the state; invariants of all reachable states.
  \<^item> \<open>Net_Addr\<close>: the guard on the address a runner registers, with the standard library's address parser.
  \<^item> \<open>Cp_State\<close>: the service record, configuration checks, persistence and start-up (\<^verbatim>\<open>state.rs\<close>).
  \<^item> \<open>Cp_Tasks\<close>: handlers as tasks: sequences of lock sections, remote calls and I/O, where an environment acts
    before every section; a rely-guarantee logic (the locale \<open>rely_guarantee\<close>) for them.
  \<^item> \<open>Cp_Handlers\<close>, \<open>Cp_Serve\<close>, \<open>Cp_Views\<close>: \<^verbatim>\<open>handlers.rs\<close> and the routes of \<^verbatim>\<open>router.rs\<close>.

  The runner:

  \<^item> \<open>Runner_Api\<close>: the store of \<^verbatim>\<open>rc-runner/src/lib.rs\<close>, its direct calls and HTTP handlers, and the channel to the
    host.
  \<^item> \<open>Runner_System\<close>: its operations cut into their lock sections as an \<open>inductive\<close> step relation, where a request may
    be dropped between two of them; the invariant of all interleavings, admission and settling.
  \<^item> \<open>Runner_Http\<close>: authentication, the event stream, registration and configuration of the runner.
  \<^item> \<open>Runner_Uplink\<close>: of \<^verbatim>\<open>rc-runner-host/src/lib.rs\<close> the heartbeat, the retry delay, pulled commands and the event
    buffers.
  \<^item> \<open>Runner_Host\<close>: hosted sessions: the process protocol, permission requests, tool calls, artifacts.
  \<^item> \<open>Agent_Protocol\<close>: \<^verbatim>\<open>rc-agent-protocol\<close>: events, their conversion from engine events and to timeline events, the
    router, health and restart budget.

  The client and the composition:

  \<^item> \<open>Transport\<close>: strategies, connections, commands, ranking of endpoints, the hybrid transport, polling, the offline
    queue. \<open>Transport_Security\<close>: pinning (\<^verbatim>\<open>tls.rs\<close>), encrypted payloads (\<^verbatim>\<open>e2e.rs\<close>), the token manager (\<^verbatim>\<open>token.rs\<close>).
  \<^item> \<open>Quic\<close>: both ends of the QUIC connection.
  \<^item> \<open>End_To_End\<close>: what spans two programs: token refresh, queued decisions, agent events.

  Of the agents, the part that decides without a person:

  \<^item> \<open>Roo_Approval\<close>: \<^verbatim>\<open>roo-auto-approval\<close>: allowed and denied command prefixes, the commands of a command line, dangerous
    patterns (as a small matcher for the regular expressions the code uses), switches per tool, limits.
  \<^item> Of \<^verbatim>\<open>claude-permissions\<close>: \<open>Claude_Rules\<close>: rules as text with their escapes (\<^verbatim>\<open>rule_parser.rs\<close>) and the four wildcard
    matchers of the crate, compared with one inductive description of what a pattern matches. \<open>Claude_Broker\<close>: classes
    of tools, the match of a rule with a request (\<^verbatim>\<open>shell_rules.rs\<close>), the static and the layered broker, the updates of a
    session (\<^verbatim>\<open>lib.rs\<close>), the engine by source (\<^verbatim>\<open>rules.rs\<close>), denials (\<^verbatim>\<open>denial_tracking.rs\<close>). \<open>Claude_Classifier\<close>: dangerous
    patterns, classifiers of commands, rules in words, hidden rules. \<open>Claude_Paths\<close>: raw paths, normal forms, links, the
    decision about a path (\<^verbatim>\<open>path_validation.rs\<close>, \<^verbatim>\<open>filesystem.rs\<close>) and rules about files; \<open>claude_env\<close> and
    \<open>claude_dir_forms\<close> instantiate the arguments of the brokers with them.

  \<^bold>\<open>What is shown.\<close> Consistency: every method, every reachable state and every request or connection under
  interference keep the registry's invariant; sessions and approvals are never lost and sessions keep their
  identity; the same for the runner's store under every interleaving. Access: who passes authentication at
  either service and at the QUIC endpoint, what a tenant can read (not: whose sessions the approvals and artifacts of
  its runner belong to), that revoked devices, spent pairing offers,
  spent tickets and rotated refresh tokens are useless, that file names and headers are harmless, that the direct and the relay
  connection offer tokens to secure addresses and pinned certificates only, that a process is allowed something only after an
  approval, that an agent acts on its own only where the settings allow it: on simple command lines each command needs
  its prefix, a denying rule wins wherever it stands, and a
  file is written unasked only inside the working directories, past no protected directory or file, also through links. Equivalence: each
  wildcard matcher with the description of patterns, the comparison of paths with walking them, counters with scans. Function: the session state machine, placement, dispatch, reaping, approvals decided once, command
  queues as bounded FIFO queues, admission on the runner, commands over QUIC as over HTTP. Events:
  gap-free numbering, queries equal to a filter over the table, streams without loss or repetition across the
  hand-over from replay to an ordered feed, the accounting of buffered events. Persistence: what a restart restores. Progress: a
  waiting session is dispatched, a long poll answers with what is queued, a queued decision reaches the process. Failure: a failed
  relay changes nothing. Bounds: the timeline, buffers, queues and remembered tools. A number of lemmas state
  where the code falls short: lost updates between lock sections, tokens sent too early, unauthenticated fields, rules and
  checks that a command or a path can evade, cuts inside a character that panic.

  \<^bold>\<open>How states and operations correspond.\<close> A method \<^verbatim>\<open>&mut self\<close> is a function from the state to a result and
  the new state; \<^verbatim>\<open>Utc::now()\<close> and \<^verbatim>\<open>Uuid::new_v4()\<close> are arguments (in tasks: functions of the world, indexed by
  the position in the task). Within one operation the clock is read as often as the arguments say, which in filters over
  many runners is once where the code reads it for each. Publishing an event is its section under the timeline's lock; the
  broadcast, which the code does after releasing it, is the feed that streams are given. A handler of the host runs as one
  step and finds the handle of a session by its identifier, where a task of the code may hold an older clone. Putting a
  request together again without its token never fails. An early return is a branch, a panic is a value of the outcome type. Error messages
  of the shared layer are kept with their placeholders unexpanded; their kind and status are exact.

  \<^bold>\<open>Bounds and fuel.\<close> \<open>dispatch_loop\<close> counts down the code's own 64 iterations. \<open>pull_loop\<close> has a number of rounds
  as fuel, since how often a loop with sleeps runs depends on the clock; running out is the value \<open>None\<close>, and
  \<open>long_poll_returns\<close> shows that it does not happen once the clock passes the deadline, and what the answer is. Streams, connections and
  hosts are given the finite part of their input that has arrived. Everything else terminates by structure or
  by a measure.

  \<^bold>\<open>Assumptions.\<close> The hash function, the cipher, the JSON codec, base64 decoding, URL parsing, the file system, TLS and
  what the network answers are parameters, and so are the Unicode tables of lower case and digits. Paths are those of a
  Unix system. A device identifier that is drawn for a new device is not in use, where a statement says so. A restart decodes what it encoded,
  less the field that is never serialized. Database writes succeed (the code logs failures and goes on). A
  debug-only bypass of authentication is left out; debug builds are a parameter of the address guard.

  \<^bold>\<open>Not modelled.\<close> Metrics, static downloads, CORS and security headers: text and configuration around the same
  state. Starting processes, sockets and timers: input and output. The backoff of the transport, which is computed
  in floating point. Of the permissions of the Claude agent: settings files, titles of modes, hooks, and the
  classifiers that ask a model. The rest of the agents (\<^verbatim>\<open>crates/claude\<close>, \<^verbatim>\<open>crates/roo\<close>, \<^verbatim>\<open>agents\<close>), the adapters in front of
  them (\<^verbatim>\<open>crates/adapters\<close>) and the applications (\<^verbatim>\<open>apps\<close>) are other programs, which the shared layer starts or
  serves; \<^verbatim>\<open>patches\<close> is third-party code.
\<close>

end
